(* ===== verification/Prelude.thy ===== *)
theory Prelude
  imports Complex_Main "HOL-Library.AList" "HOL-Library.Product_Lexorder"
begin

text \<open>
  Shared vocabulary of the development: the Python values the cluster code works with
  (dictionaries in insertion order, strings, floats, timestamps, random tokens), the collections
  of rewrite rules the component proofs draw on, and the generic lemmas about them.

  \<^item> A Python \<open>dict\<close> iterates in insertion order and an assignment to an existing key keeps
    the key's position, so it is an association list updated by \<open>AList.update\<close>. The contract
    the components rely on is the locale \<open>ordered_dict\<close>, interpreted on association lists.
  \<^item> A \<open>datetime\<close> is the number of microseconds since the epoch (its resolution), a
    \<open>timedelta\<close> a number of microseconds. An operation reads the clock once: its \<open>now\<close>
    argument stands for every \<open>utcnow()\<close> of that operation.
  \<^item> A Python \<open>float\<close> is a rational number (no NaN, no infinity).
  \<^item> A Python \<open>str\<close> is the list of its UTF-8 bytes; character classes, case folding and
    regular expressions are those of ASCII text.
\<close>

section \<open>Collections of facts\<close>

named_theorems mono_step \<open>operations only move objects forward\<close>
named_theorems frame \<open>what an operation leaves unchanged\<close>
named_theorems wf_keep \<open>operations that keep a well-formedness invariant\<close>

section \<open>Time, identifiers, numbers\<close>

type_synonym time = int
type_synonym duration = int

abbreviation seconds :: "int \<Rightarrow> duration" where
  "seconds n \<equiv> n * 1000000"

definition total_seconds :: "duration \<Rightarrow> rat" where
  "total_seconds d = of_int d / 1000000"

lemma total_seconds_mono [simp]: "total_seconds a \<le> total_seconds b \<longleftrightarrow> a \<le> b"
  by (simp add: total_seconds_def divide_le_cancel)

section \<open>Insertion-ordered dictionaries\<close>

type_synonym ('k, 'v) dict = "('k \<times> 'v) list"

abbreviation dict_get :: "('k, 'v) dict \<Rightarrow> 'k \<Rightarrow> 'v option" where
  "dict_get d k \<equiv> map_of d k"

abbreviation dict_set :: "'k \<Rightarrow> 'v \<Rightarrow> ('k, 'v) dict \<Rightarrow> ('k, 'v) dict" where
  "dict_set \<equiv> AList.update"

abbreviation dict_del :: "'k \<Rightarrow> ('k, 'v) dict \<Rightarrow> ('k, 'v) dict" where
  "dict_del \<equiv> AList.delete"

abbreviation dict_keys :: "('k, 'v) dict \<Rightarrow> 'k list" where
  "dict_keys d \<equiv> map fst d"

abbreviation dict_values :: "('k, 'v) dict \<Rightarrow> 'v list" where
  "dict_values d \<equiv> map snd d"

abbreviation dict_ok :: "('k, 'v) dict \<Rightarrow> bool" where
  "dict_ok d \<equiv> distinct (map fst d)"

definition dict_get_or :: "('k, 'v) dict \<Rightarrow> 'k \<Rightarrow> 'v \<Rightarrow> 'v" where
  "dict_get_or d k x = (case dict_get d k of None \<Rightarrow> x | Some v \<Rightarrow> v)"

text \<open>The contract of a dictionary, and what follows from it alone.\<close>

locale ordered_dict =
  fixes lookup :: "'m \<Rightarrow> 'k \<Rightarrow> 'v option"
    and upd :: "'k \<Rightarrow> 'v \<Rightarrow> 'm \<Rightarrow> 'm"
    and del :: "'k \<Rightarrow> 'm \<Rightarrow> 'm"
    and keys :: "'m \<Rightarrow> 'k list"
    and ok :: "'m \<Rightarrow> bool"
  assumes lookup_upd: "lookup (upd k v m) k' = (if k' = k then Some v else lookup m k')"
    and lookup_del: "ok m \<Longrightarrow> lookup (del k m) k' = (if k' = k then None else lookup m k')"
    and keys_lookup: "k \<in> set (keys m) \<longleftrightarrow> lookup m k \<noteq> None"
    and keys_upd: "lookup m k \<noteq> None \<Longrightarrow> keys (upd k v m) = keys m"
    and keys_upd_new: "lookup m k = None \<Longrightarrow> keys (upd k v m) = keys m @ [k]"
    and ok_upd: "ok m \<Longrightarrow> ok (upd k v m)"
    and ok_del: "ok m \<Longrightarrow> ok (del k m)"
begin

lemma upd_twice: "lookup (upd k v (upd k w m)) k' = lookup (upd k v m) k'"
  by (simp add: lookup_upd)

lemma upd_comm: "k \<noteq> k' \<Longrightarrow> lookup (upd k v (upd k' w m)) x = lookup (upd k' w (upd k v m)) x"
  by (simp add: lookup_upd)

lemma set_keys_upd: "set (keys (upd k v m)) = insert k (set (keys m))"
  by (cases "lookup m k") (auto simp: keys_upd_new keys_upd keys_lookup)

lemma del_upd: "ok m \<Longrightarrow> lookup (del k (upd k v m)) k' = lookup (del k m) k'"
  by (simp add: lookup_upd lookup_del ok_upd)

end

lemma map_of_AList_update [simp]:
  "map_of (AList.update k v d) k' = (if k' = k then Some v else map_of d k')"
  by (simp add: AList.update_conv')

lemma keys_AList_update [simp]:
  "map_of d k \<noteq> None \<Longrightarrow> map fst (AList.update k v d) = map fst d"
  by (induction d) (auto split: if_splits)

lemma keys_AList_update_new [simp]:
  "map_of d k = None \<Longrightarrow> map fst (AList.update k v d) = map fst d @ [k]"
  by (induction d) (auto split: if_splits)

interpretation pydict: ordered_dict map_of AList.update AList.delete "map fst" dict_ok
proof unfold_locales
  fix m :: "('k \<times> 'v) list" and k k' :: 'k and v :: 'v
  show "map_of (AList.update k v m) k' = (if k' = k then Some v else map_of m k')" by simp
  show "map_of (AList.delete k m) k' = (if k' = k then None else map_of m k')"
    by (simp add: AList.delete_conv')
  show "k \<in> set (map fst m) \<longleftrightarrow> map_of m k \<noteq> None"
    by (simp add: map_of_eq_None_iff)
  show "map_of m k \<noteq> None \<Longrightarrow> map fst (AList.update k v m) = map fst m" by simp
  show "map_of m k = None \<Longrightarrow> map fst (AList.update k v m) = map fst m @ [k]" by simp
  show "dict_ok m \<Longrightarrow> dict_ok (AList.update k v m)" by (rule AList.distinct_update)
  show "dict_ok m \<Longrightarrow> dict_ok (AList.delete k m)" by (rule AList.distinct_delete)
qed

lemmas dict_ok_update [simp, intro] = pydict.ok_upd
lemmas dict_ok_delete [simp, intro] = pydict.ok_del

lemma dict_get_del [simp]: "map_of (AList.delete k d) k' = (if k' = k then None else map_of d k')"
  by (simp add: AList.delete_conv')

lemma dict_get_value: "map_of d k = Some v \<Longrightarrow> v \<in> set (map snd d)"
  by (force dest: map_of_SomeD)

lemma dict_value_get: "dict_ok d \<Longrightarrow> v \<in> set (map snd d) \<Longrightarrow> \<exists>k. map_of d k = Some v"
  by (auto simp: image_iff map_of_eq_Some_iff)

lemma dict_set_twice [simp]: "AList.update k v (AList.update k w d) = AList.update k v d"
  by (induction d) auto

lemma dict_set_same:
  "dict_ok d \<Longrightarrow> map_of d k = Some v \<Longrightarrow> AList.update k v d = d"
proof (induction d)
  case (Cons p d)
  then show ?case by (cases p) (auto split: if_splits)
qed simp

text \<open>Values of a dictionary after an assignment: the assigned one and the others.\<close>

lemma dict_values_update:
  "dict_ok d \<Longrightarrow> map_of d k = Some w \<Longrightarrow>
   \<exists>xs ys. dict_values d = xs @ w # ys \<and> dict_values (AList.update k v d) = xs @ v # ys"
proof (induction d)
  case (Cons p d)
  show ?case
  proof (cases "fst p = k")
    case True
    with Cons.prems show ?thesis
      by (cases p) (force intro: exI [where x = "[]"])
  next
    case False
    with Cons.prems have "dict_ok d" "map_of d k = Some w" by (auto split: if_splits)
    then obtain xs ys where "dict_values d = xs @ w # ys"
      "dict_values (AList.update k v d) = xs @ v # ys" using Cons.IH by blast
    with False have "dict_values (p # d) = (snd p # xs) @ w # ys \<and>
      dict_values (AList.update k v (p # d)) = (snd p # xs) @ v # ys" by (cases p) simp
    then show ?thesis by blast
  qed
qed simp

lemma length_filter_dict_update:
  assumes "dict_ok d" and "map_of d k = Some w"
  shows "length (filter P (dict_values (AList.update k v d))) + (if P w then 1 else 0) =
         length (filter P (dict_values d)) + (if P v then 1 else 0)"
proof -
  from dict_values_update [OF assms, of v] obtain xs ys where
    "dict_values d = xs @ w # ys" "dict_values (AList.update k v d) = xs @ v # ys" by blast
  then show ?thesis by simp
qed

section \<open>Random identifiers\<close>

text \<open>
  \<open>_generate_id(prefix)\<close> joins a prefix and \<open>secrets.token_hex(8)\<close>. The state carries the
  tokens still to come as a function, and how many have been drawn.
\<close>

definition gen_id :: "string \<Rightarrow> (nat \<Rightarrow> string) \<Rightarrow> nat \<Rightarrow> string" where
  "gen_id prefix rng i = (if prefix \<noteq> [] then prefix @ ''_'' @ rng i else rng i)"

lemma gen_id_inj [simp]: "inj rng \<Longrightarrow> gen_id p rng i = gen_id p rng j \<longleftrightarrow> i = j"
  by (auto simp: gen_id_def dest: injD)

lemma gen_id_nonempty [simp]: "p \<noteq> [] \<Longrightarrow> gen_id p rng i \<noteq> []"
  by (simp add: gen_id_def)

section \<open>Strings\<close>

definition is_space :: "char \<Rightarrow> bool" where
  "is_space c \<longleftrightarrow> (let n = of_char c :: nat in n = 32 \<or> (9 \<le> n \<and> n \<le> 13) \<or> (28 \<le> n \<and> n \<le> 31))"

definition is_digit :: "char \<Rightarrow> bool" where
  "is_digit c \<longleftrightarrow> (let n = of_char c :: nat in 48 \<le> n \<and> n \<le> 57)"

definition is_upper :: "char \<Rightarrow> bool" where
  "is_upper c \<longleftrightarrow> (let n = of_char c :: nat in 65 \<le> n \<and> n \<le> 90)"

definition is_lower :: "char \<Rightarrow> bool" where
  "is_lower c \<longleftrightarrow> (let n = of_char c :: nat in 97 \<le> n \<and> n \<le> 122)"

definition is_word :: "char \<Rightarrow> bool" where
  "is_word c \<longleftrightarrow> is_digit c \<or> is_upper c \<or> is_lower c \<or> c = CHR ''_''"

definition lower_char :: "char \<Rightarrow> char" where
  "lower_char c = (if is_upper c then char_of (of_char c + 32 :: nat) else c)"

definition upper_char :: "char \<Rightarrow> char" where
  "upper_char c = (if is_lower c then char_of (of_char c - 32 :: nat) else c)"

text \<open>The same over the integers, whose numerals are binary: this is what evaluation uses.\<close>

lemma of_char_int: "(of_char c :: int) = int (of_char c)"
  by (simp add: of_nat_of_char)

lemma char_class_code [code]:
  "is_space c \<longleftrightarrow> (let n = of_char c :: int in n = 32 \<or> (9 \<le> n \<and> n \<le> 13) \<or> (28 \<le> n \<and> n \<le> 31))"
  "is_digit c \<longleftrightarrow> (let n = of_char c :: int in 48 \<le> n \<and> n \<le> 57)"
  "is_upper c \<longleftrightarrow> (let n = of_char c :: int in 65 \<le> n \<and> n \<le> 90)"
  "is_lower c \<longleftrightarrow> (let n = of_char c :: int in 97 \<le> n \<and> n \<le> 122)"
  unfolding of_char_int by (simp_all add: is_space_def is_digit_def is_upper_def is_lower_def Let_def)

lemma case_char_code [code]:
  "lower_char c = (if is_upper c then char_of (of_char c + 32 :: int) else c)"
  "upper_char c = (if is_lower c then char_of (of_char c - 32 :: int) else c)"
proof -
  have "(of_char c + 32 :: int) = int (of_char c + 32)" by (simp add: of_char_int)
  then show "lower_char c = (if is_upper c then char_of (of_char c + 32 :: int) else c)"
    by (simp add: lower_char_def char_of_nat del: of_nat_add)
  have "is_lower c \<Longrightarrow> (of_char c - 32 :: int) = int (of_char c - 32)"
    by (simp add: of_char_int is_lower_def Let_def)
  then show "upper_char c = (if is_lower c then char_of (of_char c - 32 :: int) else c)"
    by (simp add: upper_char_def char_of_nat)
qed

definition lower :: "string \<Rightarrow> string" where
  "lower s = map lower_char s"

definition upper :: "string \<Rightarrow> string" where
  "upper s = map upper_char s"

definition lstrip :: "string \<Rightarrow> string" where
  "lstrip s = dropWhile is_space s"

definition rstrip_char :: "char \<Rightarrow> string \<Rightarrow> string" where
  "rstrip_char c s = rev (dropWhile (\<lambda>x. x = c) (rev s))"

definition strip :: "string \<Rightarrow> string" where
  "strip s = rev (dropWhile is_space (rev (lstrip s)))"

definition startswith :: "string \<Rightarrow> string \<Rightarrow> bool" where
  "startswith s p \<longleftrightarrow> take (length p) s = p"

lemma startswith_iff: "startswith s p \<longleftrightarrow> (\<exists>r. s = p @ r)"
  unfolding startswith_def by (metis append_take_drop_id append_eq_conv_conj)

fun contains :: "string \<Rightarrow> string \<Rightarrow> bool" where
  "contains p [] = (p = [])"
| "contains p (c # s) = (startswith (c # s) p \<or> contains p s)"

lemma contains_iff: "contains p s \<longleftrightarrow> (\<exists>a b. s = a @ p @ b)"
proof (induction s)
  case (Cons c s)
  have "(\<exists>a b. c # s = a @ p @ b) \<longleftrightarrow> startswith (c # s) p \<or> (\<exists>a b. s = a @ p @ b)"
    by (auto simp: startswith_iff Cons_eq_append_conv)
  with Cons.IH show ?case by simp
qed auto

text \<open>The truth value of an optional string.\<close>

definition truthy :: "string option \<Rightarrow> bool" where
  "truthy s \<longleftrightarrow> s \<noteq> None \<and> s \<noteq> Some []"

fun join :: "string \<Rightarrow> string list \<Rightarrow> string" where
  "join sep [] = []"
| "join sep [x] = x"
| "join sep (x # y # ys) = x @ sep @ join sep (y # ys)"

lemma join_eq_Nil: "[] \<notin> set xs \<Longrightarrow> join sep xs = [] \<longleftrightarrow> xs = []"
  by (cases "(sep, xs)" rule: join.cases) auto

section \<open>Printing numbers\<close>

fun show_nat :: "nat \<Rightarrow> string" where
  "show_nat n = (if n < 10 then [char_of (48 + n)] else show_nat (n div 10) @ [char_of (48 + n mod 10)])"

declare show_nat.simps [simp del]

lemma show_nat_nonempty [simp]: "show_nat n \<noteq> []"
  by (subst show_nat.simps) simp

definition show_int :: "int \<Rightarrow> string" where
  "show_int i = (if i < 0 then ''-'' @ show_nat (nat (- i)) else show_nat (nat i))"

definition round_half_even :: "rat \<Rightarrow> int" where
  "round_half_even r =
     (let f = \<lfloor>r\<rfloor>; d = r - of_int f
      in if d < 1 / 2 then f else if 1 / 2 < d then f + 1 else if even f then f else f + 1)"

lemma round_half_even_of_int [simp]: "round_half_even (of_int i) = i"
  by (simp add: round_half_even_def)

definition pad_left :: "nat \<Rightarrow> string \<Rightarrow> string" where
  "pad_left w s = replicate (w - length s) (CHR ''0'') @ s"

text \<open>\<open>f\"{x:.df}\"\<close>: \<open>d\<close> digits after the point, ties to even.\<close>

definition fmt_fixed :: "nat \<Rightarrow> rat \<Rightarrow> string" where
  "fmt_fixed d x =
     (let n = nat (round_half_even (\<bar>x\<bar> * 10 ^ d));
          sign = (if x < 0 then ''-'' else [])
      in if d = 0 then sign @ show_nat n
         else sign @ show_nat (n div 10 ^ d) @ ''.'' @ pad_left d (show_nat (n mod 10 ^ d)))"

text \<open>The em dash of the source's messages, as its UTF-8 bytes.\<close>

definition em_dash :: string where
  "em_dash = [CHR 0xE2, CHR 0x80, CHR 0x94]"

section \<open>Lists\<close>

lemma last_n_length: "length (drop (length xs - n) xs) = min n (length xs)"
  by simp

text \<open>The last \<open>n\<close> elements: Python's \<open>xs[-n:]\<close> for positive \<open>n\<close>.\<close>

definition last_n :: "nat \<Rightarrow> 'a list \<Rightarrow> 'a list" where
  "last_n n xs = drop (length xs - n) xs"

lemma length_last_n [simp]: "length (last_n n xs) = min n (length xs)"
  by (simp add: last_n_def)

lemma set_last_n: "set (last_n n xs) \<subseteq> set xs"
  by (simp add: last_n_def set_drop_subset)

text \<open>Counting into a dictionary: \<open>d[k] = d.get(k, 0) + 1\<close>.\<close>

definition bump :: "'k \<Rightarrow> ('k, int) dict \<Rightarrow> ('k, int) dict" where
  "bump k d = dict_set k (dict_get_or d k 0 + 1) d"

lemma bump_get: "dict_get_or (bump k d) k' 0 = dict_get_or d k' 0 + (if k' = k then 1 else 0)"
  by (simp add: bump_def dict_get_or_def)

lemma dict_get_or_fold_bump:
  "dict_get_or (fold (\<lambda>x d. if P x then bump (f x) d else d) xs d) k 0 =
   dict_get_or d k 0 + int (length (filter (\<lambda>x. P x \<and> f x = k) xs))"
  by (induction xs arbitrary: d) (auto simp: bump_get)

lemma filter_empty_iff: "filter P xs = [] \<longleftrightarrow> (\<forall>x\<in>set xs. \<not> P x)"
  by (induction xs) auto

lemma length_filter_unique:
  "x \<in> set xs \<Longrightarrow> y \<in> set xs \<Longrightarrow> P x \<Longrightarrow> P y \<Longrightarrow> length (filter P xs) \<le> 1 \<Longrightarrow> x = y"
  by (induction xs) (auto simp: filter_empty_iff Suc_le_eq split: if_splits)

end
