(* ===== verification/Models.thy ===== *)
theory Models
  imports Prelude
begin

text \<open>
  The data model of \<^verbatim>\<open>hermes_cluster/models/__init__.py\<close>: its enumerations as datatypes with
  the source's constructors, its Pydantic models as records with one field per attribute (prefixed
  by the model's initial, since record fields are global in HOL). Optional attributes are options.
  Statuses that travel as text (synchronisation messages) are converted by \<open>parse_task_status\<close>,
  the inverse of \<open>task_status_value\<close>.
\<close>

section \<open>Enumerations\<close>

datatype node_status = Online | Degraded | Offline

datatype task_status =
  Pending | Ready | Assigned | Running | Completed | Failed | Blocked | CancelRequested | Cancelled

datatype lease_status = Active | Expired | Revoked

datatype sync_event_type =
  SyncTaskCreated | SyncTaskAssigned | SyncTaskCompleted | SyncTaskFailed
| SyncTaskCancelRequested | SyncTaskCancelled

datatype event_type =
  EvTaskCreated | EvTaskAssigned | EvTaskCompleted | EvTaskFailed | EvNodeOffline
| EvTaskCancelRequested | EvTaskCancelled

datatype federation_status = Available | Unavailable

datatype delivery_status = DlvDelivered | DlvFailed | DlvPending | DlvRetrying

fun node_status_value :: "node_status \<Rightarrow> string" where
  "node_status_value Online = ''online''"
| "node_status_value Degraded = ''degraded''"
| "node_status_value Offline = ''offline''"

fun task_status_value :: "task_status \<Rightarrow> string" where
  "task_status_value Pending = ''pending''"
| "task_status_value Ready = ''ready''"
| "task_status_value Assigned = ''assigned''"
| "task_status_value Running = ''running''"
| "task_status_value Completed = ''completed''"
| "task_status_value Failed = ''failed''"
| "task_status_value Blocked = ''blocked''"
| "task_status_value CancelRequested = ''cancel_requested''"
| "task_status_value Cancelled = ''cancelled''"

definition all_task_statuses :: "task_status list" where
  "all_task_statuses =
     [Pending, Ready, Assigned, Running, Completed, Failed, Blocked, CancelRequested, Cancelled]"

lemma all_task_statuses_complete: "s \<in> set all_task_statuses"
  by (cases s) (simp_all add: all_task_statuses_def)

text \<open>\<open>TaskStatus(text)\<close>: \<open>None\<close> where the enumeration raises \<open>ValueError\<close>.\<close>

definition parse_task_status :: "string \<Rightarrow> task_status option" where
  "parse_task_status v = find (\<lambda>s. task_status_value s = v) all_task_statuses"

definition parse_node_status :: "string \<Rightarrow> node_status option" where
  "parse_node_status v = find (\<lambda>s. node_status_value s = v) [Online, Degraded, Offline]"

lemma parse_task_status_value [simp]: "parse_task_status (task_status_value s) = Some s"
  by (cases s) (simp_all add: parse_task_status_def all_task_statuses_def)

lemma parse_task_status_SomeD: "parse_task_status v = Some s \<Longrightarrow> task_status_value s = v"
  by (auto simp: parse_task_status_def find_Some_iff)

lemma task_status_value_inj: "task_status_value s = task_status_value s' \<longleftrightarrow> s = s'"
  by (metis parse_task_status_value option.inject)

lemma parse_node_status_value [simp]: "parse_node_status (node_status_value s) = Some s"
  by (cases s) (simp_all add: parse_node_status_def)

text \<open>A lease only moves forward through its life: active, expired, revoked.\<close>

fun lease_rank :: "lease_status \<Rightarrow> nat" where
  "lease_rank Active = 0"
| "lease_rank Expired = 1"
| "lease_rank Revoked = 2"

instantiation lease_status :: linorder
begin

definition less_eq_lease_status :: "lease_status \<Rightarrow> lease_status \<Rightarrow> bool" where
  "less_eq_lease_status a b \<longleftrightarrow> lease_rank a \<le> lease_rank b"

definition less_lease_status :: "lease_status \<Rightarrow> lease_status \<Rightarrow> bool" where
  "less_lease_status a b \<longleftrightarrow> lease_rank a < lease_rank b"

instance
proof
  fix a b c :: lease_status
  show "a < b \<longleftrightarrow> a \<le> b \<and> \<not> b \<le> a"
    by (auto simp: less_eq_lease_status_def less_lease_status_def)
  show "a \<le> a" by (simp add: less_eq_lease_status_def)
  show "a \<le> b \<Longrightarrow> b \<le> c \<Longrightarrow> a \<le> c" by (simp add: less_eq_lease_status_def)
  show "a \<le> b \<Longrightarrow> b \<le> a \<Longrightarrow> a = b"
    by (cases a; cases b) (auto simp: less_eq_lease_status_def)
  show "a \<le> b \<or> b \<le> a" by (auto simp: less_eq_lease_status_def)
qed

end

lemma lease_status_le [simp]:
  "Active \<le> s" "s \<le> Revoked" "Revoked \<le> s \<longleftrightarrow> s = Revoked" "s \<le> Active \<longleftrightarrow> s = Active"
  by (cases s; simp add: less_eq_lease_status_def)+

section \<open>Models\<close>

record node =
  n_id :: string
  n_name :: string
  n_capabilities :: "string list"
  n_status :: node_status
  n_last_heartbeat :: time
  n_load :: rat
  n_max_concurrent :: int
  n_drained :: bool
  n_disk_free_gb :: "rat option"
  n_status_reason :: string
  n_instance_token :: string
  n_cpu_load_pct :: "rat option"
  n_lane_count :: "int option"
  n_duplicate_executor :: "bool option"

text \<open>
  A decision ballot on a task row (\<^verbatim>\<open>core/ballot.py\<close>) and the formal directive attached when
  it is answered (\<^verbatim>\<open>core/ballot_wiring.py\<close>). Times are those of the ISO texts of the source.
\<close>

record formal_ref =
  fref_project :: string
  fref_issue_iid :: int
  fref_raw :: string

record formal_directive =
  fd_state :: string
  fd_formal_ref :: "formal_ref option"
  fd_decision_id :: "string option"
  fd_carrier_task :: string
  fd_answer :: string
  fd_answered_by :: string
  fd_answered_at :: "time option"
  fd_question :: string
  fd_detail :: "string option"

record ballot =
  b_question :: string
  b_options :: "string list"
  b_class :: string
  b_lane_key :: string
  b_asked_at :: time
  b_decision_ref :: string
  b_decision_id :: string
  b_answer :: "string option"
  b_answered_at :: "time option"
  b_answered_by :: string
  b_formal :: "formal_directive option"

record task =
  t_id :: string
  t_title :: string
  t_requires :: "string list"
  t_depends_on :: "string list"
  t_priority :: int
  t_status :: task_status
  t_assigned_to :: "string option"
  t_created_at :: time
  t_updated_at :: time
  t_version :: int
  t_fail_reason :: "string option"
  t_attempts :: int
  t_lane_key :: string
  t_role :: string
  t_result :: "string option"
  t_description :: string
  t_issues :: "string list"
  t_ballot :: "ballot option"
  t_cancel_requeue :: "bool option"

definition DEFAULT_PRIORITY :: int where
  "DEFAULT_PRIORITY = 3"

text \<open>The defaults of the \<open>Task\<close> model, for a task built from an id and a title.\<close>

definition default_task :: "time \<Rightarrow> string \<Rightarrow> string \<Rightarrow> task" where
  "default_task now tid title =
     \<lparr>t_id = tid, t_title = title, t_requires = [], t_depends_on = [],
      t_priority = DEFAULT_PRIORITY, t_status = Pending, t_assigned_to = None,
      t_created_at = now, t_updated_at = now, t_version = 0, t_fail_reason = None,
      t_attempts = 0, t_lane_key = [], t_role = ''author'', t_result = None,
      t_description = [], t_issues = [], t_ballot = None, t_cancel_requeue = None\<rparr>"

record lease =
  l_id :: string
  l_task_id :: string
  l_node_id :: string
  l_created_at :: time
  l_expires_at :: time
  l_status :: lease_status

record task_sync =
  ts_task_id :: string
  ts_title :: string
  ts_status :: string
  ts_assigned_to :: "string option"
  ts_version :: int

record sync_message =
  sm_version :: int
  sm_sender_node :: string
  sm_task_state :: "task_sync option"
  sm_event_type :: sync_event_type
  sm_timestamp :: int

record recovery_event =
  re_id :: string
  re_task_id :: string
  re_node_id :: string
  re_action :: string
  re_status :: string
  re_message :: "string option"
  re_timestamp :: time

record scheduling_decision =
  sd_task_id :: string
  sd_task_title :: string
  sd_priority :: int
  sd_node_id :: string
  sd_score :: rat
  sd_reason :: string
  sd_timestamp :: time

record hook =
  h_id :: string
  h_url :: string
  h_events :: "event_type list"
  h_secret :: "string option"
  h_active :: bool
  h_created_at :: time
  h_updated_at :: time

record delivery =
  d_id :: string
  d_hook_id :: string
  d_event_type :: string
  d_url :: string
  d_payload :: string
  d_status :: delivery_status
  d_status_code :: int
  d_error :: string
  d_attempts :: int
  d_max_attempts :: int
  d_created_at :: time
  d_updated_at :: time

record remote_cluster =
  rc_id :: string
  rc_name :: string
  rc_endpoint :: string
  rc_status :: federation_status
  rc_registered_at :: time
  rc_last_ping :: time
  rc_ping_latency :: rat

text \<open>\<open>LeaseConfig\<close> and \<open>WatchdogConfig\<close> with their defaults.\<close>

record lease_config =
  lc_ttl :: duration
  lc_scan_rate :: duration

definition default_lease_config :: lease_config where
  "default_lease_config = \<lparr>lc_ttl = seconds 60, lc_scan_rate = seconds 10\<rparr>"

section \<open>Terminal and active statuses\<close>

definition TERMINAL_TASK_STATUSES :: "task_status set" where
  "TERMINAL_TASK_STATUSES = {Completed, Failed, Cancelled, CancelRequested}"

definition ACTIVE_TASK_STATUSES :: "task_status set" where
  "ACTIVE_TASK_STATUSES = {Running, Assigned}"

lemma in_terminal [simp]:
  "s \<in> TERMINAL_TASK_STATUSES \<longleftrightarrow> s = Completed \<or> s = Failed \<or> s = Cancelled \<or> s = CancelRequested"
  by (auto simp: TERMINAL_TASK_STATUSES_def)

lemma in_active [simp]: "s \<in> ACTIVE_TASK_STATUSES \<longleftrightarrow> s = Running \<or> s = Assigned"
  by (auto simp: ACTIVE_TASK_STATUSES_def)

abbreviation t_active :: "task \<Rightarrow> bool" where
  "t_active t \<equiv> t_status t \<in> ACTIVE_TASK_STATUSES"

end
