(* ===== verification/Scheduler.thy ===== *)
theory Scheduler
  imports Models "HOL-Library.Multiset"
begin

text \<open>
  The planner shared by the stores: \<^verbatim>\<open>core/scheduler.py\<close> (capacity and capability tests, the
  lane guard, the least-loaded choice with its round-robin cursor) and
  \<^verbatim>\<open>core/lane_affinity.py\<close> (node identity and the pinned choice). The planner is pure: the
  cursor is a record passed in and returned. What a store relies on is the locale
  \<open>placement_policy\<close>.
\<close>

section \<open>Capacity and capability\<close>

definition SCHEDULER_ASSIGNED_TTL :: duration where
  "SCHEDULER_ASSIGNED_TTL = lc_ttl default_lease_config"

definition node_at_capacity :: "node \<Rightarrow> int \<Rightarrow> bool" where
  "node_at_capacity n active_count =
     (if n_max_concurrent n \<le> 0 then False else n_max_concurrent n \<le> active_count)"

definition node_can_run :: "string list \<Rightarrow> node \<Rightarrow> bool" where
  "node_can_run requires n =
     (if n_drained n then False
      else if requires = [] then True
      else list_all (\<lambda>cap. cap \<in> set (n_capabilities n)) requires)"

lemma node_can_run_iff:
  "node_can_run req n \<longleftrightarrow> \<not> n_drained n \<and> set req \<subseteq> set (n_capabilities n)"
  by (auto simp: node_can_run_def list_all_iff)

lemma node_at_capacity_mono: "node_at_capacity n a \<Longrightarrow> a \<le> b \<Longrightarrow> node_at_capacity n b"
  by (auto simp: node_at_capacity_def split: if_splits)

section \<open>Running tasks without a live lease\<close>

record unleased_row =
  ur_task_id :: string
  ur_assigned_to :: string
  ur_age_seconds :: int
  ur_since_update_seconds :: int

text \<open>\<open>int(d.total_seconds())\<close> truncates towards zero.\<close>

definition int_seconds :: "duration \<Rightarrow> int" where
  "int_seconds d = sgn d * (\<bar>d\<bar> div 1000000)"

fun unleased_running_rows :: "task list \<Rightarrow> string set \<Rightarrow> time \<Rightarrow> unleased_row list" where
  "unleased_running_rows [] leased now = []"
| "unleased_running_rows (t # ts) leased now =
     (if t_status t \<noteq> Running then unleased_running_rows ts leased now
      else if t_id t \<in> leased then unleased_running_rows ts leased now
      else \<lparr>ur_task_id = t_id t,
            ur_assigned_to = (case t_assigned_to t of None \<Rightarrow> [] | Some n \<Rightarrow> n),
            ur_age_seconds = int_seconds (now - t_created_at t),
            ur_since_update_seconds = int_seconds (now - t_updated_at t)\<rparr>
           # unleased_running_rows ts leased now)"

lemma unleased_running_ids:
  "map ur_task_id (unleased_running_rows ts leased now) =
   map t_id (filter (\<lambda>t. t_status t = Running \<and> t_id t \<notin> leased) ts)"
  by (induction ts leased now rule: unleased_running_rows.induct) auto

section \<open>The lane guard\<close>

definition lane_active :: "task list \<Rightarrow> string \<Rightarrow> bool" where
  "lane_active ts lane \<longleftrightarrow> list_ex (\<lambda>t. t_lane_key t = lane \<and> t_active t) ts"

definition lane_ready :: "task \<Rightarrow> bool" where
  "lane_ready t \<longleftrightarrow> t_lane_key t \<noteq> [] \<and> t_status t = Ready"

definition by_lane :: "task list \<Rightarrow> (string, (int \<times> time \<times> string) list) dict" where
  "by_lane ts =
     fold (\<lambda>t d. if lane_ready t
                 then dict_set (t_lane_key t)
                        (dict_get_or d (t_lane_key t) [] @ [(t_priority t, t_created_at t, t_id t)]) d
                 else d) ts []"

text \<open>
  The ids of the blocked ready tasks (a Python set; only membership is used). The first entry of a
  lane is the least by priority band, then oldest.
\<close>

definition lane_blocked_ready_ids :: "task list \<Rightarrow> string list" where
  "lane_blocked_ready_ids ts =
     concat (map (\<lambda>(lane, entries).
        if lane_active ts lane then map (\<lambda>(_, _, tid). tid) entries
        else map (\<lambda>(_, _, tid). tid) (tl (sort_key (\<lambda>(p, c, _). (p, c)) entries)))
      (by_lane ts))"

definition lane_entries :: "task list \<Rightarrow> string \<Rightarrow> (int \<times> time \<times> string) list" where
  "lane_entries ts lane =
     map (\<lambda>t. (t_priority t, t_created_at t, t_id t))
       (filter (\<lambda>t. lane_ready t \<and> t_lane_key t = lane) ts)"

lemma by_lane_fold:
  "dict_get_or (fold (\<lambda>t d. if lane_ready t
        then dict_set (t_lane_key t)
               (dict_get_or d (t_lane_key t) [] @ [(t_priority t, t_created_at t, t_id t)]) d
        else d) ts d) lane [] = dict_get_or d lane [] @ lane_entries ts lane"
  by (induction ts arbitrary: d) (auto simp: lane_entries_def dict_get_or_def)

lemma by_lane_get: "dict_get_or (by_lane ts) lane [] = lane_entries ts lane"
  using by_lane_fold [of ts "[]" lane] by (simp add: by_lane_def dict_get_or_def)

lemma by_lane_ok: "dict_ok (by_lane ts)"
proof -
  have "dict_ok d \<Longrightarrow> dict_ok (fold (\<lambda>t d. if lane_ready t
        then dict_set (t_lane_key t)
               (dict_get_or d (t_lane_key t) [] @ [(t_priority t, t_created_at t, t_id t)]) d
        else d) ts d)" for d
    by (induction ts arbitrary: d) auto
  then show ?thesis by (simp add: by_lane_def)
qed

lemma by_lane_entry: "(lane, es) \<in> set (by_lane ts) \<Longrightarrow> es = lane_entries ts lane"
  using by_lane_get [of ts lane] by_lane_ok [of ts]
  by (simp add: dict_get_or_def map_of_is_SomeI)

lemma by_lane_exists: "lane_entries ts lane \<noteq> [] \<Longrightarrow> (lane, lane_entries ts lane) \<in> set (by_lane ts)"
  using by_lane_get [of ts lane]
  by (auto simp: dict_get_or_def split: option.splits dest: map_of_SomeD)

definition lane_rest :: "task list \<Rightarrow> string \<Rightarrow> (int \<times> time \<times> string) list" where
  "lane_rest ts lane =
     (if lane_active ts lane then lane_entries ts lane
      else tl (sort_key (\<lambda>(p, c, _). (p, c)) (lane_entries ts lane)))"

abbreviation entry_id :: "int \<times> time \<times> string \<Rightarrow> string" where
  "entry_id \<equiv> (\<lambda>(_, _, tid). tid)"

lemma lane_blocked_alt:
  "lane_blocked_ready_ids ts =
   concat (map (\<lambda>(lane, es). map entry_id (lane_rest ts lane)) (by_lane ts))"
  unfolding lane_blocked_ready_ids_def
proof (intro arg_cong [where f = concat] map_cong refl, clarify)
  fix lane es assume "(lane, es) \<in> set (by_lane ts)"
  then have "es = lane_entries ts lane" by (rule by_lane_entry)
  then show "(if lane_active ts lane then map entry_id es
      else map entry_id (tl (sort_key (\<lambda>(p, c, _). (p, c)) es))) =
    map entry_id (lane_rest ts lane)"
    by (simp add: lane_rest_def)
qed

lemma lane_rest_lane: "e \<in> set (lane_rest ts lane) \<Longrightarrow> lane \<in> fst ` set (by_lane ts)"
proof -
  assume "e \<in> set (lane_rest ts lane)"
  then have "lane_entries ts lane \<noteq> []" by (auto simp: lane_rest_def split: if_splits)
  from by_lane_exists [OF this] show ?thesis by (rule rev_image_eqI) simp
qed

lemma lane_blocked_iff:
  "tid \<in> set (lane_blocked_ready_ids ts) \<longleftrightarrow> (\<exists>lane p c. (p, c, tid) \<in> set (lane_rest ts lane))"
    (is "?L \<longleftrightarrow> ?R")
proof
  assume ?L
  then obtain lane e where "e \<in> set (lane_rest ts lane)" "tid = entry_id e"
    unfolding lane_blocked_alt by auto
  moreover obtain p c i where "e = (p, c, i)" by (cases e)
  ultimately show ?R by auto
next
  assume ?R
  then obtain lane p c where e: "(p, c, tid) \<in> set (lane_rest ts lane)" by blast
  from lane_rest_lane [OF this] obtain es where "(lane, es) \<in> set (by_lane ts)" by auto
  then have "map entry_id (lane_rest ts lane) \<in>
      set (map (\<lambda>(lane, es). map entry_id (lane_rest ts lane)) (by_lane ts))"
    by (simp only: set_map) (rule image_eqI, simp_all)
  moreover have "tid \<in> set (map entry_id (lane_rest ts lane))"
    using e by (simp add: rev_image_eqI)
  ultimately show ?L unfolding lane_blocked_alt set_concat by (rule UN_I)
qed

lemma lane_blockedI: "(p, c, tid) \<in> set (lane_rest ts lane) \<Longrightarrow> tid \<in> set (lane_blocked_ready_ids ts)"
  using lane_blocked_iff by blast

lemma lane_rest_subset: "set (lane_rest ts lane) \<subseteq> set (lane_entries ts lane)"
  proof -
  have "set (tl xs) \<subseteq> set xs" for xs :: "(int \<times> time \<times> string) list" by (cases xs) auto
  from this [of "sort_key (\<lambda>(p, c, _). (p, c)) (lane_entries ts lane)"] show ?thesis
    by (auto simp: lane_rest_def)
qed

lemma lane_entry_task:
  "(p, c, tid) \<in> set (lane_entries ts lane) \<Longrightarrow>
   \<exists>t \<in> set ts. lane_ready t \<and> t_lane_key t = lane \<and> t_id t = tid"
  by (auto simp: lane_entries_def)

lemma task_lane_entry:
  "t \<in> set ts \<Longrightarrow> lane_ready t \<Longrightarrow>
   (t_priority t, t_created_at t, t_id t) \<in> set (lane_entries ts (t_lane_key t))"
  by (force simp: lane_entries_def)

text \<open>A ready task whose lane has an active sitting is blocked.\<close>

lemma lane_blocked_active:
  assumes "t \<in> set ts" "lane_ready t" "s \<in> set ts" "t_active s" "t_lane_key s = t_lane_key t"
  shows "t_id t \<in> set (lane_blocked_ready_ids ts)"
proof -
  from assms have "lane_active ts (t_lane_key t)" by (auto simp: lane_active_def list_ex_iff)
  with task_lane_entry [OF assms(1,2)]
  have "(t_priority t, t_created_at t, t_id t) \<in> set (lane_rest ts (t_lane_key t))"
    by (simp add: lane_rest_def)
  then show ?thesis by (rule lane_blockedI)
qed

lemma in_tl_or: "a \<in> set xs \<Longrightarrow> b \<in> set xs \<Longrightarrow> a \<noteq> b \<Longrightarrow> a \<in> set (tl xs) \<or> b \<in> set (tl xs)"
  by (cases xs) auto

lemma distinct_map_sort_key: "distinct (map f (sort_key k xs)) \<longleftrightarrow> distinct (map f xs)"
proof -
  have "mset (map f (sort_key k xs)) = mset (map f xs)" by simp
  then show ?thesis by (rule mset_eq_imp_distinct_iff)
qed

lemma same_id_eq: "distinct (map t_id ts) \<Longrightarrow> u \<in> set ts \<Longrightarrow> t \<in> set ts \<Longrightarrow> t_id u = t_id t \<Longrightarrow> u = t"
  by (auto simp: distinct_map dest: inj_onD)

text \<open>Of two ready tasks of one lane at most one is let through.\<close>

lemma lane_blocked_siblings:
  assumes "s \<in> set ts" "t \<in> set ts" "lane_ready s" "lane_ready t" "t_lane_key s = t_lane_key t"
    and "t_id s \<noteq> t_id t"
  shows "t_id s \<in> set (lane_blocked_ready_ids ts) \<or> t_id t \<in> set (lane_blocked_ready_ids ts)"
proof (cases "lane_active ts (t_lane_key t)")
  case True
  then obtain u where "u \<in> set ts" "t_active u" "t_lane_key u = t_lane_key t"
    by (auto simp: lane_active_def list_ex_iff)
  from lane_blocked_active [OF assms(2,4) this] show ?thesis ..
next
  case False
  let ?k = "\<lambda>(p, c, _). (p, c)" and ?L = "lane_entries ts (t_lane_key t)"
  let ?s = "(t_priority s, t_created_at s, t_id s)" and ?t = "(t_priority t, t_created_at t, t_id t)"
  have "?s \<in> set (sort_key ?k ?L)" "?t \<in> set (sort_key ?k ?L)"
    using task_lane_entry [OF assms(1,3)] task_lane_entry [OF assms(2,4)] assms(5) by simp_all
  moreover have "?s \<noteq> ?t" using assms(6) by simp
  ultimately have "?s \<in> set (tl (sort_key ?k ?L)) \<or> ?t \<in> set (tl (sort_key ?k ?L))"
    by (rule in_tl_or)
  then have "?s \<in> set (lane_rest ts (t_lane_key t)) \<or> ?t \<in> set (lane_rest ts (t_lane_key t))"
    using False by (simp add: lane_rest_def)
  then show ?thesis by (elim disjE) (auto dest: lane_blockedI)
qed

text \<open>A task without a lane is never blocked, when ids are unique.\<close>

lemma lane_less_not_blocked:
  assumes "distinct (map t_id ts)" "t \<in> set ts" "t_lane_key t = []"
  shows "t_id t \<notin> set (lane_blocked_ready_ids ts)"
proof
  assume "t_id t \<in> set (lane_blocked_ready_ids ts)"
  then obtain lane p c where "(p, c, t_id t) \<in> set (lane_entries ts lane)"
    using lane_rest_subset unfolding lane_blocked_iff by blast
  then obtain u where "u \<in> set ts" "lane_ready u" "t_id u = t_id t"
    using lane_entry_task by blast
  with assms have "u = t" by (blast intro: same_id_eq)
  with \<open>lane_ready u\<close> assms(3) show False by (simp add: lane_ready_def)
qed

text \<open>Progress: a lane without an active sitting lets one of its ready tasks through.\<close>

lemma lane_head_not_blocked:
  assumes d: "distinct (map t_id ts)" and t: "t \<in> set ts" "lane_ready t"
    and idle: "\<not> lane_active ts (t_lane_key t)"
  shows "\<exists>h \<in> set ts. lane_ready h \<and> t_lane_key h = t_lane_key t \<and>
           t_id h \<notin> set (lane_blocked_ready_ids ts)"
proof -
  let ?k = "\<lambda>(p, c, _). (p, c)" and ?L = "lane_entries ts (t_lane_key t)"
  have "?L \<noteq> []" using task_lane_entry [OF t] by auto
  then obtain e r where er: "sort_key ?k ?L = e # r"
    by (metis list.exhaust length_sort length_0_conv)
  obtain p c i where e: "e = (p, c, i)" by (cases e)
  have "e \<in> set ?L" using er by (metis list.set_intros(1) set_sort)
  then obtain h where h: "h \<in> set ts" "lane_ready h" "t_lane_key h = t_lane_key t" "t_id h = i"
    using lane_entry_task e by blast
  have "map entry_id ?L = map t_id (filter (\<lambda>u. lane_ready u \<and> t_lane_key u = t_lane_key t) ts)"
    by (simp add: lane_entries_def)
  then have "distinct (map entry_id ?L)" using d by (simp add: distinct_map_filter)
  then have "distinct (map entry_id (sort_key ?k ?L))" by (simp only: distinct_map_sort_key)
  then have fresh: "i \<notin> entry_id ` set r" using er e by simp
  have "i \<notin> set (lane_blocked_ready_ids ts)"
  proof
    assume "i \<in> set (lane_blocked_ready_ids ts)"
    then obtain lane p' c' where m: "(p', c', i) \<in> set (lane_rest ts lane)"
      unfolding lane_blocked_iff by blast
    then obtain u where u: "u \<in> set ts" "t_lane_key u = lane" "t_id u = i"
      using lane_rest_subset lane_entry_task by blast
    with h d have "u = h" by (metis same_id_eq)
    with u h have "lane = t_lane_key t" by simp
    with m idle er have "(p', c', i) \<in> set r" by (simp add: lane_rest_def)
    with fresh show False by (simp add: rev_image_eqI)
  qed
  with h show ?thesis by auto
qed

section \<open>The fair choice\<close>

record fair =
  f_pick_round :: int
  f_last_picked :: "(string, int) dict"

definition init_fair :: fair where
  "init_fair = \<lparr>f_pick_round = 0, f_last_picked = []\<rparr>"

type_synonym counts = "(string, int) dict"

definition node_key :: "fair \<Rightarrow> counts \<Rightarrow> node \<Rightarrow> int \<times> int" where
  "node_key f active_counts n =
     (dict_get_or active_counts (n_id n) 0, dict_get_or (f_last_picked f) (n_id n) (-1))"

definition eligible :: "string list \<Rightarrow> counts \<Rightarrow> node \<Rightarrow> bool" where
  "eligible requires active_counts n \<longleftrightarrow>
     node_can_run requires n \<and> \<not> node_at_capacity n (dict_get_or active_counts (n_id n) 0)"

fun choose_loop ::
  "fair \<Rightarrow> string list \<Rightarrow> counts \<Rightarrow> node list \<Rightarrow> (node \<times> int \<times> int) option \<Rightarrow> node option" where
  "choose_loop f requires active_counts [] best = map_option fst best"
| "choose_loop f requires active_counts (n # ns) best =
     (if \<not> node_can_run requires n then choose_loop f requires active_counts ns best
      else let active = dict_get_or active_counts (n_id n) 0
           in if node_at_capacity n active then choose_loop f requires active_counts ns best
              else let key = (active, dict_get_or (f_last_picked f) (n_id n) (-1))
                   in case best of
                        None \<Rightarrow> choose_loop f requires active_counts ns (Some (n, key))
                      | Some (_, best_key) \<Rightarrow>
                          choose_loop f requires active_counts ns
                            (if key < best_key then Some (n, key) else best))"

definition fair_choose :: "fair \<Rightarrow> string list \<Rightarrow> node list \<Rightarrow> counts \<Rightarrow> node option" where
  "fair_choose f requires online_nodes active_counts =
     choose_loop f requires active_counts online_nodes None"

definition mark_picked :: "string \<Rightarrow> fair \<Rightarrow> fair" where
  "mark_picked node_id f =
     f\<lparr>f_last_picked := dict_set node_id (f_pick_round f) (f_last_picked f),
       f_pick_round := f_pick_round f + 1\<rparr>"

lemma choose_loop_acc:
  "choose_loop f req cnt ns (Some (b, node_key f cnt b)) = Some n \<Longrightarrow>
   (n = b \<or> n \<in> set ns \<and> eligible req cnt n) \<and> node_key f cnt n \<le> node_key f cnt b \<and>
   (\<forall>m \<in> set ns. eligible req cnt m \<longrightarrow> node_key f cnt n \<le> node_key f cnt m)"
proof (induction ns arbitrary: b)
  case (Cons x ns)
  show ?case
  proof (cases "eligible req cnt x \<and> node_key f cnt x < node_key f cnt b")
    case True
    then have "choose_loop f req cnt ns (Some (x, node_key f cnt x)) = Some n"
      using Cons.prems by (auto simp: Let_def eligible_def node_key_def)
    from Cons.IH [OF this] True show ?thesis by auto
  next
    case False
    then have "choose_loop f req cnt ns (Some (b, node_key f cnt b)) = Some n"
      using Cons.prems by (auto simp: Let_def eligible_def node_key_def split: if_splits)
    from Cons.IH [OF this] False show ?thesis by (auto simp: not_less)
  qed
qed simp

lemma choose_loop_total: "choose_loop f req cnt ns (Some b) \<noteq> None"
  by (induction ns arbitrary: b) (auto simp: Let_def split: prod.splits)

lemma choose_Some:
  assumes "fair_choose f req ns cnt = Some n"
  shows "n \<in> set ns \<and> eligible req cnt n \<and>
         (\<forall>m \<in> set ns. eligible req cnt m \<longrightarrow> node_key f cnt n \<le> node_key f cnt m)"
  using assms unfolding fair_choose_def
proof (induction ns)
  case (Cons x ns)
  show ?case
  proof (cases "eligible req cnt x")
    case True
    then have "choose_loop f req cnt ns (Some (x, node_key f cnt x)) = Some n"
      using Cons.prems by (simp add: Let_def eligible_def node_key_def)
    from choose_loop_acc [OF this] True show ?thesis by auto
  next
    case False
    then have "choose_loop f req cnt ns None = Some n"
      using Cons.prems by (auto simp: Let_def eligible_def split: if_splits)
    from Cons.IH [OF this] False show ?thesis by auto
  qed
qed simp

lemma choose_None_iff: "fair_choose f req ns cnt = None \<longleftrightarrow> (\<forall>n \<in> set ns. \<not> eligible req cnt n)"
  unfolding fair_choose_def
proof (induction ns)
  case (Cons x ns)
  then show ?case using choose_loop_total by (auto simp: Let_def eligible_def)
qed simp

section \<open>Node identity and the pinned choice\<close>

definition NODE_PREFIX :: string where
  "NODE_PREFIX = ''node_''"

definition canonical_node_id :: "string \<Rightarrow> string" where
  "canonical_node_id node_id =
     (let s = strip node_id
      in if startswith s NODE_PREFIX then drop (length NODE_PREFIX) s else s)"

definition same_node :: "string \<Rightarrow> string \<Rightarrow> bool" where
  "same_node a b =
     (if a = [] \<or> b = [] then False else canonical_node_id a = canonical_node_id b)"

lemma same_node_sym: "same_node a b \<longleftrightarrow> same_node b a"
  by (auto simp: same_node_def)

lemma same_node_trans: "same_node a b \<Longrightarrow> same_node b c \<Longrightarrow> same_node a c"
  by (auto simp: same_node_def split: if_splits)

lemma same_node_refl: "a \<noteq> [] \<Longrightarrow> same_node a a"
  by (simp add: same_node_def)

fun choose_pinned_loop :: "string list \<Rightarrow> counts \<Rightarrow> string \<Rightarrow> node list \<Rightarrow> node option" where
  "choose_pinned_loop requires active_counts pin [] = None"
| "choose_pinned_loop requires active_counts pin (n # ns) =
     (if \<not> same_node (n_id n) pin then choose_pinned_loop requires active_counts pin ns
      else if \<not> node_can_run requires n then None
      else if node_at_capacity n (dict_get_or active_counts (n_id n) 0) then None
      else Some n)"

definition choose_pinned ::
  "fair \<Rightarrow> string list \<Rightarrow> node list \<Rightarrow> counts \<Rightarrow> string \<Rightarrow> node option \<times> bool" where
  "choose_pinned f requires online_nodes active_counts pinned_node_id =
     (if pinned_node_id = [] then (fair_choose f requires online_nodes active_counts, False)
      else (choose_pinned_loop requires active_counts pinned_node_id online_nodes, True))"

lemma choose_pinned_loop_Some:
  "choose_pinned_loop req cnt pin ns = Some n \<Longrightarrow>
   n \<in> set ns \<and> eligible req cnt n \<and> same_node (n_id n) pin"
  by (induction ns) (auto simp: eligible_def split: if_splits)

lemma choose_pinned_sound:
  "choose_pinned f req ns cnt pin = (Some n, p) \<Longrightarrow>
   n \<in> set ns \<and> eligible req cnt n \<and> (p \<longleftrightarrow> pin \<noteq> []) \<and> (pin \<noteq> [] \<longrightarrow> same_node (n_id n) pin)"
  by (auto simp: choose_pinned_def dest: choose_Some choose_pinned_loop_Some split: if_splits)

lemma choose_pinned_complete:
  "choose_pinned f req ns cnt [] = (None, p) \<Longrightarrow> n \<in> set ns \<Longrightarrow> \<not> eligible req cnt n"
  by (auto simp: choose_pinned_def choose_None_iff)

text \<open>A pinned task whose lane node is not among the candidates is parked.\<close>

lemma choose_pinned_parks:
  "pin \<noteq> [] \<Longrightarrow> \<forall>n \<in> set ns. \<not> same_node (n_id n) pin \<Longrightarrow>
   choose_pinned f req ns cnt pin = (None, True)"
proof -
  have "\<forall>n \<in> set ns. \<not> same_node (n_id n) pin \<Longrightarrow> choose_pinned_loop req cnt pin ns = None"
    by (induction ns) auto
  then show "pin \<noteq> [] \<Longrightarrow> \<forall>n \<in> set ns. \<not> same_node (n_id n) pin \<Longrightarrow>
   choose_pinned f req ns cnt pin = (None, True)" by (simp add: choose_pinned_def)
qed

section \<open>The interface of the planner\<close>

text \<open>
  \<open>within_cap\<close>: the count of a node is at most its ceiling, or what it was to begin with (a ceiling
  can be lowered below the current load).
\<close>

definition within_cap :: "counts \<Rightarrow> counts \<Rightarrow> node \<Rightarrow> bool" where
  "within_cap cnt0 cnt n \<longleftrightarrow> n_max_concurrent n \<le> 0 \<or>
     dict_get_or cnt (n_id n) 0 \<le> max (n_max_concurrent n) (dict_get_or cnt0 (n_id n) 0)"

locale placement_policy =
  fixes pick :: "'f \<Rightarrow> string list \<Rightarrow> node list \<Rightarrow> counts \<Rightarrow> string \<Rightarrow> node option \<times> bool"
  assumes pick_sound: "pick f req ns cnt pin = (Some n, p) \<Longrightarrow>
      n \<in> set ns \<and> eligible req cnt n \<and> (pin \<noteq> [] \<longrightarrow> same_node (n_id n) pin)"
    and pick_complete: "pick f req ns cnt [] = (None, p) \<Longrightarrow> n \<in> set ns \<Longrightarrow> \<not> eligible req cnt n"
    and pick_flag: "pick f req ns cnt pin = (c, p) \<Longrightarrow> p \<longleftrightarrow> pin \<noteq> []"
begin

lemma pick_not_drained: "pick f req ns cnt pin = (Some n, p) \<Longrightarrow> \<not> n_drained n"
  using pick_sound by (fastforce simp: eligible_def node_can_run_iff)

lemma pick_capable: "pick f req ns cnt pin = (Some n, p) \<Longrightarrow> set req \<subseteq> set (n_capabilities n)"
  using pick_sound by (fastforce simp: eligible_def node_can_run_iff)

text \<open>A pick never pushes a node past its ceiling.\<close>

lemma pick_within:
  assumes "pick f req ns cnt pin = (Some n, p)" "distinct (map n_id ns)"
    and "\<forall>m \<in> set ns. within_cap cnt0 cnt m"
  shows "\<forall>m \<in> set ns. within_cap cnt0 (bump (n_id n) cnt) m"
proof
  fix m assume m: "m \<in> set ns"
  from pick_sound [OF assms(1)] have n: "n \<in> set ns" "eligible req cnt n" by auto
  show "within_cap cnt0 (bump (n_id n) cnt) m"
  proof (cases "n_id m = n_id n")
    case True
    with assms(2) m n(1) have "m = n" by (simp add: distinct_map inj_on_def)
    with n(2) show ?thesis by (auto simp: within_cap_def eligible_def node_at_capacity_def bump_get split: if_splits)
  next
    case False
    with assms(3) m show ?thesis by (simp add: within_cap_def bump_get)
  qed
qed

end

interpretation affinity: placement_policy choose_pinned
proof
  show "choose_pinned f req ns cnt pin = (Some n, p) \<Longrightarrow>
      n \<in> set ns \<and> eligible req cnt n \<and> (pin \<noteq> [] \<longrightarrow> same_node (n_id n) pin)" for f req ns cnt pin n p
    using choose_pinned_sound by blast
  show "choose_pinned f req ns cnt [] = (None, p) \<Longrightarrow> n \<in> set ns \<Longrightarrow> \<not> eligible req cnt n" for f req ns cnt n p
    by (rule choose_pinned_complete)
  show "choose_pinned f req ns cnt pin = (c, p) \<Longrightarrow> p \<longleftrightarrow> pin \<noteq> []" for f req ns cnt pin c p
    by (auto simp: choose_pinned_def split: if_splits)
qed

end
