(* ===== verification/Regex.thy ===== *)
theory Regex
  imports Prelude
begin

text \<open>
  The part of Python's \<^verbatim>\<open>re\<close> module the gates use, as an executable backtracking matcher.
  A pattern is a value of \<open>rx\<close>; \<open>rxm\<close> lists the ways it can match at a position, in the
  order a backtracking engine tries them, so the head of the list is the match Python returns.
  A position is the text before it (reversed), the text after it, and the groups captured so far.
  Repetition is over one character class (\<open>Rep\<close>), or one or more rounds of a pattern
  (\<open>Many\<close>), which is all the patterns of the program need. The flag \<open>IGNORECASE\<close> is the operator \<open>ci\<close> on character classes.
\<close>

datatype rx =
  Eps
| Cls "char \<Rightarrow> bool"
| Seq rx rx
| Alt rx rx
| Rep nat "nat option" bool "char \<Rightarrow> bool"
| Many rx
| Grp nat rx
| Bol
| Eol
| WordB
| NotBehind "char \<Rightarrow> bool"
| NotAhead "char \<Rightarrow> bool"

type_synonym groups = "(nat \<times> string) list"
type_synonym rx_pos = "string \<times> string \<times> groups"

definition rep_lens :: "nat \<Rightarrow> nat option \<Rightarrow> bool \<Rightarrow> nat \<Rightarrow> nat list" where
  "rep_lens lo hi greedy n =
     (let m = (case hi of None \<Rightarrow> n | Some h \<Rightarrow> min h n); ks = [lo..<Suc m]
      in if greedy then rev ks else ks)"

definition at_word :: "string \<Rightarrow> bool" where
  "at_word s = (case s of [] \<Rightarrow> False | c # _ \<Rightarrow> is_word c)"

text \<open>One or more rounds of a matcher, as many as possible first; an empty round ends the loop.\<close>

fun iter_rx :: "nat \<Rightarrow> (rx_pos \<Rightarrow> rx_pos list) \<Rightarrow> rx_pos \<Rightarrow> rx_pos list" where
  "iter_rx 0 m p = []"
| "iter_rx (Suc k) m p =
     concat (map (\<lambda>q. (if length (fst (snd q)) < length (fst (snd p)) then iter_rx k m q else []) @ [q]) (m p))"

fun rxm :: "rx \<Rightarrow> rx_pos \<Rightarrow> rx_pos list" where
  "rxm Eps p = [p]"
| "rxm (Cls f) (b, s, g) = (case s of [] \<Rightarrow> [] | c # s' \<Rightarrow> if f c then [(c # b, s', g)] else [])"
| "rxm (Seq r1 r2) p = concat (map (rxm r2) (rxm r1 p))"
| "rxm (Alt r1 r2) p = rxm r1 p @ rxm r2 p"
| "rxm (Rep lo hi greedy f) (b, s, g) =
     map (\<lambda>k. (rev (take k s) @ b, drop k s, g)) (rep_lens lo hi greedy (length (takeWhile f s)))"
| "rxm (Many r) (b, s, g) = iter_rx (Suc (length s)) (rxm r) (b, s, g)"
| "rxm (Grp i r) (b, s, g) =
     map (\<lambda>(b', s', g'). (b', s', (i, take (length s - length s') s) # g')) (rxm r (b, s, g))"
| "rxm Bol (b, s, g) = (if b = [] then [(b, s, g)] else [])"
| "rxm Eol (b, s, g) = (if s = [] \<or> s = [CHR 0x0A] then [(b, s, g)] else [])"
| "rxm WordB (b, s, g) = (if at_word b \<noteq> at_word s then [(b, s, g)] else [])"
| "rxm (NotBehind f) (b, s, g) = (case b of [] \<Rightarrow> [(b, s, g)] | c # _ \<Rightarrow> if f c then [] else [(b, s, g)])"
| "rxm (NotAhead f) (b, s, g) = (case s of [] \<Rightarrow> [(b, s, g)] | c # _ \<Rightarrow> if f c then [] else [(b, s, g)])"

definition first_opt :: "'a list \<Rightarrow> 'a option" where
  "first_opt xs = (case xs of [] \<Rightarrow> None | x # _ \<Rightarrow> Some x)"

definition re_match :: "rx \<Rightarrow> string \<Rightarrow> groups option" where
  "re_match r s = map_option (\<lambda>(_, _, g). g) (first_opt (rxm r ([], s, [])))"

fun search_from :: "rx \<Rightarrow> string \<Rightarrow> string \<Rightarrow> groups option" where
  "search_from r b s =
     (case rxm r (b, s, []) of
        (_, _, g) # _ \<Rightarrow> Some g
      | [] \<Rightarrow> (case s of [] \<Rightarrow> None | c # s' \<Rightarrow> search_from r (c # b) s'))"

definition re_search :: "rx \<Rightarrow> string \<Rightarrow> groups option" where
  "re_search r s = search_from r [] s"

fun findall_from :: "rx \<Rightarrow> string \<Rightarrow> string \<Rightarrow> groups list" where
  "findall_from r b s =
     (case rxm r (b, s, []) of
        (b', s', g) # _ \<Rightarrow>
          g # (if length s' < length s then findall_from r b' s'
               else case s of [] \<Rightarrow> [] | c # s'' \<Rightarrow> findall_from r (c # b) s'')
      | [] \<Rightarrow> (case s of [] \<Rightarrow> [] | c # s'' \<Rightarrow> findall_from r (c # b) s''))"

definition group :: "nat \<Rightarrow> groups \<Rightarrow> string" where
  "group i g = (case map_of g i of None \<Rightarrow> [] | Some t \<Rightarrow> t)"

definition re_findall :: "rx \<Rightarrow> string \<Rightarrow> string list" where
  "re_findall r s = map (group 1) (findall_from r [] s)"

declare search_from.simps [simp del] findall_from.simps [simp del]

text \<open>Pattern building blocks.\<close>

fun Seqs :: "rx list \<Rightarrow> rx" where
  "Seqs [] = Eps"
| "Seqs [r] = r"
| "Seqs (r # rs) = Seq r (Seqs rs)"

fun Alts :: "rx list \<Rightarrow> rx" where
  "Alts [] = Cls (\<lambda>_. False)"
| "Alts [r] = r"
| "Alts (r # rs) = Alt r (Alts rs)"

fun Lit :: "string \<Rightarrow> rx" where
  "Lit [] = Eps"
| "Lit (c # s) = Seq (Cls (\<lambda>x. x = c)) (Lit s)"

definition ci :: "(char \<Rightarrow> bool) \<Rightarrow> char \<Rightarrow> bool" where
  "ci f c = f (lower_char c)"

fun LitCI :: "string \<Rightarrow> rx" where
  "LitCI [] = Eps"
| "LitCI (c # s) = Seq (Cls (\<lambda>x. lower_char x = lower_char c)) (LitCI s)"

abbreviation Star :: "(char \<Rightarrow> bool) \<Rightarrow> rx" where
  "Star f \<equiv> Rep 0 None True f"

abbreviation Plus :: "(char \<Rightarrow> bool) \<Rightarrow> rx" where
  "Plus f \<equiv> Rep 1 None True f"

abbreviation Opt :: "(char \<Rightarrow> bool) \<Rightarrow> rx" where
  "Opt f \<equiv> Rep 0 (Some 1) True f"

definition is_hex :: "char \<Rightarrow> bool" where
  "is_hex c \<longleftrightarrow> is_digit c \<or> (let n = of_char c :: nat in 97 \<le> n \<and> n \<le> 102)"

lemma is_hex_code [code]: "is_hex c \<longleftrightarrow> is_digit c \<or> (let n = of_char c :: int in 97 \<le> n \<and> n \<le> 102)"
  unfolding of_char_int by (simp add: is_hex_def Let_def)

definition not_newline :: "char \<Rightarrow> bool" where
  "not_newline c \<longleftrightarrow> c \<noteq> CHR 0x0A"

abbreviation is_char :: "char \<Rightarrow> char \<Rightarrow> bool" where
  "is_char c \<equiv> (\<lambda>x. x = c)"

section \<open>Soundness of the matcher\<close>

text \<open>A match consumes a prefix of the text ahead, and the text is never altered.\<close>

lemma rep_lens_iff:
  "k \<in> set (rep_lens lo hi gr n) \<longleftrightarrow> lo \<le> k \<and> k \<le> n \<and> (\<forall>h. hi = Some h \<longrightarrow> k \<le> h)"
  by (auto simp: rep_lens_def Let_def split: option.splits)

lemma take_takeWhile: "k \<le> length (takeWhile f s) \<Longrightarrow> take k s = take k (takeWhile f s)"
  by (metis takeWhile_eq_take take_take min.absorb1)

lemma iter_rx_consumes:
  assumes "\<And>b s g b' s' g'. (b', s', g') \<in> set (m (b, s, g)) \<Longrightarrow> \<exists>u. s = u @ s' \<and> b' = rev u @ b"
    and "(b', s', g') \<in> set (iter_rx k m (b, s, g))"
  shows "\<exists>u. s = u @ s' \<and> b' = rev u @ b"
  using assms(2)
proof (induction k arbitrary: b s g)
  case (Suc k)
  then obtain b1 s1 g1 where q: "(b1, s1, g1) \<in> set (m (b, s, g))"
    "(b', s', g') = (b1, s1, g1) \<or> (b', s', g') \<in> set (iter_rx k m (b1, s1, g1))"
    by (auto split: if_splits)
  from assms(1) [OF q(1)] obtain u where "s = u @ s1" "b1 = rev u @ b" by blast
  with q(2) Suc.IH [of b1 s1 g1] show ?case by (elim disjE) auto
qed simp

lemma rxm_consumes:
  "(b', s', g') \<in> set (rxm r (b, s, g)) \<Longrightarrow> \<exists>u. s = u @ s' \<and> b' = rev u @ b"
proof (induction r arbitrary: b s g b' s' g')
  case (Seq r1 r2)
  then obtain b1 s1 g1 where m: "(b1, s1, g1) \<in> set (rxm r1 (b, s, g))"
    "(b', s', g') \<in> set (rxm r2 (b1, s1, g1))" by auto
  from Seq.IH(1) [OF m(1)] Seq.IH(2) [OF m(2)] show ?case by auto
next
  case (Rep lo hi gr f)
  then obtain k where "s' = drop k s" "b' = rev (take k s) @ b" by auto
  then show ?case by (metis append_take_drop_id)
next
  case (Many r)
  then have "(b', s', g') \<in> set (iter_rx (Suc (length s)) (rxm r) (b, s, g))" by simp
  from iter_rx_consumes [OF Many.IH this] show ?case .
next
  case (Grp i r)
  then obtain g1 where "(b', s', g1) \<in> set (rxm r (b, s, g))" by auto
  from Grp.IH [OF this] show ?case .
qed (auto split: if_splits list.splits)

lemma rxm_Lit: "rxm (Lit w) (b, s, g) =
  (if startswith s w then [(rev w @ b, drop (length w) s, g)] else [])"
proof (induction w arbitrary: b s)
  case (Cons c w)
  then show ?case by (cases s) (auto simp: startswith_def)
qed (simp add: startswith_def)

lemma rxm_Seqs_Cons [simp]: "rxm (Seqs (r # rs)) p = concat (map (rxm (Seqs rs)) (rxm r p))"
proof (cases rs)
  case Nil
  have "concat (map (rxm Eps) ps) = ps" for ps by (induction ps) simp_all
  with Nil show ?thesis by simp
qed simp

lemma rxm_SeqsI:
  "p' \<in> set (rxm r p) \<Longrightarrow> q \<in> set (rxm (Seqs rs) p') \<Longrightarrow> q \<in> set (rxm (Seqs (r # rs)) p)"
  unfolding rxm_Seqs_Cons by auto

lemma rxm_SeqsE:
  assumes "q \<in> set (rxm (Seqs (r # rs)) p)"
  obtains b s g where "(b, s, g) \<in> set (rxm r p)" "q \<in> set (rxm (Seqs rs) (b, s, g))"
  using assms unfolding rxm_Seqs_Cons by auto

lemma rxm_Seqs_Nil [simp]: "rxm (Seqs []) p = [p]"
  by simp

lemma rxm_RepD:
  "(b', s', g') \<in> set (rxm (Rep lo hi gr f) (b, s, g)) \<Longrightarrow>
   \<exists>u. s = u @ s' \<and> b' = rev u @ b \<and> g' = g \<and> list_all f u \<and> lo \<le> length u \<and>
       (\<forall>h. hi = Some h \<longrightarrow> length u \<le> h)"
proof -
  assume "(b', s', g') \<in> set (rxm (Rep lo hi gr f) (b, s, g))"
  then obtain k where k: "lo \<le> k" "k \<le> length (takeWhile f s)" "\<forall>h. hi = Some h \<longrightarrow> k \<le> h"
    and e: "s' = drop k s" "b' = rev (take k s) @ b" "g' = g"
    by (auto simp: rep_lens_iff)
  have "length (take k s) = k" using k(2) length_takeWhile_le [of f s] by simp
  moreover have "list_all f (take k s)"
    using k(2) by (auto simp: take_takeWhile list_all_iff dest: in_set_takeD set_takeWhileD)
  ultimately show ?thesis using k e by (intro exI [where x = "take k s"]) auto
qed

lemma rxm_RepI:
  assumes "list_all f u" "lo \<le> length u" "\<forall>h. hi = Some h \<longrightarrow> length u \<le> h"
  shows "(rev u @ b, s, g) \<in> set (rxm (Rep lo hi gr f) (b, u @ s, g))"
proof -
  have "length u \<le> length (takeWhile f (u @ s))"
    using assms(1) by (simp add: list_all_iff)
  then have "length u \<in> set (rep_lens lo hi gr (length (takeWhile f (u @ s))))"
    using assms by (simp add: rep_lens_iff)
  then show ?thesis by (auto simp: rev_image_eqI)
qed

lemma rxm_GrpD:
  "(b', s', g') \<in> set (rxm (Grp i r) (b, s, g)) \<Longrightarrow>
   \<exists>u g1. s = u @ s' \<and> b' = rev u @ b \<and> g' = (i, u) # g1 \<and> (b', s', g1) \<in> set (rxm r (b, s, g))"
proof -
  assume "(b', s', g') \<in> set (rxm (Grp i r) (b, s, g))"
  then obtain g1 where m: "(b', s', g1) \<in> set (rxm r (b, s, g))"
    and g: "g' = (i, take (length s - length s') s) # g1" by auto
  from rxm_consumes [OF m] obtain u where "s = u @ s'" "b' = rev u @ b" by blast
  with m g show ?thesis by auto
qed

lemma rxm_GrpI:
  "(rev u @ b, s, g1) \<in> set (rxm r (b, u @ s, g)) \<Longrightarrow>
   (rev u @ b, s, (i, u) # g1) \<in> set (rxm (Grp i r) (b, u @ s, g))"
  by (force intro: rev_image_eqI)

text \<open>Every hit of \<open>findall\<close> is a match somewhere in the text.\<close>

lemma findall_from_match:
  "g \<in> set (findall_from r b s) \<Longrightarrow>
   \<exists>u v b' s'. s = u @ v \<and> (b', s', g) \<in> set (rxm r (rev u @ b, v, []))"
proof (induction r b s rule: findall_from.induct)
  case (1 r b s)
  let ?goal = "\<lambda>s b. \<exists>u v b' s'. s = u @ v \<and> (b', s', g) \<in> set (rxm r (rev u @ b, v, []))"
  have step: "?goal (c # s'') b" if "?goal s'' (c # b)" for c s''
  proof -
    from that obtain u v b' s' where "s'' = u @ v" "(b', s', g) \<in> set (rxm r (rev u @ c # b, v, []))"
      by blast
    then have "c # s'' = (c # u) @ v \<and> (b', s', g) \<in> set (rxm r (rev (c # u) @ b, v, []))" by simp
    then show ?thesis by blast
  qed
  show ?case
  proof (cases "rxm r (b, s, [])")
    case Nil
    then obtain c s'' where s: "s = c # s''" and g: "g \<in> set (findall_from r (c # b) s'')"
      using "1.prems" by (subst (asm) findall_from.simps) (auto split: list.splits)
    from "1.IH"(1) [OF Nil s g] step s show ?thesis by blast
  next
    case (Cons hit rest)
    obtain b' s' g' where hit: "hit = (b', s', g')" by (cases hit)
    with Cons have m: "(b', s', g') \<in> set (rxm r (b, s, []))" by simp
    from rxm_consumes [OF m] obtain w where w: "s = w @ s'" "b' = rev w @ b" by blast
    consider "g = g'" | "length s' < length s" "g \<in> set (findall_from r b' s')"
      | c s'' where "\<not> length s' < length s" "s = c # s''" "g \<in> set (findall_from r (c # b) s'')"
      using "1.prems" Cons hit by (subst (asm) findall_from.simps) (auto split: if_splits list.splits)
    then show ?thesis
    proof cases
      case 1
      with m have "s = [] @ s \<and> (b', s', g) \<in> set (rxm r (rev [] @ b, s, []))" by simp
      then show ?thesis by blast
    next
      case 2
      from "1.IH"(2) [OF Cons hit [symmetric] refl 2] w show ?thesis
        by (metis append.assoc rev_append)
    next
      case (3 c s'')
      from "1.IH"(3) [OF Cons hit [symmetric] refl 3] step 3 show ?thesis by blast
    qed
  qed
qed

end
