(* ===== verification/LandingGate.thy ===== *)
theory LandingGate
  imports Models Regex "HOL-Library.List_Lexorder" "HOL-Library.Char_ord"
begin

text \<open>
  The landing gate of \<^verbatim>\<open>core/landing_gate.py\<close>: which task lands which artifact, what the
  latest completed reviewer said about it, and why a landing must be held back. The regular
  expressions are those of the source, over the matcher of theory \<open>Regex\<close>.
\<close>

section \<open>Patterns\<close>

definition LAND_LANE_RE :: rx where
  "LAND_LANE_RE =
     Seqs [Bol, Grp 1 (Plus not_newline), Lit ''#land-'', Grp 2 (Plus is_digit), Eol]"

definition LAND_TITLE_RE :: rx where
  "LAND_TITLE_RE =
     Seqs [Bol, Star (\<lambda>c. \<not> is_word c), Grp 1 (Alt (LitCI ''LAND'') (LitCI ''LANDING'')), WordB]"

definition SHA_RE :: rx where
  "SHA_RE = Seqs [NotBehind is_hex, Grp 1 (Rep 7 (Some 40) True is_hex), NotAhead is_hex]"

definition VERDICT_RE :: rx where
  "VERDICT_RE =
     Seqs [LitCI ''verdict'', Rep 0 (Some 4) True (ci (\<lambda>c. \<not> (is_lower c \<or> is_upper c))),
           Rep 0 (Some 2) True (is_char CHR ''*''), Star is_space, Opt (is_char CHR '':''),
           Star is_space, Rep 0 (Some 2) True (is_char CHR ''*''), Star is_space,
           Grp 1 (Alts [LitCI ''PASS'', LitCI ''NEEDS-CHANGES'', LitCI ''NEEDS_CHANGES'',
                        LitCI ''NEEDS-HUMAN'', LitCI ''INCOMPLETE-ROSTER''])]"

definition VERDICT_SHA_RE :: rx where
  "VERDICT_SHA_RE =
     Seqs [Alts [LitCI ''SHA'', LitCI ''Head sha'', LitCI ''Head''],
           Rep 0 (Some 2) True (is_char CHR ''*''), Star is_space,
           Rep 0 (Some 12) True (ci is_lower), Rep 0 (Some 2) True (is_char CHR ''*''),
           Star is_space, Opt (is_char CHR '':''), Star is_space,
           Rep 0 (Some 2) True (is_char CHR ''*''), Star is_space,
           Rep 0 (Some 1) False (is_char CHR '':''), Star is_space, Star (is_char CHR ''*''),
           Star is_space, Opt (is_char CHR 0x60), Grp 1 (Rep 7 (Some 40) True (ci is_hex)),
           Opt (is_char CHR 0x60)]"

definition ARTIFACT_REF_RE :: rx where
  "ARTIFACT_REF_RE =
     Seqs [Grp 1 (Plus (\<lambda>c. is_word c \<or> c \<in> {CHR ''.'', CHR ''/'', CHR ''-''})),
           Lit ''!'', Grp 2 (Plus is_digit)]"

definition LEADING_NUM_RE :: rx where
  "LEADING_NUM_RE = Seqs [Bol, Grp 1 (Plus is_digit)]"

definition full_ref_re :: "string \<Rightarrow> string \<Rightarrow> string \<Rightarrow> rx" where
  "full_ref_re repo tail n = Seqs [Alt (Lit repo) (Lit tail), Lit ''!'', Lit n, WordB]"

definition mr_pr_re :: "string \<Rightarrow> rx" where
  "mr_pr_re n =
     Seqs [WordB, Alt (Lit ''MR'') (Lit ''PR''), Star is_space,
           Opt (\<lambda>c. c = CHR ''#'' \<or> c = CHR ''!''), Star is_space, Lit n, WordB]"

section \<open>The gate\<close>

definition landing_artifact :: "task \<Rightarrow> (string \<times> string) option" where
  "landing_artifact t =
     (case re_match LAND_LANE_RE (t_lane_key t) of
        Some g \<Rightarrow> Some (strip (group 1 g), group 2 g)
      | None \<Rightarrow>
          (case re_match LAND_TITLE_RE (strip (t_title t)) of
             None \<Rightarrow> None
           | Some _ \<Rightarrow>
               (case re_search ARTIFACT_REF_RE (t_title t) of
                  None \<Rightarrow> None
                | Some g \<Rightarrow> Some (rstrip_char CHR ''/'' (group 1 g), group 2 g))))"

definition replace_char :: "char \<Rightarrow> char \<Rightarrow> string \<Rightarrow> string" where
  "replace_char a b s = map (\<lambda>c. if c = a then b else c) s"

definition parse_reviewer_verdict :: "string \<Rightarrow> string option \<times> string option" where
  "parse_reviewer_verdict result =
     (if result = [] then (None, None)
      else let hits = re_findall VERDICT_RE result
           in if hits = [] then (None, None)
              else let verdict = replace_char CHR ''_'' CHR ''-'' (upper (last hits));
                       shas = re_findall VERDICT_SHA_RE result
                   in (Some verdict, if shas = [] then None else Some (lower (last shas))))"

text \<open>\<open>s.split(\"/\")[-1]\<close> and \<open>s.partition(\"!\")\<close>.\<close>

definition path_tail :: "string \<Rightarrow> string" where
  "path_tail s = rev (takeWhile (\<lambda>c. c \<noteq> CHR ''/'') (rev s))"

definition partition_char :: "char \<Rightarrow> string \<Rightarrow> string \<times> string" where
  "partition_char c s = (takeWhile (\<lambda>x. x \<noteq> c) s, drop 1 (dropWhile (\<lambda>x. x \<noteq> c) s))"

definition reviewer_of :: "task \<Rightarrow> string \<Rightarrow> string \<Rightarrow> bool" where
  "reviewer_of t repo n =
     (if lower (strip (t_role t)) \<noteq> ''reviewer'' then False
      else if task_status_value (t_status t) \<noteq> task_status_value Completed then False
      else
        let lane = t_lane_key t; title = t_title t;
            tail = path_tail (rstrip_char CHR ''/'' repo);
            lane_hit =
              (if contains ''!'' lane
               then let (lane_repo, lane_num) = partition_char CHR ''!'' lane
                    in case re_match LEADING_NUM_RE lane_num of
                         None \<Rightarrow> False
                       | Some g \<Rightarrow> group 1 g = n \<and> path_tail (rstrip_char CHR ''/'' lane_repo) = tail
               else False)
        in if lane_hit then True
           else if re_search (full_ref_re repo tail n) title \<noteq> None then True
           else re_search (mr_pr_re n) title \<noteq> None \<and> (contains tail lane \<or> contains tail title))"

text \<open>Python's \<open>max(xs, key=...)\<close>: the first element whose key is greatest.\<close>

fun max_key :: "('a \<Rightarrow> 'b::linorder) \<Rightarrow> 'a list \<Rightarrow> 'a option" where
  "max_key key [] = None"
| "max_key key (x # xs) = Some (fold (\<lambda>y best. if key best < key y then y else best) xs x)"

definition latest_reviewer_verdict ::
  "task list \<Rightarrow> string \<Rightarrow> string \<Rightarrow> string option \<times> string option \<times> string" where
  "latest_reviewer_verdict all_tasks repo n =
     (case max_key (\<lambda>t. (t_updated_at t, t_version t)) (filter (\<lambda>t. reviewer_of t repo n) all_tasks) of
        None \<Rightarrow> (None, None, [])
      | Some latest \<Rightarrow>
          (let (verdict, sha) = parse_reviewer_verdict (case t_result latest of None \<Rightarrow> [] | Some r \<Rightarrow> r)
           in (verdict, sha, t_id latest)))"

definition artifact_ref :: "string \<Rightarrow> string \<Rightarrow> string" where
  "artifact_ref repo n = repo @ ''!'' @ n"

definition authoring_lanes :: "task list \<Rightarrow> string \<Rightarrow> string \<Rightarrow> string \<Rightarrow> string list" where
  "authoring_lanes all_tasks repo n exclude_task_id =
     filter (\<lambda>l. l \<noteq> [])
       (map (\<lambda>t. strip (t_lane_key t))
         (filter (\<lambda>t. t_id t \<noteq> exclude_task_id \<and> artifact_ref repo n \<in> set (t_issues t)) all_tasks))"

text \<open>\<open>repr\<close> of a string.\<close>

definition hex_digit :: "nat \<Rightarrow> char" where
  "hex_digit d = char_of (if d < 10 then 48 + d else 87 + d)"

definition repr_char :: "char \<Rightarrow> char \<Rightarrow> string" where
  "repr_char q c =
     (let n = of_char c :: nat in
      if c = q \<or> n = 92 then [char_of (92::nat), c]
      else if n = 10 then [char_of (92::nat), CHR ''n'']
      else if n = 13 then [char_of (92::nat), CHR ''r'']
      else if n = 9 then [char_of (92::nat), CHR ''t'']
      else if n < 32 \<or> n = 127
           then [char_of (92::nat), CHR ''x'', hex_digit (n div 16), hex_digit (n mod 16)]
      else [c])"

definition py_repr :: "string \<Rightarrow> string" where
  "py_repr s =
     (let q = (if CHR 0x27 \<in> set s \<and> CHR 0x22 \<notin> set s then CHR 0x22 else CHR 0x27)
      in [q] @ concat (map (repr_char q) s) @ [q])"

definition sha_matches :: "string \<Rightarrow> string \<Rightarrow> bool" where
  "sha_matches vsha s \<longleftrightarrow> startswith vsha s \<or> startswith s vsha"

definition named_shas :: "string \<Rightarrow> string list" where
  "named_shas title = remdups (map lower (re_findall SHA_RE title))"

definition hold_reason :: "task list \<Rightarrow> task \<Rightarrow> string option" where
  "hold_reason all_tasks t =
     (case landing_artifact t of
        None \<Rightarrow> None
      | Some (repo, n) \<Rightarrow>
          let lane = strip (t_lane_key t); title = t_title t; target = artifact_ref repo n
          in if lane = target
             then Some (''landing held (#914): the lander lane '' @ py_repr lane @ '' is the ''
                        @ ''reviewer lane of '' @ target @ '' '' @ em_dash @ '' a reviewer never lands what ''
                        @ ''it reviewed (RV-1)'')
             else if lane \<noteq> [] \<and> lane \<in> set (authoring_lanes all_tasks repo n (t_id t))
             then Some (''landing held (#914): lane '' @ py_repr lane @ '' authored '' @ target
                        @ '' (carries it in issues) '' @ em_dash @ '' author != lander (RV-1)'')
             else case latest_reviewer_verdict all_tasks repo n of
                (None, _, _) \<Rightarrow>
                  Some (''landing held (#914): no completed reviewer verdict on '' @ target
                        @ '' carries a verdict word '' @ em_dash @ '' '' @ [CHR 0x27] @ ''completed'' @ [CHR 0x27]
                        @ '' is not a pass (#871); re-review or cite the PASS note'' @ [CHR 0x27] @ ''s sha'')
              | (Some verdict, vsha, rid) \<Rightarrow>
                  if verdict \<noteq> ''PASS''
                  then Some (''landing held (#914): the LATEST reviewer verdict on '' @ target @ '' is ''
                             @ verdict @ '' (task '' @ rid @ '') '' @ em_dash @ '' a rejected review ''
                             @ ''is never overridden by a landing brief'' @ [CHR 0x27] @ ''s claim'')
                  else case vsha of
                     None \<Rightarrow>
                       Some (''landing held (#914): the PASS on '' @ target @ '' (task '' @ rid @ '') ''
                             @ ''pins no head sha '' @ em_dash @ '' a sha-less verdict certifies no head'')
                   | Some v \<Rightarrow>
                       if v = []
                       then Some (''landing held (#914): the PASS on '' @ target @ '' (task '' @ rid @ '') ''
                             @ ''pins no head sha '' @ em_dash @ '' a sha-less verdict certifies no head'')
                       else if \<not> list_ex (sha_matches v) (named_shas title)
                       then Some (''landing held (#914): reviewer PASS pins sha '' @ v @ '' ('' @ target
                             @ '', task '' @ rid @ '') but the landing names ''
                             @ (let names = join '', '' (sort (named_shas title))
                                in if names = [] then ''(no sha)'' else names)
                             @ '' '' @ em_dash @ '' a verdict at one head does not certify another (stale/merge-forward ''
                             @ ''supersede)'')
                       else None)"

section \<open>What the gate guarantees\<close>

lemma fold_max_key:
  "(let m = fold (\<lambda>y best. if key best < key y then y else best) xs x
    in (m = x \<or> m \<in> set xs) \<and> key x \<le> key m \<and> (\<forall>y \<in> set xs. key y \<le> (key m :: 'b::linorder)))"
proof (induction xs arbitrary: x)
  case (Cons y xs)
  then show ?case using Cons.IH [of x] Cons.IH [of y]
    by (auto simp: Let_def not_less intro: order_trans less_imp_le)
qed simp

lemma max_key_Some:
  "max_key key xs = Some m \<Longrightarrow> m \<in> set xs \<and> (\<forall>y \<in> set xs. key y \<le> key m)"
proof (cases xs)
  case (Cons x ys)
  assume "max_key key xs = Some m"
  with Cons have "fold (\<lambda>y best. if key best < key y then y else best) ys x = m" by simp
  with fold_max_key [of key ys x] Cons show ?thesis by (auto simp: Let_def)
qed simp

text \<open>The group of a capturing repetition followed by more pattern.\<close>

lemma Seqs_group_hex:
  assumes "(b', s', g) \<in> set (rxm (Seqs (rs @ [Grp 1 (Rep lo hi gr f), r'])) (b, s, []))"
    and "\<forall>p q. q \<in> set (rxm r' p) \<longrightarrow> snd (snd q) = snd (snd p)"
  shows "list_all f (group 1 g) \<and> lo \<le> length (group 1 g) \<and>
         (\<forall>h. hi = Some h \<longrightarrow> length (group 1 g) \<le> h)"
proof -
  have gen: "list_all f (group 1 g) \<and> lo \<le> length (group 1 g) \<and>
         (\<forall>h. hi = Some h \<longrightarrow> length (group 1 g) \<le> h)"
    if "(b', s', g) \<in> set (rxm (Seqs (rs @ [Grp 1 (Rep lo hi gr f), r'])) (b, s, g0))" for b s g0
    using that
  proof (induction rs arbitrary: b s g0)
    case Nil
    then obtain b1 s1 g1 where m: "(b1, s1, g1) \<in> set (rxm (Grp 1 (Rep lo hi gr f)) (b, s, g0))"
      "(b', s', g) \<in> set (rxm r' (b1, s1, g1))" by (auto simp del: rxm.simps(5,7))
    from assms(2) m(2) have "g = g1" by fastforce
    from rxm_GrpD [OF m(1)] obtain u g2 where u: "s = u @ s1" "g1 = (1, u) # g2"
      "(b1, s1, g2) \<in> set (rxm (Rep lo hi gr f) (b, s, g0))" by blast
    from rxm_RepD [OF u(3)] u(1) have "list_all f u \<and> lo \<le> length u \<and> (\<forall>h. hi = Some h \<longrightarrow> length u \<le> h)"
      by auto
    with \<open>g = g1\<close> u(2) show ?case by (simp add: group_def)
  next
    case (Cons r rs)
    then obtain b1 s1 g1 where "(b', s', g) \<in> set (rxm (Seqs (rs @ [Grp 1 (Rep lo hi gr f), r'])) (b1, s1, g1))"
      by (auto simp del: rxm.simps)
    then show ?case by (rule Cons.IH)
  qed
  from gen [OF assms(1)] show ?thesis .
qed

lemma lower_ci_hex: "list_all (ci is_hex) u \<Longrightarrow> list_all is_hex (lower u)"
  by (simp add: lower_def list_all_iff ci_def)

lemma parsed_sha_hex:
  assumes "parse_reviewer_verdict result = (v, Some sha)"
  shows "7 \<le> length sha \<and> length sha \<le> 40 \<and> list_all is_hex sha"
proof -
  from assms have "re_findall VERDICT_SHA_RE result \<noteq> []"
    and sha: "sha = lower (last (re_findall VERDICT_SHA_RE result))"
    by (auto simp: parse_reviewer_verdict_def Let_def split: if_splits)
  then have "last (re_findall VERDICT_SHA_RE result) \<in> set (re_findall VERDICT_SHA_RE result)" by simp
  then obtain g where g: "g \<in> set (findall_from VERDICT_SHA_RE [] result)"
    and s: "last (re_findall VERDICT_SHA_RE result) = group 1 g"
    by (auto simp: re_findall_def)
  from findall_from_match [OF g] obtain b s b' s' where
    m: "(b', s', g) \<in> set (rxm VERDICT_SHA_RE (b, s, []))" by blast
  let ?rs = "[Alts [LitCI ''SHA'', LitCI ''Head sha'', LitCI ''Head''],
           Rep 0 (Some 2) True (is_char CHR ''*''), Star is_space,
           Rep 0 (Some 12) True (ci is_lower), Rep 0 (Some 2) True (is_char CHR ''*''),
           Star is_space, Opt (is_char CHR '':''), Star is_space,
           Rep 0 (Some 2) True (is_char CHR ''*''), Star is_space,
           Rep 0 (Some 1) False (is_char CHR '':''), Star is_space, Star (is_char CHR ''*''),
           Star is_space, Opt (is_char CHR 0x60)]"
  have re: "VERDICT_SHA_RE =
      Seqs (?rs @ [Grp 1 (Rep 7 (Some 40) True (ci is_hex)), Opt (is_char CHR 0x60)])"
    by (simp only: VERDICT_SHA_RE_def append.simps)
  have tick: "\<forall>p q. q \<in> set (rxm (Opt (is_char CHR 0x60)) p) \<longrightarrow> snd (snd q) = snd (snd p)"
    by (auto simp del: rxm.simps dest!: rxm_RepD)
  from Seqs_group_hex [OF m [unfolded re] tick]
  have "list_all (ci is_hex) (group 1 g) \<and> 7 \<le> length (group 1 g) \<and>
        (\<forall>h. Some 40 = Some h \<longrightarrow> length (group 1 g) \<le> h)" .
  with sha s lower_ci_hex [of "group 1 g"] show ?thesis by (simp add: lower_def)
qed

lemma latest_reviewer_verdict_Some:
  assumes "latest_reviewer_verdict ts repo n = (Some v, sha, rid)"
  shows "\<exists>r \<in> set ts. reviewer_of r repo n \<and> t_id r = rid \<and>
     parse_reviewer_verdict (case t_result r of None \<Rightarrow> [] | Some x \<Rightarrow> x) = (Some v, sha) \<and>
     (\<forall>u \<in> set ts. reviewer_of u repo n \<longrightarrow> (t_updated_at u, t_version u) \<le> (t_updated_at r, t_version r))"
proof -
  from assms obtain r where r: "max_key (\<lambda>t. (t_updated_at t, t_version t))
      (filter (\<lambda>t. reviewer_of t repo n) ts) = Some r" "t_id r = rid"
    "parse_reviewer_verdict (case t_result r of None \<Rightarrow> [] | Some x \<Rightarrow> x) = (Some v, sha)"
    by (auto simp: latest_reviewer_verdict_def split: option.splits prod.splits)
  from max_key_Some [OF r(1)] r(2,3) show ?thesis by auto
qed

lemma hold_reason_None_landing:
  assumes a: "landing_artifact t = Some (repo, n)" and h: "hold_reason ts t = None"
  shows "strip (t_lane_key t) \<noteq> artifact_ref repo n \<and>
     (strip (t_lane_key t) \<noteq> [] \<longrightarrow> strip (t_lane_key t) \<notin> set (authoring_lanes ts repo n (t_id t))) \<and>
     (\<exists>sha rid. latest_reviewer_verdict ts repo n = (Some ''PASS'', Some sha, rid) \<and>
        list_ex (sha_matches sha) (named_shas (t_title t)))"
proof -
  obtain v vsha rid where l: "latest_reviewer_verdict ts repo n = (v, vsha, rid)"
    by (metis prod_cases3)
  from h a l show ?thesis
    by (auto simp: hold_reason_def Let_def split: if_splits option.splits)
qed

text \<open>The land-lane pattern reads \<open><repo>#land-<n>\<close> back in exactly one way.\<close>

lemma digits_suffix_unique:
  assumes "a @ ''#land-'' @ d = repo @ ''#land-'' @ n" and "list_all is_digit d" "list_all is_digit n"
  shows "a = repo \<and> d = n"
proof -
  have tw: "takeWhile is_digit (rev (x @ ''#land-'' @ y)) = rev y" if "list_all is_digit y" for x y
  proof -
    have "rev (x @ ''#land-'' @ y) = rev y @ (CHR ''-'' # rev ''#land'' @ rev x)" by simp
    moreover have "\<not> is_digit CHR ''-''" by (simp add: is_digit_def)
    moreover have "\<forall>c \<in> set (rev y). is_digit c" using that by (simp add: list_all_iff)
    ultimately show ?thesis by (simp only: takeWhile_append2) simp
  qed
  have "rev d = rev n" using tw [OF assms(2), of a] tw [OF assms(3), of repo] unfolding assms(1) by metis
  then have "d = n" by simp
  with assms(1) show ?thesis by simp
qed

lemma land_lane_sound:
  assumes "(b', s', g) \<in> set (rxm LAND_LANE_RE ([], lane, []))"
  shows "\<exists>a d. lane = a @ ''#land-'' @ d @ s' \<and> list_all is_digit d \<and> d \<noteq> [] \<and>
     (s' = [] \<or> s' = [CHR 0x0A]) \<and> group 1 g = a \<and> group 2 g = d"
proof -
  from assms obtain b1 s1 g1 b2 s2 g2 b3 s3 g3 where
    m: "(b1, s1, g1) \<in> set (rxm (Grp 1 (Plus not_newline)) ([], lane, []))"
      "(b2, s2, g2) \<in> set (rxm (Lit ''#land-'') (b1, s1, g1))"
      "(b3, s3, g3) \<in> set (rxm (Grp 2 (Plus is_digit)) (b2, s2, g2))"
      "(b', s', g) \<in> set (rxm Eol (b3, s3, g3))"
  proof -
    have bol: "(x, y, z) \<in> set (rxm Bol ([], lane, [])) \<Longrightarrow> x = [] \<and> y = lane \<and> z = []" for x y z
      by simp
    have fin: "(b', s', g) \<in> set (rxm (Seqs []) q) \<Longrightarrow> q = (b', s', g)" for q by simp
    from assms show ?thesis
      unfolding LAND_LANE_RE_def by (elim rxm_SeqsE) (drule bol, drule fin, metis that)
  qed
  from rxm_GrpD [OF m(1)] obtain a where a: "lane = a @ s1" "g1 = [(1, a)]"
    by (auto dest!: rxm_RepD simp del: rxm.simps)
  from m(2) have l: "s1 = ''#land-'' @ s2" "g2 = g1"
    unfolding rxm_Lit by (auto simp: startswith_iff split: if_splits)
  from rxm_GrpD [OF m(3)] obtain d where d: "s2 = d @ s3" "g3 = (2, d) # g2" "list_all is_digit d" "d \<noteq> []"
    by (fastforce dest!: rxm_RepD simp del: rxm.simps)
  from m(4) have e: "s' = s3" "g = g3" "s' = [] \<or> s' = [CHR 0x0A]" by (auto split: if_splits)
  from a l d e show ?thesis by (auto simp: group_def)
qed

lemma land_lane_complete:
  assumes "repo \<noteq> []" "list_all not_newline repo" "n \<noteq> []" "list_all is_digit n"
  shows "rxm LAND_LANE_RE ([], repo @ ''#land-'' @ n, []) \<noteq> []"
proof -
  let ?b = "rev n @ rev ''#land-'' @ rev repo @ []"
  have "(rev repo @ [], ''#land-'' @ n, [(1, repo)]) \<in>
        set (rxm (Grp 1 (Plus not_newline)) ([], repo @ ''#land-'' @ n, []))"
    by (intro rxm_GrpI rxm_RepI) (use assms in \<open>auto simp: Suc_le_eq\<close>)
  moreover have "(rev ''#land-'' @ rev repo @ [], n, [(1, repo)]) \<in>
        set (rxm (Lit ''#land-'') (rev repo @ [], ''#land-'' @ n, [(1, repo)]))"
    unfolding rxm_Lit by (simp add: startswith_def)
  moreover have "(rev n @ rev ''#land-'' @ rev repo @ [], [], (2, n) # [(1, repo)]) \<in>
        set (rxm (Grp 2 (Plus is_digit)) (rev ''#land-'' @ rev repo @ [], n @ [], [(1, repo)]))"
    by (intro rxm_GrpI rxm_RepI) (use assms in \<open>auto simp: Suc_le_eq\<close>)
  moreover have "(?b, [], (2, n) # [(1, repo)]) \<in> set (rxm (Seqs [Eol]) (?b, [], (2, n) # [(1, repo)]))"
    by simp
  moreover have "([], repo @ ''#land-'' @ n, []) \<in> set (rxm Bol ([], repo @ ''#land-'' @ n, []))" by simp
  ultimately have "(?b, [], (2, n) # [(1, repo)]) \<in> set (rxm LAND_LANE_RE ([], repo @ ''#land-'' @ n, []))"
    unfolding LAND_LANE_RE_def append_Nil2 by (elim rxm_SeqsI)
  then show ?thesis by auto
qed

lemma landing_artifact_lane:
  assumes "repo \<noteq> []" "list_all not_newline repo" "n \<noteq> []" "list_all is_digit n"
    and lane: "t_lane_key t = repo @ ''#land-'' @ n"
  shows "landing_artifact t = Some (strip repo, n)"
proof -
  from land_lane_complete [OF assms(1-4)] obtain b s g ps where
    hd: "rxm LAND_LANE_RE ([], repo @ ''#land-'' @ n, []) = (b, s, g) # ps"
    by (metis list.exhaust prod_cases3)
  then have "(b, s, g) \<in> set (rxm LAND_LANE_RE ([], repo @ ''#land-'' @ n, []))" by simp
  from land_lane_sound [OF this] obtain a d where ad: "repo @ ''#land-'' @ n = a @ ''#land-'' @ d @ s"
    "list_all is_digit d" "s = [] \<or> s = [CHR 0x0A]" "group 1 g = a" "group 2 g = d" by blast
  have "s = []"
  proof (rule ccontr)
    assume "s \<noteq> []"
    with ad have "last (repo @ ''#land-'' @ n) = CHR 0x0A" by auto
    moreover have "last (repo @ ''#land-'' @ n) \<in> set n" using assms(3) by simp
    ultimately have "is_digit CHR 0x0A" using assms(4) by (auto simp: list_all_iff)
    then show False by (simp add: is_digit_def)
  qed
  with ad have "a @ ''#land-'' @ d = repo @ ''#land-'' @ n" by simp
  from digits_suffix_unique [OF this ad(2) assms(4)] ad hd show ?thesis
    by (simp add: landing_artifact_def re_match_def first_opt_def lane)
qed

end
