(* ===== verification/ClusterState.thy ===== *)
theory ClusterState
  imports Scheduler LandingGate
begin

text \<open>
  The in-memory state of the cluster, class \<open>ClusterState\<close> of
  \<^verbatim>\<open>hermes_cluster/state/__init__.py\<close>, and the operations of its three main stores: the node
  registry, the task store and the lease table. Every operation is a function from the state to
  the returned value and the new state; the clock reading is the argument \<open>now\<close>. A Python dict
  holding objects is an insertion-ordered dictionary; mutating an object through the dict is an
  assignment at its key. Calls of callbacks registered by other parts of the program are recorded
  in \<open>cs_cb_log\<close>, in the order they are made; an exception a callback raises is swallowed by the
  source and leaves no trace in the state.
\<close>

text \<open>Lookups are kept as lookups, never turned into membership of pairs.\<close>

declare map_of_eq_Some_iff [simp del] Some_eq_map_of_iff [simp del]

section \<open>The state\<close>

datatype callback =
  NodeOnline string
| CapabilityChange string "string list" "string list"
| LeaseExpired string string

record spawn =
  sp_task_id :: string
  sp_mode :: string
  sp_job_id :: string
  sp_pid :: int
  sp_started_at :: rat
  sp_lease_id :: string
  sp_lane_name :: string
  sp_result_path :: string
  sp_lane_key :: string
  sp_role :: string
  sp_session_id :: string
  sp_attempt :: int

record lane =
  ln_lane_key :: string
  ln_session_id :: string
  ln_profile :: string
  ln_role :: string
  ln_node :: string
  ln_created_at :: rat
  ln_last_active_at :: rat
  ln_last_task_id :: string

record cluster_state =
  cs_nodes :: "(string, node) dict"
  cs_on_node_online :: bool
  cs_on_capability_change :: bool
  cs_tasks :: "(string, task) dict"
  cs_leases :: "(string, lease) dict"
  cs_task_lease_index :: "(string, string) dict"
  cs_lease_callback :: bool
  cs_sync_version :: int
  cs_recovery_events :: "recovery_event list"
  cs_decisions :: "scheduling_decision list"
  cs_max_decisions :: nat
  cs_fair_scheduler :: fair
  cs_clusters :: "(string, remote_cluster) dict"
  cs_hooks :: "(string, hook) dict"
  cs_deliveries :: "delivery list"
  cs_max_deliveries :: nat
  cs_config :: "(string, string) dict option"
  cs_config_path :: string
  cs_task_spawns :: "(string, spawn) dict"
  cs_lanes :: "(string, lane) dict"
  cs_started_at :: time
  cs_cluster_id :: string
  cs_node_id :: string
  cs_node_role :: string
  cs_cb_log :: "callback list"
  cs_rng :: "nat \<Rightarrow> string"
  cs_draws :: nat

definition init_state :: "time \<Rightarrow> (nat \<Rightarrow> string) \<Rightarrow> cluster_state" where
  "init_state now rng =
     \<lparr>cs_nodes = [], cs_on_node_online = False, cs_on_capability_change = False,
      cs_tasks = [], cs_leases = [], cs_task_lease_index = [], cs_lease_callback = False,
      cs_sync_version = 0, cs_recovery_events = [], cs_decisions = [], cs_max_decisions = 200,
      cs_fair_scheduler = init_fair, cs_clusters = [], cs_hooks = [], cs_deliveries = [],
      cs_max_deliveries = 1000, cs_config = None, cs_config_path = [], cs_task_spawns = [],
      cs_lanes = [], cs_started_at = now, cs_cluster_id = ''cluster_default'',
      cs_node_id = ''node_main'', cs_node_role = ''main'', cs_cb_log = [],
      cs_rng = rng, cs_draws = 0\<rparr>"

text \<open>\<open>_generate_id(prefix)\<close> draws one token.\<close>

definition generate_id :: "string \<Rightarrow> cluster_state \<Rightarrow> string \<times> cluster_state" where
  "generate_id prefix s = (gen_id prefix (cs_rng s) (cs_draws s), s\<lparr>cs_draws := Suc (cs_draws s)\<rparr>)"

section \<open>Node registry\<close>

definition log_callback :: "bool \<Rightarrow> callback \<Rightarrow> cluster_state \<Rightarrow> cluster_state" where
  "log_callback registered c s = (if registered then s\<lparr>cs_cb_log := cs_cb_log s @ [c]\<rparr> else s)"

definition register_node :: "node \<Rightarrow> cluster_state \<Rightarrow> cluster_state" where
  "register_node n s =
     (let n' = (case dict_get (cs_nodes s) (n_id n) of
                  None \<Rightarrow> n
                | Some existing \<Rightarrow> if n_drained existing then n\<lparr>n_drained := True\<rparr> else n);
          s1 = s\<lparr>cs_nodes := dict_set (n_id n) n' (cs_nodes s)\<rparr>
      in log_callback (cs_on_node_online s) (NodeOnline (n_id n)) s1)"

definition get_node :: "cluster_state \<Rightarrow> string \<Rightarrow> node option" where
  "get_node s node_id = dict_get (cs_nodes s) node_id"

definition get_all_nodes :: "cluster_state \<Rightarrow> node list" where
  "get_all_nodes s = dict_values (cs_nodes s)"

text \<open>Mutating the node object stored under a key, when there is one.\<close>

definition modify_node :: "string \<Rightarrow> (node \<Rightarrow> node) \<Rightarrow> cluster_state \<Rightarrow> cluster_state" where
  "modify_node node_id f s =
     (case dict_get (cs_nodes s) node_id of
        None \<Rightarrow> s
      | Some n \<Rightarrow> s\<lparr>cs_nodes := dict_set node_id (f n) (cs_nodes s)\<rparr>)"

definition keep_or :: "'a option \<Rightarrow> 'a option \<Rightarrow> 'a option" where
  "keep_or old new = (case new of None \<Rightarrow> old | Some x \<Rightarrow> Some x)"

definition update_heartbeat ::
  "time \<Rightarrow> string \<Rightarrow> rat \<Rightarrow> rat option \<Rightarrow> string \<Rightarrow> rat option \<Rightarrow> int option \<Rightarrow> bool option \<Rightarrow>
   cluster_state \<Rightarrow> cluster_state" where
  "update_heartbeat now node_id load disk_free_gb status_reason cpu_load_pct lane_count
     duplicate_executor =
     modify_node node_id (\<lambda>n.
       n\<lparr>n_last_heartbeat := now,
         n_status := (if status_reason \<noteq> [] then Degraded else Online),
         n_status_reason := status_reason,
         n_disk_free_gb := keep_or (n_disk_free_gb n) disk_free_gb,
         n_cpu_load_pct := keep_or (n_cpu_load_pct n) cpu_load_pct,
         n_lane_count := keep_or (n_lane_count n) lane_count,
         n_duplicate_executor := keep_or (n_duplicate_executor n) duplicate_executor,
         n_load := load\<rparr>)"

definition update_capabilities :: "string \<Rightarrow> string list \<Rightarrow> cluster_state \<Rightarrow> cluster_state" where
  "update_capabilities node_id caps s =
     (case dict_get (cs_nodes s) node_id of
        None \<Rightarrow> s
      | Some n \<Rightarrow>
          log_callback (cs_on_capability_change s) (CapabilityChange node_id (n_capabilities n) caps)
            (modify_node node_id (n_capabilities_update (\<lambda>_. caps)) s))"

definition set_drained :: "string \<Rightarrow> bool \<Rightarrow> cluster_state \<Rightarrow> cluster_state" where
  "set_drained node_id drained = modify_node node_id (n_drained_update (\<lambda>_. drained))"

definition update_max_concurrent :: "string \<Rightarrow> int \<Rightarrow> cluster_state \<Rightarrow> cluster_state" where
  "update_max_concurrent node_id max_concurrent =
     modify_node node_id (n_max_concurrent_update (\<lambda>_. max 0 max_concurrent))"

definition update_instance_token :: "string \<Rightarrow> string \<Rightarrow> cluster_state \<Rightarrow> cluster_state" where
  "update_instance_token node_id instance_token =
     modify_node node_id (n_instance_token_update (\<lambda>_. instance_token))"

definition node_count :: "cluster_state \<Rightarrow> nat" where
  "node_count s = length (cs_nodes s)"

definition online_count :: "cluster_state \<Rightarrow> nat" where
  "online_count s = length (filter (\<lambda>n. n_status n = Online) (dict_values (cs_nodes s)))"

definition set_on_node_online :: "cluster_state \<Rightarrow> cluster_state" where
  "set_on_node_online s = s\<lparr>cs_on_node_online := True\<rparr>"

definition set_on_capability_change :: "cluster_state \<Rightarrow> cluster_state" where
  "set_on_capability_change s = s\<lparr>cs_on_capability_change := True\<rparr>"

definition set_node_status :: "string \<Rightarrow> node_status \<Rightarrow> string \<Rightarrow> cluster_state \<Rightarrow> cluster_state" where
  "set_node_status node_id status reason =
     modify_node node_id (\<lambda>n. n\<lparr>n_status := status,
       n_status_reason := (if status \<noteq> Online then reason else [])\<rparr>)"

definition append_timeline :: "'e \<Rightarrow> cluster_state \<Rightarrow> cluster_state" where
  "append_timeline event s = s"

section \<open>Lease table\<close>

definition create_lease ::
  "time \<Rightarrow> string \<Rightarrow> string \<Rightarrow> duration \<Rightarrow> cluster_state \<Rightarrow> lease \<times> cluster_state" where
  "create_lease now task_id node_id ttl s =
     (let (lease_id, s1) = generate_id ''lease'' s;
          l = \<lparr>l_id = lease_id, l_task_id = task_id, l_node_id = node_id,
               l_created_at = now, l_expires_at = now + ttl, l_status = Active\<rparr>
      in (l, s1\<lparr>cs_leases := dict_set lease_id l (cs_leases s1),
                cs_task_lease_index := dict_set task_id lease_id (cs_task_lease_index s1)\<rparr>))"

definition revoke_lease :: "string \<Rightarrow> cluster_state \<Rightarrow> bool \<times> cluster_state" where
  "revoke_lease lease_id s =
     (case dict_get (cs_leases s) lease_id of
        None \<Rightarrow> (False, s)
      | Some l \<Rightarrow>
          (True, s\<lparr>cs_leases := dict_set lease_id (l\<lparr>l_status := Revoked\<rparr>) (cs_leases s),
                   cs_task_lease_index := dict_del (l_task_id l) (cs_task_lease_index s)\<rparr>))"

definition lease_live :: "time \<Rightarrow> lease \<Rightarrow> bool" where
  "lease_live now l \<longleftrightarrow> l_status l = Active \<and> now < l_expires_at l"

definition lease_due :: "time \<Rightarrow> lease \<Rightarrow> bool" where
  "lease_due now l \<longleftrightarrow> l_status l = Active \<and> l_expires_at l \<le> now"

text \<open>
  One pass over the table: live leases are returned, due ones are marked expired and reported to
  the callback in table order.
\<close>

fun active_pass :: "time \<Rightarrow> (string, lease) dict \<Rightarrow> lease list \<times> (string, lease) dict \<times> callback list" where
  "active_pass now [] = ([], [], [])"
| "active_pass now ((k, l) # ls) =
     (case active_pass now ls of (active, ls', fired) \<Rightarrow>
        if l_status l = Active \<and> now < l_expires_at l then (l # active, (k, l) # ls', fired)
        else if l_status l = Active \<and> l_expires_at l \<le> now
             then (active, (k, l\<lparr>l_status := Expired\<rparr>) # ls',
                   LeaseExpired (l_task_id l) (l_node_id l) # fired)
             else (active, (k, l) # ls', fired))"

definition get_active_leases :: "time \<Rightarrow> cluster_state \<Rightarrow> lease list \<times> cluster_state" where
  "get_active_leases now s =
     (case active_pass now (cs_leases s) of (active, ls, fired) \<Rightarrow>
        (active, s\<lparr>cs_leases := ls,
                   cs_cb_log := (if cs_lease_callback s then cs_cb_log s @ fired else cs_cb_log s)\<rparr>))"

definition set_lease_callback :: "cluster_state \<Rightarrow> cluster_state" where
  "set_lease_callback s = s\<lparr>cs_lease_callback := True\<rparr>"

definition scan_lease :: "string \<Rightarrow> (string, lease) dict \<Rightarrow> lease option" where
  "scan_lease task_id ls =
     find (\<lambda>l. l_task_id l = task_id \<and> l_status l = Active) (dict_values ls)"

definition get_lease_by_task :: "cluster_state \<Rightarrow> string \<Rightarrow> lease option" where
  "get_lease_by_task s task_id =
     (if task_id = [] then None
      else case dict_get (cs_task_lease_index s) task_id of
             None \<Rightarrow> scan_lease task_id (cs_leases s)
           | Some lease_id \<Rightarrow>
               if lease_id = [] then scan_lease task_id (cs_leases s)
               else case dict_get (cs_leases s) lease_id of
                      None \<Rightarrow> scan_lease task_id (cs_leases s)
                    | Some l \<Rightarrow> if l_status l = Active then Some l
                              else scan_lease task_id (cs_leases s))"

definition get_expired_leases :: "cluster_state \<Rightarrow> lease list" where
  "get_expired_leases s = filter (\<lambda>l. l_status l = Expired) (dict_values (cs_leases s))"

definition active_leased_task_ids :: "time \<Rightarrow> cluster_state \<Rightarrow> string set" where
  "active_leased_task_ids now s =
     set (map l_task_id (filter (\<lambda>l. l_status l = Active \<and> now < l_expires_at l)
       (dict_values (cs_leases s))))"

definition unleased_running_tasks :: "time \<Rightarrow> cluster_state \<Rightarrow> unleased_row list" where
  "unleased_running_tasks now s =
     unleased_running_rows (dict_values (cs_tasks s)) (active_leased_task_ids now s) now"

end
