(* ===== verification/TaskStore.thy ===== *)
theory TaskStore
  imports ClusterState
begin

text \<open>
  The task store of \<open>ClusterState\<close>: creation, the status machine with its terminality guard, the
  requeue path with its retry cap, dependencies, the trigger chain, and the read-only views.
\<close>

section \<open>Operations\<close>

definition get_task :: "cluster_state \<Rightarrow> string \<Rightarrow> task option" where
  "get_task s task_id = dict_get (cs_tasks s) task_id"

definition get_all_tasks :: "cluster_state \<Rightarrow> task list" where
  "get_all_tasks s = dict_values (cs_tasks s)"

definition put_task :: "string \<Rightarrow> task \<Rightarrow> cluster_state \<Rightarrow> cluster_state" where
  "put_task task_id t s = s\<lparr>cs_tasks := dict_set task_id t (cs_tasks s)\<rparr>"

text \<open>\<open>updated_at = utcnow()\<close> and \<open>version += 1\<close>.\<close>

definition touch :: "time \<Rightarrow> task \<Rightarrow> task" where
  "touch now t = t\<lparr>t_updated_at := now, t_version := t_version t + 1\<rparr>"

record task_plan =
  pl_task_id :: string
  pl_title :: string
  pl_requires :: "string list"
  pl_priority :: int
  pl_lane_key :: string
  pl_role :: string
  pl_description :: string
  pl_issues :: "string list"
  pl_depends_on :: "string list"

text \<open>The \<open>Task(...)\<close> call of both creation paths; they differ in the status they give.\<close>

definition build_task :: "time \<Rightarrow> task_status \<Rightarrow> task_plan \<Rightarrow> task" where
  "build_task now status p =
     (default_task now (pl_task_id p) (pl_title p))
       \<lparr>t_requires := pl_requires p, t_depends_on := pl_depends_on p, t_priority := pl_priority p,
        t_status := status, t_version := 1, t_lane_key := pl_lane_key p, t_role := pl_role p,
        t_description := pl_description p, t_issues := pl_issues p\<rparr>"

definition create_task :: "time \<Rightarrow> task_plan \<Rightarrow> cluster_state \<Rightarrow> task \<times> cluster_state" where
  "create_task now p s =
     (let t = build_task now Pending p in (t, put_task (pl_task_id p) t s))"

definition create_tasks_batch :: "time \<Rightarrow> task_plan list \<Rightarrow> cluster_state \<Rightarrow> task list \<times> cluster_state" where
  "create_tasks_batch now plans s =
     (let ts = map (\<lambda>p. build_task now (if pl_depends_on p = [] then Ready else Pending) p) plans
      in (ts, fold (\<lambda>t. put_task (t_id t) t) ts s))"

definition set_task_result :: "time \<Rightarrow> string \<Rightarrow> string option \<Rightarrow> cluster_state \<Rightarrow> bool \<times> cluster_state" where
  "set_task_result now task_id result s =
     (case result of
        None \<Rightarrow> (False, s)
      | Some r \<Rightarrow>
          if strip r = [] then (False, s)
          else case get_task s task_id of
                 None \<Rightarrow> (False, s)
               | Some t \<Rightarrow> (True, put_task task_id (touch now (t\<lparr>t_result := Some r\<rparr>)) s))"

definition set_task_status ::
  "time \<Rightarrow> string \<Rightarrow> task_status \<Rightarrow> string \<Rightarrow> cluster_state \<Rightarrow> bool \<times> cluster_state" where
  "set_task_status now task_id status fail_reason s =
     (case get_task s task_id of
        None \<Rightarrow> (False, s)
      | Some t \<Rightarrow>
          if t_status t \<in> {Completed, Failed, Cancelled, CancelRequested}
             \<and> \<not> (t_status t = CancelRequested \<and> status = Cancelled)
          then (False, s)
          else let t1 = touch now (t\<lparr>t_status := status\<rparr>);
                   t2 = (if fail_reason \<noteq> [] then t1\<lparr>t_fail_reason := Some fail_reason\<rparr> else t1)
               in (True, put_task task_id t2 s))"

definition unassign_task :: "time \<Rightarrow> string \<Rightarrow> cluster_state \<Rightarrow> bool \<times> cluster_state" where
  "unassign_task now task_id s =
     (case get_task s task_id of
        None \<Rightarrow> (False, s)
      | Some t \<Rightarrow>
          if t_status t \<in> TERMINAL_TASK_STATUSES then (False, s)
          else if get_lease_by_task s task_id \<noteq> None then (False, s)
          else (True, put_task task_id (touch now (t\<lparr>t_assigned_to := None, t_status := Ready\<rparr>)) s))"

definition unblock_task :: "time \<Rightarrow> string \<Rightarrow> cluster_state \<Rightarrow> bool \<times> cluster_state" where
  "unblock_task now task_id s =
     (case get_task s task_id of
        None \<Rightarrow> (False, s)
      | Some t \<Rightarrow>
          if t_status t = Blocked
          then (True, put_task task_id (touch now (t\<lparr>t_status := Pending\<rparr>)) s)
          else (False, s))"

definition set_task_ballot :: "time \<Rightarrow> string \<Rightarrow> ballot option \<Rightarrow> cluster_state \<Rightarrow> bool \<times> cluster_state" where
  "set_task_ballot now task_id b s =
     (case get_task s task_id of
        None \<Rightarrow> (False, s)
      | Some t \<Rightarrow> (True, put_task task_id (touch now (t\<lparr>t_ballot := b\<rparr>)) s))"

definition set_task_cancel_requeue :: "time \<Rightarrow> string \<Rightarrow> bool \<Rightarrow> cluster_state \<Rightarrow> bool \<times> cluster_state" where
  "set_task_cancel_requeue now task_id requeue s =
     (case get_task s task_id of
        None \<Rightarrow> (False, s)
      | Some t \<Rightarrow> (True, put_task task_id (touch now (t\<lparr>t_cancel_requeue := Some requeue\<rparr>)) s))"

definition unblock_to_ready :: "time \<Rightarrow> string \<Rightarrow> cluster_state \<Rightarrow> bool \<times> cluster_state" where
  "unblock_to_ready now task_id s =
     (case get_task s task_id of
        None \<Rightarrow> (False, s)
      | Some t \<Rightarrow>
          if t_status t \<noteq> Blocked then (False, s)
          else (True, put_task task_id (touch now (t\<lparr>t_status := Ready\<rparr>)) s))"

text \<open>\<open>getattr(self, \"task_retry_limit\", 3)\<close>: the class never sets the attribute.\<close>

definition task_retry_limit :: int where
  "task_retry_limit = 3"

definition requeue_task :: "time \<Rightarrow> string \<Rightarrow> string \<Rightarrow> cluster_state \<Rightarrow> bool \<times> cluster_state" where
  "requeue_task now task_id reason s =
     (case get_task s task_id of
        None \<Rightarrow> (False, s)
      | Some t \<Rightarrow>
          if t_status t \<in> TERMINAL_TASK_STATUSES then (False, s)
          else if task_retry_limit \<le> t_attempts t then (False, s)
          else let t1 = touch now (t\<lparr>t_attempts := t_attempts t + 1, t_assigned_to := None,
                                     t_status := Ready\<rparr>);
                   t2 = (if reason \<noteq> [] then t1\<lparr>t_fail_reason := Some reason\<rparr> else t1);
                   s1 = put_task task_id t2 s
               in (True, case get_lease_by_task s1 task_id of
                           None \<Rightarrow> s1
                         | Some l \<Rightarrow> snd (revoke_lease (l_id l) s1)))"

definition set_dependencies :: "time \<Rightarrow> string \<Rightarrow> string list \<Rightarrow> cluster_state \<Rightarrow> bool \<times> cluster_state" where
  "set_dependencies now task_id depends_on s =
     (case get_task s task_id of
        None \<Rightarrow> (False, s)
      | Some t \<Rightarrow> (True, put_task task_id (touch now (t\<lparr>t_depends_on := depends_on\<rparr>)) s))"

section \<open>Views\<close>

definition get_dependents :: "cluster_state \<Rightarrow> string \<Rightarrow> string list" where
  "get_dependents s task_id = map fst (filter (\<lambda>(_, t). task_id \<in> set (t_depends_on t)) (cs_tasks s))"

text \<open>The depth-first walk; its first argument is \<open>max_depth - depth\<close>.\<close>

fun traverse ::
  "nat \<Rightarrow> (string \<Rightarrow> string list) \<Rightarrow> string \<Rightarrow> string list \<times> string list \<Rightarrow> string list \<times> string list" where
  "traverse 0 deps tid st = st"
| "traverse (Suc k) deps tid (chain, visited) =
     (if tid \<in> set visited then (chain, visited)
      else fold (\<lambda>d (c, v). traverse k deps d (c @ [d], v)) (deps tid) (chain, tid # visited))"

definition get_trigger_chain :: "cluster_state \<Rightarrow> string \<Rightarrow> nat \<Rightarrow> string list" where
  "get_trigger_chain s task_id max_depth = fst (traverse max_depth (get_dependents s) task_id ([], []))"

record graph_node =
  gn_id :: string
  gn_title :: string
  gn_status :: string
  gn_priority :: int

definition get_workflow_graph :: "cluster_state \<Rightarrow> graph_node list \<times> (string \<times> string) list" where
  "get_workflow_graph s =
     (map (\<lambda>(tid, t). \<lparr>gn_id = tid, gn_title = t_title t,
                        gn_status = task_status_value (t_status t), gn_priority = t_priority t\<rparr>) (cs_tasks s),
      concat (map (\<lambda>(tid, t). map (\<lambda>dep_id. (dep_id, tid)) (t_depends_on t)) (cs_tasks s)))"

definition zero_counts :: "(string, int) dict" where
  "zero_counts = map (\<lambda>k. (k, 0))
     [''total'', ''ready'', ''running'', ''completed'', ''failed'', ''pending'', ''blocked'',
      ''cancel_requested'', ''cancelled'']"

definition count_task :: "task \<Rightarrow> (string, int) dict \<Rightarrow> (string, int) dict" where
  "count_task t counts =
     (let counts1 = bump ''total'' counts; v = task_status_value (t_status t)
      in if dict_get counts1 v \<noteq> None then bump v counts1 else counts1)"

definition task_counts :: "cluster_state \<Rightarrow> (string, int) dict" where
  "task_counts s = fold count_task (dict_values (cs_tasks s)) zero_counts"

section \<open>Equations\<close>

lemma get_task_put [simp]:
  "get_task (put_task tid t s) tid' = (if tid' = tid then Some t else get_task s tid')"
  by (simp add: get_task_def put_task_def)

lemma touch_simps [simp]:
  "t_id (touch now t) = t_id t" "t_status (touch now t) = t_status t"
  "t_version (touch now t) = t_version t + 1" "t_updated_at (touch now t) = now"
  "t_attempts (touch now t) = t_attempts t" "t_lane_key (touch now t) = t_lane_key t"
  "t_assigned_to (touch now t) = t_assigned_to t" "t_depends_on (touch now t) = t_depends_on t"
  "t_result (touch now t) = t_result t" "t_fail_reason (touch now t) = t_fail_reason t"
  by (simp_all add: touch_def)

lemma build_task_simps [simp]:
  "t_id (build_task now st p) = pl_task_id p" "t_status (build_task now st p) = st"
  "t_version (build_task now st p) = 1" "t_attempts (build_task now st p) = 0"
  "t_depends_on (build_task now st p) = pl_depends_on p"
  "t_assigned_to (build_task now st p) = None"
  by (simp_all add: build_task_def default_task_def)

text \<open>Everything but the task table is untouched by \<open>put_task\<close>.\<close>

lemma put_task_frame [simp, frame]:
  "cs_nodes (put_task tid t s) = cs_nodes s" "cs_leases (put_task tid t s) = cs_leases s"
  "cs_task_lease_index (put_task tid t s) = cs_task_lease_index s"
  "cs_decisions (put_task tid t s) = cs_decisions s" "cs_lanes (put_task tid t s) = cs_lanes s"
  "cs_rng (put_task tid t s) = cs_rng s" "cs_draws (put_task tid t s) = cs_draws s"
  "cs_sync_version (put_task tid t s) = cs_sync_version s"
  "cs_deliveries (put_task tid t s) = cs_deliveries s"
  "cs_tasks (put_task tid t s) = dict_set tid t (cs_tasks s)"
  "cs_max_decisions (put_task tid t s) = cs_max_decisions s"
  "cs_max_deliveries (put_task tid t s) = cs_max_deliveries s"
  "cs_fair_scheduler (put_task tid t s) = cs_fair_scheduler s"
  by (simp_all add: put_task_def)

section \<open>The trigger chain\<close>

lemma fold_traverse_sound:
  assumes step: "\<forall>d \<in> set ds. \<forall>c v. \<forall>x \<in> set (fst (traverse k deps d (c, v))). x \<in> set c \<or> R d x"
    and x: "x \<in> set (fst (fold (\<lambda>d (c, v). traverse k deps d (c @ [d], v)) ds st))"
  shows "x \<in> set (fst st) \<or> x \<in> set ds \<or> (\<exists>d \<in> set ds. R d x)"
  using step x
proof (induction ds arbitrary: st)
  case (Cons d ds)
  obtain c v where st: "st = (c, v)" by (cases st)
  from Cons.prems(2) st have "x \<in> set (fst (fold (\<lambda>d (c, v). traverse k deps d (c @ [d], v)) ds
      (traverse k deps d (c @ [d], v))))" by simp
  with Cons.IH [of "traverse k deps d (c @ [d], v)"] Cons.prems(1)
  have "x \<in> set (fst (traverse k deps d (c @ [d], v))) \<or> x \<in> set ds \<or> (\<exists>d \<in> set ds. R d x)" by simp
  moreover have "x \<in> set (fst (traverse k deps d (c @ [d], v))) \<Longrightarrow> x \<in> set (c @ [d]) \<or> R d x"
    using Cons.prems(1) by (meson list.set_intros(1))
  ultimately show ?case using st by auto
qed simp

abbreviation dep_rel :: "(string \<Rightarrow> string list) \<Rightarrow> (string \<times> string) set" where
  "dep_rel deps \<equiv> {(a, b). b \<in> set (deps a)}"

lemma traverse_sound:
  "\<forall>x \<in> set (fst (traverse k deps tid (chain, visited))). x \<in> set chain \<or> (tid, x) \<in> (dep_rel deps)\<^sup>+"
proof (induction k arbitrary: tid chain visited)
  case (Suc k)
  show ?case
  proof (cases "tid \<in> set visited")
    case False
    have "x \<in> set chain \<or> (tid, x) \<in> (dep_rel deps)\<^sup>+"
      if "x \<in> set (fst (traverse (Suc k) deps tid (chain, visited)))" for x
    proof -
      from that False have "x \<in> set (fst (fold (\<lambda>d (c, v). traverse k deps d (c @ [d], v))
          (deps tid) (chain, tid # visited)))" by simp
      from fold_traverse_sound [where R = "\<lambda>d x. (d, x) \<in> (dep_rel deps)\<^sup>+", OF _ this] Suc.IH
      have "x \<in> set chain \<or> x \<in> set (deps tid) \<or> (\<exists>d \<in> set (deps tid). (d, x) \<in> (dep_rel deps)\<^sup>+)"
        by simp
      then show ?thesis by (auto intro: trancl_into_trancl2)
    qed
    then show ?thesis by blast
  qed simp
qed simp

lemma traverse_grows: "set (fst st) \<subseteq> set (fst (traverse k deps tid st))"
proof (induction k arbitrary: tid st)
  case (Suc k)
  have "set (fst st) \<subseteq> set (fst (fold (\<lambda>d (c, v). traverse k deps d (c @ [d], v)) ds st))" for ds and st :: "string list \<times> string list"
  proof (induction ds arbitrary: st)
    case (Cons d ds)
    obtain c v where st: "st = (c, v)" by (cases st)
    show ?case using Cons.IH [of "traverse k deps d (c @ [d], v)"] Suc.IH [of "(c @ [d], v)" d] st by auto
  qed simp
  from this [of "(fst st, tid # snd st)" "deps tid"] show ?case by (cases st) auto
qed simp

text \<open>The direct dependents are listed.\<close>

lemma fold_traverse_lists:
  "x \<in> set ds \<Longrightarrow> x \<in> set (fst (fold (\<lambda>d (c, v). traverse k deps d (c @ [d], v)) ds st))"
proof (induction ds arbitrary: st rule: rev_induct)
  case (snoc d ds)
  obtain c v where cv: "fold (\<lambda>d (c, v). traverse k deps d (c @ [d], v)) ds st = (c, v)" by force
  have "x \<in> set (c @ [d])" using snoc cv by (auto dest: snoc.IH [of st])
  then show ?case using traverse_grows [of "(c @ [d], v)" k deps d] cv by auto
qed simp

lemma traverse_lists_deps: "x \<in> set (deps tid) \<Longrightarrow> x \<in> set (fst (traverse (Suc k) deps tid (c, [])))"
  by (simp add: fold_traverse_lists)

lemma depends_on_dependents:
  "dict_ok (cs_tasks s) \<Longrightarrow>
   b \<in> set (get_dependents s a) \<longleftrightarrow> (\<exists>t. get_task s b = Some t \<and> a \<in> set (t_depends_on t))"
  by (auto simp: get_dependents_def get_task_def image_iff map_of_eq_Some_iff)

section \<open>Task counts\<close>

lemma dict_has_iff: "(\<exists>v. map_of d k = Some v) \<longleftrightarrow> k \<in> fst ` set d"
  by (metis domD domI dom_map_of_conv_image_fst)

lemma bump_keys: "k \<in> fst ` set d \<Longrightarrow> fst ` set (bump k d) = fst ` set d"
  by (auto simp: bump_def dom_update)

lemma count_task_alt:
  "''total'' \<in> fst ` set d \<Longrightarrow>
   count_task t d = (if task_status_value (t_status t) \<in> fst ` set d
                     then bump (task_status_value (t_status t)) (bump ''total'' d) else bump ''total'' d)"
  by (simp add: count_task_def Let_def dict_has_iff bump_keys)

lemma fold_count_task:
  assumes "''total'' \<in> fst ` set d"
  shows "dict_get_or (fold count_task ts d) k 0 = dict_get_or d k 0
     + (if k = ''total'' then int (length ts) else 0)
     + (if k \<in> fst ` set d
        then int (length (filter (\<lambda>t. task_status_value (t_status t) = k) ts)) else 0)"
  using assms
proof (induction ts arbitrary: d)
  case (Cons t ts)
  have keys: "fst ` set (count_task t d) = fst ` set d"
    using Cons.prems by (simp add: count_task_alt bump_keys)
  have get: "dict_get_or (count_task t d) k 0 = dict_get_or d k 0 + (if k = ''total'' then 1 else 0)
      + (if k \<in> fst ` set d \<and> task_status_value (t_status t) = k then 1 else 0)"
    using Cons.prems by (auto simp: count_task_alt bump_get)
  have "dict_get_or (fold count_task (t # ts) d) k 0 = dict_get_or (count_task t d) k 0
     + (if k = ''total'' then int (length ts) else 0)
     + (if k \<in> fst ` set d
        then int (length (filter (\<lambda>t. task_status_value (t_status t) = k) ts)) else 0)"
    using Cons.IH [of "count_task t d"] Cons.prems by (simp add: keys)
  then show ?case unfolding get by simp
qed simp

end
