(* ===== verification/ClusterOps.thy ===== *)
theory ClusterOps
  imports TaskStore
begin

text \<open>
  The remaining operations of \<open>ClusterState\<close>: synchronisation messages, the recovery log, the
  decision log, the promotion of pending tasks, the scheduling pass, and the registries (federated
  clusters, webhooks and their deliveries, spawn records, lanes, configuration, summary).
\<close>

section \<open>Synchronisation\<close>

definition handle_sync_message :: "time \<Rightarrow> sync_message \<Rightarrow> cluster_state \<Rightarrow> bool \<times> cluster_state" where
  "handle_sync_message now msg s =
     (if sm_version msg \<le> cs_sync_version s then (False, s)
      else
        let s1 = s\<lparr>cs_sync_version := sm_version msg\<rparr>
        in case sm_task_state msg of
             None \<Rightarrow> (True, s1)
           | Some ts \<Rightarrow>
               (case get_task s1 (ts_task_id ts) of
                  None \<Rightarrow>
                    (let status = (case parse_task_status (ts_status ts) of Some st \<Rightarrow> st | None \<Rightarrow> Pending);
                         t = (default_task now (ts_task_id ts) (ts_title ts))
                               \<lparr>t_status := status, t_assigned_to := ts_assigned_to ts,
                                t_version := ts_version ts\<rparr>
                     in (True, put_task (ts_task_id ts) t s1))
                | Some t \<Rightarrow>
                    if ts_version ts \<le> t_version t then (True, s1)
                    else case parse_task_status (ts_status ts) of
                           None \<Rightarrow> (True, s1)
                         | Some new_status \<Rightarrow>
                             (let (accepted, s2) = set_task_status now (ts_task_id ts) new_status [] s1
                              in if \<not> accepted then (True, s2)
                                 else case get_task s2 (ts_task_id ts) of
                                        None \<Rightarrow> (True, s2)
                                      | Some u \<Rightarrow>
                                          let u1 = (case ts_assigned_to ts of
                                                      None \<Rightarrow> u
                                                    | Some a \<Rightarrow> if a = [] then u else u\<lparr>t_assigned_to := Some a\<rparr>);
                                              u2 = (if t_version u1 < ts_version ts
                                                    then u1\<lparr>t_version := ts_version ts\<rparr> else u1)
                                          in (True, put_task (ts_task_id ts) u2 s2))))"

fun handle_batch_sync :: "time \<Rightarrow> sync_message list \<Rightarrow> cluster_state \<Rightarrow> nat \<times> cluster_state" where
  "handle_batch_sync now [] s = (0, s)"
| "handle_batch_sync now (m # ms) s =
     (let (applied, s1) = handle_sync_message now m s;
          (n, s2) = handle_batch_sync now ms s1
      in ((if applied then n + 1 else n), s2))"

definition sync_version :: "cluster_state \<Rightarrow> int" where
  "sync_version s = cs_sync_version s"

section \<open>Recovery log\<close>

definition append_recovery_event :: "time \<Rightarrow> recovery_event \<Rightarrow> cluster_state \<Rightarrow> cluster_state" where
  "append_recovery_event now e s =
     (let (e1, s1) = (if re_id e = []
                      then (let (i, s') = generate_id ''recovery'' s in (e\<lparr>re_id := i\<rparr>, s'))
                      else (e, s))
      in s1\<lparr>cs_recovery_events := cs_recovery_events s1 @ [e1\<lparr>re_timestamp := now\<rparr>]\<rparr>)"

definition get_recovery_events :: "cluster_state \<Rightarrow> recovery_event list" where
  "get_recovery_events s = cs_recovery_events s"

definition recovery_stats :: "cluster_state \<Rightarrow> nat \<times> (string, int) dict" where
  "recovery_stats s =
     (length (cs_recovery_events s), fold (\<lambda>e. bump (re_action e)) (cs_recovery_events s) [])"

definition trigger_recovery_log :: "time \<Rightarrow> string \<Rightarrow> cluster_state \<Rightarrow> cluster_state" where
  "trigger_recovery_log now node_id s =
     (let (i, s1) = generate_id ''recovery'' s
      in append_recovery_event now
           \<lparr>re_id = i, re_task_id = [], re_node_id = node_id, re_action = ''reschedule'',
            re_status = ''completed'',
            re_message = Some (''Node '' @ node_id @ '' went offline, rescheduling tasks''),
            re_timestamp = now\<rparr> s1)"

section \<open>Scheduling decisions\<close>

definition record_decision :: "scheduling_decision \<Rightarrow> cluster_state \<Rightarrow> cluster_state" where
  "record_decision d s =
     (let ds = cs_decisions s @ [d]
      in s\<lparr>cs_decisions := (if cs_max_decisions s < length ds then last_n (cs_max_decisions s) ds else ds)\<rparr>)"

definition get_decisions :: "cluster_state \<Rightarrow> scheduling_decision list" where
  "get_decisions s = cs_decisions s"

record scheduling_stats =
  ss_total_decisions :: nat
  ss_decisions_by_priority :: "(int, int) dict"
  ss_last_decisions :: "scheduling_decision list"

definition get_schedule_stats :: "cluster_state \<Rightarrow> scheduling_stats" where
  "get_schedule_stats s =
     \<lparr>ss_total_decisions = length (cs_decisions s),
      ss_decisions_by_priority = fold (\<lambda>d. bump (sd_priority d)) (cs_decisions s) [],
      ss_last_decisions = (if cs_decisions s \<noteq> [] then last_n 10 (cs_decisions s) else [])\<rparr>"

section \<open>Promotion of pending tasks\<close>

definition dep_completed :: "cluster_state \<Rightarrow> string \<Rightarrow> bool" where
  "dep_completed s dep_id =
     (case get_task s dep_id of None \<Rightarrow> False | Some u \<Rightarrow> t_status u = Completed)"

definition deps_met :: "cluster_state \<Rightarrow> task \<Rightarrow> bool" where
  "deps_met s t = (if t_depends_on t = [] then True else list_all (dep_completed s) (t_depends_on t))"

text \<open>The body of the loop for one task: whether it is promoted, and the state after.\<close>

definition trigger_one :: "time \<Rightarrow> string \<Rightarrow> cluster_state \<Rightarrow> bool \<times> cluster_state" where
  "trigger_one now tid s =
     (case get_task s tid of
        None \<Rightarrow> (False, s)
      | Some t \<Rightarrow>
          if t_status t \<noteq> Pending then (False, s)
          else if \<not> deps_met s t then (False, s)
          else case hold_reason (dict_values (cs_tasks s)) t of
                 Some reason \<Rightarrow>
                   (False, if t_fail_reason t \<noteq> Some reason
                           then put_task tid (t\<lparr>t_fail_reason := Some reason, t_updated_at := now\<rparr>) s
                           else s)
               | None \<Rightarrow> (True, put_task tid (t\<lparr>t_status := Ready, t_updated_at := now\<rparr>) s))"

fun trigger_loop :: "time \<Rightarrow> string list \<Rightarrow> cluster_state \<Rightarrow> nat \<times> cluster_state" where
  "trigger_loop now [] s = (0, s)"
| "trigger_loop now (tid # tids) s =
     (let (p, s1) = trigger_one now tid s; (n, s2) = trigger_loop now tids s1
      in ((if p then n + 1 else n), s2))"

definition trigger_pending_tasks :: "time \<Rightarrow> cluster_state \<Rightarrow> nat \<times> cluster_state" where
  "trigger_pending_tasks now s = trigger_loop now (dict_keys (cs_tasks s)) s"

section \<open>The scheduling pass\<close>

record assignment =
  as_task_id :: string
  as_task_title :: string
  as_node_id :: string
  as_priority :: int

definition active_counts :: "task list \<Rightarrow> counts" where
  "active_counts ts =
     fold (\<lambda>t d. if t_active t \<and> t_assigned_to t \<noteq> None \<and> t_assigned_to t \<noteq> Some []
                 then bump (the (t_assigned_to t)) d else d) ts []"

definition ready_tasks :: "time \<Rightarrow> cluster_state \<Rightarrow> task list" where
  "ready_tasks now s =
     (let ts = dict_values (cs_tasks s); leased = active_leased_task_ids now s;
          lane_blocked = lane_blocked_ready_ids ts
      in sort_key (\<lambda>t. (t_priority t, - t_created_at t))
           (filter (\<lambda>t. t_status t = Ready \<and> t_id t \<notin> leased \<and> t_id t \<notin> set lane_blocked) ts))"

definition lane_nodes :: "cluster_state \<Rightarrow> (string, string) dict" where
  "lane_nodes s = map (\<lambda>(k, r). (k, ln_node r)) (cs_lanes s)"

definition lane_pin :: "(string, string) dict \<Rightarrow> task \<Rightarrow> string" where
  "lane_pin lns t = (if t_lane_key t \<noteq> [] then dict_get_or lns (t_lane_key t) [] else [])"

text \<open>What one successful choice does to the state.\<close>

definition assign_task :: "time \<Rightarrow> task \<Rightarrow> node \<Rightarrow> bool \<Rightarrow> cluster_state \<Rightarrow> cluster_state" where
  "assign_task now t n pinned s =
     (let s1 = put_task (t_id t) (touch now (t\<lparr>t_status := Running, t_assigned_to := Some (n_id n)\<rparr>)) s;
          s2 = s1\<lparr>cs_fair_scheduler := mark_picked (n_id n) (cs_fair_scheduler s1)\<rparr>;
          s3 = snd (create_lease now (t_id t) (n_id n) SCHEDULER_ASSIGNED_TTL s2)
      in record_decision
           \<lparr>sd_task_id = t_id t, sd_task_title = t_title t, sd_priority = t_priority t,
            sd_node_id = n_id n, sd_score = 1,
            sd_reason = (if pinned then ''lane_affinity_pinned'' else ''least_loaded_capability_match''),
            sd_timestamp = now\<rparr> s3)"

fun schedule_loop ::
  "time \<Rightarrow> node list \<Rightarrow> (string, string) dict \<Rightarrow> task list \<Rightarrow> counts \<Rightarrow> cluster_state \<Rightarrow>
   assignment list \<times> cluster_state" where
  "schedule_loop now online lns [] cnt s = ([], s)"
| "schedule_loop now online lns (t # ts) cnt s =
     (case choose_pinned (cs_fair_scheduler s) (t_requires t) online cnt (lane_pin lns t) of
        (None, _) \<Rightarrow> schedule_loop now online lns ts cnt s
      | (Some n, pinned) \<Rightarrow>
          (let (rest, s') = schedule_loop now online lns ts (bump (n_id n) cnt) (assign_task now t n pinned s)
           in (\<lparr>as_task_id = t_id t, as_task_title = t_title t, as_node_id = n_id n,
                as_priority = t_priority t\<rparr> # rest, s')))"

definition online_nodes :: "cluster_state \<Rightarrow> node list" where
  "online_nodes s = filter (\<lambda>n. n_status n = Online) (dict_values (cs_nodes s))"

definition schedule_pending_detailed :: "time \<Rightarrow> cluster_state \<Rightarrow> assignment list \<times> cluster_state" where
  "schedule_pending_detailed now s =
     (if online_nodes s = [] then ([], s)
      else schedule_loop now (online_nodes s) (lane_nodes s) (ready_tasks now s)
             (active_counts (dict_values (cs_tasks s))) s)"

definition schedule_pending :: "time \<Rightarrow> cluster_state \<Rightarrow> nat \<times> cluster_state" where
  "schedule_pending now s =
     (let (asgs, s') = schedule_pending_detailed now s in (length asgs, s'))"

section \<open>Federation registry\<close>

definition register_federation_cluster ::
  "time \<Rightarrow> string \<Rightarrow> string \<Rightarrow> string \<Rightarrow> cluster_state \<Rightarrow> remote_cluster \<times> cluster_state" where
  "register_federation_cluster now cid name endpoint s =
     (let c = \<lparr>rc_id = cid, rc_name = name, rc_endpoint = endpoint, rc_status = Available,
               rc_registered_at = now, rc_last_ping = now, rc_ping_latency = 0\<rparr>
      in (c, s\<lparr>cs_clusters := dict_set cid c (cs_clusters s)\<rparr>))"

definition remove_federation_cluster :: "string \<Rightarrow> cluster_state \<Rightarrow> bool \<times> cluster_state" where
  "remove_federation_cluster cid s =
     (if dict_get (cs_clusters s) cid \<noteq> None
      then (True, s\<lparr>cs_clusters := dict_del cid (cs_clusters s)\<rparr>) else (False, s))"

definition get_federation_clusters :: "cluster_state \<Rightarrow> remote_cluster list" where
  "get_federation_clusters s = dict_values (cs_clusters s)"

definition get_federation_cluster :: "cluster_state \<Rightarrow> string \<Rightarrow> remote_cluster option" where
  "get_federation_cluster s cid = dict_get (cs_clusters s) cid"

section \<open>Webhooks\<close>

definition register_hook ::
  "time \<Rightarrow> string \<Rightarrow> event_type list \<Rightarrow> string \<Rightarrow> cluster_state \<Rightarrow> hook \<times> cluster_state" where
  "register_hook now url events secret s =
     (let (hook_id, s1) = generate_id ''hook'' s;
          h = \<lparr>h_id = hook_id, h_url = url, h_events = events,
               h_secret = (if secret = [] then None else Some secret), h_active = True,
               h_created_at = now, h_updated_at = now\<rparr>
      in (h, s1\<lparr>cs_hooks := dict_set hook_id h (cs_hooks s1)\<rparr>))"

definition deregister_hook :: "string \<Rightarrow> cluster_state \<Rightarrow> bool \<times> cluster_state" where
  "deregister_hook hook_id s =
     (if dict_get (cs_hooks s) hook_id \<noteq> None
      then (True, s\<lparr>cs_hooks := dict_del hook_id (cs_hooks s)\<rparr>) else (False, s))"

definition list_hooks :: "cluster_state \<Rightarrow> hook list" where
  "list_hooks s = map (\<lambda>h. h\<lparr>h_secret := None\<rparr>) (dict_values (cs_hooks s))"

definition get_hook_deliveries :: "cluster_state \<Rightarrow> string \<Rightarrow> delivery list" where
  "get_hook_deliveries s hook_id = filter (\<lambda>d. d_hook_id d = hook_id) (cs_deliveries s)"

definition add_delivery :: "delivery \<Rightarrow> cluster_state \<Rightarrow> cluster_state" where
  "add_delivery d s =
     (let ds = cs_deliveries s @ [d]
      in s\<lparr>cs_deliveries := (if cs_max_deliveries s < length ds then last_n (cs_max_deliveries s) ds else ds)\<rparr>)"

section \<open>Spawn records and lanes\<close>

definition record_task_spawn :: "spawn \<Rightarrow> cluster_state \<Rightarrow> cluster_state" where
  "record_task_spawn r s = s\<lparr>cs_task_spawns := dict_set (sp_task_id r) r (cs_task_spawns s)\<rparr>"

definition get_task_spawn :: "cluster_state \<Rightarrow> string \<Rightarrow> spawn option" where
  "get_task_spawn s task_id = dict_get (cs_task_spawns s) task_id"

definition get_all_task_spawns :: "cluster_state \<Rightarrow> spawn list" where
  "get_all_task_spawns s = dict_values (cs_task_spawns s)"

definition delete_task_spawn :: "string \<Rightarrow> cluster_state \<Rightarrow> bool \<times> cluster_state" where
  "delete_task_spawn task_id s =
     (dict_get (cs_task_spawns s) task_id \<noteq> None,
      s\<lparr>cs_task_spawns := dict_del task_id (cs_task_spawns s)\<rparr>)"

text \<open>\<open>time.time()\<close> is the argument \<open>wall\<close>.\<close>

definition record_lane ::
  "rat \<Rightarrow> string \<Rightarrow> string \<Rightarrow> string \<Rightarrow> string \<Rightarrow> string \<Rightarrow> rat option \<Rightarrow> rat option \<Rightarrow> string \<Rightarrow>
   cluster_state \<Rightarrow> cluster_state" where
  "record_lane wall lane_key session_id profile role nd created_at last_active_at last_task_id s =
     (let effective_created =
            (case dict_get (cs_lanes s) lane_key of
               Some existing \<Rightarrow> ln_created_at existing
             | None \<Rightarrow> (case created_at of Some c \<Rightarrow> c | None \<Rightarrow> wall));
          effective_active = (case last_active_at of Some a \<Rightarrow> a | None \<Rightarrow> wall)
      in s\<lparr>cs_lanes := dict_set lane_key
             \<lparr>ln_lane_key = lane_key, ln_session_id = session_id, ln_profile = profile, ln_role = role,
              ln_node = nd, ln_created_at = effective_created, ln_last_active_at = effective_active,
              ln_last_task_id = last_task_id\<rparr> (cs_lanes s)\<rparr>)"

definition get_lane :: "cluster_state \<Rightarrow> string \<Rightarrow> lane option" where
  "get_lane s lane_key = dict_get (cs_lanes s) lane_key"

definition get_all_lanes :: "cluster_state \<Rightarrow> lane list" where
  "get_all_lanes s = dict_values (cs_lanes s)"

definition touch_lane_last_task :: "string \<Rightarrow> string \<Rightarrow> cluster_state \<Rightarrow> cluster_state" where
  "touch_lane_last_task lane_key task_id s =
     (if lane_key = [] then s
      else case dict_get (cs_lanes s) lane_key of
             None \<Rightarrow> s
           | Some r \<Rightarrow> s\<lparr>cs_lanes := dict_set lane_key (r\<lparr>ln_last_task_id := task_id\<rparr>) (cs_lanes s)\<rparr>)"

definition delete_lane :: "string \<Rightarrow> cluster_state \<Rightarrow> bool \<times> cluster_state" where
  "delete_lane lane_key s =
     (dict_get (cs_lanes s) lane_key \<noteq> None, s\<lparr>cs_lanes := dict_del lane_key (cs_lanes s)\<rparr>)"

section \<open>Configuration and summary\<close>

definition get_config :: "cluster_state \<Rightarrow> (string, string) dict option" where
  "get_config s = cs_config s"

definition set_config :: "(string, string) dict \<Rightarrow> cluster_state \<Rightarrow> cluster_state" where
  "set_config config s = s\<lparr>cs_config := Some config\<rparr>"

definition get_config_path :: "cluster_state \<Rightarrow> string" where
  "get_config_path s = cs_config_path s"

definition set_config_path :: "string \<Rightarrow> cluster_state \<Rightarrow> cluster_state" where
  "set_config_path path s = s\<lparr>cs_config_path := path\<rparr>"

record summary =
  su_cluster_id :: string
  su_node_id :: string
  su_role :: string
  su_nodes_total :: nat
  su_nodes_online :: nat
  su_tasks :: "(string, int) dict"
  su_leases_active :: nat
  su_sync_version :: int
  su_uptime_seconds :: int

definition get_summary :: "time \<Rightarrow> cluster_state \<Rightarrow> summary \<times> cluster_state" where
  "get_summary now s =
     (let (active, s1) = get_active_leases now s
      in (\<lparr>su_cluster_id = cs_cluster_id s, su_node_id = cs_node_id s, su_role = cs_node_role s,
           su_nodes_total = node_count s, su_nodes_online = online_count s,
           su_tasks = task_counts s, su_leases_active = length active,
           su_sync_version = sync_version s1,
           su_uptime_seconds = int_seconds (now - cs_started_at s)\<rparr>, s1))"

end
