(* ===== verification/ClusterInv.thy ===== *)
theory ClusterInv
  imports ClusterOps
begin

text \<open>
  The invariant of \<open>ClusterState\<close> and the step relation over all its mutating operations: the
  dictionaries are keyed by their objects' ids, the lease index points at leases of the indexed
  task, retry counts and logs stay within their bounds, and identifiers drawn so far are the only
  ones in use. Every operation keeps the invariant. The locale \<open>monotone_store\<close> turns a fact
  about one step into a fact about every run; it is interpreted for tasks and for leases.
\<close>

section \<open>The invariant\<close>

definition nodes_wf :: "cluster_state \<Rightarrow> bool" where
  "nodes_wf s \<longleftrightarrow> dict_ok (cs_nodes s) \<and> (\<forall>k n. dict_get (cs_nodes s) k = Some n \<longrightarrow> n_id n = k)"

definition tasks_wf :: "cluster_state \<Rightarrow> bool" where
  "tasks_wf s \<longleftrightarrow> dict_ok (cs_tasks s) \<and>
     (\<forall>k t. dict_get (cs_tasks s) k = Some t \<longrightarrow>
        t_id t = k \<and> 0 \<le> t_attempts t \<and> t_attempts t \<le> task_retry_limit)"

definition leases_wf :: "cluster_state \<Rightarrow> bool" where
  "leases_wf s \<longleftrightarrow> dict_ok (cs_leases s) \<and> dict_ok (cs_task_lease_index s) \<and> inj (cs_rng s) \<and>
     (\<forall>k l. dict_get (cs_leases s) k = Some l \<longrightarrow>
        l_id l = k \<and> (\<exists>i < cs_draws s. k = gen_id ''lease'' (cs_rng s) i)) \<and>
     (\<forall>tid k. dict_get (cs_task_lease_index s) tid = Some k \<longrightarrow>
        (\<exists>l. dict_get (cs_leases s) k = Some l \<and> l_task_id l = tid))"

definition logs_wf :: "cluster_state \<Rightarrow> bool" where
  "logs_wf s \<longleftrightarrow> length (cs_decisions s) \<le> cs_max_decisions s \<and>
     length (cs_deliveries s) \<le> cs_max_deliveries s"

definition cs_wf :: "cluster_state \<Rightarrow> bool" where
  "cs_wf s \<longleftrightarrow> nodes_wf s \<and> tasks_wf s \<and> leases_wf s \<and> logs_wf s"

lemmas wf_defs = nodes_wf_def tasks_wf_def leases_wf_def logs_wf_def cs_wf_def

lemma cs_wf_init: "inj rng \<Longrightarrow> cs_wf (init_state now rng)"
  by (simp add: wf_defs init_state_def)

lemma cs_wfD:
  assumes "cs_wf s"
  shows "nodes_wf s" "tasks_wf s" "leases_wf s" "logs_wf s"
  using assms by (simp_all add: cs_wf_def)

lemma tasks_wf_id: "tasks_wf s \<Longrightarrow> get_task s k = Some t \<Longrightarrow> t_id t = k"
  by (simp add: tasks_wf_def get_task_def)

lemma tasks_wf_value: "tasks_wf s \<Longrightarrow> t \<in> set (dict_values (cs_tasks s)) \<longleftrightarrow> get_task s (t_id t) = Some t"
  unfolding tasks_wf_def get_task_def by (metis dict_get_value dict_value_get)

lemma tasks_wf_distinct: "tasks_wf s \<Longrightarrow> distinct (map t_id (dict_values (cs_tasks s)))"
proof -
  assume "tasks_wf s"
  then have ok: "dict_ok (cs_tasks s)" and "\<forall>k t. (k, t) \<in> set (cs_tasks s) \<longrightarrow> t_id t = k"
    by (auto simp: tasks_wf_def map_of_eq_Some_iff)
  then have "map t_id (dict_values (cs_tasks s)) = dict_keys (cs_tasks s)" by auto
  then show ?thesis using ok by metis
qed

lemma nodes_wf_distinct: "nodes_wf s \<Longrightarrow> distinct (map n_id (dict_values (cs_nodes s)))"
proof -
  assume "nodes_wf s"
  then have ok: "dict_ok (cs_nodes s)" and "\<forall>k n. (k, n) \<in> set (cs_nodes s) \<longrightarrow> n_id n = k"
    by (auto simp: nodes_wf_def map_of_eq_Some_iff)
  then have "map n_id (dict_values (cs_nodes s)) = dict_keys (cs_nodes s)" by auto
  then show ?thesis using ok by metis
qed

lemma leases_wfD:
  assumes "leases_wf s"
  shows "dict_ok (cs_leases s)" "dict_ok (cs_task_lease_index s)" "inj (cs_rng s)"
    and "dict_get (cs_leases s) k = Some l \<Longrightarrow> l_id l = k"
    and "dict_get (cs_leases s) k = Some l \<Longrightarrow> \<exists>i < cs_draws s. k = gen_id ''lease'' (cs_rng s) i"
    and "dict_get (cs_task_lease_index s) tid = Some k \<Longrightarrow>
         \<exists>l. dict_get (cs_leases s) k = Some l \<and> l_task_id l = tid"
  using assms unfolding leases_wf_def by blast+

lemma leases_wfI:
  assumes "dict_ok (cs_leases s)" "dict_ok (cs_task_lease_index s)" "inj (cs_rng s)"
    and "\<And>k l. dict_get (cs_leases s) k = Some l \<Longrightarrow> l_id l = k"
    and "\<And>k l. dict_get (cs_leases s) k = Some l \<Longrightarrow> \<exists>i < cs_draws s. k = gen_id ''lease'' (cs_rng s) i"
    and "\<And>tid k. dict_get (cs_task_lease_index s) tid = Some k \<Longrightarrow>
         \<exists>l. dict_get (cs_leases s) k = Some l \<and> l_task_id l = tid"
  shows "leases_wf s"
  using assms unfolding leases_wf_def by blast

text \<open>The parts of the invariant an operation cannot reach.\<close>

lemma wf_nodes_only:
  "cs_wf s \<Longrightarrow> dict_ok ns \<Longrightarrow> (\<forall>k n. dict_get ns k = Some n \<longrightarrow> n_id n = k) \<Longrightarrow>
   cs_wf (s\<lparr>cs_nodes := ns\<rparr>)"
  by (simp add: wf_defs)

lemma wf_tasks_only:
  "cs_wf s \<Longrightarrow> dict_ok ts \<Longrightarrow>
   (\<forall>k t. dict_get ts k = Some t \<longrightarrow> t_id t = k \<and> 0 \<le> t_attempts t \<and> t_attempts t \<le> task_retry_limit) \<Longrightarrow>
   cs_wf (s\<lparr>cs_tasks := ts\<rparr>)"
  by (simp add: wf_defs)

lemma cs_wf_leases_only:
  "cs_wf s \<Longrightarrow> leases_wf s' \<Longrightarrow> cs_nodes s' = cs_nodes s \<Longrightarrow> cs_tasks s' = cs_tasks s \<Longrightarrow>
   cs_decisions s' = cs_decisions s \<Longrightarrow> cs_deliveries s' = cs_deliveries s \<Longrightarrow>
   cs_max_decisions s' = cs_max_decisions s \<Longrightarrow> cs_max_deliveries s' = cs_max_deliveries s \<Longrightarrow> cs_wf s'"
  by (simp add: cs_wf_def nodes_wf_def tasks_wf_def logs_wf_def)

lemma leases_wf_draw: "leases_wf s \<Longrightarrow> leases_wf (s\<lparr>cs_draws := Suc (cs_draws s)\<rparr>)"
  by (rule leases_wfI) (auto dest: leases_wfD(1-4,6), metis leases_wfD(5) less_SucI)

lemma cs_wf_unrelated [simp]:
  "cs_wf (s\<lparr>cs_cb_log := x1\<rparr>) = cs_wf s"
  "cs_wf (s\<lparr>cs_on_node_online := b\<rparr>) = cs_wf s"
  "cs_wf (s\<lparr>cs_on_capability_change := b\<rparr>) = cs_wf s"
  "cs_wf (s\<lparr>cs_lease_callback := b\<rparr>) = cs_wf s"
  "cs_wf (s\<lparr>cs_sync_version := v\<rparr>) = cs_wf s"
  "cs_wf (s\<lparr>cs_recovery_events := re\<rparr>) = cs_wf s"
  "cs_wf (s\<lparr>cs_fair_scheduler := fs\<rparr>) = cs_wf s"
  "cs_wf (s\<lparr>cs_clusters := cl\<rparr>) = cs_wf s"
  "cs_wf (s\<lparr>cs_hooks := hk\<rparr>) = cs_wf s"
  "cs_wf (s\<lparr>cs_config := cf\<rparr>) = cs_wf s"
  "cs_wf (s\<lparr>cs_config_path := cp\<rparr>) = cs_wf s"
  "cs_wf (s\<lparr>cs_task_spawns := sp\<rparr>) = cs_wf s"
  "cs_wf (s\<lparr>cs_lanes := la\<rparr>) = cs_wf s"
  by (simp_all add: wf_defs)

section \<open>Nodes\<close>

lemma log_callback_wf [wf_keep]: "cs_wf s \<Longrightarrow> cs_wf (log_callback r c s)"
  by (simp add: log_callback_def)

lemma modify_node_wf [wf_keep]:
  "cs_wf s \<Longrightarrow> (\<And>n. n_id (f n) = n_id n) \<Longrightarrow> cs_wf (modify_node nid f s)"
  by (auto simp: modify_node_def wf_defs split: option.splits)

lemma register_node_wf [wf_keep]: "cs_wf s \<Longrightarrow> cs_wf (register_node n s)"
proof -
  assume wf: "cs_wf s"
  let ?n = "case dict_get (cs_nodes s) (n_id n) of None \<Rightarrow> n
     | Some e \<Rightarrow> if n_drained e then n\<lparr>n_drained := True\<rparr> else n"
  have "n_id ?n = n_id n" by (simp split: option.splits)
  with wf have "cs_wf (s\<lparr>cs_nodes := dict_set (n_id n) ?n (cs_nodes s)\<rparr>)"
    by (intro wf_nodes_only) (auto simp: cs_wf_def nodes_wf_def)
  then show ?thesis by (simp add: register_node_def Let_def log_callback_wf)
qed

lemma update_heartbeat_wf [wf_keep]: "cs_wf s \<Longrightarrow> cs_wf (update_heartbeat now nid ld d r c l e s)"
  unfolding update_heartbeat_def by (rule modify_node_wf) simp_all

lemma update_capabilities_wf [wf_keep]: "cs_wf s \<Longrightarrow> cs_wf (update_capabilities nid caps s)"
  by (simp add: update_capabilities_def modify_node_wf log_callback_wf split: option.splits)

lemma node_setters_wf [wf_keep]:
  assumes "cs_wf s"
  shows "cs_wf (set_drained nid b s)" "cs_wf (update_max_concurrent nid m s)"
    "cs_wf (update_instance_token nid tok s)" "cs_wf (set_node_status nid st r s)"
    "cs_wf (set_on_node_online s)" "cs_wf (set_on_capability_change s)" "cs_wf (set_lease_callback s)"
  using assms
  by (simp_all add: set_drained_def update_max_concurrent_def update_instance_token_def
      set_node_status_def modify_node_wf set_on_node_online_def set_on_capability_change_def
      set_lease_callback_def)

section \<open>Leases\<close>

lemma generate_id_wf [wf_keep]: "cs_wf s \<Longrightarrow> cs_wf (snd (generate_id p s))"
  unfolding cs_wf_def generate_id_def
  using leases_wf_draw by (auto simp: nodes_wf_def tasks_wf_def logs_wf_def)

lemma new_lease_id_fresh: "leases_wf s \<Longrightarrow> dict_get (cs_leases s) (gen_id ''lease'' (cs_rng s) (cs_draws s)) = None"
proof (rule ccontr)
  assume wf: "leases_wf s" and "dict_get (cs_leases s) (gen_id ''lease'' (cs_rng s) (cs_draws s)) \<noteq> None"
  then obtain i where "i < cs_draws s" "gen_id ''lease'' (cs_rng s) (cs_draws s) = gen_id ''lease'' (cs_rng s) i"
    using leases_wfD(5) by blast
  with leases_wfD(3) [OF wf] show False by simp
qed

lemma create_lease_eq:
  "create_lease now tid nid ttl s =
   (let k = gen_id ''lease'' (cs_rng s) (cs_draws s);
        l = \<lparr>l_id = k, l_task_id = tid, l_node_id = nid, l_created_at = now,
             l_expires_at = now + ttl, l_status = Active\<rparr>
    in (l, s\<lparr>cs_draws := Suc (cs_draws s), cs_leases := dict_set k l (cs_leases s),
             cs_task_lease_index := dict_set tid k (cs_task_lease_index s)\<rparr>))"
  by (simp add: create_lease_def generate_id_def Let_def)

lemma create_lease_frame [simp, frame]:
  "cs_nodes (snd (create_lease now tid nid ttl s)) = cs_nodes s"
  "cs_tasks (snd (create_lease now tid nid ttl s)) = cs_tasks s"
  "cs_decisions (snd (create_lease now tid nid ttl s)) = cs_decisions s"
  "cs_deliveries (snd (create_lease now tid nid ttl s)) = cs_deliveries s"
  "cs_max_decisions (snd (create_lease now tid nid ttl s)) = cs_max_decisions s"
  "cs_max_deliveries (snd (create_lease now tid nid ttl s)) = cs_max_deliveries s"
  "cs_fair_scheduler (snd (create_lease now tid nid ttl s)) = cs_fair_scheduler s"
  "cs_sync_version (snd (create_lease now tid nid ttl s)) = cs_sync_version s"
  "cs_lanes (snd (create_lease now tid nid ttl s)) = cs_lanes s"
  "cs_rng (snd (create_lease now tid nid ttl s)) = cs_rng s"
  by (simp_all add: create_lease_eq Let_def)

lemma create_lease_leases_wf:
  assumes l: "leases_wf s"
  shows "leases_wf (snd (create_lease now tid nid ttl s))" (is "leases_wf ?s'")
proof (rule leases_wfI)
  show "\<exists>i < cs_draws ?s'. k = gen_id ''lease'' (cs_rng ?s') i"
    if "dict_get (cs_leases ?s') k = Some x" for k x
    using that leases_wfD(5) [OF l, of k x]
    by (auto simp: create_lease_eq Let_def split: if_splits intro: less_SucI)
  show "\<exists>x. dict_get (cs_leases ?s') k = Some x \<and> l_task_id x = t"
    if "dict_get (cs_task_lease_index ?s') t = Some k" for t k
    using that leases_wfD(6) [OF l, of t k] new_lease_id_fresh [OF l]
    by (auto simp: create_lease_eq Let_def split: if_splits)
qed (use leases_wfD(1-4) [OF l] in \<open>auto simp: create_lease_eq Let_def split: if_splits\<close>)

lemma create_lease_wf [wf_keep]: "cs_wf s \<Longrightarrow> cs_wf (snd (create_lease now tid nid ttl s))"
  by (rule cs_wf_leases_only) (auto dest: cs_wfD intro: create_lease_leases_wf)

lemma revoke_lease_frame [simp, frame]:
  "cs_nodes (snd (revoke_lease k s)) = cs_nodes s" "cs_tasks (snd (revoke_lease k s)) = cs_tasks s"
  "cs_decisions (snd (revoke_lease k s)) = cs_decisions s"
  "cs_deliveries (snd (revoke_lease k s)) = cs_deliveries s"
  "cs_max_decisions (snd (revoke_lease k s)) = cs_max_decisions s"
  "cs_max_deliveries (snd (revoke_lease k s)) = cs_max_deliveries s"
  "cs_rng (snd (revoke_lease k s)) = cs_rng s" "cs_draws (snd (revoke_lease k s)) = cs_draws s"
  "cs_sync_version (snd (revoke_lease k s)) = cs_sync_version s"
  "cs_lanes (snd (revoke_lease k s)) = cs_lanes s"
  by (simp_all add: revoke_lease_def split: option.splits)

text \<open>A lease table in which the lease under one key is replaced by one of the same task and id.\<close>

lemma leases_wf_replace:
  assumes wf: "leases_wf s" and l: "dict_get (cs_leases s) k = Some l"
    and l': "l_id l' = l_id l" "l_task_id l' = l_task_id l"
  shows "leases_wf (s\<lparr>cs_leases := dict_set k l' (cs_leases s)\<rparr>)" (is "leases_wf ?s'")
proof (rule leases_wfI)
  show "\<exists>x. dict_get (cs_leases ?s') j = Some x \<and> l_task_id x = t"
    if "dict_get (cs_task_lease_index ?s') t = Some j" for t j
    using that leases_wfD(6) [OF wf, of t j] l l' by auto
  show "l_id x = j" if "dict_get (cs_leases ?s') j = Some x" for j x
    using that leases_wfD(4) [OF wf] l l' by (auto split: if_splits)
  show "\<exists>i < cs_draws ?s'. j = gen_id ''lease'' (cs_rng ?s') i"
    if "dict_get (cs_leases ?s') j = Some x" for j x
    using that leases_wfD(5) [OF wf, of j] l by (auto split: if_splits)
qed (use leases_wfD(1-3) [OF wf] in auto)

lemma leases_wf_unindex:
  "leases_wf s \<Longrightarrow> leases_wf (s\<lparr>cs_task_lease_index := dict_del tid (cs_task_lease_index s)\<rparr>)"
  by (auto simp: leases_wf_def)

lemma revoke_lease_leases_wf: "leases_wf s \<Longrightarrow> leases_wf (snd (revoke_lease k s))"
proof (cases "dict_get (cs_leases s) k")
  case (Some l)
  assume "leases_wf s"
  from leases_wf_unindex [OF leases_wf_replace [OF this Some, of "l\<lparr>l_status := Revoked\<rparr>"], of "l_task_id l"]
  show ?thesis using Some by (simp add: revoke_lease_def)
qed (simp add: revoke_lease_def)

lemma revoke_lease_wf [wf_keep]: "cs_wf s \<Longrightarrow> cs_wf (snd (revoke_lease k s))"
  by (rule cs_wf_leases_only) (auto dest: cs_wfD intro: revoke_lease_leases_wf)

text \<open>The expiry pass keeps keys, ids and tasks; it only turns due leases into expired ones.\<close>

definition mark_due :: "time \<Rightarrow> lease \<Rightarrow> lease" where
  "mark_due now l = (if lease_due now l then l\<lparr>l_status := Expired\<rparr> else l)"

lemma active_pass_eq:
  "active_pass now ls =
   (filter (lease_live now) (dict_values ls), map (\<lambda>(k, l). (k, mark_due now l)) ls,
    map (\<lambda>l. LeaseExpired (l_task_id l) (l_node_id l)) (filter (lease_due now) (dict_values ls)))"
  by (induction ls) (auto simp: lease_live_def lease_due_def mark_due_def split: prod.splits)

lemma map_of_mark_due: "map_of (map (\<lambda>(k, l). (k, f l)) ls) k = map_option f (map_of ls k)"
  by (induction ls) auto

lemma get_active_leases_eq:
  "get_active_leases now s =
   (filter (lease_live now) (dict_values (cs_leases s)),
    s\<lparr>cs_leases := map (\<lambda>(k, l). (k, mark_due now l)) (cs_leases s),
      cs_cb_log := (if cs_lease_callback s
        then cs_cb_log s @ map (\<lambda>l. LeaseExpired (l_task_id l) (l_node_id l))
               (filter (lease_due now) (dict_values (cs_leases s)))
        else cs_cb_log s)\<rparr>)"
  by (simp add: get_active_leases_def active_pass_eq)

lemma mark_due_simps [simp]:
  "l_id (mark_due now l) = l_id l" "l_task_id (mark_due now l) = l_task_id l"
  "l_node_id (mark_due now l) = l_node_id l" "l_expires_at (mark_due now l) = l_expires_at l"
  "l_created_at (mark_due now l) = l_created_at l"
  by (simp_all add: mark_due_def)

lemma leases_wf_map:
  assumes wf: "leases_wf s" and f: "\<And>l. l_id (f l) = l_id l" "\<And>l. l_task_id (f l) = l_task_id l"
  shows "leases_wf (s\<lparr>cs_leases := map (\<lambda>(k, l). (k, f l)) (cs_leases s)\<rparr>)"
proof (rule leases_wfI; simp add: map_of_mark_due comp_def case_prod_beta)
  show "dict_ok (cs_leases s)" "dict_ok (cs_task_lease_index s)" "inj (cs_rng s)"
    using leases_wfD [OF wf] by blast+
  show "l_id l = k" if "\<exists>z. dict_get (cs_leases s) k = Some z \<and> f z = l" for k l
    using that f leases_wfD(4) [OF wf] by auto
  show "\<exists>i < cs_draws s. k = gen_id ''lease'' (cs_rng s) i"
    if "\<exists>z. dict_get (cs_leases s) k = Some z \<and> f z = l" for k l
    using that leases_wfD(5) [OF wf] by auto
  show "\<exists>l. (\<exists>z. dict_get (cs_leases s) k = Some z \<and> f z = l) \<and> l_task_id l = tid"
    if "dict_get (cs_task_lease_index s) tid = Some k" for tid k
    using leases_wfD(6) [OF wf that] f by metis
qed

lemma get_active_leases_wf [wf_keep]: "cs_wf s \<Longrightarrow> cs_wf (snd (get_active_leases now s))"
proof -
  assume wf: "cs_wf s"
  let ?s' = "s\<lparr>cs_leases := map (\<lambda>(k, l). (k, mark_due now l)) (cs_leases s)\<rparr>"
  from wf have "leases_wf ?s'" by (intro leases_wf_map) (auto dest: cs_wfD)
  with wf have "cs_wf ?s'" by (simp add: cs_wf_def nodes_wf_def tasks_wf_def logs_wf_def)
  then show ?thesis by (simp add: get_active_leases_eq)
qed

section \<open>Tasks\<close>

lemma put_task_wf [wf_keep]:
  "cs_wf s \<Longrightarrow> t_id t = tid \<Longrightarrow> 0 \<le> t_attempts t \<Longrightarrow> t_attempts t \<le> task_retry_limit \<Longrightarrow>
   cs_wf (put_task tid t s)"
  unfolding put_task_def by (rule wf_tasks_only) (auto simp: wf_defs)

lemma cs_wf_taskD:
  "cs_wf s \<Longrightarrow> get_task s tid = Some t \<Longrightarrow>
   t_id t = tid \<and> 0 \<le> t_attempts t \<and> t_attempts t \<le> task_retry_limit"
  by (simp add: wf_defs get_task_def)

text \<open>Replacing a stored task by one with the same id and retry count.\<close>

lemma put_task_wf_same:
  "cs_wf s \<Longrightarrow> get_task s tid = Some t \<Longrightarrow> t_id u = t_id t \<Longrightarrow> t_attempts u = t_attempts t \<Longrightarrow>
   cs_wf (put_task tid u s)"
  using cs_wf_taskD by (intro put_task_wf) fastforce+

lemma create_task_wf [wf_keep]: "cs_wf s \<Longrightarrow> cs_wf (snd (create_task now p s))"
  by (simp add: create_task_def Let_def put_task_wf task_retry_limit_def)

lemma create_tasks_batch_wf [wf_keep]: "cs_wf s \<Longrightarrow> cs_wf (snd (create_tasks_batch now ps s))"
proof -
  have "cs_wf s \<Longrightarrow> \<forall>t \<in> set ts. t_attempts t = 0 \<Longrightarrow> cs_wf (fold (\<lambda>t. put_task (t_id t) t) ts s)" for ts
    by (induction ts arbitrary: s) (simp_all add: put_task_wf task_retry_limit_def)
  then show "cs_wf s \<Longrightarrow> ?thesis" by (simp add: create_tasks_batch_def Let_def)
qed

lemma task_setters_wf [wf_keep]:
  assumes "cs_wf s"
  shows "cs_wf (snd (set_task_result now tid r s))"
    "cs_wf (snd (set_task_status now tid st fr s))"
    "cs_wf (snd (unassign_task now tid s))"
    "cs_wf (snd (unblock_task now tid s))"
    "cs_wf (snd (set_task_ballot now tid b s))"
    "cs_wf (snd (set_task_cancel_requeue now tid q s))"
    "cs_wf (snd (unblock_to_ready now tid s))"
    "cs_wf (snd (set_dependencies now tid ds s))"
  using assms
  by (auto simp: set_task_result_def set_task_status_def unassign_task_def unblock_task_def
      set_task_ballot_def set_task_cancel_requeue_def unblock_to_ready_def set_dependencies_def Let_def
      split: option.splits intro: put_task_wf_same)

lemma requeue_task_wf [wf_keep]: "cs_wf s \<Longrightarrow> cs_wf (snd (requeue_task now tid r s))"
proof (cases "get_task s tid")
  case (Some t)
  assume wf: "cs_wf s"
  let ?t = "touch now (t\<lparr>t_attempts := t_attempts t + 1, t_assigned_to := None, t_status := Ready\<rparr>)"
  let ?u = "if r \<noteq> [] then ?t\<lparr>t_fail_reason := Some r\<rparr> else ?t"
  have "cs_wf (put_task tid ?u s)" if "\<not> task_retry_limit \<le> t_attempts t"
    using that cs_wf_taskD [OF wf Some] wf by (intro put_task_wf) auto
  then show ?thesis using wf Some
    by (auto simp: requeue_task_def Let_def revoke_lease_wf split: option.splits if_splits)
qed (simp add: requeue_task_def)

section \<open>Synchronisation, promotion, scheduling, registries\<close>

lemma put_task_twice [simp]: "put_task tid u (put_task tid t s) = put_task tid u s"
  by (simp add: put_task_def)

lemma touch_fail_reason: "(touch now t)\<lparr>t_fail_reason := x\<rparr> = touch now (t\<lparr>t_fail_reason := x\<rparr>)"
  by (cases t) (simp add: touch_def)

lemma set_task_status_cases:
  obtains (rejected) "set_task_status now tid st fr s = (False, s)"
    "\<And>t. get_task s tid = Some t \<Longrightarrow>
         t_status t \<in> TERMINAL_TASK_STATUSES \<and> \<not> (t_status t = CancelRequested \<and> st = Cancelled)"
  | (accepted) t fr' where "get_task s tid = Some t"
    "t_status t \<in> TERMINAL_TASK_STATUSES \<Longrightarrow> t_status t = CancelRequested \<and> st = Cancelled"
    "set_task_status now tid st fr s =
       (True, put_task tid (touch now (t\<lparr>t_status := st, t_fail_reason := fr'\<rparr>)) s)"
proof (cases "set_task_status now tid st fr s")
  case (Pair ok s')
  show thesis
  proof (cases ok)
    case False
    with Pair show thesis
      by (intro rejected) (auto simp: set_task_status_def Let_def split: option.splits if_splits)
  next
    case True
    with Pair obtain t where t: "get_task s tid = Some t"
      by (auto simp: set_task_status_def split: option.splits)
    have "set_task_status now tid st fr s = (True, put_task tid (touch now (t\<lparr>t_status := st,
        t_fail_reason := (if fr \<noteq> [] then Some fr else t_fail_reason t)\<rparr>)) s)"
      and "t_status t \<in> TERMINAL_TASK_STATUSES \<longrightarrow> t_status t = CancelRequested \<and> st = Cancelled"
      using Pair True t by (auto simp: set_task_status_def Let_def touch_fail_reason split: if_splits)
    with t show thesis by (intro accepted) auto
  qed
qed

text \<open>
  The four outcomes of a message: refused as stale, applied without touching a task, a new task,
  or an update of a task that is older than the message and that the terminality guard lets pass.
\<close>

definition sync_new_task :: "time \<Rightarrow> task_sync \<Rightarrow> task" where
  "sync_new_task now ts =
     (default_task now (ts_task_id ts) (ts_title ts))
       \<lparr>t_status := (case parse_task_status (ts_status ts) of Some st \<Rightarrow> st | None \<Rightarrow> Pending),
        t_assigned_to := ts_assigned_to ts, t_version := ts_version ts\<rparr>"

definition sync_update :: "time \<Rightarrow> task_sync \<Rightarrow> task_status \<Rightarrow> string option \<Rightarrow> task \<Rightarrow> task" where
  "sync_update now ts st fr t =
     t\<lparr>t_status := st, t_fail_reason := fr, t_updated_at := now,
       t_assigned_to := (if ts_assigned_to ts = None \<or> ts_assigned_to ts = Some []
                         then t_assigned_to t else ts_assigned_to ts),
       t_version := max (t_version t + 1) (ts_version ts)\<rparr>"

lemma sync_update_eq:
  "sync_update now ts st fr t =
   (let u = touch now (t\<lparr>t_status := st, t_fail_reason := fr\<rparr>);
        u1 = (case ts_assigned_to ts of None \<Rightarrow> u | Some a \<Rightarrow> if a = [] then u else u\<lparr>t_assigned_to := Some a\<rparr>)
    in if t_version u1 < ts_version ts then u1\<lparr>t_version := ts_version ts\<rparr> else u1)"
  by (cases t) (auto simp: sync_update_def touch_def Let_def max_def split: option.splits)

lemma handle_sync_message_cases:
  obtains (stale) "sm_version m \<le> cs_sync_version s" "handle_sync_message now m s = (False, s)"
  | (skipped) "cs_sync_version s < sm_version m"
    "handle_sync_message now m s = (True, s\<lparr>cs_sync_version := sm_version m\<rparr>)"
  | (created) ts where "cs_sync_version s < sm_version m" "sm_task_state m = Some ts"
    "get_task s (ts_task_id ts) = None"
    "handle_sync_message now m s =
       (True, put_task (ts_task_id ts) (sync_new_task now ts) (s\<lparr>cs_sync_version := sm_version m\<rparr>))"
  | (updated) ts t st fr where "cs_sync_version s < sm_version m" "sm_task_state m = Some ts"
    "get_task s (ts_task_id ts) = Some t" "t_version t < ts_version ts"
    "parse_task_status (ts_status ts) = Some st"
    "t_status t \<in> TERMINAL_TASK_STATUSES \<longrightarrow> t_status t = CancelRequested \<and> st = Cancelled"
    "handle_sync_message now m s =
       (True, put_task (ts_task_id ts) (sync_update now ts st fr t) (s\<lparr>cs_sync_version := sm_version m\<rparr>))"
proof -
  let ?s1 = "s\<lparr>cs_sync_version := sm_version m\<rparr>"
  have get1: "get_task ?s1 k = get_task s k" for k by (simp add: get_task_def)
  show thesis
  proof (cases "sm_version m \<le> cs_sync_version s")
    case True
    then show thesis by (intro stale) (simp_all add: handle_sync_message_def)
  next
    case new: False
    then have lt: "cs_sync_version s < sm_version m" by simp
    show thesis
    proof (cases "sm_task_state m")
      case None
      with new show thesis by (intro skipped) (simp_all add: handle_sync_message_def Let_def)
    next
      case ts: (Some ts)
      show thesis
      proof (cases "get_task s (ts_task_id ts)")
        case None
        with new ts show thesis
          by (intro created [of ts]) (simp_all add: handle_sync_message_def Let_def get1 sync_new_task_def)
      next
        case t: (Some t)
        show thesis
        proof (cases "ts_version ts \<le> t_version t \<or> parse_task_status (ts_status ts) = None")
          case True
          with new ts t show thesis
            by (intro skipped) (auto simp: handle_sync_message_def Let_def get1)
        next
          case False
          then obtain st where st: "parse_task_status (ts_status ts) = Some st"
            and v: "\<not> ts_version ts \<le> t_version t" by auto
          show thesis
          proof (cases rule: set_task_status_cases [of now "ts_task_id ts" st "[]" ?s1])
            case rejected
            with new ts t st v show thesis
              by (intro skipped) (simp_all add: handle_sync_message_def Let_def get1)
          next
            case (accepted u fr')
            with t have u: "u = t" by (simp add: get1)
            let ?v = "touch now (t\<lparr>t_status := st, t_fail_reason := fr'\<rparr>)"
            have "handle_sync_message now m s =
               (True, put_task (ts_task_id ts) (sync_update now ts st fr' t) ?s1)"
              using new ts t st v accepted(3) u
              by (simp add: handle_sync_message_def Let_def get1 sync_update_eq)
            with lt ts t st v accepted(2) u show thesis by (intro updated [of ts t st fr']) auto
          qed
        qed
      qed
    qed
  qed
qed

lemma sync_task_simps [simp]:
  "t_id (sync_new_task now ts) = ts_task_id ts" "t_attempts (sync_new_task now ts) = 0"
  "t_id (sync_update now ts st fr t) = t_id t" "t_attempts (sync_update now ts st fr t) = t_attempts t"
  "t_status (sync_update now ts st fr t) = st"
  "t_version (sync_update now ts st fr t) = max (t_version t + 1) (ts_version ts)"
  by (simp_all add: sync_new_task_def sync_update_def default_task_def)

lemma handle_sync_message_wf [wf_keep]: "cs_wf s \<Longrightarrow> cs_wf (snd (handle_sync_message now m s))"
proof (cases rule: handle_sync_message_cases [of m s now])
  case (updated ts t st fr)
  assume wf: "cs_wf s"
  from updated(3) have "get_task (s\<lparr>cs_sync_version := sm_version m\<rparr>) (ts_task_id ts) = Some t"
    by (simp add: get_task_def)
  with wf show ?thesis unfolding updated(7) snd_conv by (intro put_task_wf_same) simp_all
qed (simp_all add: put_task_wf task_retry_limit_def)

lemma handle_batch_sync_wf [wf_keep]: "cs_wf s \<Longrightarrow> cs_wf (snd (handle_batch_sync now ms s))"
proof (induction now ms s rule: handle_batch_sync.induct)
  case (2 now m ms s)
  then show ?case using handle_sync_message_wf [of s now m]
    by (auto simp: Let_def split: prod.splits)
qed simp

lemma append_recovery_event_wf [wf_keep]: "cs_wf s \<Longrightarrow> cs_wf (append_recovery_event now e s)"
  using generate_id_wf [of s "''recovery''"]
  by (auto simp: append_recovery_event_def Let_def split: prod.splits)

lemma trigger_recovery_log_wf [wf_keep]: "cs_wf s \<Longrightarrow> cs_wf (trigger_recovery_log now nid s)"
  using generate_id_wf [of s "''recovery''"]
  by (auto simp: trigger_recovery_log_def Let_def append_recovery_event_wf split: prod.splits)

lemma record_decision_wf [wf_keep]: "cs_wf s \<Longrightarrow> cs_wf (record_decision d s)"
  by (auto simp: record_decision_def wf_defs Let_def)

lemma add_delivery_wf [wf_keep]: "cs_wf s \<Longrightarrow> cs_wf (add_delivery d s)"
  by (auto simp: add_delivery_def wf_defs Let_def)

lemma trigger_one_wf: "cs_wf s \<Longrightarrow> cs_wf (snd (trigger_one now tid s))"
  by (auto simp: trigger_one_def split: option.splits intro: put_task_wf_same)

lemma trigger_loop_wf: "cs_wf s \<Longrightarrow> cs_wf (snd (trigger_loop now tids s))"
proof (induction now tids s rule: trigger_loop.induct)
  case (2 now tid tids s)
  then show ?case using trigger_one_wf [of s now tid] by (auto simp: Let_def split: prod.splits)
qed simp

lemma trigger_pending_tasks_wf [wf_keep]: "cs_wf s \<Longrightarrow> cs_wf (snd (trigger_pending_tasks now s))"
  by (simp add: trigger_pending_tasks_def trigger_loop_wf)

lemma assign_task_wf: "cs_wf s \<Longrightarrow> get_task s (t_id t) = Some t \<Longrightarrow> cs_wf (assign_task now t n p s)"
proof -
  assume wf: "cs_wf s" "get_task s (t_id t) = Some t"
  then have "cs_wf (put_task (t_id t) (touch now (t\<lparr>t_status := Running, t_assigned_to := Some (n_id n)\<rparr>)) s)"
    by (rule put_task_wf_same) simp_all
  then show ?thesis unfolding assign_task_def Let_def
    by (intro record_decision_wf create_lease_wf) simp
qed

lemma record_decision_frame [simp, frame]:
  "cs_nodes (record_decision d s) = cs_nodes s" "cs_tasks (record_decision d s) = cs_tasks s"
  "cs_leases (record_decision d s) = cs_leases s"
  "cs_task_lease_index (record_decision d s) = cs_task_lease_index s"
  "cs_fair_scheduler (record_decision d s) = cs_fair_scheduler s"
  "cs_sync_version (record_decision d s) = cs_sync_version s"
  "cs_lanes (record_decision d s) = cs_lanes s"
  by (simp_all add: record_decision_def Let_def)

lemma get_task_assign:
  "get_task (assign_task now t n p s) tid =
   (if tid = t_id t then Some (touch now (t\<lparr>t_status := Running, t_assigned_to := Some (n_id n)\<rparr>))
    else get_task s tid)"
  by (simp add: assign_task_def Let_def get_task_def put_task_def)

lemma ready_tasks_stored:
  "tasks_wf s \<Longrightarrow> t \<in> set (ready_tasks now s) \<Longrightarrow> get_task s (t_id t) = Some t"
  by (auto simp: ready_tasks_def Let_def tasks_wf_value [symmetric])

lemma ready_tasks_distinct: "tasks_wf s \<Longrightarrow> distinct (map t_id (ready_tasks now s))"
  unfolding ready_tasks_def Let_def distinct_map_sort_key
  by (rule distinct_map_filter) (rule tasks_wf_distinct)

text \<open>The loop rule of the scheduling pass: assignments made so far, tasks to come, counts, state.\<close>

definition mk_assignment :: "task \<Rightarrow> node \<Rightarrow> assignment" where
  "mk_assignment t n =
     \<lparr>as_task_id = t_id t, as_task_title = t_title t, as_node_id = n_id n, as_priority = t_priority t\<rparr>"

lemma schedule_loop_parked:
  "choose_pinned (cs_fair_scheduler s) (t_requires t) ns cnt (lane_pin lns t) = (None, p) \<Longrightarrow>
   schedule_loop now ns lns (t # ts) cnt s = schedule_loop now ns lns ts cnt s"
  by simp

lemma schedule_loop_placed:
  "choose_pinned (cs_fair_scheduler s) (t_requires t) ns cnt (lane_pin lns t) = (Some n, p) \<Longrightarrow>
   schedule_loop now ns lns (t # ts) cnt s =
   (mk_assignment t n # fst (schedule_loop now ns lns ts (bump (n_id n) cnt) (assign_task now t n p s)),
    snd (schedule_loop now ns lns ts (bump (n_id n) cnt) (assign_task now t n p s)))"
  by (cases "schedule_loop now ns lns ts (bump (n_id n) cnt) (assign_task now t n p s)")
    (simp add: mk_assignment_def Let_def)

lemma schedule_loop_rule:
  assumes start: "P acc ts cnt s"
    and parked: "\<And>acc t ts cnt s p. P acc (t # ts) cnt s \<Longrightarrow>
      choose_pinned (cs_fair_scheduler s) (t_requires t) ns cnt (lane_pin lns t) = (None, p) \<Longrightarrow>
      P acc ts cnt s"
    and placed: "\<And>acc t ts cnt s n p. P acc (t # ts) cnt s \<Longrightarrow>
      choose_pinned (cs_fair_scheduler s) (t_requires t) ns cnt (lane_pin lns t) = (Some n, p) \<Longrightarrow>
      P (acc @ [mk_assignment t n]) ts (bump (n_id n) cnt) (assign_task now t n p s)"
  shows "\<exists>cnt'. P (acc @ fst (schedule_loop now ns lns ts cnt s)) [] cnt'
                  (snd (schedule_loop now ns lns ts cnt s))"
  using start
proof (induction ts arbitrary: acc cnt s)
  case Nil
  then show ?case by auto
next
  case (Cons t ts)
  obtain c p where c: "choose_pinned (cs_fair_scheduler s) (t_requires t) ns cnt (lane_pin lns t) = (c, p)"
    by (cases "choose_pinned (cs_fair_scheduler s) (t_requires t) ns cnt (lane_pin lns t)")
  show ?case
  proof (cases c)
    case None
    with c have c': "choose_pinned (cs_fair_scheduler s) (t_requires t) ns cnt (lane_pin lns t) = (None, p)"
      by simp
    from Cons.IH [OF parked [OF Cons.prems c']] show ?thesis unfolding schedule_loop_parked [OF c'] .
  next
    case (Some n)
    with c have c': "choose_pinned (cs_fair_scheduler s) (t_requires t) ns cnt (lane_pin lns t) = (Some n, p)"
      by simp
    from Cons.IH [OF placed [OF Cons.prems c']] show ?thesis
      unfolding schedule_loop_placed [OF c'] by simp
  qed
qed

text \<open>Tasks still to come are the stored ones, and distinct.\<close>

definition loop_tasks :: "task list \<Rightarrow> cluster_state \<Rightarrow> bool" where
  "loop_tasks ts s \<longleftrightarrow> distinct (map t_id ts) \<and> (\<forall>t \<in> set ts. get_task s (t_id t) = Some t)"

lemma loop_tasks_parked: "loop_tasks (t # ts) s \<Longrightarrow> loop_tasks ts s"
  by (simp add: loop_tasks_def)

lemma loop_tasks_placed: "loop_tasks (t # ts) s \<Longrightarrow> loop_tasks ts (assign_task now t n p s)"
  unfolding loop_tasks_def get_task_assign by (metis (no_types, lifting) distinct.simps(2) image_eqI list.set_intros(2) list.set_map list.simps(9))

lemma loop_tasks_head: "loop_tasks (t # ts) s \<Longrightarrow> get_task s (t_id t) = Some t"
  by (simp add: loop_tasks_def)

lemma loop_tasks_ready: "cs_wf s \<Longrightarrow> loop_tasks (ready_tasks now s) s"
  unfolding loop_tasks_def using ready_tasks_stored ready_tasks_distinct cs_wfD(2) by blast

lemma schedule_loop_wf:
  assumes "cs_wf s" "loop_tasks ts s"
  shows "cs_wf (snd (schedule_loop now ns lns ts cnt s))"
proof -
  let ?P = "\<lambda>(acc :: assignment list) ts (cnt :: counts) s. cs_wf s \<and> loop_tasks ts s"
  have "\<exists>cnt'. ?P ([] @ fst (schedule_loop now ns lns ts cnt s)) [] cnt'
      (snd (schedule_loop now ns lns ts cnt s))"
    by (rule schedule_loop_rule [where P = ?P])
      (use assms assign_task_wf loop_tasks_parked loop_tasks_placed loop_tasks_head in blast)+
  then show ?thesis by blast
qed

lemma schedule_pending_detailed_wf [wf_keep]:
  "cs_wf s \<Longrightarrow> cs_wf (snd (schedule_pending_detailed now s))"
  by (simp add: schedule_pending_detailed_def schedule_loop_wf loop_tasks_ready)

lemma register_hook_wf [wf_keep]: "cs_wf s \<Longrightarrow> cs_wf (snd (register_hook now u evs sec s))"
  using generate_id_wf [of s "''hook''"] by (auto simp: register_hook_def Let_def split: prod.splits)

lemma registry_wf [wf_keep]:
  assumes "cs_wf s"
  shows "cs_wf (snd (register_federation_cluster now c nm ep s))"
    "cs_wf (snd (remove_federation_cluster c s))" "cs_wf (snd (deregister_hook h s))"
    "cs_wf (record_task_spawn r s)" "cs_wf (snd (delete_task_spawn tid s))"
    "cs_wf (record_lane w lk sid pf ro nd ca la lt s)" "cs_wf (touch_lane_last_task lk tid s)"
    "cs_wf (snd (delete_lane lk s))" "cs_wf (set_config cf s)" "cs_wf (set_config_path pa s)"
  using assms
  by (simp_all add: register_federation_cluster_def remove_federation_cluster_def
      deregister_hook_def record_task_spawn_def delete_task_spawn_def record_lane_def
      touch_lane_last_task_def delete_lane_def set_config_def set_config_path_def Let_def
      split: option.splits)

end
