(* ===== verification/ClusterSteps.thy ===== *)
theory ClusterSteps
  imports ClusterInv
begin

text \<open>
  The step relation over the mutating operations of \<open>ClusterState\<close>, in any order and with any
  arguments. Creation of a task takes an id that is not in use: the router draws it afresh. The
  locale \<open>monotone_store\<close> is the contract \<open>what is stored under a key only moves forward\<close>;
  it is interpreted for the task table (status machine and version) and the lease table.
\<close>

section \<open>Stores whose objects only move forward\<close>

locale monotone_store =
  fixes look :: "'s \<Rightarrow> 'k \<Rightarrow> 'v option"
    and rel :: "'v \<Rightarrow> 'v \<Rightarrow> bool"
    and inv :: "'s \<Rightarrow> bool"
    and stp :: "'s \<Rightarrow> 's \<Rightarrow> bool"
  assumes rel_refl: "rel v v"
    and rel_trans: "rel u v \<Longrightarrow> rel v w \<Longrightarrow> rel u w"
    and inv_step: "inv s \<Longrightarrow> stp s s' \<Longrightarrow> inv s'"
    and step_forward: "inv s \<Longrightarrow> stp s s' \<Longrightarrow> look s k = Some v \<Longrightarrow> \<exists>w. look s' k = Some w \<and> rel v w"
begin

lemma run_inv: "stp\<^sup>*\<^sup>* s s' \<Longrightarrow> inv s \<Longrightarrow> inv s'"
  by (induction rule: rtranclp_induct) (auto intro: inv_step)

lemma run_forward:
  assumes "stp\<^sup>*\<^sup>* s s'" "inv s" "look s k = Some v"
  shows "\<exists>w. look s' k = Some w \<and> rel v w"
  using assms
proof (induction rule: rtranclp_induct)
  case base
  then show ?case using rel_refl by blast
next
  case (step y z)
  then show ?case using step_forward run_inv rel_trans by meson
qed

lemma run_present: "stp\<^sup>*\<^sup>* s s' \<Longrightarrow> inv s \<Longrightarrow> look s k \<noteq> None \<Longrightarrow> look s' k \<noteq> None"
  using run_forward by fastforce

end

section \<open>The orders\<close>

definition status_le :: "task_status \<Rightarrow> task_status \<Rightarrow> bool" where
  "status_le st st' \<longleftrightarrow>
     st' = st \<or> st \<notin> TERMINAL_TASK_STATUSES \<or> (st = CancelRequested \<and> st' = Cancelled)"

definition task_le :: "task \<Rightarrow> task \<Rightarrow> bool" where
  "task_le t t' \<longleftrightarrow> t_id t' = t_id t \<and> t_version t \<le> t_version t' \<and> t_attempts t \<le> t_attempts t' \<and>
     t_created_at t' = t_created_at t \<and> t_lane_key t' = t_lane_key t \<and> status_le (t_status t) (t_status t')"

definition lease_le :: "lease \<Rightarrow> lease \<Rightarrow> bool" where
  "lease_le l l' \<longleftrightarrow> l_id l' = l_id l \<and> l_task_id l' = l_task_id l \<and> l_node_id l' = l_node_id l \<and>
     l_created_at l' = l_created_at l \<and> l_expires_at l' = l_expires_at l \<and> l_status l \<le> l_status l'"

definition get_lease :: "cluster_state \<Rightarrow> string \<Rightarrow> lease option" where
  "get_lease s k = dict_get (cs_leases s) k"

definition tasks_le :: "cluster_state \<Rightarrow> cluster_state \<Rightarrow> bool" where
  "tasks_le s s' \<longleftrightarrow>
     (\<forall>k t. get_task s k = Some t \<longrightarrow> (\<exists>t'. get_task s' k = Some t' \<and> task_le t t'))"

definition leases_le :: "cluster_state \<Rightarrow> cluster_state \<Rightarrow> bool" where
  "leases_le s s' \<longleftrightarrow>
     (\<forall>k l. get_lease s k = Some l \<longrightarrow> (\<exists>l'. get_lease s' k = Some l' \<and> lease_le l l'))"

text \<open>A node keeps its drain mark, and is never dropped from the registry.\<close>

definition nodes_le :: "cluster_state \<Rightarrow> cluster_state \<Rightarrow> bool" where
  "nodes_le s s' \<longleftrightarrow>
     (\<forall>k n. get_node s k = Some n \<longrightarrow>
        (\<exists>n'. get_node s' k = Some n' \<and> (n_drained n \<longrightarrow> n_drained n')))"

definition forward :: "cluster_state \<Rightarrow> cluster_state \<Rightarrow> bool" where
  "forward s s' \<longleftrightarrow> tasks_le s s' \<and> leases_le s s' \<and> nodes_le s s' \<and>
     cs_sync_version s \<le> cs_sync_version s'"

lemma status_le_refl [simp]: "status_le st st"
  by (simp add: status_le_def)

lemma status_le_trans: "status_le a b \<Longrightarrow> status_le b c \<Longrightarrow> status_le a c"
  by (auto simp: status_le_def)

lemma task_le_refl [simp]: "task_le t t"
  by (simp add: task_le_def)

lemma task_le_trans: "task_le a b \<Longrightarrow> task_le b c \<Longrightarrow> task_le a c"
  by (auto simp: task_le_def intro: status_le_trans)

lemma lease_le_refl [simp]: "lease_le l l"
  by (simp add: lease_le_def)

lemma lease_le_trans: "lease_le a b \<Longrightarrow> lease_le b c \<Longrightarrow> lease_le a c"
  by (auto simp: lease_le_def)

lemma tasks_le_trans: "tasks_le a b \<Longrightarrow> tasks_le b c \<Longrightarrow> tasks_le a c"
  unfolding tasks_le_def by (meson task_le_trans)

lemma leases_le_trans: "leases_le a b \<Longrightarrow> leases_le b c \<Longrightarrow> leases_le a c"
  unfolding leases_le_def by (meson lease_le_trans)

lemma nodes_le_trans: "nodes_le a b \<Longrightarrow> nodes_le b c \<Longrightarrow> nodes_le a c"
  unfolding nodes_le_def by meson

lemma forward_trans: "forward a b \<Longrightarrow> forward b c \<Longrightarrow> forward a c"
  unfolding forward_def by (meson tasks_le_trans leases_le_trans nodes_le_trans order_trans)

lemma tasks_le_cong: "cs_tasks s' = cs_tasks s \<Longrightarrow> tasks_le s s'"
  by (simp add: tasks_le_def get_task_def)

lemma leases_le_cong: "cs_leases s' = cs_leases s \<Longrightarrow> leases_le s s'"
  by (simp add: leases_le_def get_lease_def)

lemma nodes_le_cong: "cs_nodes s' = cs_nodes s \<Longrightarrow> nodes_le s s'"
  by (simp add: nodes_le_def get_node_def)

lemma forward_frame:
  "cs_tasks s' = cs_tasks s \<Longrightarrow> cs_leases s' = cs_leases s \<Longrightarrow> cs_nodes s' = cs_nodes s \<Longrightarrow>
   cs_sync_version s' = cs_sync_version s \<Longrightarrow> forward s s'"
  by (simp add: forward_def tasks_le_cong leases_le_cong nodes_le_cong)

lemma forward_refl [simp]: "forward s s"
  by (rule forward_frame) simp_all

section \<open>Each operation moves forward\<close>

lemma put_task_forward:
  "get_task s tid = Some t \<Longrightarrow> task_le t u \<Longrightarrow> forward s (put_task tid u s)"
  unfolding forward_def by (auto simp: tasks_le_def leases_le_cong nodes_le_cong)

lemma put_task_new_forward: "get_task s tid = None \<Longrightarrow> forward s (put_task tid u s)"
  unfolding forward_def by (auto simp: tasks_le_def leases_le_cong nodes_le_cong)

lemma modify_node_forward [mono_step]:
  "(\<And>n. n_drained (f n) = n_drained n) \<Longrightarrow> forward s (modify_node nid f s)"
  unfolding forward_def
  by (auto simp: modify_node_def nodes_le_def get_node_def tasks_le_cong leases_le_cong split: option.splits)

lemma log_callback_forward: "forward s s' \<Longrightarrow> forward s (log_callback r c s')"
  by (rule forward_trans, assumption) (simp add: forward_frame log_callback_def)

lemma register_node_forward [mono_step]: "forward s (register_node n s)"
  unfolding register_node_def Let_def
  by (rule log_callback_forward)
    (auto simp: forward_def tasks_le_cong leases_le_cong nodes_le_def get_node_def split: option.splits)

lemma update_capabilities_forward [mono_step]: "forward s (update_capabilities nid caps s)"
  by (auto simp: update_capabilities_def intro!: log_callback_forward modify_node_forward split: option.splits)

lemma node_ops_forward [mono_step]:
  "forward s (update_heartbeat now nid ld d r c l e s)"
  "forward s (update_max_concurrent nid m s)" "forward s (update_instance_token nid tok s)"
  "forward s (set_node_status nid st r s)"
  "forward s (set_on_node_online s)" "forward s (set_on_capability_change s)"
  "forward s (set_lease_callback s)"
  by (auto simp: update_heartbeat_def update_max_concurrent_def update_instance_token_def
      set_node_status_def set_on_node_online_def set_on_capability_change_def set_lease_callback_def
      intro!: modify_node_forward forward_frame)

lemma set_drained_forward [mono_step]: "forward s (set_drained nid True s)"
  by (auto simp: forward_def set_drained_def modify_node_def nodes_le_def get_node_def tasks_le_cong
      leases_le_cong split: option.splits)

lemma create_lease_forward [mono_step]:
  "leases_wf s \<Longrightarrow> forward s (snd (create_lease now tid nid ttl s))"
  using new_lease_id_fresh [of s]
  by (auto simp: forward_def tasks_le_cong nodes_le_cong leases_le_def get_lease_def create_lease_eq Let_def)

lemma revoke_lease_forward [mono_step]: "forward s (snd (revoke_lease k s))"
  by (auto simp: forward_def tasks_le_cong nodes_le_cong leases_le_def get_lease_def revoke_lease_def
      lease_le_def split: option.splits)

lemma get_active_leases_forward [mono_step]: "forward s (snd (get_active_leases now s))"
  by (auto simp: forward_def tasks_le_cong nodes_le_cong leases_le_def get_lease_def
      get_active_leases_eq map_of_mark_due lease_le_def mark_due_def lease_due_def)

lemma task_ops_forward [mono_step]:
  "forward s (snd (set_task_result now tid r s))" "forward s (snd (unassign_task now tid s))"
  "forward s (snd (unblock_task now tid s))" "forward s (snd (set_task_ballot now tid b s))"
  "forward s (snd (set_task_cancel_requeue now tid q s))" "forward s (snd (unblock_to_ready now tid s))"
  "forward s (snd (set_dependencies now tid ds s))"
  by (auto simp: set_task_result_def unassign_task_def unblock_task_def set_task_ballot_def
      set_task_cancel_requeue_def unblock_to_ready_def set_dependencies_def task_le_def status_le_def
      touch_def split: option.splits intro!: put_task_forward)

lemma set_task_status_forward [mono_step]: "forward s (snd (set_task_status now tid st fr s))"
proof (cases rule: set_task_status_cases [of now tid st fr s])
  case (accepted t fr')
  then show ?thesis
    by (auto intro!: put_task_forward simp: task_le_def status_le_def touch_def)
qed simp

lemma requeue_task_forward [mono_step]: "forward s (snd (requeue_task now tid r s))"
proof (cases "get_task s tid")
  case (Some t)
  let ?t = "touch now (t\<lparr>t_attempts := t_attempts t + 1, t_assigned_to := None, t_status := Ready\<rparr>)"
  let ?u = "if r \<noteq> [] then ?t\<lparr>t_fail_reason := Some r\<rparr> else ?t"
  have "forward s (put_task tid ?u s)" if "t_status t \<notin> TERMINAL_TASK_STATUSES"
    by (rule put_task_forward [OF Some]) (use that in \<open>simp add: task_le_def status_le_def touch_def\<close>)
  then show ?thesis using Some
    by (auto simp: requeue_task_def Let_def split: option.splits if_splits
        intro: forward_trans [OF _ revoke_lease_forward])
qed (simp add: requeue_task_def)

lemma handle_sync_message_forward [mono_step]: "forward s (snd (handle_sync_message now m s))"
proof -
  have v: "cs_sync_version s < sm_version m \<Longrightarrow> forward s (s\<lparr>cs_sync_version := sm_version m\<rparr>)"
    by (simp add: forward_def tasks_le_cong leases_le_cong nodes_le_cong)
  have g: "get_task (s\<lparr>cs_sync_version := sm_version m\<rparr>) k = get_task s k" for k
    by (simp add: get_task_def)
  show ?thesis
  proof (cases rule: handle_sync_message_cases [of m s now])
    case (created ts)
    then show ?thesis using v forward_trans put_task_new_forward g by fastforce
  next
    case (updated ts t st fr)
    then have "task_le t (sync_update now ts st fr t)"
      by (auto simp: task_le_def status_le_def sync_update_def)
    with updated have "forward (s\<lparr>cs_sync_version := sm_version m\<rparr>) (snd (handle_sync_message now m s))"
      by (simp add: put_task_forward g)
    with v updated(1) show ?thesis by (blast intro: forward_trans)
  qed (simp_all add: v)
qed

lemma trigger_one_forward: "forward s (snd (trigger_one now tid s))"
  by (auto simp: trigger_one_def task_le_def status_le_def split: option.splits intro!: put_task_forward)

lemma trigger_pending_tasks_forward [mono_step]: "forward s (snd (trigger_pending_tasks now s))"
proof -
  have "forward s (snd (trigger_loop now tids s))" for tids
  proof (induction now tids s rule: trigger_loop.induct)
    case (2 now tid tids s)
    then show ?case using trigger_one_forward [of s now tid]
      by (auto simp: Let_def split: prod.splits intro: forward_trans)
  qed simp
  then show ?thesis by (simp add: trigger_pending_tasks_def)
qed

lemma record_decision_forward [mono_step]: "forward s (record_decision d s)"
  by (rule forward_frame) simp_all

lemma assign_task_forward:
  assumes wf: "cs_wf s" and t: "get_task s (t_id t) = Some t" "t_status t \<notin> TERMINAL_TASK_STATUSES"
  shows "forward s (assign_task now t n p s)"
proof -
  let ?u = "touch now (t\<lparr>t_status := Running, t_assigned_to := Some (n_id n)\<rparr>)"
  let ?s1 = "put_task (t_id t) ?u s"
  let ?s2 = "?s1\<lparr>cs_fair_scheduler := mark_picked (n_id n) (cs_fair_scheduler ?s1)\<rparr>"
  have "forward s ?s1"
    by (rule put_task_forward [OF t(1)]) (use t(2) in \<open>simp add: task_le_def status_le_def touch_def\<close>)
  moreover have "forward ?s1 ?s2" by (rule forward_frame) simp_all
  moreover have "cs_wf ?s2" using put_task_wf_same [OF wf t(1), of ?u] by simp
  then have "forward ?s2 (snd (create_lease now (t_id t) (n_id n) SCHEDULER_ASSIGNED_TTL ?s2))"
    by (intro create_lease_forward cs_wfD)
  ultimately show ?thesis unfolding assign_task_def Let_def
    using record_decision_forward forward_trans by blast
qed

lemma schedule_loop_forward:
  assumes "cs_wf s" "loop_tasks ts s" "\<forall>t \<in> set ts. t_status t = Ready"
  shows "forward s (snd (schedule_loop now ns lns ts cnt s))"
proof -
  let ?P = "\<lambda>(acc :: assignment list) ts' (cnt :: counts) s'. cs_wf s' \<and> loop_tasks ts' s' \<and>
     (\<forall>t \<in> set ts'. t_status t = Ready) \<and> forward s s'"
  have "\<exists>cnt'. ?P ([] @ fst (schedule_loop now ns lns ts cnt s)) [] cnt'
      (snd (schedule_loop now ns lns ts cnt s))"
  proof (rule schedule_loop_rule [where P = ?P])
    fix acc t ts' cnt s' n p
    assume P: "?P acc (t # ts') cnt s'"
    then have t: "get_task s' (t_id t) = Some t" "t_status t = Ready" using loop_tasks_head by auto
    then have "forward s' (assign_task now t n p s')" using P by (intro assign_task_forward) auto
    then show "?P (acc @ [mk_assignment t n]) ts' (bump (n_id n) cnt) (assign_task now t n p s')"
      using P t assign_task_wf loop_tasks_placed forward_trans by (meson list.set_intros(2))
  qed (use assms loop_tasks_parked in \<open>auto\<close>)
  then show ?thesis by blast
qed

lemma ready_tasks_ready: "t \<in> set (ready_tasks now s) \<Longrightarrow> t_status t = Ready"
  by (auto simp: ready_tasks_def Let_def)

lemma schedule_pending_detailed_forward [mono_step]:
  "cs_wf s \<Longrightarrow> forward s (snd (schedule_pending_detailed now s))"
  using ready_tasks_ready
  by (auto simp: schedule_pending_detailed_def intro!: schedule_loop_forward loop_tasks_ready)

lemma create_task_forward [mono_step]:
  "get_task s (pl_task_id p) = None \<Longrightarrow> forward s (snd (create_task now p s))"
  by (simp add: create_task_def Let_def put_task_new_forward)

lemma create_tasks_batch_forward [mono_step]:
  assumes "distinct (map pl_task_id ps)" "\<forall>p \<in> set ps. get_task s (pl_task_id p) = None"
  shows "forward s (snd (create_tasks_batch now ps s))"
proof -
  have "distinct (map t_id ts) \<Longrightarrow> \<forall>t \<in> set ts. get_task s (t_id t) = None \<Longrightarrow>
      forward s (fold (\<lambda>t. put_task (t_id t) t) ts s)" for ts :: "task list"
  proof (induction ts arbitrary: s)
    case (Cons t ts)
    then have "\<forall>u \<in> set ts. get_task (put_task (t_id t) t s) (t_id u) = None"
      by (auto simp: image_iff)
    then have "forward (put_task (t_id t) t s) (fold (\<lambda>t. put_task (t_id t) t) ts (put_task (t_id t) t s))"
      using Cons by simp
    moreover have "forward s (put_task (t_id t) t s)" using Cons.prems by (simp add: put_task_new_forward)
    ultimately show ?case by (simp add: forward_trans)
  qed simp
  with assms show ?thesis by (simp add: create_tasks_batch_def Let_def comp_def)
qed

lemma registry_forward [mono_step]:
  "forward s (snd (register_federation_cluster now c nm ep s))"
  "forward s (snd (remove_federation_cluster c s))" "forward s (snd (deregister_hook h s))"
  "forward s (record_task_spawn r s)" "forward s (snd (delete_task_spawn tid s))"
  "forward s (record_lane w lk sid pf ro nd ca la lt s)" "forward s (touch_lane_last_task lk tid s)"
  "forward s (snd (delete_lane lk s))" "forward s (set_config cf s)" "forward s (set_config_path pa s)"
  "forward s (add_delivery dl s)" "forward s (snd (register_hook now u evs sec s))"
  by (simp_all add: forward_frame register_federation_cluster_def remove_federation_cluster_def
      deregister_hook_def record_task_spawn_def delete_task_spawn_def record_lane_def
      touch_lane_last_task_def delete_lane_def set_config_def set_config_path_def add_delivery_def
      register_hook_def generate_id_def Let_def split: option.splits)

lemma recovery_log_forward [mono_step]:
  "forward s (append_recovery_event now e s)" "forward s (trigger_recovery_log now nid s)"
  by (simp_all add: forward_frame append_recovery_event_def trigger_recovery_log_def generate_id_def Let_def)

section \<open>The step relation\<close>

inductive cs_step :: "cluster_state \<Rightarrow> cluster_state \<Rightarrow> bool" where
  st_register_node: "cs_step s (register_node n s)"
| st_update_heartbeat: "cs_step s (update_heartbeat now nid ld d r c l e s)"
| st_update_capabilities: "cs_step s (update_capabilities nid caps s)"
| st_drain: "cs_step s (set_drained nid True s)"
| st_update_max_concurrent: "cs_step s (update_max_concurrent nid m s)"
| st_update_instance_token: "cs_step s (update_instance_token nid tok s)"
| st_set_node_status: "cs_step s (set_node_status nid st r s)"
| st_callbacks: "s' \<in> {set_on_node_online s, set_on_capability_change s, set_lease_callback s} \<Longrightarrow> cs_step s s'"
| st_create_task: "get_task s (pl_task_id p) = None \<Longrightarrow> cs_step s (snd (create_task now p s))"
| st_create_tasks_batch: "distinct (map pl_task_id ps) \<Longrightarrow> \<forall>p \<in> set ps. get_task s (pl_task_id p) = None \<Longrightarrow>
    cs_step s (snd (create_tasks_batch now ps s))"
| st_set_task_result: "cs_step s (snd (set_task_result now tid res s))"
| st_set_task_status: "cs_step s (snd (set_task_status now tid ts fr s))"
| st_unassign_task: "cs_step s (snd (unassign_task now tid s))"
| st_unblock_task: "cs_step s (snd (unblock_task now tid s))"
| st_set_task_ballot: "cs_step s (snd (set_task_ballot now tid b s))"
| st_set_task_cancel_requeue: "cs_step s (snd (set_task_cancel_requeue now tid q s))"
| st_unblock_to_ready: "cs_step s (snd (unblock_to_ready now tid s))"
| st_requeue_task: "cs_step s (snd (requeue_task now tid r s))"
| st_set_dependencies: "cs_step s (snd (set_dependencies now tid deps s))"
| st_create_lease: "cs_step s (snd (create_lease now tid nid ttl s))"
| st_revoke_lease: "cs_step s (snd (revoke_lease k s))"
| st_get_active_leases: "cs_step s (snd (get_active_leases now s))"
| st_handle_sync_message: "cs_step s (snd (handle_sync_message now msg s))"
| st_append_recovery_event: "cs_step s (append_recovery_event now ev s)"
| st_trigger_recovery: "cs_step s (trigger_recovery_log now nid s)"
| st_record_decision: "cs_step s (record_decision dec s)"
| st_trigger_pending: "cs_step s (snd (trigger_pending_tasks now s))"
| st_schedule: "cs_step s (snd (schedule_pending_detailed now s))"
| st_register_cluster: "cs_step s (snd (register_federation_cluster now cid nm ep s))"
| st_remove_cluster: "cs_step s (snd (remove_federation_cluster cid s))"
| st_register_hook: "cs_step s (snd (register_hook now url evs sec s))"
| st_deregister_hook: "cs_step s (snd (deregister_hook hid s))"
| st_add_delivery: "cs_step s (add_delivery dl s)"
| st_record_task_spawn: "cs_step s (record_task_spawn rec s)"
| st_delete_task_spawn: "cs_step s (snd (delete_task_spawn tid s))"
| st_record_lane: "cs_step s (record_lane w lk sid pf ro nd ca la lt s)"
| st_touch_lane: "cs_step s (touch_lane_last_task lk tid s)"
| st_delete_lane: "cs_step s (snd (delete_lane lk s))"
| st_set_config: "cs_step s (set_config cf s)"
| st_set_config_path: "cs_step s (set_config_path pa s)"

lemma cs_step_wf: "cs_step s s' \<Longrightarrow> cs_wf s \<Longrightarrow> cs_wf s'"
  by (induction rule: cs_step.induct) (auto intro: wf_keep)

lemma cs_step_forward: "cs_step s s' \<Longrightarrow> cs_wf s \<Longrightarrow> forward s s'"
  by (induction rule: cs_step.induct) (auto intro: mono_step cs_wfD)

text \<open>
  An operator may also take the drain mark off a node; only that step is not forward.
\<close>

inductive op_step :: "cluster_state \<Rightarrow> cluster_state \<Rightarrow> bool" where
  op_any: "cs_step s s' \<Longrightarrow> op_step s s'"
| op_undrain: "op_step s (set_drained nid False s)"

inductive_cases op_stepE: "op_step s s'"

lemma op_step_wf: "op_step s s' \<Longrightarrow> cs_wf s \<Longrightarrow> cs_wf s'"
  by (induction rule: op_step.induct) (auto intro: cs_step_wf node_setters_wf)

lemma set_drained_tables: "cs_tasks (set_drained nid b s) = cs_tasks s" "cs_leases (set_drained nid b s) = cs_leases s"
  "cs_sync_version (set_drained nid b s) = cs_sync_version s"
  by (simp_all add: set_drained_def modify_node_def split: option.splits)

lemma op_step_tables: "op_step s s' \<Longrightarrow> cs_wf s \<Longrightarrow>
  tasks_le s s' \<and> leases_le s s' \<and> cs_sync_version s \<le> cs_sync_version s'"
  by (erule op_stepE)
    (auto dest: cs_step_forward simp: forward_def tasks_le_cong leases_le_cong set_drained_tables)

interpretation task_table: monotone_store get_task task_le cs_wf op_step
proof
  show "task_le v v" for v by simp
  show "task_le u v \<Longrightarrow> task_le v w \<Longrightarrow> task_le u w" for u v w by (rule task_le_trans)
  show "cs_wf s \<Longrightarrow> op_step s s' \<Longrightarrow> cs_wf s'" for s s' by (rule op_step_wf)
  show "\<exists>w. get_task s' k = Some w \<and> task_le v w"
    if "cs_wf s" "op_step s s'" "get_task s k = Some v" for s s' k v
    using op_step_tables [OF that(2,1)] that(3) unfolding tasks_le_def by blast
qed

interpretation lease_table: monotone_store get_lease lease_le cs_wf op_step
proof
  show "lease_le v v" for v by simp
  show "lease_le u v \<Longrightarrow> lease_le v w \<Longrightarrow> lease_le u w" for u v w by (rule lease_le_trans)
  show "cs_wf s \<Longrightarrow> op_step s s' \<Longrightarrow> cs_wf s'" for s s' by (rule op_step_wf)
  show "\<exists>w. get_lease s' k = Some w \<and> lease_le v w"
    if "cs_wf s" "op_step s s'" "get_lease s k = Some v" for s s' k v
    using op_step_tables [OF that(2,1)] that(3) unfolding leases_le_def by blast
qed

text \<open>Without the operator's step, drained nodes stay drained too.\<close>

interpretation node_registry: monotone_store get_node "\<lambda>n n'. n_drained n \<longrightarrow> n_drained n'" cs_wf cs_step
proof
  show "cs_wf s \<Longrightarrow> cs_step s s' \<Longrightarrow> cs_wf s'" for s s' by (rule cs_step_wf)
  show "\<exists>w. get_node s' k = Some w \<and> (n_drained v \<longrightarrow> n_drained w)"
    if "cs_wf s" "cs_step s s'" "get_node s k = Some v" for s s' k v
    using cs_step_forward [OF that(2,1)] that(3) unfolding forward_def nodes_le_def by blast
qed auto

end
