(* ===== verification/LeaseTable.thy ===== *)
theory LeaseTable
  imports ClusterSteps
begin

text \<open>
  What the lease table of \<open>ClusterState\<close> promises its clients (the lease manager, the requeue
  path and the recovery pipeline) is the locale \<open>lease_store\<close>: lookup by task finds a lease
  exactly when the task has an active one, creation adds one fresh active lease and touches no
  other, revocation changes one lease and no other. The clients' lemmas are proved once in the
  locale and interpreted on the model.
\<close>

section \<open>The interface\<close>

locale lease_store =
  fixes by_task :: "'s \<Rightarrow> string \<Rightarrow> lease option"
    and lease_at :: "'s \<Rightarrow> string \<Rightarrow> lease option"
    and mk :: "time \<Rightarrow> string \<Rightarrow> string \<Rightarrow> duration \<Rightarrow> 's \<Rightarrow> lease \<times> 's"
    and rv :: "string \<Rightarrow> 's \<Rightarrow> bool \<times> 's"
    and ok :: "'s \<Rightarrow> bool"
  assumes by_task_Some: "ok s \<Longrightarrow> by_task s tid = Some l \<Longrightarrow>
      lease_at s (l_id l) = Some l \<and> l_task_id l = tid \<and> l_status l = Active"
    and by_task_None: "ok s \<Longrightarrow> tid \<noteq> [] \<Longrightarrow> by_task s tid = None \<Longrightarrow>
      lease_at s k = Some l \<Longrightarrow> l_task_id l = tid \<Longrightarrow> l_status l \<noteq> Active"
    and mk_lease: "ok s \<Longrightarrow> mk now tid nid ttl s = (l, s') \<Longrightarrow>
      lease_at s (l_id l) = None \<and> l_task_id l = tid \<and> l_node_id l = nid \<and> l_status l = Active \<and>
      l_created_at l = now \<and> l_expires_at l = now + ttl"
    and mk_at: "ok s \<Longrightarrow> mk now tid nid ttl s = (l, s') \<Longrightarrow>
      lease_at s' k = (if k = l_id l then Some l else lease_at s k)"
    and mk_ok: "ok s \<Longrightarrow> mk now tid nid ttl s = (l, s') \<Longrightarrow> ok s'"
    and rv_found: "rv k s = (b, s') \<Longrightarrow> b \<longleftrightarrow> lease_at s k \<noteq> None"
    and rv_at: "rv k s = (b, s') \<Longrightarrow>
      lease_at s' j = (if j = k then map_option (l_status_update (\<lambda>_. Revoked)) (lease_at s k) else lease_at s j)"
    and rv_ok: "ok s \<Longrightarrow> rv k s = (b, s') \<Longrightarrow> ok s'"
begin

lemma by_task_exists:
  "ok s \<Longrightarrow> tid \<noteq> [] \<Longrightarrow> lease_at s k = Some l \<Longrightarrow> l_task_id l = tid \<Longrightarrow> l_status l = Active \<Longrightarrow>
   \<exists>l'. by_task s tid = Some l'"
  using by_task_None by (cases "by_task s tid") auto

text \<open>A created lease is found by its task.\<close>

lemma mk_found:
  assumes "ok s" "tid \<noteq> []" "mk now tid nid ttl s = (l, s')"
  shows "\<exists>l'. by_task s' tid = Some l'"
proof (rule by_task_exists)
  show "ok s'" using assms by (blast intro: mk_ok)
  show "lease_at s' (l_id l) = Some l" using mk_at assms by simp
  show "l_task_id l = tid" "l_status l = Active" using mk_lease assms by blast+
qed (fact assms)

text \<open>Renewal: a new lease first, then the old one is revoked. Nothing else changes.\<close>

lemma renew:
  assumes "ok s" "lease_at s k = Some l0" "l_task_id l0 \<noteq> []"
    and "mk now (l_task_id l0) (l_node_id l0) ttl s = (l, s1)" "rv k s1 = (b, s2)"
  shows "b \<and> lease_at s2 (l_id l) = Some l \<and> lease_at s2 k = Some (l0\<lparr>l_status := Revoked\<rparr>) \<and>
         (\<forall>j. j \<noteq> k \<longrightarrow> j \<noteq> l_id l \<longrightarrow> lease_at s2 j = lease_at s j) \<and>
         (\<exists>l'. by_task s2 (l_task_id l0) = Some l')"
proof -
  have "lease_at s (l_id l) = None" using mk_lease assms by blast
  with assms(2) have k: "k \<noteq> l_id l" by auto
  have at1: "lease_at s1 j = (if j = l_id l then Some l else lease_at s j)" for j
    using mk_at assms(1,4) by blast
  have at2: "lease_at s2 j = (if j = k then map_option (l_status_update (\<lambda>_. Revoked)) (lease_at s1 k)
      else lease_at s1 j)" for j
    using rv_at assms(5) by blast
  have ok2: "ok s2" using rv_ok [OF mk_ok [OF assms(1,4)] assms(5)] .
  have new: "lease_at s2 (l_id l) = Some l" unfolding at2 at1 using k by auto
  have l: "l_task_id l = l_task_id l0" "l_status l = Active" using mk_lease [OF assms(1,4)] by auto
  have "\<exists>l'. by_task s2 (l_task_id l0) = Some l'" by (rule by_task_exists [OF ok2 assms(3) new l])
  moreover have "lease_at s2 k = Some (l0\<lparr>l_status := Revoked\<rparr>)" unfolding at2 at1 using k assms(2) by simp
  moreover have "\<forall>j. j \<noteq> k \<longrightarrow> j \<noteq> l_id l \<longrightarrow> lease_at s2 j = lease_at s j" unfolding at2 at1 by simp
  moreover have b using rv_found [OF assms(5)] at1 [of k] k assms(2) by simp
  ultimately show ?thesis using new by simp
qed

text \<open>Revoking the only active lease of a task frees the task.\<close>

lemma rv_frees:
  assumes "ok s" "rv k s = (b, s')"
    and sole: "\<And>j l. lease_at s j = Some l \<Longrightarrow> l_task_id l = tid \<Longrightarrow> l_status l = Active \<Longrightarrow> j = k"
  shows "by_task s' tid = None"
proof (rule ccontr)
  assume "by_task s' tid \<noteq> None"
  then obtain l where l: "by_task s' tid = Some l" by blast
  have "ok s'" using assms rv_ok by blast
  from by_task_Some [OF this l] have l': "lease_at s' (l_id l) = Some l" "l_task_id l = tid" "l_status l = Active"
    by blast+
  show False
  proof (cases "l_id l = k")
    case True
    with l'(1) rv_at [OF assms(2), of k] have "l_status l = Revoked" by (cases "lease_at s k") auto
    with l'(3) show False by simp
  next
    case False
    with l'(1) rv_at [OF assms(2), of "l_id l"] have "lease_at s (l_id l) = Some l" by simp
    from sole [OF this l'(2,3)] False show False by blast
  qed
qed

end

section \<open>The model's lease table\<close>

lemma scan_lease_Some:
  "dict_ok ls \<Longrightarrow> scan_lease tid ls = Some l \<Longrightarrow>
   (\<exists>k. dict_get ls k = Some l) \<and> l_task_id l = tid \<and> l_status l = Active"
  unfolding scan_lease_def find_Some_iff by (metis dict_value_get nth_mem)

lemma scan_lease_None:
  "scan_lease tid ls = None \<Longrightarrow> dict_get ls k = Some l \<Longrightarrow> l_task_id l = tid \<Longrightarrow> l_status l \<noteq> Active"
  unfolding scan_lease_def find_None_iff using dict_get_value by metis

lemma get_lease_by_task_cases:
  "get_lease_by_task s tid = (if tid = [] then None else scan_lease tid (cs_leases s)) \<or>
   (\<exists>k l. tid \<noteq> [] \<and> dict_get (cs_task_lease_index s) tid = Some k \<and> dict_get (cs_leases s) k = Some l \<and>
      l_status l = Active \<and> get_lease_by_task s tid = Some l)"
  by (auto simp: get_lease_by_task_def split: option.splits)

lemma get_lease_by_task_Some:
  assumes wf: "leases_wf s" and "get_lease_by_task s tid = Some l"
  shows "get_lease s (l_id l) = Some l \<and> l_task_id l = tid \<and> l_status l = Active"
  using get_lease_by_task_cases [of s tid]
proof
  assume "get_lease_by_task s tid = (if tid = [] then None else scan_lease tid (cs_leases s))"
  with assms(2) have "scan_lease tid (cs_leases s) = Some l" by (simp split: if_splits)
  from scan_lease_Some [OF leases_wfD(1) [OF wf] this] show ?thesis
    using leases_wfD(4) [OF wf] by (auto simp: get_lease_def)
next
  assume "\<exists>k l. tid \<noteq> [] \<and> dict_get (cs_task_lease_index s) tid = Some k \<and>
      dict_get (cs_leases s) k = Some l \<and> l_status l = Active \<and> get_lease_by_task s tid = Some l"
  then show ?thesis using leases_wfD(4,6) [OF wf] assms(2) by (fastforce simp: get_lease_def)
qed

lemma get_lease_by_task_None:
  assumes "tid \<noteq> []" "get_lease_by_task s tid = None" "get_lease s k = Some l" "l_task_id l = tid"
  shows "l_status l \<noteq> Active"
  using get_lease_by_task_cases [of s tid] assms scan_lease_None
  by (fastforce simp: get_lease_def split: if_splits)

interpretation lt: lease_store get_lease_by_task get_lease create_lease revoke_lease leases_wf
proof
  fix s s' :: cluster_state and tid nid k j :: string and now ttl :: int and l :: lease and b :: bool
  show "leases_wf s \<Longrightarrow> get_lease_by_task s tid = Some l \<Longrightarrow>
      get_lease s (l_id l) = Some l \<and> l_task_id l = tid \<and> l_status l = Active"
    by (rule get_lease_by_task_Some)
  show "leases_wf s \<Longrightarrow> tid \<noteq> [] \<Longrightarrow> get_lease_by_task s tid = None \<Longrightarrow> get_lease s k = Some l \<Longrightarrow>
      l_task_id l = tid \<Longrightarrow> l_status l \<noteq> Active"
    using get_lease_by_task_None by blast
  show "leases_wf s \<Longrightarrow> create_lease now tid nid ttl s = (l, s') \<Longrightarrow>
      get_lease s (l_id l) = None \<and> l_task_id l = tid \<and> l_node_id l = nid \<and> l_status l = Active \<and>
      l_created_at l = now \<and> l_expires_at l = now + ttl"
    using new_lease_id_fresh [of s] by (auto simp: create_lease_eq Let_def get_lease_def)
  show "leases_wf s \<Longrightarrow> create_lease now tid nid ttl s = (l, s') \<Longrightarrow>
      get_lease s' k = (if k = l_id l then Some l else get_lease s k)"
    by (auto simp: create_lease_eq Let_def get_lease_def)
  show "leases_wf s \<Longrightarrow> create_lease now tid nid ttl s = (l, s') \<Longrightarrow> leases_wf s'"
    using create_lease_leases_wf [of s now tid nid ttl] by simp
  show "revoke_lease k s = (b, s') \<Longrightarrow> b \<longleftrightarrow> get_lease s k \<noteq> None"
    by (auto simp: revoke_lease_def get_lease_def split: option.splits)
  show "revoke_lease k s = (b, s') \<Longrightarrow>
      get_lease s' j = (if j = k then map_option (l_status_update (\<lambda>_. Revoked)) (get_lease s k) else get_lease s j)"
    by (auto simp: revoke_lease_def get_lease_def split: option.splits)
  show "leases_wf s \<Longrightarrow> revoke_lease k s = (b, s') \<Longrightarrow> leases_wf s'"
    using revoke_lease_leases_wf [of s k] by simp
qed

section \<open>The expiry pass\<close>

lemma get_active_leases_at: "get_lease (snd (get_active_leases now s)) k = map_option (mark_due now) (get_lease s k)"
  by (simp add: get_active_leases_eq get_lease_def map_of_mark_due)

lemma mark_due_idem [simp]: "mark_due now (mark_due now l) = mark_due now l"
  by (simp add: mark_due_def lease_due_def)

lemma not_due_mark_due [simp]: "\<not> lease_due now (mark_due now l)"
  by (simp add: mark_due_def lease_due_def)

lemma live_mark_due [simp]: "lease_live now (mark_due now l) \<longleftrightarrow> lease_live now l"
  by (auto simp: mark_due_def lease_due_def lease_live_def)

lemma live_not_due: "lease_live now l \<Longrightarrow> mark_due now l = l"
  by (auto simp: mark_due_def lease_due_def lease_live_def)

lemma filter_live_mark_due:
  "filter (lease_live now) (dict_values (map (\<lambda>(k, l). (k, mark_due now l)) ls)) =
   filter (lease_live now) (dict_values ls)"
  by (induction ls) (auto simp: live_not_due)

lemma filter_due_mark_due:
  "filter (lease_due now) (dict_values (map (\<lambda>(k, l). (k, mark_due now l)) ls)) = []"
  by (induction ls) auto

lemma get_active_leases_twice:
  "get_active_leases now (snd (get_active_leases now s)) =
   (fst (get_active_leases now s), snd (get_active_leases now s))"
proof -
  have "map (\<lambda>(k, l). (k, mark_due now l)) (map (\<lambda>(k, l). (k, mark_due now l)) ls) =
        map (\<lambda>(k, l). (k, mark_due now l)) ls" for ls :: "(string, lease) dict"
    by (induction ls) auto
  then show ?thesis
    by (simp add: get_active_leases_eq filter_live_mark_due filter_due_mark_due del: map_map)
qed

lemma lease_values_mem:
  "leases_wf s \<Longrightarrow> l \<in> set (dict_values (cs_leases s)) \<longleftrightarrow> get_lease s (l_id l) = Some l"
  unfolding get_lease_def by (metis dict_get_value dict_value_get leases_wfD(1,4))

lemma active_leases_mem:
  "leases_wf s \<Longrightarrow> l \<in> set (fst (get_active_leases now s)) \<longleftrightarrow> get_lease s (l_id l) = Some l \<and> lease_live now l"
  using lease_values_mem [of s l] by (simp add: get_active_leases_eq)

end
