(* ===== verification/Demo.thy ===== *)
theory Demo
  imports LeaseTable
begin

text \<open>
  Small concrete states on which the hypotheses of the properties are shown to hold. The tokens
  are strings of increasing length, so they are pairwise distinct.
\<close>

definition demo_rng :: "nat \<Rightarrow> string" where
  "demo_rng i = replicate i CHR ''0''"

lemma inj_demo_rng: "inj demo_rng"
  by (rule injI) (metis demo_rng_def length_replicate)

definition demo_node :: "string \<Rightarrow> int \<Rightarrow> node" where
  "demo_node nid room =
     \<lparr>n_id = nid, n_name = nid, n_capabilities = [''code''], n_status = Online, n_last_heartbeat = 0,
      n_load = 0, n_max_concurrent = room, n_drained = False, n_disk_free_gb = None,
      n_status_reason = [], n_instance_token = ''tok'', n_cpu_load_pct = None, n_lane_count = None,
      n_duplicate_executor = None\<rparr>"

definition demo_plan :: "string \<Rightarrow> string list \<Rightarrow> string \<Rightarrow> task_plan" where
  "demo_plan tid deps lane_key =
     \<lparr>pl_task_id = tid, pl_title = tid, pl_requires = [''code''], pl_priority = 3,
      pl_lane_key = lane_key, pl_role = ''author'', pl_description = [], pl_issues = [],
      pl_depends_on = deps\<rparr>"

definition demo0 :: cluster_state where
  "demo0 = init_state 0 demo_rng"

text \<open>One node with room for one task, and two ready tasks.\<close>

definition demo1 :: cluster_state where
  "demo1 = snd (create_tasks_batch 10 [demo_plan ''t1'' [] [], demo_plan ''t2'' [] []]
                 (register_node (demo_node ''n1'' 1) demo0))"

text \<open>The same, with \<open>t1\<close> running under a lease of \<open>n1\<close>.\<close>

definition demo2 :: cluster_state where
  "demo2 = snd (schedule_pending_detailed 20 demo1)"

text \<open>A pending task whose dependency is completed.\<close>

definition demo3 :: cluster_state where
  "demo3 = snd (set_task_status 30 ''t1'' Completed []
     (snd (create_task 10 (demo_plan ''t3'' [''t1''] []) demo1)))"

text \<open>Two ready tasks of one lane.\<close>

definition demo_lane :: cluster_state where
  "demo_lane = snd (create_tasks_batch 10 [demo_plan ''t1'' [] ''lane'', demo_plan ''t2'' [] ''lane'']
                 (register_node (demo_node ''n1'' 0) demo0))"

text \<open>The node that runs \<open>t1\<close> goes offline.\<close>

definition demo_off :: cluster_state where
  "demo_off = set_node_status ''n1'' Offline [] demo2"

lemmas demo_defs = demo0_def demo1_def demo2_def demo3_def demo_node_def demo_plan_def

lemma demo_wf: "cs_wf demo0" "cs_wf demo1" "cs_wf demo2" "cs_wf demo3"
proof -
  show 0: "cs_wf demo0" unfolding demo0_def by (rule cs_wf_init [OF inj_demo_rng])
  show 1: "cs_wf demo1" unfolding demo1_def by (intro create_tasks_batch_wf register_node_wf 0)
  show "cs_wf demo2" unfolding demo2_def by (intro schedule_pending_detailed_wf 1)
  show "cs_wf demo3" unfolding demo3_def by (intro task_setters_wf create_task_wf 1)
qed

lemma demo1_t1: "map_option t_status (get_task demo1 ''t1'') = Some Ready"
  by code_simp

lemma demo2_t1: "map_option (\<lambda>t. (t_status t, t_assigned_to t)) (get_task demo2 ''t1'') = Some (Running, Some ''n1'')"
  by code_simp

lemma demo3_t1: "map_option t_status (get_task demo3 ''t1'') = Some Completed"
  by code_simp

lemma demo_lane_wf: "cs_wf demo_lane"
  unfolding demo_lane_def by (intro create_tasks_batch_wf register_node_wf demo_wf(1))

lemma demo_off_wf: "cs_wf demo_off"
  unfolding demo_off_def by (intro node_setters_wf demo_wf(3))

end
