(* ===== verification/Promotion.thy ===== *)
theory Promotion
  imports ClusterSteps
begin

text \<open>
  The promotion pass \<open>trigger_pending_tasks\<close> as one parallel step. The source walks the task
  table and mutates it on the way, so a later task could see what the pass did to an earlier one.
  It does not: the pass touches pending tasks only, and neither a dependency test (is it completed?)
  nor the landing gate (completed reviewers, authoring lanes) can tell the difference.
\<close>

section \<open>What the tests can see\<close>

definition promo_same :: "task \<Rightarrow> task \<Rightarrow> bool" where
  "promo_same t u \<longleftrightarrow> u = t \<or> (t_status t \<noteq> Completed \<and> t_status u \<noteq> Completed \<and> t_id u = t_id t \<and>
     t_lane_key u = t_lane_key t \<and> t_issues u = t_issues t)"

lemma reviewer_of_Completed: "reviewer_of t repo n \<Longrightarrow> t_status t = Completed"
  by (simp add: reviewer_of_def task_status_value_inj del: task_status_value.simps split: if_splits)

lemma promo_same_reviewers:
  "list_all2 promo_same ts us \<Longrightarrow> filter (\<lambda>t. reviewer_of t repo n) us = filter (\<lambda>t. reviewer_of t repo n) ts"
proof (induction rule: list_all2_induct)
  case (Cons t ts u us)
  have "(reviewer_of u repo n \<longleftrightarrow> reviewer_of t repo n) \<and> (reviewer_of t repo n \<longrightarrow> u = t)"
    using Cons(1) reviewer_of_Completed unfolding promo_same_def by blast
  with Cons show ?case by auto
qed simp

lemma promo_same_authors: "list_all2 promo_same ts us \<Longrightarrow> authoring_lanes us repo n x = authoring_lanes ts repo n x"
  unfolding authoring_lanes_def
proof (induction rule: list_all2_induct)
  case (Cons t ts u us)
  then show ?case by (auto simp: promo_same_def)
qed simp

lemma promo_same_hold:
  assumes "list_all2 promo_same ts us"
  shows "hold_reason us t = hold_reason ts t"
proof -
  have "latest_reviewer_verdict us = latest_reviewer_verdict ts" "authoring_lanes us = authoring_lanes ts"
    using assms by (simp_all add: fun_eq_iff latest_reviewer_verdict_def promo_same_reviewers promo_same_authors)
  then show ?thesis by (simp only: hold_reason_def)
qed

section \<open>One task\<close>

definition promotable :: "cluster_state \<Rightarrow> task \<Rightarrow> bool" where
  "promotable s t \<longleftrightarrow> t_status t = Pending \<and> deps_met s t \<and> hold_reason (dict_values (cs_tasks s)) t = None"

definition promoted :: "time \<Rightarrow> cluster_state \<Rightarrow> task \<Rightarrow> task" where
  "promoted now s t =
     (if t_status t \<noteq> Pending \<or> \<not> deps_met s t then t
      else case hold_reason (dict_values (cs_tasks s)) t of
             None \<Rightarrow> t\<lparr>t_status := Ready, t_updated_at := now\<rparr>
           | Some r \<Rightarrow> if t_fail_reason t \<noteq> Some r then t\<lparr>t_fail_reason := Some r, t_updated_at := now\<rparr> else t)"

lemma promo_same_promoted: "promo_same t (promoted now s t)"
  by (auto simp: promo_same_def promoted_def split: option.splits)

text \<open>The task table while the loop is under way: the tasks in \<open>D\<close> have had their turn.\<close>

definition partly :: "time \<Rightarrow> cluster_state \<Rightarrow> string set \<Rightarrow> cluster_state" where
  "partly now s D = s\<lparr>cs_tasks := map (\<lambda>(k, t). (k, if k \<in> D then promoted now s t else t)) (cs_tasks s)\<rparr>"

lemma map_of_map_keyed: "map_of (map (\<lambda>(k, v). (k, f k v)) d) k = map_option (f k) (map_of d k)"
  by (induction d) auto

lemma dict_set_map_keyed:
  "dict_ok d \<Longrightarrow> map_of d k0 = Some w \<Longrightarrow>
   AList.update k0 u (map (\<lambda>(k, v). (k, f k v)) d) = map (\<lambda>(k, v). (k, if k = k0 then u else f k v)) d"
proof (induction d)
  case (Cons p d)
  obtain k v where p: "p = (k, v)" by (cases p)
  show ?case
  proof (cases "k = k0")
    case True
    with Cons.prems(1) p have "\<forall>q \<in> set d. fst q \<noteq> k0" by auto
    then have "map (\<lambda>(k, v). (k, f k v)) d = map (\<lambda>(k, v). (k, if k = k0 then u else f k v)) d"
      by (auto intro!: map_cong)
    with True p show ?thesis by simp
  next
    case False
    with Cons p show ?thesis by simp
  qed
qed simp

lemma get_task_partly:
  "get_task (partly now s D) k = map_option (\<lambda>t. if k \<in> D then promoted now s t else t) (get_task s k)"
  by (simp add: partly_def get_task_def map_of_map_keyed)

lemma partly_hold: "hold_reason (dict_values (cs_tasks (partly now s D))) t = hold_reason (dict_values (cs_tasks s)) t"
proof (rule promo_same_hold)
  have "list_all2 promo_same (map snd d) (map snd (map (\<lambda>(k, t). (k, if k \<in> D then promoted now s t else t)) d))"
    for d :: "(string, task) dict"
    by (induction d) (auto simp: promo_same_promoted, simp add: promo_same_def)
  then show "list_all2 promo_same (dict_values (cs_tasks s)) (dict_values (cs_tasks (partly now s D)))"
    by (simp add: partly_def)
qed

lemma partly_deps: "deps_met (partly now s D) t = deps_met s t"
proof -
  have "dep_completed (partly now s D) d = dep_completed s d" for d
  proof (cases "get_task s d")
    case (Some u)
    have "t_status (promoted now s u) = Completed \<longleftrightarrow> t_status u = Completed"
      using promo_same_promoted [of u now s] by (auto simp: promo_same_def)
    with Some show ?thesis by (simp add: dep_completed_def get_task_partly)
  qed (simp add: dep_completed_def get_task_partly)
  then have "dep_completed (partly now s D) = dep_completed s" by (rule ext)
  then show ?thesis by (simp add: deps_met_def)
qed

lemma put_partly:
  assumes "dict_ok (cs_tasks s)" "get_task s tid = Some t"
  shows "put_task tid (promoted now s t) (partly now s D) = partly now s (insert tid D)"
proof -
  have "map (\<lambda>(k, v). (k, if k = tid then promoted now s t else if k \<in> D then promoted now s v else v)) (cs_tasks s) =
      map (\<lambda>(k, v). (k, if k \<in> insert tid D then promoted now s v else v)) (cs_tasks s)"
    using assms by (auto simp: get_task_def intro!: map_cong)
  then show ?thesis
    using dict_set_map_keyed [OF assms(1) assms(2) [unfolded get_task_def],
        of "promoted now s t" "\<lambda>k v. if k \<in> D then promoted now s v else v"]
    by (simp add: partly_def put_task_def)
qed

lemma partly_insert_same:
  assumes "dict_ok (cs_tasks s)" "get_task s tid = Some t" "tid \<notin> D" "promoted now s t = t"
  shows "partly now s (insert tid D) = partly now s D"
proof -
  have "map (\<lambda>(k, v). (k, if k \<in> insert tid D then promoted now s v else v)) (cs_tasks s) =
      map (\<lambda>(k, v). (k, if k \<in> D then promoted now s v else v)) (cs_tasks s)"
    using assms by (auto simp: get_task_def intro!: map_cong)
  then show ?thesis by (simp add: partly_def)
qed

lemma trigger_one_partly:
  assumes ok: "dict_ok (cs_tasks s)" and t: "get_task s tid = Some t" and D: "tid \<notin> D"
  shows "trigger_one now tid (partly now s D) = (promotable s t, partly now s (insert tid D))"
proof -
  have g: "get_task (partly now s D) tid = Some t" using t D by (simp add: get_task_partly)
  note put = put_partly [OF ok t, of now D] and same = partly_insert_same [OF ok t D, of now]
  show ?thesis
  proof (cases "t_status t \<noteq> Pending \<or> \<not> deps_met s t")
    case True
    with same show ?thesis by (auto simp: trigger_one_def g partly_deps promotable_def promoted_def)
  next
    case False
    then show ?thesis using put same
      by (auto simp: trigger_one_def g partly_deps partly_hold promotable_def promoted_def split: option.splits)
  qed
qed

lemma trigger_loop_partly:
  assumes "dict_ok (cs_tasks s)" "distinct tids" "set tids \<inter> D = {}" "\<forall>k \<in> set tids. get_task s k \<noteq> None"
  shows "trigger_loop now tids (partly now s D) =
     (length (filter (\<lambda>k. promotable s (the (get_task s k))) tids), partly now s (D \<union> set tids))"
  using assms
proof (induction tids arbitrary: D)
  case (Cons tid tids)
  from Cons.prems(4) obtain t where t: "get_task s tid = Some t" by auto
  have "trigger_one now tid (partly now s D) = (promotable s t, partly now s (insert tid D))"
    using trigger_one_partly [OF Cons.prems(1) t] Cons.prems(3) by simp
  with Cons.IH [of "insert tid D"] Cons.prems t show ?case by auto
qed simp

lemma trigger_pending_partly:
  assumes "cs_wf s"
  shows "trigger_pending_tasks now s =
     (length (filter (promotable s) (dict_values (cs_tasks s))), partly now s UNIV)"
proof -
  have ok: "dict_ok (cs_tasks s)" using cs_wfD(2) [OF assms] by (simp add: tasks_wf_def)
  have "partly now s {} = s" by (simp add: partly_def case_prod_beta)
  with trigger_loop_partly [OF ok ok, of "{}" now]
  have 1: "trigger_pending_tasks now s =
     (length (filter (\<lambda>k. promotable s (the (get_task s k))) (dict_keys (cs_tasks s))),
      partly now s (set (dict_keys (cs_tasks s))))"
    by (auto simp: trigger_pending_tasks_def get_task_def map_of_eq_None_iff)
  have "partly now s (set (dict_keys (cs_tasks s))) = partly now s UNIV"
    by (simp add: partly_def case_prod_beta cong: map_cong)
  moreover have "filter (\<lambda>k. promotable s (the (get_task s k))) (dict_keys (cs_tasks s)) =
      map fst (filter (\<lambda>(k, t). promotable s t) (cs_tasks s))"
  proof -
    have "p \<in> set (cs_tasks s) \<Longrightarrow> get_task s (fst p) = Some (snd p)" for p
      using ok by (simp add: get_task_def map_of_is_SomeI)
    then have "filter (\<lambda>p. promotable s (the (get_task s (fst p)))) (cs_tasks s) = filter (\<lambda>p. promotable s (snd p)) (cs_tasks s)"
      by (intro filter_cong) simp_all
    then show ?thesis by (simp add: filter_map comp_def case_prod_unfold)
  qed
  moreover have "length (filter (\<lambda>(k, t). promotable s t) (cs_tasks s)) =
      length (filter (promotable s) (dict_values (cs_tasks s)))"
    by (simp add: filter_map comp_def case_prod_unfold)
  ultimately show ?thesis using 1 by simp
qed

end
