(* ===== verification/TaskProps.thy ===== *)
theory TaskProps
  imports Demo Promotion
begin

text \<open>
  Properties of the task store: terminality over every run, the retry cap, the lease guard of
  \<open>unassign_task\<close>, what a promotion pass does to every task, the trigger chain, task counts.
\<close>

section \<open>Terminality and versions\<close>

text \<open>C3: In every run of operations, a task that has reached a terminal status keeps it, except
  that a requested cancellation may be acknowledged; its version never goes down, and it is never
  dropped from the store.\<close>

theorem terminal_forever:
  assumes "op_step\<^sup>*\<^sup>* s s'" "cs_wf s" "get_task s tid = Some t" "t_status t \<in> TERMINAL_TASK_STATUSES"
  shows "\<exists>t'. get_task s' tid = Some t' \<and> t_version t \<le> t_version t' \<and>
     (t_status t' = t_status t \<or> t_status t = CancelRequested \<and> t_status t' = Cancelled)"
  using task_table.run_forward [OF assms(1,2,3)] assms(4)
  by (auto simp: task_le_def status_le_def)

theorem terminal_forever_witness:
  "\<exists>t t'. get_task demo3 ''t1'' = Some t \<and>
     get_task (snd (set_task_status 50 ''t1'' Running [] demo3)) ''t1'' = Some t' \<and>
     t_version t \<le> t_version t' \<and> (t_status t' = t_status t \<or> t_status t = CancelRequested \<and> t_status t' = Cancelled)"
proof -
  obtain t where t: "get_task demo3 ''t1'' = Some t" "t_status t = Completed" using demo3_t1 by auto
  have "op_step\<^sup>*\<^sup>* demo3 (snd (set_task_status 50 ''t1'' Running [] demo3))"
    by (intro r_into_rtranclp op_any st_set_task_status)
  from terminal_forever [OF this demo_wf(4) t(1)] t show ?thesis by auto
qed

text \<open>C40: In every reachable state no task has been requeued more often than the retry limit of
  three, and the dictionaries are keyed by the ids of their objects.\<close>

theorem reachable_retry_cap:
  assumes "op_step\<^sup>*\<^sup>* (init_state now rng) s" "inj rng" "get_task s tid = Some t"
  shows "t_id t = tid \<and> 0 \<le> t_attempts t \<and> t_attempts t \<le> 3"
  using cs_wf_taskD [OF task_table.run_inv [OF assms(1) cs_wf_init [OF assms(2)]] assms(3)]
  by (simp add: task_retry_limit_def)

theorem reachable_retry_cap_witness:
  "\<exists>t. get_task (snd (create_task 5 (demo_plan ''t1'' [] []) demo0)) ''t1'' = Some t \<and> t_attempts t \<le> 3"
proof -
  let ?s = "snd (create_task 5 (demo_plan ''t1'' [] []) demo0)"
  have "op_step\<^sup>*\<^sup>* (init_state 0 demo_rng) ?s"
    unfolding demo0_def by (intro r_into_rtranclp op_any st_create_task) (simp add: init_state_def get_task_def)
  moreover have "get_task ?s ''t1'' = Some (build_task 5 Pending (demo_plan ''t1'' [] []))"
    by (simp add: create_task_def Let_def demo_plan_def)
  ultimately show ?thesis using reachable_retry_cap [OF _ inj_demo_rng] by blast
qed

section \<open>Requeue and unassign\<close>

text \<open>C35: A requeue is accepted exactly for an existing task that is not terminal and is below
  the retry limit; a refused one changes nothing. An accepted one makes the task ready and unassigned,
  charges it one attempt at the next version, records the reason when there is one, and leaves every
  other task alone. Of the leases exactly the one \<open>get_lease_by_task\<close> finds for the task is revoked; when
  no active lease is stored for the task, none changes.\<close>

theorem requeue_task_spec:
  assumes wf: "cs_wf s"
  shows "(case get_task s tid of
      None \<Rightarrow> requeue_task now tid r s = (False, s)
    | Some t \<Rightarrow>
        if t_status t \<in> TERMINAL_TASK_STATUSES \<or> 3 \<le> t_attempts t then requeue_task now tid r s = (False, s)
        else (\<exists>t' s'. requeue_task now tid r s = (True, s') \<and>
               (\<forall>k. get_task s' k = (if k = tid then Some t' else get_task s k)) \<and>
               t_status t' = Ready \<and> t_assigned_to t' = None \<and> t_attempts t' = t_attempts t + 1 \<and>
               t_version t' = t_version t + 1 \<and>
               t_fail_reason t' = (if r \<noteq> [] then Some r else t_fail_reason t) \<and>
               t_depends_on t' = t_depends_on t \<and> t_lane_key t' = t_lane_key t \<and> t_requires t' = t_requires t \<and>
               (case get_lease_by_task s tid of
                  None \<Rightarrow> \<forall>k. get_lease s' k = get_lease s k
                | Some l \<Rightarrow> l_task_id l = tid \<and> l_status l = Active \<and>
                    (\<forall>k. get_lease s' k = (if k = l_id l then Some (l\<lparr>l_status := Revoked\<rparr>) else get_lease s k)))))"
proof (cases "get_task s tid")
  case None
  then show ?thesis by (simp add: requeue_task_def)
next
  case (Some t)
  show ?thesis
  proof (cases "t_status t \<in> TERMINAL_TASK_STATUSES \<or> 3 \<le> t_attempts t")
    case True
    then show ?thesis using Some by (auto simp: requeue_task_def task_retry_limit_def)
  next
    case False
    define t1 where "t1 = touch now (t\<lparr>t_attempts := t_attempts t + 1, t_assigned_to := None, t_status := Ready\<rparr>)"
    define t2 where "t2 = (if r \<noteq> [] then t1\<lparr>t_fail_reason := Some r\<rparr> else t1)"
    define s1 where "s1 = put_task tid t2 s"
    have same: "cs_leases s1 = cs_leases s" "cs_task_lease_index s1 = cs_task_lease_index s" by (simp_all add: s1_def put_task_def)
    have at: "get_lease s1 k = get_lease s k" "get_lease_by_task s1 tid = get_lease_by_task s tid" for k
      unfolding get_lease_def get_lease_by_task_def same by (rule refl)+
    have t2: "t_status t2 = Ready" "t_assigned_to t2 = None" "t_attempts t2 = t_attempts t + 1"
      "t_version t2 = t_version t + 1" "t_fail_reason t2 = (if r \<noteq> [] then Some r else t_fail_reason t)"
      "t_depends_on t2 = t_depends_on t" "t_lane_key t2 = t_lane_key t" "t_requires t2 = t_requires t"
      by (simp_all add: t2_def t1_def touch_def)
    define s2 where "s2 = (case get_lease_by_task s tid of None \<Rightarrow> s1 | Some l \<Rightarrow> snd (revoke_lease (l_id l) s1))"
    have "requeue_task now tid r s = (True, s2)"
      unfolding s2_def at(2) [symmetric] unfolding s1_def t2_def t1_def
      using Some False by (simp add: requeue_task_def Let_def task_retry_limit_def)
    moreover have "get_task s2 k = (if k = tid then Some t2 else get_task s k)" for k
      by (simp add: s2_def s1_def get_task_def split: option.splits)
    moreover have "case get_lease_by_task s tid of
        None \<Rightarrow> \<forall>k. get_lease s2 k = get_lease s k
      | Some l \<Rightarrow> l_task_id l = tid \<and> l_status l = Active \<and>
          (\<forall>k. get_lease s2 k = (if k = l_id l then Some (l\<lparr>l_status := Revoked\<rparr>) else get_lease s k))"
    proof (cases "get_lease_by_task s tid")
      case (Some l)
      from lt.by_task_Some [OF cs_wfD(3) [OF wf] Some]
      have l: "get_lease s (l_id l) = Some l" "l_task_id l = tid" "l_status l = Active" by blast+
      have "revoke_lease (l_id l) s1 = (fst (revoke_lease (l_id l) s1), s2)" by (simp add: s2_def Some)
      from lt.rv_at [OF this] show ?thesis using Some l by (simp add: at)
    qed (simp add: s2_def at)
    ultimately show ?thesis using Some False t2 by auto
  qed
qed

theorem requeue_task_witness:
  "\<exists>l t' s'. get_lease_by_task demo2 ''t1'' = Some l \<and> requeue_task 25 ''t1'' ''lost'' demo2 = (True, s') \<and>
     get_task s' ''t1'' = Some t' \<and> t_status t' = Ready \<and> t_assigned_to t' = None \<and> t_attempts t' = 1 \<and>
     t_fail_reason t' = Some ''lost'' \<and> get_task s' ''t2'' = get_task demo2 ''t2'' \<and>
     get_lease s' (l_id l) = Some (l\<lparr>l_status := Revoked\<rparr>)"
proof -
  have "map_option (\<lambda>t. (t_status t, t_attempts t)) (get_task demo2 ''t1'') = Some (Running, 0)"
    "map_option l_node_id (get_lease_by_task demo2 ''t1'') = Some ''n1''" by code_simp+
  then obtain t l where t: "get_task demo2 ''t1'' = Some t" "t_status t = Running" "t_attempts t = 0"
    and l: "get_lease_by_task demo2 ''t1'' = Some l" by auto
  show ?thesis using requeue_task_spec [OF demo_wf(3), where tid = "''t1''" and now = 25 and r = "''lost''"] t l
    by (auto simp: TERMINAL_TASK_STATUSES_def)
qed

text \<open>C18: A task is made schedulable again only when no active lease owns it: \<open>unassign_task\<close>
  succeeds only for a task that is not terminal and has no active lease, and then leaves it ready
  and unassigned; otherwise it changes nothing.\<close>

theorem unassign_guard:
  assumes wf: "cs_wf s" and ne: "tid \<noteq> []" and u: "unassign_task now tid s = (ok, s')"
  shows "if ok then (\<forall>k l. get_lease s k = Some l \<longrightarrow> l_task_id l = tid \<longrightarrow> l_status l \<noteq> Active) \<and>
           (\<exists>t t'. get_task s tid = Some t \<and> t_status t \<notin> TERMINAL_TASK_STATUSES \<and>
              get_task s' tid = Some t' \<and> t_status t' = Ready \<and> t_assigned_to t' = None)
         else s' = s"
  using u lt.by_task_None [OF cs_wfD(3) [OF wf] ne]
  by (auto simp: unassign_task_def touch_def split: option.splits if_splits)

theorem unassign_guard_witness:
  "unassign_task 25 ''t1'' demo2 = (False, demo2)"
proof -
  obtain ok s' where u: "unassign_task 25 ''t1'' demo2 = (ok, s')" by (cases "unassign_task 25 ''t1'' demo2")
  have "fst (unassign_task 25 ''t1'' demo2) = False" by code_simp
  with u unassign_guard [OF demo_wf(3) _ u] show ?thesis by simp
qed

section \<open>Promotion, dependencies, counts\<close>

text \<open>C22: One promotion pass looks at every task as it was before the pass: a pending task whose
  dependencies are completed and which the landing gate does not hold becomes ready, a held one gets
  the reason recorded, every other task is untouched; the pass returns the number of promoted tasks
  and changes nothing but the task table.\<close>

theorem trigger_pending_spec:
  assumes "cs_wf s"
  shows "\<exists>d. trigger_pending_tasks now s =
      (length (filter (\<lambda>t. t_status t = Pending \<and> deps_met s t \<and> hold_reason (get_all_tasks s) t = None)
         (get_all_tasks s)), s\<lparr>cs_tasks := d\<rparr>) \<and>
    (\<forall>tid. dict_get d tid = (case get_task s tid of
        None \<Rightarrow> None
      | Some t \<Rightarrow> Some
         (if t_status t \<noteq> Pending \<or> \<not> deps_met s t then t
          else case hold_reason (get_all_tasks s) t of
             None \<Rightarrow> t\<lparr>t_status := Ready, t_updated_at := now\<rparr>
           | Some r \<Rightarrow> if t_fail_reason t \<noteq> Some r then t\<lparr>t_fail_reason := Some r, t_updated_at := now\<rparr> else t)))"
proof -
  have "promotable s = (\<lambda>t. t_status t = Pending \<and> deps_met s t \<and> hold_reason (get_all_tasks s) t = None)"
    by (simp add: fun_eq_iff promotable_def get_all_tasks_def)
  moreover have "dict_get (cs_tasks (partly now s UNIV)) tid = map_option (promoted now s) (get_task s tid)" for tid
    using get_task_partly [of now s UNIV tid] by (simp add: get_task_def)
  ultimately show ?thesis
    unfolding trigger_pending_partly [OF assms]
    by (intro exI [of _ "cs_tasks (partly now s UNIV)"])
      (auto simp: partly_def promoted_def get_all_tasks_def split: option.splits)
qed

theorem trigger_pending_spec_witness:
  "\<exists>d. trigger_pending_tasks 40 demo3 = (1, demo3\<lparr>cs_tasks := d\<rparr>)"
proof -
  have "length (filter (\<lambda>t. t_status t = Pending \<and> deps_met demo3 t \<and> hold_reason (get_all_tasks demo3) t = None)
      (get_all_tasks demo3)) = 1" by code_simp
  then show ?thesis using trigger_pending_spec [OF demo_wf(4), of 40] by auto
qed

text \<open>Everything \<open>get_trigger_chain\<close> lists depends on the task, directly or through other
  tasks; and what it lists at one level is all that depends on the task directly.\<close>

theorem trigger_chain_sound:
  assumes "cs_wf s"
  shows "(\<forall>x \<in> set (get_trigger_chain s tid k).
            (tid, x) \<in> {(a, b). \<exists>t. get_task s b = Some t \<and> a \<in> set (t_depends_on t)}\<^sup>+) \<and>
         (\<forall>x t. get_task s x = Some t \<longrightarrow> tid \<in> set (t_depends_on t) \<longrightarrow> 0 < k \<longrightarrow>
            x \<in> set (get_trigger_chain s tid k))"
proof -
  have ok: "dict_ok (cs_tasks s)" using cs_wfD(2) [OF assms] by (simp add: tasks_wf_def)
  have rel: "dep_rel (get_dependents s) = {(a, b). \<exists>t. get_task s b = Some t \<and> a \<in> set (t_depends_on t)}"
    using depends_on_dependents [OF ok] by auto
  have "x \<in> set (get_trigger_chain s tid k)" if "x \<in> set (get_dependents s tid)" "0 < k" for x
    using that traverse_lists_deps [of x "get_dependents s" tid] by (cases k) (auto simp: get_trigger_chain_def)
  then show ?thesis
    using traverse_sound [of k "get_dependents s" tid "[]" "[]"] depends_on_dependents [OF ok]
    unfolding rel by (auto simp: get_trigger_chain_def)
qed

theorem trigger_chain_sound_witness: "''t3'' \<in> set (get_trigger_chain demo3 ''t1'' 10)"
proof -
  have "map_option t_depends_on (get_task demo3 ''t3'') = Some [''t1'']" by code_simp
  then show ?thesis using trigger_chain_sound [OF demo_wf(4), of "''t1''" 10] by auto
qed

text \<open>\<open>task_counts\<close> counts every task in the total and every task in a status other than
  \<open>assigned\<close> under its status; \<open>assigned\<close> tasks appear in the total only.\<close>

theorem task_counts_spec:
  "dict_get_or (task_counts s) ''total'' 0 = int (length (get_all_tasks s)) \<and>
   dict_get_or (task_counts s) (task_status_value st) 0 =
     (if st = Assigned then 0 else int (length (filter (\<lambda>t. t_status t = st) (get_all_tasks s))))"
proof -
  have z: "''total'' \<in> fst ` set zero_counts" "dict_get_or zero_counts k 0 = 0" for k
    by (auto simp: zero_counts_def dict_get_or_def)
  have st: "task_status_value st \<in> fst ` set zero_counts \<longleftrightarrow> st \<noteq> Assigned" "task_status_value st \<noteq> ''total''"
    by (cases st; simp add: zero_counts_def)+
  have "task_status_value u \<noteq> ''total''" for u by (cases u) simp_all
  then show ?thesis
    using fold_count_task [OF z(1), of "dict_values (cs_tasks s)" "''total''"]
      fold_count_task [OF z(1), of "dict_values (cs_tasks s)" "task_status_value st"] z st
    by (simp add: task_counts_def get_all_tasks_def task_status_value_inj)
qed

end
