(* ===== verification/LeaseManager.thy ===== *)
theory LeaseManager
  imports LeaseTable
begin

text \<open>
  The lease manager of \<^verbatim>\<open>lease/lease_manager.py\<close> over the lease table of \<open>ClusterState\<close>.
  The manager registers its own expiry handler with the store; the handler counts the expiry and
  calls the registered callbacks in order. A callback is a handle; the calls made are recorded in
  \<open>lm_calls\<close>. The manager's lock is not re-entrant, and \<open>extend\<close> runs the expiry pass while
  holding it: if that pass has to report an expiry, the handler waits for the lock its own thread
  holds. The result type of \<open>lm_extend\<close> says so.
\<close>

record lease_manager =
  lm_config :: lease_config
  lm_callbacks :: "nat list"
  lm_running :: bool
  lm_active_count :: nat
  lm_expired_count :: nat
  lm_total_created :: nat
  lm_total_revoked :: nat
  lm_total_expired :: nat
  lm_calls :: "(nat \<times> string \<times> string) list"

datatype lm_error = ValueError string

datatype 'a outcome = Deadlocked | Done 'a

definition lm_init :: "lease_config option \<Rightarrow> cluster_state \<Rightarrow> lease_manager \<times> cluster_state" where
  "lm_init config s =
     (\<lparr>lm_config = (case config of None \<Rightarrow> default_lease_config | Some c \<Rightarrow> c), lm_callbacks = [],
       lm_running = False, lm_active_count = 0, lm_expired_count = 0, lm_total_created = 0,
       lm_total_revoked = 0, lm_total_expired = 0, lm_calls = []\<rparr>, set_lease_callback s)"

definition lm_start :: "lease_manager \<Rightarrow> lease_manager" where
  "lm_start m = (if lm_running m then m else m\<lparr>lm_running := True\<rparr>)"

definition lm_stop :: "lease_manager \<Rightarrow> lease_manager" where
  "lm_stop m = (if \<not> lm_running m then m else m\<lparr>lm_running := False\<rparr>)"

definition on_expire :: "nat \<Rightarrow> lease_manager \<Rightarrow> lease_manager" where
  "on_expire cb m = m\<lparr>lm_callbacks := lm_callbacks m @ [cb]\<rparr>"

definition remove_callback :: "nat \<Rightarrow> lease_manager \<Rightarrow> bool \<times> lease_manager" where
  "remove_callback cb m =
     (if cb \<in> set (lm_callbacks m) then (True, m\<lparr>lm_callbacks := remove1 cb (lm_callbacks m)\<rparr>)
      else (False, m))"

definition clear_callbacks :: "lease_manager \<Rightarrow> lease_manager" where
  "clear_callbacks m = m\<lparr>lm_callbacks := []\<rparr>"

definition on_lease_expired :: "string \<Rightarrow> string \<Rightarrow> lease_manager \<Rightarrow> lease_manager" where
  "on_lease_expired task_id node_id m =
     m\<lparr>lm_total_expired := lm_total_expired m + 1,
       lm_calls := lm_calls m @ map (\<lambda>cb. (cb, task_id, node_id)) (lm_callbacks m)\<rparr>"

text \<open>\<open>store.get_active_leases()\<close> with the manager's handler as the store's callback.\<close>

definition due_leases :: "time \<Rightarrow> cluster_state \<Rightarrow> lease list" where
  "due_leases now s = filter (lease_due now) (dict_values (cs_leases s))"

definition lm_list_active ::
  "time \<Rightarrow> lease_manager \<Rightarrow> cluster_state \<Rightarrow> lease list \<times> lease_manager \<times> cluster_state" where
  "lm_list_active now m s =
     (let (active, s1) = get_active_leases now s;
          m1 = (if cs_lease_callback s
                then fold (\<lambda>l. on_lease_expired (l_task_id l) (l_node_id l)) (due_leases now s) m else m)
      in (active, m1, s1))"

definition effective_ttl :: "duration option \<Rightarrow> lease_manager \<Rightarrow> duration" where
  "effective_ttl ttl m =
     (case ttl of None \<Rightarrow> lc_ttl (lm_config m) | Some d \<Rightarrow> if d = 0 then lc_ttl (lm_config m) else d)"

definition lm_create ::
  "time \<Rightarrow> string \<Rightarrow> string \<Rightarrow> duration option \<Rightarrow> lease_manager \<Rightarrow> cluster_state \<Rightarrow>
   lm_error + lease \<times> lease_manager \<times> cluster_state" where
  "lm_create now task_id node_id ttl m s =
     (if task_id = [] then Inl (ValueError ''task_id is required'')
      else if node_id = [] then Inl (ValueError ''node_id is required'')
      else let (l, s1) = create_lease now task_id node_id (effective_ttl ttl m) s
           in Inr (l, m\<lparr>lm_total_created := lm_total_created m + 1\<rparr>, s1))"

definition lm_revoke :: "string \<Rightarrow> lease_manager \<Rightarrow> cluster_state \<Rightarrow> bool \<times> lease_manager \<times> cluster_state" where
  "lm_revoke lease_id m s =
     (if lease_id = [] then (False, m, s)
      else let (result, s1) = revoke_lease lease_id s
           in (result, if result then m\<lparr>lm_total_revoked := lm_total_revoked m + 1\<rparr> else m, s1))"

definition lm_get_by_task :: "string \<Rightarrow> cluster_state \<Rightarrow> lease option" where
  "lm_get_by_task task_id s = (if task_id = [] then None else get_lease_by_task s task_id)"

definition lm_extend ::
  "time \<Rightarrow> string \<Rightarrow> duration option \<Rightarrow> lease_manager \<Rightarrow> cluster_state \<Rightarrow>
   (lease option \<times> lease_manager \<times> cluster_state) outcome" where
  "lm_extend now lease_id additional_ttl m s =
     (if lease_id = [] then Done (None, m, s)
      else if cs_lease_callback s \<and> due_leases now s \<noteq> [] then Deadlocked
      else let (active, m1, s1) = lm_list_active now m s
           in case find (\<lambda>l. l_id l = lease_id) active of
                None \<Rightarrow> Done (None, m1, s1)
              | Some l \<Rightarrow>
                  (let (new_lease, s2) = create_lease now (l_task_id l) (l_node_id l)
                                           (effective_ttl additional_ttl m1) s1;
                       s3 = snd (revoke_lease lease_id s2)
                   in Done (Some new_lease, m1, s3)))"

definition lm_metrics :: "lease_manager \<Rightarrow> nat \<times> nat" where
  "lm_metrics m = (lm_active_count m, lm_expired_count m)"

record lm_stats_rec =
  st_active_count :: nat
  st_total_created :: nat
  st_total_revoked :: nat
  st_total_expired :: nat
  st_scan_rate_seconds :: rat
  st_ttl_seconds :: rat
  st_is_running :: bool

definition lm_stats ::
  "time \<Rightarrow> lease_manager \<Rightarrow> cluster_state \<Rightarrow> lm_stats_rec \<times> lease_manager \<times> cluster_state" where
  "lm_stats now m s =
     (let (active, m1, s1) = lm_list_active now m s
      in (\<lparr>st_active_count = length active, st_total_created = lm_total_created m1,
           st_total_revoked = lm_total_revoked m1, st_total_expired = lm_total_expired m1,
           st_scan_rate_seconds = total_seconds (lc_scan_rate (lm_config m1)),
           st_ttl_seconds = total_seconds (lc_ttl (lm_config m1)),
           st_is_running = lm_running m1\<rparr>, m1, s1))"

definition scan_once :: "time \<Rightarrow> lease_manager \<Rightarrow> cluster_state \<Rightarrow> lease_manager \<times> cluster_state" where
  "scan_once now m s =
     (let (active, m1, s1) = lm_list_active now m s
      in (m1\<lparr>lm_active_count := length active\<rparr>, s1))"

section \<open>Facts\<close>

lemma create_lease_indexed:
  "tid \<noteq> [] \<Longrightarrow> create_lease now tid nid ttl s = (l, s') \<Longrightarrow> lm_get_by_task tid s' = Some l"
  by (auto simp: lm_get_by_task_def get_lease_by_task_def create_lease_eq Let_def)

lemma fold_on_lease_expired:
  "fold (\<lambda>l. on_lease_expired (l_task_id l) (l_node_id l)) ls m =
   m\<lparr>lm_total_expired := lm_total_expired m + length ls,
     lm_calls := lm_calls m @
       concat (map (\<lambda>l. map (\<lambda>cb. (cb, l_task_id l, l_node_id l)) (lm_callbacks m)) ls)\<rparr>"
  by (induction ls arbitrary: m) (simp_all add: on_lease_expired_def)

lemma lm_list_active_again:
  assumes "lm_list_active now m s = (active, m1, s1)"
  shows "lm_list_active now m1 s1 = (active, m1, s1)"
proof -
  from assms have s1: "s1 = snd (get_active_leases now s)" and a: "active = fst (get_active_leases now s)"
    by (auto simp: lm_list_active_def Let_def split: prod.splits)
  have "due_leases now s1 = []"
    by (simp add: s1 due_leases_def get_active_leases_eq filter_due_mark_due del: map_map)
  then show ?thesis using get_active_leases_twice [of now s]
    by (simp add: lm_list_active_def Let_def s1 a case_prod_beta)
qed

lemma no_due_pass:
  assumes "due_leases now s = []"
  shows "get_active_leases now s = (filter (lease_live now) (dict_values (cs_leases s)), s)"
proof -
  have "map (\<lambda>(k, l). (k, mark_due now l)) ls = ls" if "filter (lease_due now) (dict_values ls) = []" for ls :: "(string, lease) dict"
    using that by (induction ls) (auto simp: mark_due_def split: if_splits)
  with assms show ?thesis by (simp add: get_active_leases_eq due_leases_def)
qed

lemma lm_extend_renews:
  assumes wf: "leases_wf s" and quiet: "due_leases now s = []"
    and k: "get_lease s k = Some l0" "lease_live now l0" "l_task_id l0 \<noteq> []"
  shows "\<exists>l s'. lm_extend now k ttl m s = Done (Some l, m, s') \<and>
     l_task_id l = l_task_id l0 \<and> l_node_id l = l_node_id l0 \<and> l_status l = Active \<and>
     l_expires_at l = now + effective_ttl ttl m \<and>
     get_lease s' (l_id l) = Some l \<and> get_lease s' k = Some (l0\<lparr>l_status := Revoked\<rparr>) \<and>
     (\<forall>j. j \<noteq> k \<longrightarrow> j \<noteq> l_id l \<longrightarrow> get_lease s' j = get_lease s j) \<and>
     get_lease_by_task s' (l_task_id l0) \<noteq> None"
proof -
  have kid: "l_id l0 = k" using leases_wfD(4) [OF wf] k(1) by (simp add: get_lease_def)
  have kne: "k \<noteq> []" using leases_wfD(5) [OF wf, of k l0] k(1) by (auto simp: get_lease_def)
  have act: "get_active_leases now s = (filter (lease_live now) (dict_values (cs_leases s)), s)"
    by (rule no_due_pass [OF quiet])
  let ?A = "filter (lease_live now) (dict_values (cs_leases s))"
  have mem: "l \<in> set ?A \<longleftrightarrow> get_lease s (l_id l) = Some l \<and> lease_live now l" for l
    using active_leases_mem [OF wf, of l now] act by simp
  have "find (\<lambda>l. l_id l = k) ?A = Some l0"
  proof -
    have "l0 \<in> set ?A" using mem k kid by simp
    then obtain l1 where l1: "find (\<lambda>l. l_id l = k) ?A = Some l1"
      using kid by (metis (mono_tags, lifting) find_None_iff not_None_eq)
    then have l1': "l1 \<in> set ?A" "l_id l1 = k" unfolding find_Some_iff by (metis nth_mem)+
    with mem [of l1] k have "l1 = l0" by simp
    with l1 show ?thesis by simp
  qed
  moreover obtain l s2 where c: "create_lease now (l_task_id l0) (l_node_id l0) (effective_ttl ttl m) s = (l, s2)"
    by (cases "create_lease now (l_task_id l0) (l_node_id l0) (effective_ttl ttl m) s")
  moreover obtain b s3 where r: "revoke_lease k s2 = (b, s3)" by (cases "revoke_lease k s2")
  ultimately have "lm_extend now k ttl m s = Done (Some l, m, s3)"
    using kne quiet act by (simp add: lm_extend_def lm_list_active_def Let_def)
  moreover note lt.renew [OF wf k(1,3) c r] lt.mk_lease [OF wf c]
  ultimately show ?thesis by blast
qed

end
