(* ===== verification/LeaseProps.thy ===== *)
theory LeaseProps
  imports Demo LeaseManager
begin

text \<open>
  Properties of the lease table and of the lease manager: lookup, the expiry pass, life cycle over
  every run, creation and renewal, and the callbacks of a scan.
\<close>

section \<open>The table\<close>

text \<open>C29: \<open>get_lease_by_task\<close> returns a stored active lease of the task, and returns nothing
  exactly when the task has no active lease; the index and the fallback scan agree on this.\<close>

theorem lease_lookup_exact:
  assumes "cs_wf s" "tid \<noteq> []"
  shows "(case get_lease_by_task s tid of
      None \<Rightarrow> \<forall>k l. get_lease s k = Some l \<longrightarrow> l_task_id l = tid \<longrightarrow> l_status l \<noteq> Active
    | Some l \<Rightarrow> get_lease s (l_id l) = Some l \<and> l_task_id l = tid \<and> l_status l = Active)"
  using lt.by_task_Some [OF cs_wfD(3) [OF assms(1)]] lt.by_task_None [OF cs_wfD(3) [OF assms(1)] assms(2)]
  by (simp split: option.split)

theorem lease_lookup_exact_witness:
  "\<exists>l. get_lease_by_task demo2 ''t1'' = Some l \<and> get_lease demo2 (l_id l) = Some l \<and> l_status l = Active"
proof -
  have "map_option l_node_id (get_lease_by_task demo2 ''t1'') = Some ''n1''" by code_simp
  then show ?thesis using lease_lookup_exact [OF demo_wf(3), of "''t1''"] by auto
qed

text \<open>The expiry pass marks exactly the active leases whose time has come as expired, changes
  no other lease, returns the leases that are still live, and repeated at the same time it returns
  the same leases and changes nothing.\<close>

theorem expiry_pass_exact:
  assumes wf: "cs_wf s" and p: "get_active_leases now s = (active, s')"
  shows "(\<forall>k. get_lease s' k = map_option
            (\<lambda>l. if l_status l = Active \<and> l_expires_at l \<le> now then l\<lparr>l_status := Expired\<rparr> else l) (get_lease s k)) \<and>
         (\<forall>l. l \<in> set active \<longleftrightarrow> get_lease s (l_id l) = Some l \<and> l_status l = Active \<and> now < l_expires_at l) \<and>
         get_active_leases now s' = (active, s')"
proof -
  have "mark_due now = (\<lambda>l. if l_status l = Active \<and> l_expires_at l \<le> now then l\<lparr>l_status := Expired\<rparr> else l)"
    by (simp add: fun_eq_iff mark_due_def lease_due_def)
  then show ?thesis
    using get_active_leases_at [of now s] active_leases_mem [OF cs_wfD(3) [OF wf], of _ now]
      get_active_leases_twice [of now s] p
    by (simp add: lease_live_def)
qed

theorem expiry_pass_exact_witness:
  "get_active_leases (seconds 61) (snd (get_active_leases (seconds 61) demo2)) =
     ([], snd (get_active_leases (seconds 61) demo2))"
proof -
  have "fst (get_active_leases (seconds 61) demo2) = []" by code_simp
  then have "get_active_leases (seconds 61) demo2 = ([], snd (get_active_leases (seconds 61) demo2))"
    by (metis prod.collapse)
  from expiry_pass_exact [OF demo_wf(3) this] show ?thesis by blast
qed

text \<open>C36: In every run of operations a lease keeps its task, its node and its deadline, and its
  status only moves from active through expired to revoked: an expired or revoked lease is never
  active again.\<close>

theorem lease_never_revived:
  assumes "op_step\<^sup>*\<^sup>* s s'" "cs_wf s" "get_lease s k = Some l"
  shows "\<exists>l'. get_lease s' k = Some l' \<and> l_task_id l' = l_task_id l \<and> l_node_id l' = l_node_id l \<and>
     l_expires_at l' = l_expires_at l \<and> (l_status l \<noteq> Active \<longrightarrow> l_status l' \<noteq> Active) \<and>
     (l_status l = Revoked \<longrightarrow> l_status l' = Revoked)"
  using lease_table.run_forward [OF assms] by (auto simp: lease_le_def)

theorem lease_never_revived_witness:
  "\<exists>l l'. get_lease_by_task demo2 ''t1'' = Some l \<and>
     get_lease (snd (revoke_lease (l_id l) demo2)) (l_id l) = Some l' \<and> l_expires_at l' = l_expires_at l"
proof -
  have "map_option l_node_id (get_lease_by_task demo2 ''t1'') = Some ''n1''" by code_simp
  then obtain l where l: "get_lease_by_task demo2 ''t1'' = Some l" by auto
  with get_lease_by_task_Some [OF cs_wfD(3) [OF demo_wf(3)]] have "get_lease demo2 (l_id l) = Some l" by blast
  from lease_never_revived [OF _ demo_wf(3) this, of "snd (revoke_lease (l_id l) demo2)"] l show ?thesis
    by (auto intro: op_any st_revoke_lease)
qed

section \<open>The manager\<close>

text \<open>The manager refuses a lease without a task id or a node id; otherwise it creates a fresh
  active lease with the requested time to live, or the configured one when none (or zero) is given,
  and that very lease is what a lookup by the task then finds.\<close>

theorem lm_create_found:
  assumes "cs_wf s"
  shows "(case lm_create now tid nid ttl m s of
      Inl e \<Rightarrow> tid = [] \<or> nid = []
    | Inr (l, m', s') \<Rightarrow> tid \<noteq> [] \<and> nid \<noteq> [] \<and> get_lease s (l_id l) = None \<and>
        l_task_id l = tid \<and> l_node_id l = nid \<and> l_status l = Active \<and>
        l_expires_at l = now + (case ttl of None \<Rightarrow> lc_ttl (lm_config m)
                                | Some d \<Rightarrow> if d = 0 then lc_ttl (lm_config m) else d) \<and>
        lm_total_created m' = lm_total_created m + 1 \<and> lm_get_by_task tid s' = Some l)"
proof (cases "tid = [] \<or> nid = []")
  case True
  then show ?thesis by (auto simp: lm_create_def)
next
  case False
  obtain l s' where c: "create_lease now tid nid (effective_ttl ttl m) s = (l, s')"
    by (cases "create_lease now tid nid (effective_ttl ttl m) s")
  have "lm_get_by_task tid s' = Some l"
    using c False by (simp add: create_lease_indexed)
  with c False lt.mk_lease [OF cs_wfD(3) [OF assms] c] show ?thesis
    by (auto simp: lm_create_def effective_ttl_def)
qed

theorem lm_create_found_witness:
  "\<exists>l m' s'. lm_create 20 ''t2'' ''n1'' None (fst (lm_init None demo2)) demo2 = Inr (l, m', s') \<and>
     lm_get_by_task ''t2'' s' = Some l"
proof -
  obtain l m' s' where "lm_create 20 ''t2'' ''n1'' None (fst (lm_init None demo2)) demo2 = Inr (l, m', s')"
    by (auto simp: lm_create_def Let_def case_prod_beta)
  with lm_create_found [OF demo_wf(3), where now = 20 and tid = "''t2''" and nid = "''n1''" and ttl = None
      and m = "fst (lm_init None demo2)"] show ?thesis by auto
qed

text \<open>Extending a live lease while no lease is due returns a new active lease of the same task
  and node with the new deadline, revokes the old one, leaves every other lease as it was, and the
  task still has an active lease.\<close>

theorem lm_extend_spec:
  assumes "cs_wf s" and "\<And>j l. get_lease s j = Some l \<Longrightarrow> l_status l = Active \<Longrightarrow> now < l_expires_at l"
    and "get_lease s k = Some l0" "l_status l0 = Active" "l_task_id l0 \<noteq> []"
  shows "\<exists>l s'. lm_extend now k ttl m s = Done (Some l, m, s') \<and>
     l_task_id l = l_task_id l0 \<and> l_node_id l = l_node_id l0 \<and> l_status l = Active \<and>
     l_expires_at l = now + effective_ttl ttl m \<and>
     get_lease s' (l_id l) = Some l \<and> get_lease s' k = Some (l0\<lparr>l_status := Revoked\<rparr>) \<and>
     (\<forall>j. j \<noteq> k \<longrightarrow> j \<noteq> l_id l \<longrightarrow> get_lease s' j = get_lease s j) \<and>
     get_lease_by_task s' (l_task_id l0) \<noteq> None"
proof (rule lm_extend_renews)
  show lw: "leases_wf s" by (rule cs_wfD(3) [OF assms(1)])
  show "lease_live now l0" using assms(2-4) by (simp add: lease_live_def)
  show "due_leases now s = []"
    using assms(2) lease_values_mem [OF lw] by (fastforce simp: due_leases_def lease_due_def filter_empty_iff)
qed (fact assms)+

lemma demo2_leases:
  "map (\<lambda>(k, l). (l_task_id l, l_status l, l_expires_at l)) (cs_leases demo2) = [(''t1'', Active, 60000020)]"
  by code_simp

theorem lm_extend_spec_witness:
  "\<exists>k l s'. lm_extend 30 k None (fst (lm_init None demo2)) demo2 = Done (Some l, fst (lm_init None demo2), s') \<and>
     l_task_id l = ''t1'' \<and> l_expires_at l = seconds 60 + 30"
proof -
  from demo2_leases obtain k0 l0 where kl: "cs_leases demo2 = [(k0, l0)]"
    "l_task_id l0 = ''t1''" "l_status l0 = Active" "l_expires_at l0 = 60000020" by auto
  have "\<exists>l s'. lm_extend 30 k0 None (fst (lm_init None demo2)) demo2 = Done (Some l, fst (lm_init None demo2), s') \<and>
      l_task_id l = l_task_id l0 \<and> l_node_id l = l_node_id l0 \<and> l_status l = Active \<and>
      l_expires_at l = 30 + effective_ttl None (fst (lm_init None demo2)) \<and>
      get_lease s' (l_id l) = Some l \<and> get_lease s' k0 = Some (l0\<lparr>l_status := Revoked\<rparr>) \<and>
      (\<forall>j. j \<noteq> k0 \<longrightarrow> j \<noteq> l_id l \<longrightarrow> get_lease s' j = get_lease demo2 j) \<and>
      get_lease_by_task s' (l_task_id l0) \<noteq> None"
    by (rule lm_extend_spec [OF demo_wf(3)]) (use kl in \<open>auto simp: get_lease_def split: if_splits\<close>)
  moreover have "effective_ttl None (fst (lm_init None demo2)) = seconds 60"
    by (simp add: effective_ttl_def lm_init_def default_lease_config_def)
  ultimately show ?thesis using kl(2) by auto
qed

text \<open>\<open>extend\<close> never returns exactly when the store reports expiries to the manager and some
  lease is due: the expiry handler then waits for the lock that \<open>extend\<close> holds.\<close>

theorem lm_extend_deadlock:
  assumes "cs_wf s"
  shows "lm_extend now k ttl m s = Deadlocked \<longleftrightarrow>
     k \<noteq> [] \<and> cs_lease_callback s \<and>
     (\<exists>j l. get_lease s j = Some l \<and> l_status l = Active \<and> l_expires_at l \<le> now)"
proof -
  note lw = cs_wfD(3) [OF assms]
  have "due_leases now s \<noteq> [] \<longleftrightarrow> (\<exists>j l. get_lease s j = Some l \<and> l_status l = Active \<and> l_expires_at l \<le> now)"
    using lease_values_mem [OF lw] leases_wfD(4) [OF lw]
    unfolding due_leases_def lease_due_def filter_empty_iff get_lease_def by (metis dict_get_value)
  then show ?thesis by (auto simp: lm_extend_def Let_def split: prod.splits option.splits)
qed

theorem lm_extend_deadlock_witness:
  "lm_extend (seconds 61) ''lease_x'' None (fst (lm_init None demo2)) (snd (lm_init None demo2)) = Deadlocked"
proof -
  have wf: "cs_wf (snd (lm_init None demo2))"
    using demo_wf(3) by (simp add: lm_init_def set_lease_callback_def)
  have "cs_lease_callback (snd (lm_init None demo2))" by (simp add: lm_init_def set_lease_callback_def)
  moreover from demo2_leases obtain j l where kl: "cs_leases demo2 = [(j, l)]"
    "l_status l = Active" "l_expires_at l = 60000020" by auto
  moreover have "get_lease (snd (lm_init None demo2)) j = Some l"
    using kl(1) by (simp add: lm_init_def set_lease_callback_def get_lease_def)
  ultimately have "\<exists>j l. get_lease (snd (lm_init None demo2)) j = Some l \<and> l_status l = Active \<and> l_expires_at l \<le> seconds 61"
    by force
  with wf \<open>cs_lease_callback _\<close> show ?thesis by (simp add: lm_extend_deadlock)
qed

text \<open>A scan calls every registered callback once for each lease that fell due, in table order,
  counts those leases, and stores the number of live ones; a second scan at the same time calls
  nothing.\<close>

theorem scan_calls_once:
  assumes cb: "cs_lease_callback s" and sc: "scan_once now m s = (m', s')"
  shows "lm_calls m' = lm_calls m @
      concat (map (\<lambda>l. map (\<lambda>cb. (cb, l_task_id l, l_node_id l)) (lm_callbacks m))
        (filter (\<lambda>l. l_status l = Active \<and> l_expires_at l \<le> now) (dict_values (cs_leases s)))) \<and>
    lm_total_expired m' = lm_total_expired m +
      length (filter (\<lambda>l. l_status l = Active \<and> l_expires_at l \<le> now) (dict_values (cs_leases s))) \<and>
    lm_active_count m' = length (filter (\<lambda>l. l_status l = Active \<and> now < l_expires_at l) (dict_values (cs_leases s))) \<and>
    scan_once now m' s' = (m', s')"
proof -
  obtain A m1 s1 where la: "lm_list_active now m s = (A, m1, s1)" by (metis prod_cases3)
  have d: "due_leases now s = filter (\<lambda>l. l_status l = Active \<and> l_expires_at l \<le> now) (dict_values (cs_leases s))"
    by (simp add: due_leases_def lease_due_def [abs_def])
  have A: "A = filter (\<lambda>l. l_status l = Active \<and> now < l_expires_at l) (dict_values (cs_leases s))"
    using la by (auto simp: lm_list_active_def Let_def get_active_leases_eq lease_live_def [abs_def])
  have m1: "m1 = fold (\<lambda>l. on_lease_expired (l_task_id l) (l_node_id l)) (due_leases now s) m"
    using la cb by (auto simp: lm_list_active_def Let_def split: prod.splits)
  have m': "m' = m1\<lparr>lm_active_count := length A\<rparr>" "s' = s1" using sc la by (auto simp: scan_once_def)
  have "scan_once now m' s' = (m', s')"
  proof -
    have "due_leases now s1 = [] \<and> get_active_leases now s1 = (A, s1)"
      using la get_active_leases_twice [of now s]
      by (auto simp: lm_list_active_def Let_def due_leases_def get_active_leases_eq filter_due_mark_due
          simp del: map_map split: prod.splits)
    then show ?thesis by (simp add: scan_once_def lm_list_active_def m')
  qed
  then show ?thesis by (simp add: m' m1 fold_on_lease_expired d A)
qed

theorem scan_calls_once_witness:
  "lm_calls (fst (scan_once (seconds 61) (on_expire 7 (fst (lm_init None demo2))) (snd (lm_init None demo2)))) =
     [(7, ''t1'', ''n1'')]"
proof -
  let ?m = "on_expire 7 (fst (lm_init None demo2))" and ?s = "snd (lm_init None demo2)"
  obtain m' s' where sc: "scan_once (seconds 61) ?m ?s = (m', s')" by (cases "scan_once (seconds 61) ?m ?s")
  have cb: "cs_lease_callback ?s" by (simp add: lm_init_def set_lease_callback_def)
  have "map (\<lambda>l. (l_task_id l, l_node_id l)) (filter (\<lambda>l. l_status l = Active \<and> l_expires_at l \<le> seconds 61)
      (dict_values (cs_leases ?s))) = [(''t1'', ''n1'')]" by code_simp
  then obtain l where "filter (\<lambda>l. l_status l = Active \<and> l_expires_at l \<le> seconds 61) (dict_values (cs_leases ?s)) = [l]"
    "l_task_id l = ''t1''" "l_node_id l = ''n1''" by auto
  with scan_calls_once [OF cb sc] sc show ?thesis by (simp add: lm_init_def on_expire_def)
qed

end
