(* ===== verification/Scheduling.thy ===== *)
theory Scheduling
  imports LeaseTable
begin

text \<open>
  What a scheduling pass of \<open>ClusterState\<close> does. Every fact is an instance of the loop rule
  \<open>schedule_loop_rule\<close> together with the contract of the planner (locale
  \<open>placement_policy\<close>, interpreted as \<open>affinity\<close>).
\<close>

section \<open>One assignment\<close>

lemma assign_task_lease:
  "leases_wf s \<Longrightarrow>
   \<exists>l. get_lease (assign_task now t n p s) (l_id l) = Some l \<and> l_task_id l = t_id t \<and> l_node_id l = n_id n \<and>
       l_status l = Active \<and> l_expires_at l = now + SCHEDULER_ASSIGNED_TTL"
  by (simp add: assign_task_def Let_def create_lease_eq get_lease_def)
    (rule exI [where x = "\<lparr>l_id = gen_id ''lease'' (cs_rng s) (cs_draws s), l_task_id = t_id t,
       l_node_id = n_id n, l_created_at = now, l_expires_at = now + SCHEDULER_ASSIGNED_TTL, l_status = Active\<rparr>"],
     simp)

lemma assign_task_lease_new:
  "get_lease (assign_task now t n p s) k = Some l \<Longrightarrow>
   get_lease s k = Some l \<or> l_task_id l = t_id t \<and> l_node_id l = n_id n \<and> l_status l = Active"
  by (auto simp: assign_task_def Let_def create_lease_eq get_lease_def split: if_splits)

lemma assign_task_lease_old:
  "leases_wf s \<Longrightarrow> get_lease s k = Some l \<Longrightarrow> get_lease (assign_task now t n p s) k = Some l"
  using new_lease_id_fresh [of s] by (auto simp: assign_task_def Let_def create_lease_eq get_lease_def)

lemma assign_task_nodes [simp]: "cs_nodes (assign_task now t n p s) = cs_nodes s"
  by (simp add: assign_task_def Let_def)

section \<open>Placements\<close>

text \<open>What holds of a placement that was made: the chosen node, the stored task, its lease.\<close>

definition placed_ok :: "time \<Rightarrow> node list \<Rightarrow> (string, string) dict \<Rightarrow> task list \<Rightarrow> cluster_state \<Rightarrow> assignment \<Rightarrow> bool" where
  "placed_ok now ns lns R s a \<longleftrightarrow>
     (\<exists>t \<in> set R. \<exists>n \<in> set ns. a = mk_assignment t n \<and> node_can_run (t_requires t) n \<and>
        (lane_pin lns t \<noteq> [] \<longrightarrow> same_node (n_id n) (lane_pin lns t)) \<and>
        get_task s (t_id t) = Some (touch now (t\<lparr>t_status := Running, t_assigned_to := Some (n_id n)\<rparr>)) \<and>
        (\<exists>l. get_lease s (l_id l) = Some l \<and> l_task_id l = t_id t \<and> l_node_id l = n_id n \<and>
             l_status l = Active \<and> l_expires_at l = now + SCHEDULER_ASSIGNED_TTL))"

lemma placed_okI:
  "t \<in> set R \<Longrightarrow> n \<in> set ns \<Longrightarrow> node_can_run (t_requires t) n \<Longrightarrow>
   (lane_pin lns t \<noteq> [] \<longrightarrow> same_node (n_id n) (lane_pin lns t)) \<Longrightarrow>
   get_task s (t_id t) = Some (touch now (t\<lparr>t_status := Running, t_assigned_to := Some (n_id n)\<rparr>)) \<Longrightarrow>
   get_lease s (l_id l) = Some l \<Longrightarrow> l_task_id l = t_id t \<Longrightarrow> l_node_id l = n_id n \<Longrightarrow>
   l_status l = Active \<Longrightarrow> l_expires_at l = now + SCHEDULER_ASSIGNED_TTL \<Longrightarrow>
   placed_ok now ns lns R s (mk_assignment t n)"
  unfolding placed_ok_def
  by (rule bexI [of _ t], rule bexI [of _ n], intro conjI exI [of _ l]; (rule refl | assumption))

lemma placed_okE:
  assumes "placed_ok now ns lns R s a"
  obtains t n l where "t \<in> set R" "n \<in> set ns" "a = mk_assignment t n" "node_can_run (t_requires t) n"
    "lane_pin lns t \<noteq> [] \<longrightarrow> same_node (n_id n) (lane_pin lns t)"
    "get_task s (t_id t) = Some (touch now (t\<lparr>t_status := Running, t_assigned_to := Some (n_id n)\<rparr>))"
    "get_lease s (l_id l) = Some l" "l_task_id l = t_id t" "l_node_id l = n_id n"
    "l_status l = Active" "l_expires_at l = now + SCHEDULER_ASSIGNED_TTL"
  using assms unfolding placed_ok_def by (elim bexE conjE exE) (rule that)

lemma placed_ok_step:
  assumes "placed_ok now ns lns R s a" "cs_wf s" "get_task s (t_id t) = Some t" "t_status t \<noteq> Running"
  shows "placed_ok now ns lns R (assign_task now t n p s) a"
proof -
  from assms(1) obtain u m l where u: "u \<in> set R" "m \<in> set ns" "a = mk_assignment u m"
    "node_can_run (t_requires u) m" "lane_pin lns u \<noteq> [] \<longrightarrow> same_node (n_id m) (lane_pin lns u)"
    "get_task s (t_id u) = Some (touch now (u\<lparr>t_status := Running, t_assigned_to := Some (n_id m)\<rparr>))"
    and l: "get_lease s (l_id l) = Some l" "l_task_id l = t_id u" "l_node_id l = n_id m"
      "l_status l = Active" "l_expires_at l = now + SCHEDULER_ASSIGNED_TTL"
    by (rule placed_okE)
  have "t_id u \<noteq> t_id t"
  proof
    assume "t_id u = t_id t"
    with u(6) assms(3) have "Some t = Some (touch now (u\<lparr>t_status := Running, t_assigned_to := Some (n_id m)\<rparr>))"
      by metis
    then have "t_status t = t_status (touch now (u\<lparr>t_status := Running, t_assigned_to := Some (n_id m)\<rparr>))"
      by (metis option.inject)
    with assms(4) show False by (simp add: touch_def)
  qed
  with u(6) have "get_task (assign_task now t n p s) (t_id u) =
      Some (touch now (u\<lparr>t_status := Running, t_assigned_to := Some (n_id m)\<rparr>))"
    by (simp add: get_task_assign)
  moreover have "get_lease (assign_task now t n p s) (l_id l) = Some l"
    using assign_task_lease_old l(1) assms(2) cs_wfD(3) by blast
  ultimately show ?thesis unfolding u(3) using u l by (intro placed_okI [of u R m ns lns _ now l])
qed

lemma placed_ok_new:
  assumes "cs_wf s" "t \<in> set R"
    and c: "choose_pinned f (t_requires t) ns cnt (lane_pin lns t) = (Some n, p)"
  shows "placed_ok now ns lns R (assign_task now t n p s) (mk_assignment t n)"
proof -
  from assign_task_lease [OF cs_wfD(3) [OF assms(1)], of now t n p] obtain l where
    "get_lease (assign_task now t n p s) (l_id l) = Some l" "l_task_id l = t_id t" "l_node_id l = n_id n"
    "l_status l = Active" "l_expires_at l = now + SCHEDULER_ASSIGNED_TTL" by blast
  moreover from affinity.pick_sound [OF c] have "n \<in> set ns" "node_can_run (t_requires t) n"
    "lane_pin lns t \<noteq> [] \<longrightarrow> same_node (n_id n) (lane_pin lns t)" by (auto simp: eligible_def)
  ultimately show ?thesis using assms(2)
    by (intro placed_okI [of t R n ns lns _ now l]) (simp_all add: get_task_assign)
qed

lemma schedule_loop_placed_ok:
  assumes "cs_wf s" "loop_tasks R s" "\<forall>t \<in> set R. t_status t = Ready"
  shows "\<forall>a \<in> set (fst (schedule_loop now ns lns R cnt s)).
     placed_ok now ns lns R (snd (schedule_loop now ns lns R cnt s)) a"
proof -
  let ?P = "\<lambda>acc ts (cnt :: counts) s'. cs_wf s' \<and> loop_tasks ts s' \<and> set ts \<subseteq> set R \<and>
     (\<forall>a \<in> set acc. placed_ok now ns lns R s' a)"
  have "\<exists>cnt'. ?P ([] @ fst (schedule_loop now ns lns R cnt s)) [] cnt'
      (snd (schedule_loop now ns lns R cnt s))"
  proof (rule schedule_loop_rule [where P = ?P])
    fix acc t ts cnt s' n p
    assume P: "?P acc (t # ts) cnt s'"
      and c: "choose_pinned (cs_fair_scheduler s') (t_requires t) ns cnt (lane_pin lns t) = (Some n, p)"
    from P have t: "get_task s' (t_id t) = Some t" "t \<in> set R" using loop_tasks_head by auto
    with assms(3) have "t_status t \<noteq> Running" by fastforce
    with P t have "\<forall>a \<in> set acc. placed_ok now ns lns R (assign_task now t n p s') a"
      using placed_ok_step by blast
    with P t placed_ok_new [OF _ t(2) c, of s' now]
    show "?P (acc @ [mk_assignment t n]) ts (bump (n_id n) cnt) (assign_task now t n p s')"
      using assign_task_wf loop_tasks_placed by auto
  qed (use assms loop_tasks_parked in auto)
  then show ?thesis by auto
qed

text \<open>Tasks that were not placed are untouched; existing leases and the nodes are untouched.\<close>

lemma schedule_loop_unplaced:
  assumes "cs_wf s" "loop_tasks R s"
  shows "(\<forall>tid. tid \<notin> as_task_id ` set (fst (schedule_loop now ns lns R cnt s)) \<longrightarrow>
            get_task (snd (schedule_loop now ns lns R cnt s)) tid = get_task s tid) \<and>
         (\<forall>k l. get_lease s k = Some l \<longrightarrow> get_lease (snd (schedule_loop now ns lns R cnt s)) k = Some l) \<and>
         cs_nodes (snd (schedule_loop now ns lns R cnt s)) = cs_nodes s"
proof -
  let ?P = "\<lambda>(acc :: assignment list) ts (cnt :: counts) s'. cs_wf s' \<and> loop_tasks ts s' \<and>
     (\<forall>tid. tid \<notin> as_task_id ` set acc \<longrightarrow> get_task s' tid = get_task s tid) \<and>
     (\<forall>k l. get_lease s k = Some l \<longrightarrow> get_lease s' k = Some l) \<and> cs_nodes s' = cs_nodes s"
  have "\<exists>cnt'. ?P ([] @ fst (schedule_loop now ns lns R cnt s)) [] cnt'
      (snd (schedule_loop now ns lns R cnt s))"
  proof (rule schedule_loop_rule [where P = ?P])
    fix acc t ts cnt s' n p
    assume P: "?P acc (t # ts) cnt s'"
    then have "get_task s' (t_id t) = Some t" using loop_tasks_head by blast
    moreover have "\<forall>k l. get_lease s k = Some l \<longrightarrow> get_lease (assign_task now t n p s') k = Some l"
      using P assign_task_lease_old cs_wfD(3) by blast
    ultimately show "?P (acc @ [mk_assignment t n]) ts (bump (n_id n) cnt) (assign_task now t n p s')"
      using P assign_task_wf loop_tasks_placed by (auto simp: get_task_assign mk_assignment_def)
  qed (use assms loop_tasks_parked in auto)
  then show ?thesis by auto
qed

section \<open>Load and capacity\<close>

definition load_of :: "cluster_state \<Rightarrow> string \<Rightarrow> nat" where
  "load_of s nid =
     length (filter (\<lambda>t. t_active t \<and> t_assigned_to t = Some nid) (dict_values (cs_tasks s)))"

definition counts_ok :: "counts \<Rightarrow> cluster_state \<Rightarrow> bool" where
  "counts_ok cnt s \<longleftrightarrow> (\<forall>nid. nid \<noteq> [] \<longrightarrow> dict_get_or cnt nid 0 = int (load_of s nid))"

lemma active_counts_ok: "counts_ok (active_counts (dict_values (cs_tasks s))) s"
  unfolding counts_ok_def
proof (intro allI impI)
  fix nid :: string assume "nid \<noteq> []"
  have "dict_get_or (active_counts (dict_values (cs_tasks s))) nid 0 =
     int (length (filter (\<lambda>t. (t_active t \<and> t_assigned_to t \<noteq> None \<and> t_assigned_to t \<noteq> Some []) \<and>
            the (t_assigned_to t) = nid) (dict_values (cs_tasks s))))"
    unfolding active_counts_def dict_get_or_fold_bump by (simp add: dict_get_or_def)
  moreover have "(\<lambda>t. (t_active t \<and> t_assigned_to t \<noteq> None \<and> t_assigned_to t \<noteq> Some []) \<and>
       the (t_assigned_to t) = nid) = (\<lambda>t. t_active t \<and> t_assigned_to t = Some nid)"
    using \<open>nid \<noteq> []\<close> by (auto simp: fun_eq_iff)
  ultimately show "dict_get_or (active_counts (dict_values (cs_tasks s))) nid 0 = int (load_of s nid)"
    by (simp only: load_of_def)
qed

lemma load_of_assign:
  assumes "cs_wf s" "get_task s (t_id t) = Some t" "t_status t = Ready"
  shows "load_of (assign_task now t n p s) nid = load_of s nid + (if nid = n_id n then 1 else 0)"
proof -
  let ?u = "touch now (t\<lparr>t_status := Running, t_assigned_to := Some (n_id n)\<rparr>)"
  have "cs_tasks (assign_task now t n p s) = dict_set (t_id t) ?u (cs_tasks s)"
    by (simp add: assign_task_def Let_def)
  moreover have "dict_ok (cs_tasks s)" using cs_wfD(2) [OF assms(1)] by (simp only: tasks_wf_def)
  note length_filter_dict_update [OF this assms(2) [unfolded get_task_def],
      of "\<lambda>t. t_active t \<and> t_assigned_to t = Some nid" ?u]
  ultimately show ?thesis using assms(3) unfolding load_of_def by (simp split: if_splits)
qed

lemma counts_ok_assign:
  "cs_wf s \<Longrightarrow> get_task s (t_id t) = Some t \<Longrightarrow> t_status t = Ready \<Longrightarrow> counts_ok cnt s \<Longrightarrow>
   counts_ok (bump (n_id n) cnt) (assign_task now t n p s)"
  by (simp add: counts_ok_def bump_get load_of_assign)

text \<open>
  The pass as a whole: counts stay the true loads, ceilings hold, and a task parked without a pin
  had no eligible node, which remains so because loads only grow.
\<close>

lemma eligible_bump: "eligible req (bump nid cnt) n \<Longrightarrow> eligible req cnt n"
  by (auto simp: eligible_def bump_get intro: node_at_capacity_mono split: if_splits)

lemma schedule_loop_capacity:
  assumes wf: "cs_wf s" and R: "loop_tasks R s" "\<forall>t \<in> set R. t_status t = Ready"
    and ns: "distinct (map n_id ns)" and cnt: "counts_ok cnt s"
  shows "\<exists>cnt'. counts_ok cnt' (snd (schedule_loop now ns lns R cnt s)) \<and>
     (\<forall>n \<in> set ns. within_cap cnt cnt' n) \<and>
     (\<forall>t \<in> set R. t_id t \<in> as_task_id ` set (fst (schedule_loop now ns lns R cnt s)) \<or>
        (lane_pin lns t = [] \<longrightarrow> (\<forall>n \<in> set ns. \<not> eligible (t_requires t) cnt' n)))"
proof -
  let ?P = "\<lambda>(acc :: assignment list) ts cnt' s'. cs_wf s' \<and> loop_tasks ts s' \<and> set ts \<subseteq> set R \<and>
     counts_ok cnt' s' \<and> (\<forall>n \<in> set ns. within_cap cnt cnt' n) \<and>
     (\<forall>t \<in> set R. t \<in> set ts \<or> t_id t \<in> as_task_id ` set acc \<or>
        (lane_pin lns t = [] \<longrightarrow> (\<forall>n \<in> set ns. \<not> eligible (t_requires t) cnt' n)))"
  have "\<exists>cnt'. ?P ([] @ fst (schedule_loop now ns lns R cnt s)) [] cnt'
      (snd (schedule_loop now ns lns R cnt s))"
  proof (rule schedule_loop_rule [where P = ?P])
    show "?P [] R cnt s" using assms by (simp add: within_cap_def)
  next
    fix acc t ts cnt' s' p
    assume P: "?P acc (t # ts) cnt' s'"
      and c: "choose_pinned (cs_fair_scheduler s') (t_requires t) ns cnt' (lane_pin lns t) = (None, p)"
    have "lane_pin lns t = [] \<longrightarrow> (\<forall>n \<in> set ns. \<not> eligible (t_requires t) cnt' n)"
      using c affinity.pick_complete by metis
    with P show "?P acc ts cnt' s'" using loop_tasks_parked by auto
  next
    fix acc t ts cnt' s' n p
    assume P: "?P acc (t # ts) cnt' s'"
      and c: "choose_pinned (cs_fair_scheduler s') (t_requires t) ns cnt' (lane_pin lns t) = (Some n, p)"
    from P have t: "get_task s' (t_id t) = Some t" "t_status t = Ready"
      using loop_tasks_head R(2) by auto
    have "\<forall>m \<in> set ns. within_cap cnt (bump (n_id n) cnt') m"
      using affinity.pick_within [OF c ns] P by blast
    moreover have "counts_ok (bump (n_id n) cnt') (assign_task now t n p s')"
      using counts_ok_assign P t by blast
    moreover have "cs_wf (assign_task now t n p s')" "loop_tasks ts (assign_task now t n p s')"
      using P t assign_task_wf loop_tasks_placed by blast+
    moreover have "\<forall>u \<in> set R. u \<in> set ts \<or> t_id u \<in> as_task_id ` set (acc @ [mk_assignment t n]) \<or>
        (lane_pin lns u = [] \<longrightarrow> (\<forall>m \<in> set ns. \<not> eligible (t_requires u) (bump (n_id n) cnt') m))"
      using P eligible_bump by (fastforce simp: mk_assignment_def)
    ultimately show "?P (acc @ [mk_assignment t n]) ts (bump (n_id n) cnt') (assign_task now t n p s')"
      using P by auto
  qed
  then show ?thesis by auto
qed

lemma online_nodes_distinct: "cs_wf s \<Longrightarrow> distinct (map n_id (online_nodes s))"
  unfolding online_nodes_def by (intro distinct_map_filter nodes_wf_distinct cs_wfD)

section \<open>Lanes and order\<close>

text \<open>One active sitting per lane.\<close>

definition lane_exclusive :: "cluster_state \<Rightarrow> bool" where
  "lane_exclusive s \<longleftrightarrow>
     (\<forall>a b t u. get_task s a = Some t \<longrightarrow> get_task s b = Some u \<longrightarrow> t_active t \<longrightarrow> t_active u \<longrightarrow>
        t_lane_key t \<noteq> [] \<longrightarrow> t_lane_key t = t_lane_key u \<longrightarrow> a = b)"

text \<open>A selection of stored ready tasks that the lane guard let through.\<close>

definition unblocked :: "cluster_state \<Rightarrow> task list \<Rightarrow> bool" where
  "unblocked s R \<longleftrightarrow>
     (\<forall>t \<in> set R. t \<in> set (dict_values (cs_tasks s)) \<and> t_status t = Ready \<and>
        t_id t \<notin> set (lane_blocked_ready_ids (dict_values (cs_tasks s))))"

lemma ready_tasks_unblocked: "unblocked s (ready_tasks now s)"
  by (simp add: unblocked_def ready_tasks_def Let_def)

lemma unblocked_idle:
  assumes "unblocked s R" "tasks_wf s" "t \<in> set R" "t_lane_key t \<noteq> []"
    and "get_task s k = Some u" "t_active u"
  shows "t_lane_key u \<noteq> t_lane_key t"
proof
  assume lane: "t_lane_key u = t_lane_key t"
  have "u \<in> set (dict_values (cs_tasks s))"
    using assms(2,5) tasks_wf_value tasks_wf_id by metis
  from lane_blocked_active [OF _ _ this assms(6) lane] assms(1,3,4)
  show False by (auto simp: unblocked_def lane_ready_def)
qed

lemma unblocked_single:
  assumes "unblocked s R" "t \<in> set R" "u \<in> set R" "t_lane_key t \<noteq> []" "t_lane_key t = t_lane_key u"
  shows "t_id t = t_id u"
  using lane_blocked_siblings [of t "dict_values (cs_tasks s)" u] assms
  by (auto simp: unblocked_def lane_ready_def)

text \<open>An active task of the state after the pass was active before, or is placed from \<open>R\<close>.\<close>

lemma schedule_loop_origin:
  assumes "cs_wf s" "loop_tasks R s" "\<forall>t \<in> set R. t_status t = Ready"
    and "get_task (snd (schedule_loop now ns lns R cnt s)) k = Some v"
  shows "get_task s k = Some v \<or>
     (\<exists>t \<in> set R. \<exists>n \<in> set ns. t_id t = k \<and> t_lane_key v = t_lane_key t \<and> t_status v = Running \<and>
        t_assigned_to v = Some (n_id n))"
proof (cases "k \<in> as_task_id ` set (fst (schedule_loop now ns lns R cnt s))")
  case True
  then obtain a where a: "a \<in> set (fst (schedule_loop now ns lns R cnt s))" "as_task_id a = k" by auto
  from schedule_loop_placed_ok [OF assms(1-3)] a(1)
  have "placed_ok now ns lns R (snd (schedule_loop now ns lns R cnt s)) a" by blast
  then obtain t n where t: "t \<in> set R" "n \<in> set ns" "a = mk_assignment t n"
    "get_task (snd (schedule_loop now ns lns R cnt s)) (t_id t) =
       Some (touch now (t\<lparr>t_status := Running, t_assigned_to := Some (n_id n)\<rparr>))"
    by (rule placed_okE)
  with a(2) have k: "t_id t = k" by (simp add: mk_assignment_def)
  with t(4) assms(4) have "v = touch now (t\<lparr>t_status := Running, t_assigned_to := Some (n_id n)\<rparr>)" by simp
  then have "t_lane_key v = t_lane_key t" "t_status v = Running" "t_assigned_to v = Some (n_id n)"
    by (simp_all add: touch_def)
  with t(1,2) k show ?thesis by blast
next
  case False
  with schedule_loop_unplaced [OF assms(1,2), of now ns lns cnt] assms(4) show ?thesis by simp
qed

lemma schedule_loop_lanes:
  assumes wf: "cs_wf s" and R: "loop_tasks R s" "unblocked s R" and ex: "lane_exclusive s"
  shows "lane_exclusive (snd (schedule_loop now ns lns R cnt s))" (is "lane_exclusive ?s'")
  unfolding lane_exclusive_def
proof (intro allI impI)
  fix a b v w
  assume v: "get_task ?s' a = Some v" "t_active v" and w: "get_task ?s' b = Some w" "t_active w"
    and lane: "t_lane_key v \<noteq> []" "t_lane_key v = t_lane_key w"
  have ready: "\<forall>t \<in> set R. t_status t = Ready" using R(2) by (simp add: unblocked_def)
  note orig = schedule_loop_origin [OF wf R(1) ready]
  note tw = cs_wfD(2) [OF wf]
  consider "get_task s a = Some v" "get_task s b = Some w"
    | t where "get_task s a = Some v" "t \<in> set R" "t_lane_key w = t_lane_key t"
    | t where "get_task s b = Some w" "t \<in> set R" "t_lane_key v = t_lane_key t"
    | t u where "t \<in> set R" "t_id t = a" "t_lane_key v = t_lane_key t"
        "u \<in> set R" "t_id u = b" "t_lane_key w = t_lane_key u"
    using orig [OF v(1)] orig [OF w(1)] by blast
  then show "a = b"
  proof cases
    case 1
    with ex v(2) w(2) lane show ?thesis unfolding lane_exclusive_def by blast
  next
    case (2 t)
    with unblocked_idle [OF R(2) tw 2(2) _ 2(1) v(2)] lane show ?thesis by simp
  next
    case (3 t)
    with unblocked_idle [OF R(2) tw 3(2) _ 3(1) w(2)] lane show ?thesis by simp
  next
    case (4 t u)
    with unblocked_single [OF R(2) 4(1,4)] lane show ?thesis by simp
  qed
qed

text \<open>Assignments come out in priority order.\<close>

lemma schedule_loop_sorted:
  assumes "sorted (map t_priority R)"
  shows "sorted (map as_priority (fst (schedule_loop now ns lns R cnt s)))"
proof -
  let ?P = "\<lambda>(acc :: assignment list) (ts :: task list) (cnt :: counts) (s' :: cluster_state). sorted (map as_priority acc @ map t_priority ts)"
  have "\<exists>cnt'. ?P ([] @ fst (schedule_loop now ns lns R cnt s)) [] cnt'
      (snd (schedule_loop now ns lns R cnt s))"
    by (rule schedule_loop_rule [where P = ?P])
      (use assms in \<open>auto simp: sorted_append mk_assignment_def\<close>)
  then show ?thesis by simp
qed

lemma ready_tasks_sorted: "sorted (map t_priority (ready_tasks now s))"
proof -
  have "sorted (map (\<lambda>t. (t_priority t, - t_created_at t)) (ready_tasks now s))"
    unfolding ready_tasks_def Let_def by (rule sorted_sort_key)
  then show ?thesis
    unfolding sorted_map by (rule sorted_wrt_mono_rel [rotated]) (auto simp: less_eq_prod_def)
qed

end
