(* ===== verification/SchedProps.thy ===== *)
theory SchedProps
  imports Demo Scheduling
begin

text \<open>
  Properties of the planner and of the scheduling pass: what a placement guarantees, capacity, lanes,
  order, work conservation, and what the pass leaves alone.
\<close>

section \<open>Helpers\<close>

lemma schedule_loop_no_nodes: "schedule_loop now [] lns ts cnt s = ([], s)"
proof (induction ts arbitrary: s)
  case (Cons t ts)
  have "fst (choose_pinned f r [] c pin) = None" for f r c pin
    by (simp add: choose_pinned_def fair_choose_def)
  with Cons show ?case by (simp split: prod.split option.split) (metis fst_conv option.simps(3))
qed simp

lemma schedule_pending_eq:
  "schedule_pending_detailed now s =
   schedule_loop now (online_nodes s) (lane_nodes s) (ready_tasks now s) (active_counts (get_all_tasks s)) s"
  by (simp add: schedule_pending_detailed_def schedule_loop_no_nodes get_all_tasks_def)

lemma online_node_stored:
  "cs_wf s \<Longrightarrow> n \<in> set (online_nodes s) \<longleftrightarrow> get_node s (n_id n) = Some n \<and> n_status n = Online"
proof -
  assume "cs_wf s"
  then have "nodes_wf s" by (rule cs_wfD)
  then have "n \<in> set (dict_values (cs_nodes s)) \<longleftrightarrow> get_node s (n_id n) = Some n"
    unfolding nodes_wf_def get_node_def by (metis dict_get_value dict_value_get)
  then show ?thesis by (simp add: online_nodes_def)
qed

lemma ready_tasks_iff:
  "cs_wf s \<Longrightarrow> t \<in> set (ready_tasks now s) \<longleftrightarrow> get_task s (t_id t) = Some t \<and> t_status t = Ready \<and>
     t_id t \<notin> active_leased_task_ids now s \<and> t_id t \<notin> set (lane_blocked_ready_ids (get_all_tasks s))"
  using tasks_wf_value [OF cs_wfD(2), of s t] by (auto simp: ready_tasks_def Let_def get_all_tasks_def)

section \<open>The planner\<close>

text \<open>The fair choice returns an eligible node (able to run the task and below its ceiling)
  whose pair of load and last pick is least among the eligible ones, and returns nothing exactly when
  no candidate is eligible.\<close>

theorem fair_choose_optimal:
  "(case fair_choose f req ns cnt of
      None \<Rightarrow> (\<forall>n \<in> set ns. \<not> (node_can_run req n \<and> \<not> node_at_capacity n (dict_get_or cnt (n_id n) 0)))
    | Some n \<Rightarrow> n \<in> set ns \<and> node_can_run req n \<and> \<not> node_at_capacity n (dict_get_or cnt (n_id n) 0) \<and>
        (\<forall>m \<in> set ns. node_can_run req m \<and> \<not> node_at_capacity m (dict_get_or cnt (n_id m) 0) \<longrightarrow>
           (dict_get_or cnt (n_id n) 0, dict_get_or (f_last_picked f) (n_id n) (-1))
           \<le> (dict_get_or cnt (n_id m) 0, dict_get_or (f_last_picked f) (n_id m) (-1))))"
  using choose_None_iff [of f req ns cnt] choose_Some [of f req ns cnt]
  unfolding eligible_def node_key_def by (simp split: option.split)

theorem fair_choose_optimal_witness:
  "\<exists>n. fair_choose init_fair [''code''] [demo_node ''n1'' 1, demo_node ''n2'' 0] [(''n1'', 1)] = Some n \<and> n_id n = ''n2'' \<and>
     n \<in> {demo_node ''n1'' 1, demo_node ''n2'' 0} \<and> node_can_run [''code''] n"
proof -
  have "map_option n_id (fair_choose init_fair [''code''] [demo_node ''n1'' 1, demo_node ''n2'' 0] [(''n1'', 1)]) = Some ''n2''"
    by code_simp
  then show ?thesis
    using fair_choose_optimal [where f = init_fair and req = "[''code'']" and ns = "[demo_node ''n1'' 1, demo_node ''n2'' 0]"
        and cnt = "[(''n1'', 1)]"] by auto
qed

section \<open>The scheduling pass\<close>

text \<open>C1: Every placement takes a ready task without a live lease to an online node that is not
  drained and has every required capability, the lane's node when the lane is pinned; afterwards the
  task is running on that node at the next version, and an active lease with the scheduler's time to
  live records it.\<close>

theorem schedule_placements_sound:
  assumes wf: "cs_wf s" and p: "schedule_pending_detailed now s = (as, s')" and a: "a \<in> set as"
  shows "\<exists>t n l. get_task s (as_task_id a) = Some t \<and> t_status t = Ready \<and>
      as_task_id a \<notin> active_leased_task_ids now s \<and>
      get_node s (as_node_id a) = Some n \<and> n_status n = Online \<and> \<not> n_drained n \<and>
      set (t_requires t) \<subseteq> set (n_capabilities n) \<and>
      (lane_pin (lane_nodes s) t \<noteq> [] \<longrightarrow> same_node (as_node_id a) (lane_pin (lane_nodes s) t)) \<and>
      get_task s' (as_task_id a) = Some (touch now (t\<lparr>t_status := Running, t_assigned_to := Some (as_node_id a)\<rparr>)) \<and>
      get_lease s' (l_id l) = Some l \<and> l_task_id l = as_task_id a \<and> l_node_id l = as_node_id a \<and>
      l_status l = Active \<and> l_expires_at l = now + seconds 60"
proof -
  have "\<forall>t \<in> set (ready_tasks now s). t_status t = Ready" using ready_tasks_ready by blast
  from schedule_loop_placed_ok [OF wf loop_tasks_ready [OF wf] this] p a
  have "placed_ok now (online_nodes s) (lane_nodes s) (ready_tasks now s) s' a"
    unfolding schedule_pending_eq by (metis fst_conv snd_conv)
  then obtain t n l where t: "t \<in> set (ready_tasks now s)" "n \<in> set (online_nodes s)" "a = mk_assignment t n"
    "node_can_run (t_requires t) n" "lane_pin (lane_nodes s) t \<noteq> [] \<longrightarrow> same_node (n_id n) (lane_pin (lane_nodes s) t)"
    "get_task s' (t_id t) = Some (touch now (t\<lparr>t_status := Running, t_assigned_to := Some (n_id n)\<rparr>))"
    and l: "get_lease s' (l_id l) = Some l" "l_task_id l = t_id t" "l_node_id l = n_id n"
      "l_status l = Active" "l_expires_at l = now + SCHEDULER_ASSIGNED_TTL"
    by (rule placed_okE)
  have ids: "as_task_id a = t_id t" "as_node_id a = n_id n" using t(3) by (simp_all add: mk_assignment_def)
  have tt: "get_task s (t_id t) = Some t \<and> t_status t = Ready \<and> t_id t \<notin> active_leased_task_ids now s"
    using ready_tasks_iff [OF wf] t(1) by blast
  have nn: "get_node s (n_id n) = Some n \<and> n_status n = Online" using online_node_stored [OF wf] t(2) by blast
  have nr: "\<not> n_drained n \<and> set (t_requires t) \<subseteq> set (n_capabilities n)" using t(4) node_can_run_iff by blast
  have ttl: "SCHEDULER_ASSIGNED_TTL = seconds 60" by (simp add: SCHEDULER_ASSIGNED_TTL_def default_lease_config_def)
  show ?thesis unfolding ids
    by (rule exI [of _ t], rule exI [of _ n], rule exI [of _ l])
      (use tt nn nr t(5,6) l ttl in metis)
qed

lemma demo_pass: "\<exists>a. schedule_pending_detailed 20 demo1 = ([a], demo2) \<and> as_task_id a = ''t1'' \<and> as_node_id a = ''n1''"
proof -
  have "map (\<lambda>a. (as_task_id a, as_node_id a)) (fst (schedule_pending_detailed 20 demo1)) = [(''t1'', ''n1'')]" by code_simp
  then show ?thesis by (cases "schedule_pending_detailed 20 demo1") (auto simp: demo2_def)
qed

theorem schedule_placements_sound_witness:
  "\<exists>t l. get_task demo2 ''t1'' = Some t \<and> t_status t = Running \<and>
     get_lease demo2 (l_id l) = Some l \<and> l_task_id l = ''t1'' \<and> l_node_id l = ''n1'' \<and> l_expires_at l = 20 + seconds 60"
proof -
  obtain a where a: "schedule_pending_detailed 20 demo1 = ([a], demo2)" "as_task_id a = ''t1''" "as_node_id a = ''n1''"
    using demo_pass by blast
  from schedule_placements_sound [OF demo_wf(2) a(1), of a] a(2,3) obtain t l where
    "get_task demo2 ''t1'' = Some (touch 20 (t\<lparr>t_status := Running, t_assigned_to := Some ''n1''\<rparr>))"
    "get_lease demo2 (l_id l) = Some l" "l_task_id l = ''t1''" "l_node_id l = ''n1''" "l_expires_at l = 20 + seconds 60"
    by auto
  then show ?thesis by (intro exI conjI) (assumption | simp add: touch_def)+
qed

text \<open>C2: A pass never takes a node past its ceiling: afterwards the number of active tasks
  assigned to an online node with a positive ceiling is at most the ceiling, or what it was before.\<close>

theorem schedule_respects_capacity:
  assumes wf: "cs_wf s" and p: "schedule_pending_detailed now s = (as, s')"
    and n: "get_node s nid = Some n" "n_status n = Online" "0 < n_max_concurrent n" "nid \<noteq> []"
  shows "int (length (filter (\<lambda>t. t_active t \<and> t_assigned_to t = Some nid) (get_all_tasks s')))
     \<le> max (n_max_concurrent n)
         (int (length (filter (\<lambda>t. t_active t \<and> t_assigned_to t = Some nid) (get_all_tasks s))))"
proof -
  have id: "n_id n = nid" using cs_wfD(1) [OF wf] n(1) by (simp add: nodes_wf_def get_node_def)
  then have mem: "n \<in> set (online_nodes s)" using online_node_stored [OF wf] n by simp
  have rdy: "\<forall>t \<in> set (ready_tasks now s). t_status t = Ready" using ready_tasks_ready by blast
  have cnt: "counts_ok (active_counts (get_all_tasks s)) s"
    unfolding get_all_tasks_def by (rule active_counts_ok)
  from schedule_loop_capacity [OF wf loop_tasks_ready [OF wf] rdy online_nodes_distinct [OF wf] cnt, of now "lane_nodes s"] p
  obtain cnt' where c: "counts_ok cnt' s'" "\<forall>n \<in> set (online_nodes s). within_cap (active_counts (get_all_tasks s)) cnt' n"
    unfolding schedule_pending_eq by auto
  from c(2) mem n(3) have "dict_get_or cnt' nid 0 \<le> max (n_max_concurrent n) (dict_get_or (active_counts (get_all_tasks s)) nid 0)"
    unfolding within_cap_def id [symmetric] by fastforce
  with c(1) cnt n(4) show ?thesis unfolding counts_ok_def load_of_def get_all_tasks_def by simp
qed

theorem schedule_respects_capacity_witness:
  "length (filter (\<lambda>t. t_active t \<and> t_assigned_to t = Some ''n1'') (get_all_tasks demo2)) \<le> 1"
proof -
  obtain a where a: "schedule_pending_detailed 20 demo1 = ([a], demo2)" using demo_pass by blast
  have "get_node demo1 ''n1'' = Some (demo_node ''n1'' 1)" by code_simp
  from schedule_respects_capacity [OF demo_wf(2) a this] have
    "int (length (filter (\<lambda>t. t_active t \<and> t_assigned_to t = Some ''n1'') (get_all_tasks demo2))) \<le>
     max 1 (int (length (filter (\<lambda>t. t_active t \<and> t_assigned_to t = Some ''n1'') (get_all_tasks demo1))))"
    by (simp add: demo_node_def)
  moreover have "length (filter (\<lambda>t. t_active t \<and> t_assigned_to t = Some ''n1'') (get_all_tasks demo1)) = 0" by code_simp
  ultimately show ?thesis by simp
qed

text \<open>C14: A pass keeps one sitting per lane: if no two active tasks share a lane before, none do
  after.\<close>

theorem schedule_keeps_lanes_exclusive:
  assumes "cs_wf s" "lane_exclusive s"
  shows "lane_exclusive (snd (schedule_pending_detailed now s))"
  unfolding schedule_pending_eq
  by (rule schedule_loop_lanes [OF assms(1) loop_tasks_ready [OF assms(1)] ready_tasks_unblocked assms(2)])

theorem schedule_keeps_lanes_exclusive_witness:
  "lane_exclusive (snd (schedule_pending_detailed 20 demo_lane)) \<and>
   length (filter t_active (get_all_tasks (snd (schedule_pending_detailed 20 demo_lane)))) = 1"
proof
  have wf: "cs_wf demo_lane" by (rule demo_lane_wf)
  have "filter t_active (get_all_tasks demo_lane) = []" by code_simp
  then have idle: "\<not> t_active t" if "get_task demo_lane k = Some t" for k t
    using that dict_get_value unfolding filter_empty_iff get_all_tasks_def get_task_def by metis
  then have "lane_exclusive demo_lane" unfolding lane_exclusive_def by blast
  from schedule_keeps_lanes_exclusive [OF wf this]
  show "lane_exclusive (snd (schedule_pending_detailed 20 demo_lane))" .
  show "length (filter t_active (get_all_tasks (snd (schedule_pending_detailed 20 demo_lane)))) = 1" by code_simp
qed

text \<open>C34: The pass is work conserving: a ready task that is not under a live lease, not behind
  another task of its lane and not pinned to a node is left unplaced only when, with the loads after
  the pass, no online node can run it and has room.\<close>

theorem schedule_work_conserving:
  assumes wf: "cs_wf s" and p: "schedule_pending_detailed now s = (as, s')"
    and t: "get_task s tid = Some t" "t_status t = Ready" "tid \<notin> active_leased_task_ids now s"
      "tid \<notin> set (lane_blocked_ready_ids (get_all_tasks s))" "lane_pin (lane_nodes s) t = []"
    and un: "tid \<notin> as_task_id ` set as"
    and n: "get_node s nid = Some n" "n_status n = Online" "nid \<noteq> []"
  shows "\<not> (node_can_run (t_requires t) n \<and>
     \<not> node_at_capacity n (int (length (filter (\<lambda>t. t_active t \<and> t_assigned_to t = Some nid) (get_all_tasks s')))))"
proof -
  have id: "n_id n = nid" using cs_wfD(1) [OF wf] n(1) by (simp add: nodes_wf_def get_node_def)
  then have mem: "n \<in> set (online_nodes s)" using online_node_stored [OF wf] n by simp
  have tid: "t_id t = tid" using tasks_wf_id [OF cs_wfD(2) [OF wf] t(1)] .
  then have rt: "t \<in> set (ready_tasks now s)" using ready_tasks_iff [OF wf] t by simp
  have rdy: "\<forall>t \<in> set (ready_tasks now s). t_status t = Ready" using ready_tasks_ready by blast
  have cnt: "counts_ok (active_counts (get_all_tasks s)) s"
    unfolding get_all_tasks_def by (rule active_counts_ok)
  from schedule_loop_capacity [OF wf loop_tasks_ready [OF wf] rdy online_nodes_distinct [OF wf] cnt, of now "lane_nodes s"] p
  obtain cnt' where c: "counts_ok cnt' s'" "\<forall>t \<in> set (ready_tasks now s). t_id t \<in> as_task_id ` set as \<or>
        (lane_pin (lane_nodes s) t = [] \<longrightarrow> (\<forall>n \<in> set (online_nodes s). \<not> eligible (t_requires t) cnt' n))"
    unfolding schedule_pending_eq by auto
  from c(2) rt un t(5) mem tid have "\<not> eligible (t_requires t) cnt' n" by blast
  moreover have "dict_get_or cnt' nid 0 = int (load_of s' nid)" using c(1) n(3) by (simp add: counts_ok_def)
  ultimately show ?thesis unfolding eligible_def id load_of_def get_all_tasks_def by simp
qed

theorem schedule_work_conserving_witness:
  "node_at_capacity (demo_node ''n1'' 1)
     (int (length (filter (\<lambda>t. t_active t \<and> t_assigned_to t = Some ''n1'') (get_all_tasks demo2))))"
proof -
  obtain a where a: "schedule_pending_detailed 20 demo1 = ([a], demo2)" "as_task_id a = ''t1''" using demo_pass by blast
  have n: "get_node demo1 ''n1'' = Some (demo_node ''n1'' 1)" by code_simp
  have "map_option (\<lambda>t. (t_status t, t_requires t, lane_pin (lane_nodes demo1) t)) (get_task demo1 ''t2'') =
      Some (Ready, [''code''], [])" by code_simp
  then obtain t where t: "get_task demo1 ''t2'' = Some t" "t_status t = Ready" "t_requires t = [''code'']"
    "lane_pin (lane_nodes demo1) t = []" by auto
  have b: "''t2'' \<notin> active_leased_task_ids 20 demo1" "''t2'' \<notin> set (lane_blocked_ready_ids (get_all_tasks demo1))"
    by code_simp+
  have "node_can_run [''code''] (demo_node ''n1'' 1)" by code_simp
  with schedule_work_conserving [OF demo_wf(2) a(1) t(1,2) b t(4) _ n] a(2) t(3) show ?thesis
    by (simp add: demo_node_def)
qed

text \<open>A pass changes nothing it does not place: tasks without an assignment, every lease that
  existed and every node are as before; and the assignments come in the order of their priority
  band.\<close>

theorem schedule_frame_and_order:
  assumes wf: "cs_wf s" and p: "schedule_pending_detailed now s = (as, s')"
  shows "(\<forall>tid. tid \<notin> as_task_id ` set as \<longrightarrow> get_task s' tid = get_task s tid) \<and>
     (\<forall>k l. get_lease s k = Some l \<longrightarrow> get_lease s' k = Some l) \<and> cs_nodes s' = cs_nodes s \<and>
     sorted (map as_priority as)"
  using schedule_loop_unplaced [OF wf loop_tasks_ready [OF wf, of now], where now = now and ns = "online_nodes s"
        and lns = "lane_nodes s" and cnt = "active_counts (get_all_tasks s)"]
    schedule_loop_sorted [OF ready_tasks_sorted [of now s], where now = now and ns = "online_nodes s"
        and lns = "lane_nodes s" and cnt = "active_counts (get_all_tasks s)" and s = s] p
  unfolding schedule_pending_eq by simp

theorem schedule_frame_and_order_witness: "get_task demo2 ''t2'' = get_task demo1 ''t2''"
proof -
  obtain a where a: "schedule_pending_detailed 20 demo1 = ([a], demo2)" "as_task_id a = ''t1''" using demo_pass by blast
  from schedule_frame_and_order [OF demo_wf(2) a(1)] a(2) show ?thesis by simp
qed

end
