(* ===== verification/Recovery.thy ===== *)
theory Recovery
  imports LeaseManager Scheduling
begin

text \<open>
  The recovery pipeline of \<^verbatim>\<open>recovery/{revoker,rescheduler,detector,manager}.py\<close>: the leases of
  a failed node are revoked, its orphaned tasks are made ready and scheduled again or marked
  failed, and every action is written to the recovery log. \<open>detect_expired_leases\<close> iterates over
  a Python set of node ids; the order the set is iterated in is an argument of the model.
\<close>

section \<open>Revoker\<close>

definition log_event ::
  "time \<Rightarrow> string \<Rightarrow> string \<Rightarrow> string \<Rightarrow> string \<Rightarrow> string \<Rightarrow> cluster_state \<Rightarrow> cluster_state" where
  "log_event now task_id node_id action status message s =
     (let (i, s1) = generate_id ''recovery'' s
      in append_recovery_event now
           \<lparr>re_id = i, re_task_id = task_id, re_node_id = node_id, re_action = action,
            re_status = status, re_message = Some message, re_timestamp = now\<rparr> s1)"

fun revoke_loop ::
  "time \<Rightarrow> string \<Rightarrow> lease list \<Rightarrow> string list \<Rightarrow> cluster_state \<Rightarrow> string list \<times> cluster_state" where
  "revoke_loop now node_id [] seen s = ([], s)"
| "revoke_loop now node_id (l # ls) seen s =
     (if l_node_id l \<noteq> node_id \<or> l_id l \<in> set seen then revoke_loop now node_id ls seen s
      else let (success, s1) = revoke_lease (l_id l) s
           in if success
              then let s2 = log_event now (l_task_id l) node_id ''revoke_lease'' ''completed''
                              (''Revoked lease '' @ l_id l @ '' for task '' @ l_task_id l) s1;
                       (ids, s3) = revoke_loop now node_id ls (l_id l # seen) s2
                   in (l_task_id l # ids, s3)
              else revoke_loop now node_id ls (l_id l # seen) s1)"

definition revoke_all_for_node :: "time \<Rightarrow> string \<Rightarrow> cluster_state \<Rightarrow> string list \<times> cluster_state" where
  "revoke_all_for_node now node_id s =
     (let (active, s1) = get_active_leases now s
      in revoke_loop now node_id (active @ get_expired_leases s1) [] s1)"

section \<open>Rescheduler\<close>

definition fail_orphan :: "time \<Rightarrow> string \<Rightarrow> cluster_state \<Rightarrow> cluster_state" where
  "fail_orphan now task_id s =
     log_event now task_id [] ''mark_failed'' ''completed'' ''No available node for reschedule''
       (snd (set_task_status now task_id Failed ''no available node for reschedule'' s))"

text \<open>One orphan: whether it was rescheduled, and the state after.\<close>

definition reschedule_one :: "time \<Rightarrow> string \<Rightarrow> cluster_state \<Rightarrow> bool \<times> cluster_state" where
  "reschedule_one now task_id s =
     (case get_task s task_id of
        None \<Rightarrow> (False, s)
      | Some _ \<Rightarrow>
          (let (unassigned, s1) = unassign_task now task_id s
           in if \<not> unassigned then (False, s1)
              else let (scheduled, s2) = schedule_pending now s1
                   in if 0 < scheduled
                      then (case get_task s2 task_id of
                              Some t \<Rightarrow>
                                (case t_assigned_to t of
                                   Some a \<Rightarrow>
                                     if a \<noteq> []
                                     then (True, log_event now task_id [] ''reschedule'' ''completed''
                                                   (''Rescheduled to node '' @ a) s2)
                                     else (False, fail_orphan now task_id s2)
                                 | None \<Rightarrow> (False, fail_orphan now task_id s2))
                            | None \<Rightarrow> (False, fail_orphan now task_id s2))
                      else (False, fail_orphan now task_id s2)))"

fun reschedule_orphaned :: "time \<Rightarrow> string list \<Rightarrow> cluster_state \<Rightarrow> nat \<times> cluster_state" where
  "reschedule_orphaned now [] s = (0, s)"
| "reschedule_orphaned now (tid # tids) s =
     (let (r, s1) = reschedule_one now tid s; (n, s2) = reschedule_orphaned now tids s1
      in ((if r then n + 1 else n), s2))"

section \<open>Recovery manager\<close>

record recovery_manager =
  rm_auto_recovery_enabled :: bool
  rm_scan_interval :: rat
  rm_total_recoveries :: nat
  rm_total_revoked :: nat
  rm_total_rescheduled :: nat
  rm_detector_running :: bool
  rm_event_queue :: "string option list"

definition rm_init :: recovery_manager where
  "rm_init = \<lparr>rm_auto_recovery_enabled = False, rm_scan_interval = 30, rm_total_recoveries = 0,
     rm_total_revoked = 0, rm_total_rescheduled = 0, rm_detector_running = False, rm_event_queue = []\<rparr>"

record recovery_summary =
  rs_node_id :: string
  rs_revoked :: nat
  rs_rescheduled :: nat
  rs_recovery_status :: string
  rs_message :: string

text \<open>The common body of \<open>trigger_recovery\<close> and of the detector's \<open>_handle_offline\<close>.\<close>

definition full_recovery :: "time \<Rightarrow> string \<Rightarrow> cluster_state \<Rightarrow> recovery_summary \<times> cluster_state" where
  "full_recovery now node_id s =
     (let (revoked, s1) = revoke_all_for_node now node_id s;
          (rescheduled, s2) = (if revoked \<noteq> [] then reschedule_orphaned now revoked s1 else (0, s1));
          status = (if revoked = [] then ''completed''
                    else if rescheduled = length revoked then ''completed'' else ''partial'');
          message = (if revoked = [] then ''No active leases to revoke''
                     else ''Revoked '' @ show_nat (length revoked) @ '' leases, rescheduled ''
                          @ show_nat rescheduled @ ''/'' @ show_nat (length revoked) @ '' tasks'')
      in (\<lparr>rs_node_id = node_id, rs_revoked = length revoked, rs_rescheduled = rescheduled,
           rs_recovery_status = status, rs_message = message\<rparr>,
          log_event now [] node_id ''full_recovery'' status message s2))"

definition trigger_recovery ::
  "time \<Rightarrow> string \<Rightarrow> recovery_manager \<Rightarrow> cluster_state \<Rightarrow> recovery_summary \<times> recovery_manager \<times> cluster_state" where
  "trigger_recovery now node_id m s =
     (let (r, s1) = full_recovery now node_id s
      in (r, m\<lparr>rm_total_recoveries := rm_total_recoveries m + 1,
               rm_total_revoked := rm_total_revoked m + rs_revoked r,
               rm_total_rescheduled := rm_total_rescheduled m + rs_rescheduled r\<rparr>, s1))"

definition QUEUE_MAXSIZE :: nat where
  "QUEUE_MAXSIZE = 100"

definition notify_offline :: "string \<Rightarrow> recovery_manager \<Rightarrow> recovery_manager" where
  "notify_offline node_id m =
     (if length (rm_event_queue m) < QUEUE_MAXSIZE
      then m\<lparr>rm_event_queue := rm_event_queue m @ [Some node_id]\<rparr> else m)"

definition trigger_recovery_async :: "string \<Rightarrow> recovery_manager \<Rightarrow> recovery_manager" where
  "trigger_recovery_async node_id m = notify_offline node_id m"

definition handle_offline :: "time \<Rightarrow> string \<Rightarrow> cluster_state \<Rightarrow> cluster_state" where
  "handle_offline now node_id s = snd (full_recovery now node_id s)"

text \<open>
  The detector thread: \<open>stop\<close> also puts the poison pill behind the queued events, so that a
  waiting loop wakes up.
\<close>

definition detector_start :: "recovery_manager \<Rightarrow> recovery_manager" where
  "detector_start m = (if rm_detector_running m then m else m\<lparr>rm_detector_running := True\<rparr>)"

definition detector_stop :: "recovery_manager \<Rightarrow> recovery_manager" where
  "detector_stop m =
     (if \<not> rm_detector_running m then m
      else m\<lparr>rm_detector_running := False, rm_event_queue := rm_event_queue m @ [None]\<rparr>)"

text \<open>One turn of the detector loop: \<open>None\<close> in the queue is the poison pill.\<close>

definition detector_step ::
  "time \<Rightarrow> recovery_manager \<Rightarrow> cluster_state \<Rightarrow> bool \<times> recovery_manager \<times> cluster_state" where
  "detector_step now m s =
     (case rm_event_queue m of
        [] \<Rightarrow> (rm_detector_running m, m, s)
      | None # q \<Rightarrow> (False, m\<lparr>rm_event_queue := q\<rparr>, s)
      | Some node_id # q \<Rightarrow> (True, m\<lparr>rm_event_queue := q\<rparr>, handle_offline now node_id s))"

record recovery_stats_rec =
  rt_total :: nat
  rt_by_action :: "(string, int) dict"
  rt_total_triggers :: nat
  rt_total_revoked :: nat
  rt_total_rescheduled :: nat
  rt_auto_recovery_enabled :: bool
  rt_scan_interval_seconds :: rat

definition get_recovery_stats :: "recovery_manager \<Rightarrow> cluster_state \<Rightarrow> recovery_stats_rec" where
  "get_recovery_stats m s =
     (let (total, by_action) = recovery_stats s
      in \<lparr>rt_total = total, rt_by_action = by_action, rt_total_triggers = rm_total_recoveries m,
          rt_total_revoked = rm_total_revoked m, rt_total_rescheduled = rm_total_rescheduled m,
          rt_auto_recovery_enabled = rm_auto_recovery_enabled m,
          rt_scan_interval_seconds = rm_scan_interval m\<rparr>)"

definition start_auto_recovery :: "rat \<Rightarrow> recovery_manager \<Rightarrow> recovery_manager" where
  "start_auto_recovery interval m =
     (if rm_auto_recovery_enabled m then m
      else m\<lparr>rm_auto_recovery_enabled := True, rm_scan_interval := interval\<rparr>)"

definition stop_auto_recovery :: "recovery_manager \<Rightarrow> recovery_manager" where
  "stop_auto_recovery m =
     (if \<not> rm_auto_recovery_enabled m then m else m\<lparr>rm_auto_recovery_enabled := False\<rparr>)"

fun recover_nodes ::
  "time \<Rightarrow> string list \<Rightarrow> recovery_manager \<Rightarrow> cluster_state \<Rightarrow> recovery_manager \<times> cluster_state" where
  "recover_nodes now [] m s = (m, s)"
| "recover_nodes now (nid # nids) m s =
     (let (_, m1, s1) = trigger_recovery now nid m s in recover_nodes now nids m1 s1)"

record detect_summary =
  ds_expired_nodes :: "string list"
  ds_active_leases :: nat
  ds_unleased_running :: nat

definition detect_expired_leases ::
  "(string list \<Rightarrow> string list) \<Rightarrow> time \<Rightarrow> recovery_manager \<Rightarrow> cluster_state \<Rightarrow>
   detect_summary \<times> recovery_manager \<times> cluster_state" where
  "detect_expired_leases set_order now m s =
     (let (active, s1) = get_active_leases now s;
          expired_nodes = set_order (remdups (map l_node_id (get_expired_leases s1)));
          (m1, s2) = recover_nodes now expired_nodes m s1
      in (\<lparr>ds_expired_nodes = expired_nodes, ds_active_leases = length active,
           ds_unleased_running = length (unleased_running_tasks now s2)\<rparr>, m1, s2))"

section \<open>Invariant\<close>

lemma log_event_wf: "cs_wf s \<Longrightarrow> cs_wf (log_event now t n a st m s)"
  using generate_id_wf [of s "''recovery''"]
  by (auto simp: log_event_def Let_def append_recovery_event_wf split: prod.splits)

lemma log_event_frame [simp, frame]:
  "cs_tasks (log_event now t n a st m s) = cs_tasks s"
  "cs_leases (log_event now t n a st m s) = cs_leases s"
  "cs_task_lease_index (log_event now t n a st m s) = cs_task_lease_index s"
  "cs_nodes (log_event now t n a st m s) = cs_nodes s"
  "cs_sync_version (log_event now t n a st m s) = cs_sync_version s"
  "get_task (log_event now t n a st m s) k = get_task s k"
  "get_lease (log_event now t n a st m s) k = get_lease s k"
  by (simp_all add: log_event_def generate_id_def append_recovery_event_def Let_def get_task_def get_lease_def)

lemma revoke_loop_wf: "cs_wf s \<Longrightarrow> cs_wf (snd (revoke_loop now nid ls seen s))"
proof (induction now nid ls seen s rule: revoke_loop.induct)
  case (2 now nid l ls seen s)
  obtain b s1 where r: "revoke_lease (l_id l) s = (b, s1)" by (cases "revoke_lease (l_id l) s")
  then have "cs_wf s1" using revoke_lease_wf [OF "2.prems", of "l_id l"] by simp
  with 2 r show ?case by (auto simp: Let_def log_event_wf split: prod.splits)
qed simp

lemma fail_orphan_wf: "cs_wf s \<Longrightarrow> cs_wf (fail_orphan now tid s)"
  by (simp add: fail_orphan_def log_event_wf task_setters_wf)

lemma schedule_pending_snd: "snd (schedule_pending now s) = snd (schedule_pending_detailed now s)"
  by (simp add: schedule_pending_def case_prod_beta)

lemma reschedule_one_wf: "cs_wf s \<Longrightarrow> cs_wf (snd (reschedule_one now tid s))"
proof -
  assume wf: "cs_wf s"
  obtain u s1 where u: "unassign_task now tid s = (u, s1)" by (cases "unassign_task now tid s")
  obtain n s2 where n: "schedule_pending now s1 = (n, s2)" by (cases "schedule_pending now s1")
  have wf1: "cs_wf s1" using task_setters_wf(3) [OF wf, of now tid] u by simp
  have wf2: "cs_wf s2" using schedule_pending_detailed_wf [OF wf1] n schedule_pending_snd by (metis snd_conv)
  show ?thesis using wf wf1 wf2 u n
    by (auto simp: reschedule_one_def Let_def log_event_wf fail_orphan_wf split: option.splits)
qed

section \<open>Revocation\<close>

lemma revoke_loop_tasks: "cs_tasks (snd (revoke_loop now nid ls seen s)) = cs_tasks s \<and>
   cs_nodes (snd (revoke_loop now nid ls seen s)) = cs_nodes s"
proof (induction now nid ls seen s rule: revoke_loop.induct)
  case (2 now nid l ls seen s)
  obtain b s1 where r: "revoke_lease (l_id l) s = (b, s1)" by (cases "revoke_lease (l_id l) s")
  then have "cs_tasks s1 = cs_tasks s" "cs_nodes s1 = cs_nodes s"
    using revoke_lease_frame(1,2) [of "l_id l" s] by simp_all
  with 2 r show ?case by (auto simp: Let_def split: prod.splits)
qed simp

definition revoked :: "lease \<Rightarrow> lease" where
  "revoked l = l\<lparr>l_status := Revoked\<rparr>"

lemma revoked_eq: "l_status_update (\<lambda>_. Revoked) = revoked"
  by (simp add: fun_eq_iff revoked_def)

lemma revoke_loop_at:
  "get_lease (snd (revoke_loop now nid ls seen s)) k =
   (if \<exists>l \<in> set ls. l_id l = k \<and> l_node_id l = nid \<and> k \<notin> set seen
    then map_option revoked (get_lease s k) else get_lease s k)"
proof (induction ls arbitrary: seen s)
  case (Cons l ls)
  show ?case
  proof (cases "l_node_id l \<noteq> nid \<or> l_id l \<in> set seen")
    case True
    then have "revoke_loop now nid (l # ls) seen s = revoke_loop now nid ls seen s" by simp
    with Cons.IH [of seen s] True show ?thesis by auto
  next
    case False
    obtain b s1 where r: "revoke_lease (l_id l) s = (b, s1)" by (cases "revoke_lease (l_id l) s")
    define s2 where "s2 = (if b then log_event now (l_task_id l) nid ''revoke_lease'' ''completed''
        (''Revoked lease '' @ l_id l @ '' for task '' @ l_task_id l) s1 else s1)"
    have "snd (revoke_loop now nid (l # ls) seen s) = snd (revoke_loop now nid ls (l_id l # seen) s2)"
      using False r by (simp add: s2_def Let_def split: prod.splits)
    moreover have "get_lease s2 k = (if k = l_id l then map_option revoked (get_lease s k) else get_lease s k)"
      using lt.rv_at [OF r, of k] unfolding revoked_eq by (cases "k = l_id l") (simp_all add: s2_def)
    ultimately show ?thesis using False Cons.IH [of "l_id l # seen" s2] by auto
  qed
qed simp

lemma revoke_all_at:
  assumes wf: "cs_wf s"
  shows "get_lease (snd (revoke_all_for_node now nid s)) k =
     (case get_lease s k of None \<Rightarrow> None
      | Some l \<Rightarrow> Some (if l_node_id l = nid \<and> l_status l \<noteq> Revoked then revoked l else mark_due now l))"
proof -
  obtain A s1 where a: "get_active_leases now s = (A, s1)" by (cases "get_active_leases now s")
  have s1: "get_lease s1 j = map_option (mark_due now) (get_lease s j)" for j
    using get_active_leases_at [of now s j] a by simp
  have wf1: "cs_wf s1" using get_active_leases_wf [OF wf, of now] a by simp
  have A: "x \<in> set A \<longleftrightarrow> get_lease s (l_id x) = Some x \<and> lease_live now x" for x
    using active_leases_mem [OF cs_wfD(3) [OF wf], of x now] a by simp
  have E: "x \<in> set (get_expired_leases s1) \<longleftrightarrow> get_lease s1 (l_id x) = Some x \<and> l_status x = Expired" for x
    using lease_values_mem [OF cs_wfD(3) [OF wf1], of x] by (simp add: get_expired_leases_def)
  have loop: "get_lease (snd (revoke_all_for_node now nid s)) k =
     (if \<exists>l \<in> set (A @ get_expired_leases s1). l_id l = k \<and> l_node_id l = nid
      then map_option revoked (get_lease s1 k) else get_lease s1 k)"
    using revoke_loop_at [of now nid "A @ get_expired_leases s1" "[]" s1 k]
    by (simp add: revoke_all_for_node_def a)
  show ?thesis
  proof (cases "get_lease s k")
    case None
    with loop s1 show ?thesis by simp
  next
    case (Some l)
    have id: "l_id l = k" using Some leases_wfD(4) [OF cs_wfD(3) [OF wf]] by (simp add: get_lease_def)
    have "(\<exists>x \<in> set (A @ get_expired_leases s1). l_id x = k \<and> l_node_id x = nid) \<longleftrightarrow>
        l_node_id l = nid \<and> (lease_live now l \<or> l_status (mark_due now l) = Expired)"
    proof
      assume "\<exists>x \<in> set (A @ get_expired_leases s1). l_id x = k \<and> l_node_id x = nid"
      then obtain x where x: "x \<in> set A \<or> x \<in> set (get_expired_leases s1)" "l_id x = k" "l_node_id x = nid"
        by auto
      from x(1) show "l_node_id l = nid \<and> (lease_live now l \<or> l_status (mark_due now l) = Expired)"
      proof
        assume "x \<in> set A"
        with A [of x] x(2) Some have "x = l" "lease_live now x" by simp_all
        with x(3) show ?thesis by simp
      next
        assume "x \<in> set (get_expired_leases s1)"
        with E [of x] x(2) s1 [of k] Some have "x = mark_due now l" "l_status x = Expired" by simp_all
        with x(3) show ?thesis by simp
      qed
    next
      assume r: "l_node_id l = nid \<and> (lease_live now l \<or> l_status (mark_due now l) = Expired)"
      show "\<exists>x \<in> set (A @ get_expired_leases s1). l_id x = k \<and> l_node_id x = nid"
      proof (cases "lease_live now l")
        case True
        then have "l \<in> set (A @ get_expired_leases s1)" using A [of l] Some id by simp
        with r id show ?thesis by blast
      next
        case False
        with r have "mark_due now l \<in> set (A @ get_expired_leases s1)"
          using E [of "mark_due now l"] s1 [of k] Some id by simp
        with r id show ?thesis by (metis mark_due_simps(1,3))
      qed
    qed
    moreover have "lease_live now l \<or> l_status (mark_due now l) = Expired \<longleftrightarrow> l_status l \<noteq> Revoked"
      by (cases "l_status l") (auto simp: lease_live_def mark_due_def lease_due_def)
    moreover have "revoked (mark_due now l) = revoked l" by (cases l) (simp add: revoked_def mark_due_def)
    ultimately show ?thesis using loop s1 Some by auto
  qed
qed

text \<open>The tasks of the revoked leases are returned.\<close>

lemma revoke_loop_ids:
  assumes same: "\<And>x y. x \<in> L \<Longrightarrow> y \<in> L \<Longrightarrow> l_id x = l_id y \<Longrightarrow> l_task_id x = l_task_id y"
    and "l \<in> set ls" "l_node_id l = nid" "l_id l \<notin> set seen" "get_lease s (l_id l) \<noteq> None" "set ls \<subseteq> L"
  shows "l_task_id l \<in> set (fst (revoke_loop now nid ls seen s))"
  using assms(2-)
proof (induction ls arbitrary: seen s)
  case (Cons x ls)
  show ?case
  proof (cases "l_node_id x \<noteq> nid \<or> l_id x \<in> set seen")
    case True
    then have "l \<in> set ls" using Cons.prems(1-3) by auto
    from Cons.IH [OF this Cons.prems(2-4)] Cons.prems(5) True show ?thesis by simp
  next
    case False
    obtain b s1 where r: "revoke_lease (l_id x) s = (b, s1)" by (cases "revoke_lease (l_id x) s")
    show ?thesis
    proof (cases "l_id l = l_id x")
      case True
      then have "b" using lt.rv_found [OF r] Cons.prems(4) by simp
      moreover have "l_task_id l = l_task_id x" using same [of l x] Cons.prems(1,5) True by auto
      ultimately show ?thesis using False r by (simp add: Let_def case_prod_beta)
    next
      case ne: False
      define s2 where "s2 = (if b then log_event now (l_task_id x) nid ''revoke_lease'' ''completed''
        (''Revoked lease '' @ l_id x @ '' for task '' @ l_task_id x) s1 else s1)"
      have at: "get_lease s2 (l_id l) \<noteq> None" using lt.rv_at [OF r, of "l_id l"] ne Cons.prems(4) by (simp add: s2_def)
      have "l \<in> set ls" using ne Cons.prems(1) by auto
      from Cons.IH [OF this Cons.prems(2) _ at, of "l_id x # seen"] Cons.prems(3,5) ne
      have "l_task_id l \<in> set (fst (revoke_loop now nid ls (l_id x # seen) s2))" by simp
      then show ?thesis using False r by (auto simp: s2_def Let_def case_prod_beta split: if_splits)
    qed
  qed
qed simp

lemma revoke_all_ids:
  assumes wf: "cs_wf s" and l: "get_lease s k = Some l" "l_node_id l = nid" "l_status l \<noteq> Revoked"
  shows "l_task_id l \<in> set (fst (revoke_all_for_node now nid s))"
proof -
  obtain A s1 where a: "get_active_leases now s = (A, s1)" by (cases "get_active_leases now s")
  have s1: "get_lease s1 j = map_option (mark_due now) (get_lease s j)" for j
    using get_active_leases_at [of now s j] a by simp
  have wf1: "cs_wf s1" using get_active_leases_wf [OF wf, of now] a by simp
  have A: "x \<in> set A \<longleftrightarrow> get_lease s (l_id x) = Some x \<and> lease_live now x" for x
    using active_leases_mem [OF cs_wfD(3) [OF wf], of x now] a by simp
  have E: "x \<in> set (get_expired_leases s1) \<longleftrightarrow> get_lease s1 (l_id x) = Some x \<and> l_status x = Expired" for x
    using lease_values_mem [OF cs_wfD(3) [OF wf1], of x] by (simp add: get_expired_leases_def)
  let ?ls = "A @ get_expired_leases s1"
  have stored: "map_option l_task_id (get_lease s (l_id x)) = Some (l_task_id x)" if "x \<in> set ?ls" for x
    using that A [of x] E [of x] s1 [of "l_id x"] by auto
  have id: "l_id l = k" using l(1) leases_wfD(4) [OF cs_wfD(3) [OF wf]] by (simp add: get_lease_def)
  have "mark_due now l \<in> set ?ls"
  proof (cases "lease_live now l")
    case True
    then show ?thesis using A [of l] l(1) id live_not_due [OF True] by simp
  next
    case False
    with l(3) have "l_status (mark_due now l) = Expired"
      by (cases "l_status l") (auto simp: lease_live_def mark_due_def lease_due_def)
    then show ?thesis using E [of "mark_due now l"] s1 [of k] l(1) id by simp
  qed
  then have "l_task_id (mark_due now l) \<in> set (fst (revoke_loop now nid ?ls [] s1))"
  proof (rule revoke_loop_ids [rotated, where L = "set ?ls"])
    show "l_node_id (mark_due now l) = nid" using l(2) by simp
    show "get_lease s1 (l_id (mark_due now l)) \<noteq> None" using s1 [of k] l(1) id by simp
    fix x y assume "x \<in> set ?ls" "y \<in> set ?ls" "l_id x = l_id y"
    with stored [of x] stored [of y] show "l_task_id x = l_task_id y" by (metis option.inject)
  qed simp_all
  then show ?thesis by (simp add: revoke_all_for_node_def a)
qed

lemma revoke_all_wf: "cs_wf s \<Longrightarrow> cs_wf (snd (revoke_all_for_node now nid s))"
  using get_active_leases_wf [of s now]
  by (auto simp: revoke_all_for_node_def Let_def revoke_loop_wf split: prod.splits)

lemma revoke_all_tables:
  "cs_tasks (snd (revoke_all_for_node now nid s)) = cs_tasks s \<and>
   cs_nodes (snd (revoke_all_for_node now nid s)) = cs_nodes s"
  using revoke_loop_tasks by (auto simp: revoke_all_for_node_def get_active_leases_eq)

section \<open>Rescheduling\<close>

text \<open>An active lease of a task.\<close>

definition leased :: "cluster_state \<Rightarrow> string \<Rightarrow> bool" where
  "leased s tid \<longleftrightarrow> (\<exists>k l. get_lease s k = Some l \<and> l_task_id l = tid \<and> l_status l = Active)"

text \<open>A task that recovery is done with: finished, or owned by an active lease.\<close>

definition handled :: "cluster_state \<Rightarrow> string \<Rightarrow> bool" where
  "handled s tid \<longleftrightarrow>
     (\<exists>t. get_task s tid = Some t \<and> (t_status t \<in> TERMINAL_TASK_STATUSES \<or> leased s tid))"

lemma leased_mono:
  "(\<And>k l. get_lease s k = Some l \<Longrightarrow> get_lease s' k = Some l) \<Longrightarrow> leased s tid \<Longrightarrow> leased s' tid"
  unfolding leased_def by blast

lemma handled_mono:
  assumes "handled s tid" "tasks_le s s'" "\<And>k l. get_lease s k = Some l \<Longrightarrow> get_lease s' k = Some l"
  shows "handled s' tid"
proof -
  from assms(1) obtain t where t: "get_task s tid = Some t"
    "t_status t \<in> TERMINAL_TASK_STATUSES \<or> leased s tid" unfolding handled_def by blast
  from assms(2) t(1) obtain u where u: "get_task s' tid = Some u" "task_le t u"
    unfolding tasks_le_def by blast
  have "t_status t \<in> TERMINAL_TASK_STATUSES \<Longrightarrow> t_status u \<in> TERMINAL_TASK_STATUSES"
    using u(2) by (auto simp: task_le_def status_le_def)
  with t(2) u(1) leased_mono [OF assms(3)] show ?thesis unfolding handled_def by blast
qed

lemma schedule_keeps_leases:
  "cs_wf s \<Longrightarrow> get_lease s k = Some l \<Longrightarrow> get_lease (snd (schedule_pending_detailed now s)) k = Some l"
  using schedule_loop_unplaced [OF _ loop_tasks_ready]
  by (simp add: schedule_pending_detailed_def)

lemma schedule_keeps_nodes: "cs_wf s \<Longrightarrow> cs_nodes (snd (schedule_pending_detailed now s)) = cs_nodes s"
  using schedule_loop_unplaced [OF _ loop_tasks_ready]
  by (simp add: schedule_pending_detailed_def)

text \<open>A ready, unassigned task after a pass: left as it was, or running under a fresh lease.\<close>

lemma schedule_outcome:
  assumes wf: "cs_wf s" and t: "get_task s tid = Some t" "t_status t = Ready"
    and s'_def: "s' = snd (schedule_pending_detailed now s)"
  shows "get_task s' tid = Some t \<or> (\<exists>v. get_task s' tid = Some v \<and> t_status v = Running \<and> leased s' tid)"
proof (cases "online_nodes s = []")
  case True
  then show ?thesis using t by (simp add: s'_def schedule_pending_detailed_def)
next
  case False
  let ?L = "schedule_loop now (online_nodes s) (lane_nodes s) (ready_tasks now s)
      (active_counts (dict_values (cs_tasks s))) s"
  have s': "s' = snd ?L" using False by (simp add: s'_def schedule_pending_detailed_def)
  note R = loop_tasks_ready [OF wf, of now]
  have rdy: "\<forall>u \<in> set (ready_tasks now s). t_status u = Ready" using ready_tasks_ready by blast
  show ?thesis
  proof (cases "tid \<in> as_task_id ` set (fst ?L)")
    case True
    then obtain a where a: "a \<in> set (fst ?L)" "as_task_id a = tid" by auto
    from schedule_loop_placed_ok [OF wf R rdy] a(1)
    have "placed_ok now (online_nodes s) (lane_nodes s) (ready_tasks now s) s' a" unfolding s' by blast
    then obtain u n l where u: "a = mk_assignment u n"
      "get_task s' (t_id u) = Some (touch now (u\<lparr>t_status := Running, t_assigned_to := Some (n_id n)\<rparr>))"
      "get_lease s' (l_id l) = Some l" "l_task_id l = t_id u" "l_status l = Active"
      by (rule placed_okE)
    with a(2) have "t_id u = tid" by (simp add: mk_assignment_def)
    with u show ?thesis unfolding leased_def by (auto simp: touch_def)
  next
    case unplaced: False
    with schedule_loop_unplaced [OF wf R] t(1) show ?thesis unfolding s' by auto
  qed
qed

text \<open>Leases made by a pass belong to online nodes.\<close>

lemma schedule_new_leases:
  assumes wf: "cs_wf s" and l: "get_lease (snd (schedule_pending_detailed now s)) k = Some l"
  shows "get_lease s k = Some l \<or> (\<exists>n \<in> set (online_nodes s). l_node_id l = n_id n)"
proof -
  let ?ns = "online_nodes s"
  let ?P = "\<lambda>(acc :: assignment list) (ts :: task list) (cnt :: counts) s'.
     \<forall>k l. get_lease s' k = Some l \<longrightarrow> get_lease s k = Some l \<or> (\<exists>n \<in> set ?ns. l_node_id l = n_id n)"
  have "\<exists>cnt'. ?P ([] @ fst (schedule_loop now ?ns lns R cnt s)) [] cnt' (snd (schedule_loop now ?ns lns R cnt s))"
    for lns R cnt
  proof (rule schedule_loop_rule [where P = ?P])
    fix acc t ts cnt s' n p
    assume P: "?P acc (t # ts) cnt s'"
      and c: "choose_pinned (cs_fair_scheduler s') (t_requires t) ?ns cnt (lane_pin lns t) = (Some n, p)"
    from affinity.pick_sound [OF c] have "n \<in> set ?ns" by blast
    then show "?P (acc @ [mk_assignment t n]) ts (bump (n_id n) cnt) (assign_task now t n p s')"
      using P assign_task_lease_new by blast
  qed auto
  then show ?thesis using l by (auto simp: schedule_pending_detailed_def split: if_splits)
qed

lemma set_failed:
  assumes "get_task s tid = Some t" "t_status t \<notin> TERMINAL_TASK_STATUSES"
  shows "\<exists>u. get_task (snd (set_task_status now tid Failed fr s)) tid = Some u \<and> t_status u = Failed"
proof (cases rule: set_task_status_cases [of now tid Failed fr s])
  case rejected
  with assms show ?thesis by blast
next
  case (accepted u fr')
  then show ?thesis by (auto simp: touch_def)
qed

lemma set_task_status_frame [simp, frame]:
  "get_lease (snd (set_task_status now tid st fr s)) k = get_lease s k"
  "cs_nodes (snd (set_task_status now tid st fr s)) = cs_nodes s"
  by (simp_all add: set_task_status_def get_lease_def Let_def split: option.splits)

lemma unassign_task_frame [simp, frame]:
  "get_lease (snd (unassign_task now tid s)) k = get_lease s k"
  "cs_nodes (snd (unassign_task now tid s)) = cs_nodes s"
  by (simp_all add: unassign_task_def get_lease_def split: option.splits)

lemma log_event_forward: "forward s (log_event now t n a st m s)"
  by (rule forward_frame) simp_all

lemma fail_orphan_forward: "forward s (fail_orphan now tid s)"
  unfolding fail_orphan_def by (blast intro: forward_trans set_task_status_forward log_event_forward)

lemma fail_orphan_frame [simp, frame]:
  "get_lease (fail_orphan now tid s) k = get_lease s k" "cs_nodes (fail_orphan now tid s) = cs_nodes s"
  by (simp_all add: fail_orphan_def)

lemma fail_orphan_handled:
  assumes "get_task s tid = Some t" "t_status t \<notin> TERMINAL_TASK_STATUSES"
  shows "handled (fail_orphan now tid s) tid"
  using set_failed [OF assms] by (fastforce simp: handled_def fail_orphan_def)

text \<open>
  The three ends of one orphan: skipped, rescheduled, or failed. In each the state moves forward
  and the leases there were are kept.
\<close>

lemma reschedule_one_cases:
  obtains (gone) "get_task s tid = None" "reschedule_one now tid s = (False, s)"
  | (skipped) t where "get_task s tid = Some t"
      "t_status t \<in> TERMINAL_TASK_STATUSES \<or> get_lease_by_task s tid \<noteq> None"
      "reschedule_one now tid s = (False, s)"
  | (moved) t s1 s2 v a where "get_task s tid = Some t" "unassign_task now tid s = (True, s1)"
      "s2 = snd (schedule_pending_detailed now s1)" "get_task s2 tid = Some v"
      "t_assigned_to v = Some a" "a \<noteq> []"
      "reschedule_one now tid s =
         (True, log_event now tid [] ''reschedule'' ''completed'' (''Rescheduled to node '' @ a) s2)"
  | (failed) t s1 s2 where "get_task s tid = Some t" "unassign_task now tid s = (True, s1)"
      "s2 = snd (schedule_pending_detailed now s1)" "reschedule_one now tid s = (False, fail_orphan now tid s2)"
proof (cases "get_task s tid")
  case None
  then show thesis by (intro gone) (simp_all add: reschedule_one_def)
next
  case t: (Some t)
  obtain b s1 where u: "unassign_task now tid s = (b, s1)" by (cases "unassign_task now tid s")
  show thesis
  proof (cases b)
    case False
    then have "s1 = s" "t_status t \<in> TERMINAL_TASK_STATUSES \<or> get_lease_by_task s tid \<noteq> None"
      using u t by (auto simp: unassign_task_def split: if_splits)
    with u t False show thesis by (intro skipped [of t]) (simp_all add: reschedule_one_def)
  next
    case b: True
    obtain n s2 where n: "schedule_pending now s1 = (n, s2)" by (cases "schedule_pending now s1")
    then have s2: "s2 = snd (schedule_pending_detailed now s1)" by (metis schedule_pending_snd snd_conv)
    consider v a where "get_task s2 tid = Some v" "t_assigned_to v = Some a" "a \<noteq> []" "0 < n"
      | "reschedule_one now tid s = (False, fail_orphan now tid s2)"
    proof (cases "0 < n \<and> (\<exists>v a. get_task s2 tid = Some v \<and> t_assigned_to v = Some a \<and> a \<noteq> [])")
      case True
      then show ?thesis using that(1) by blast
    next
      case False
      then have "reschedule_one now tid s = (False, fail_orphan now tid s2)"
        using u t b n by (auto simp: reschedule_one_def split: option.splits)
      then show ?thesis by (rule that(2))
    qed
    then show thesis
    proof cases
      case (1 v a)
      with u t b n show thesis by (intro moved [OF t _ s2]) (simp_all add: reschedule_one_def)
    next
      case 2
      with u t b s2 show thesis by (intro failed) simp_all
    qed
  qed
qed

lemma unassigned_task:
  "unassign_task now tid s = (True, s1) \<Longrightarrow>
   \<exists>t. get_task s1 tid = Some t \<and> t_status t = Ready \<and> t_assigned_to t = None"
  by (auto simp: unassign_task_def touch_def split: option.splits if_splits)

text \<open>Everything rescheduling keeps, in one statement.\<close>

definition keeps :: "cluster_state \<Rightarrow> cluster_state \<Rightarrow> bool" where
  "keeps s s' \<longleftrightarrow> cs_wf s' \<and> forward s s' \<and> cs_nodes s' = cs_nodes s \<and>
     (\<forall>k l. get_lease s k = Some l \<longrightarrow> get_lease s' k = Some l) \<and>
     (\<forall>k l. get_lease s' k = Some l \<longrightarrow> get_lease s k = Some l \<or> (\<exists>n \<in> set (online_nodes s). l_node_id l = n_id n))"

lemma keeps_refl: "cs_wf s \<Longrightarrow> keeps s s"
  by (simp add: keeps_def)

lemma online_nodes_cong: "cs_nodes s' = cs_nodes s \<Longrightarrow> online_nodes s' = online_nodes s"
  by (simp add: online_nodes_def)

lemma keeps_trans: "keeps a b \<Longrightarrow> keeps b c \<Longrightarrow> keeps a c"
  unfolding keeps_def using online_nodes_cong [of b a] forward_trans [of a b c] by metis

lemma keeps_same_leases:
  "cs_wf s' \<Longrightarrow> forward s s' \<Longrightarrow> cs_nodes s' = cs_nodes s \<Longrightarrow> (\<And>k. get_lease s' k = get_lease s k) \<Longrightarrow> keeps s s'"
  by (simp add: keeps_def)

lemma keeps_schedule: "cs_wf s \<Longrightarrow> keeps s (snd (schedule_pending_detailed now s))"
  unfolding keeps_def
  using schedule_pending_detailed_wf schedule_pending_detailed_forward schedule_keeps_nodes
    schedule_keeps_leases schedule_new_leases by blast

lemma keeps_unassign: "cs_wf s \<Longrightarrow> keeps s (snd (unassign_task now tid s))"
  by (rule keeps_same_leases) (simp_all add: task_setters_wf task_ops_forward)

lemma keeps_fail: "cs_wf s \<Longrightarrow> keeps s (fail_orphan now tid s)"
  by (rule keeps_same_leases) (simp_all add: fail_orphan_wf fail_orphan_forward)

lemma keeps_log: "cs_wf s \<Longrightarrow> keeps s (log_event now t n a st m s)"
  by (rule keeps_same_leases) (simp_all add: log_event_wf log_event_forward)

lemma keepsD: "keeps s s' \<Longrightarrow> cs_wf s'" "keeps s s' \<Longrightarrow> handled s tid \<Longrightarrow> handled s' tid"
  using handled_mono unfolding keeps_def forward_def by blast+

lemma reschedule_one_keeps: "cs_wf s \<Longrightarrow> keeps s (snd (reschedule_one now tid s))"
proof (cases rule: reschedule_one_cases [of s tid now])
  case (moved t s1 s2 v a)
  assume "cs_wf s"
  from keeps_unassign [OF this, of now tid] moved(2) have k1: "keeps s s1" by simp
  then have "keeps s1 s2" using keeps_schedule keepsD(1) moved(3) by blast
  with k1 have k2: "keeps s s2" by (rule keeps_trans)
  from keeps_trans [OF this keeps_log [OF keepsD(1) [OF this]]] show ?thesis unfolding moved(7) by simp
next
  case (failed t s1 s2)
  assume "cs_wf s"
  from keeps_unassign [OF this, of now tid] failed(2) have k1: "keeps s s1" by simp
  then have "keeps s1 s2" using keeps_schedule keepsD(1) failed(3) by blast
  with k1 have k2: "keeps s s2" by (rule keeps_trans)
  from keeps_trans [OF this keeps_fail [OF keepsD(1) [OF this]]] show ?thesis unfolding failed(4) by simp
qed (simp_all add: keeps_refl)

lemma reschedule_one_handled:
  assumes wf: "cs_wf s" and t: "get_task s tid \<noteq> None"
  shows "handled (snd (reschedule_one now tid s)) tid"
proof (cases rule: reschedule_one_cases [of s tid now])
  case gone
  with t show ?thesis by simp
next
  case (skipped t)
  then show ?thesis using get_lease_by_task_Some [OF cs_wfD(3) [OF wf]]
    unfolding handled_def leased_def by fastforce
next
  case (moved t s1 s2 v a)
  from keeps_unassign [OF wf, of now tid] moved(2) have wf1: "cs_wf s1" using keepsD(1) by simp
  from unassigned_task [OF moved(2)] obtain u where u: "get_task s1 tid = Some u" "t_status u = Ready"
    "t_assigned_to u = None" by blast
  from schedule_outcome [OF wf1 u(1,2) moved(3)] u(3) moved(4,5) have "leased s2 tid" by auto
  then show ?thesis using moved(4) unfolding moved(7) by (auto simp: handled_def leased_def)
next
  case (failed t s1 s2)
  from keeps_unassign [OF wf, of now tid] failed(2) have wf1: "cs_wf s1" using keepsD(1) by simp
  from unassigned_task [OF failed(2)] obtain u where u: "get_task s1 tid = Some u" "t_status u = Ready" by blast
  from schedule_outcome [OF wf1 u failed(3)] u(2)
  obtain v where "get_task s2 tid = Some v" "t_status v \<notin> TERMINAL_TASK_STATUSES" by auto
  then show ?thesis unfolding failed(4) snd_conv by (rule fail_orphan_handled)
qed

lemma reschedule_orphaned_keeps: "cs_wf s \<Longrightarrow> keeps s (snd (reschedule_orphaned now tids s))"
proof (induction tids arbitrary: s)
  case (Cons tid tids)
  have "keeps s (snd (reschedule_one now tid s))" by (rule reschedule_one_keeps [OF Cons.prems])
  with Cons.IH [OF keepsD(1) [OF this]] show ?case
    by (auto simp: Let_def split: prod.splits intro: keeps_trans)
qed (simp add: keeps_refl)

lemma reschedule_orphaned_handled:
  "cs_wf s \<Longrightarrow> \<forall>tid \<in> set tids. get_task s tid \<noteq> None \<Longrightarrow>
   \<forall>tid \<in> set tids. handled (snd (reschedule_orphaned now tids s)) tid"
proof (induction tids arbitrary: s)
  case (Cons tid tids)
  obtain b s1 where r: "reschedule_one now tid s = (b, s1)" by (cases "reschedule_one now tid s")
  have k: "keeps s s1" using reschedule_one_keeps [OF Cons.prems(1), of now tid] r by simp
  have k2: "keeps s1 (snd (reschedule_orphaned now tids s1))"
    by (rule reschedule_orphaned_keeps [OF keepsD(1) [OF k]])
  have h: "handled s1 tid" using reschedule_one_handled [OF Cons.prems(1), of tid now] Cons.prems(2) r by simp
  have "\<forall>t \<in> set tids. get_task s1 t \<noteq> None"
    using k Cons.prems(2) unfolding keeps_def forward_def tasks_le_def by fastforce
  from Cons.IH [OF keepsD(1) [OF k] this] keepsD(2) [OF k2 h]
  show ?case using r by (simp add: Let_def case_prod_beta)
qed simp

lemma orphan_handled:
  assumes "cs_wf s" "tid \<in> set tids" "get_task s tid = Some t"
  shows "handled (snd (reschedule_orphaned now tids s)) tid"
  using assms
proof (induction tids arbitrary: s t)
  case (Cons x tids)
  obtain b s1 where r: "reschedule_one now x s = (b, s1)" by (cases "reschedule_one now x s")
  have k: "keeps s s1" using reschedule_one_keeps [OF Cons.prems(1), of now x] r by simp
  have k2: "keeps s1 (snd (reschedule_orphaned now tids s1))"
    by (rule reschedule_orphaned_keeps [OF keepsD(1) [OF k]])
  have split: "snd (reschedule_orphaned now (x # tids) s) = snd (reschedule_orphaned now tids s1)"
    using r by (simp add: Let_def case_prod_beta)
  show ?case
  proof (cases "x = tid")
    case True
    with Cons.prems(3) reschedule_one_handled [OF Cons.prems(1), of x now] r have "handled s1 tid" by simp
    from keepsD(2) [OF k2 this] show ?thesis unfolding split .
  next
    case False
    with Cons.prems(2) have "tid \<in> set tids" by simp
    moreover from k Cons.prems(3) obtain u where "get_task s1 tid = Some u"
      unfolding keeps_def forward_def tasks_le_def by blast
    ultimately show ?thesis unfolding split by (rule Cons.IH [OF keepsD(1) [OF k]])
  qed
qed simp

end
