(* ===== verification/RecoveryProps.thy ===== *)
theory RecoveryProps
  imports Demo Recovery
begin

text \<open>
  Properties of the recovery pipeline: what revocation does to every lease, that a recovered node
  owns nothing and its tasks are finished or owned again, the summary it returns, and the
  detector's queue.
\<close>

section \<open>Helpers\<close>

lemma reschedule_orphaned_le: "fst (reschedule_orphaned now tids s) \<le> length tids"
proof (induction tids arbitrary: s)
  case (Cons tid tids)
  obtain b s1 where r: "reschedule_one now tid s = (b, s1)" by (cases "reschedule_one now tid s")
  with Cons.IH [of s1] show ?case by (simp add: Let_def case_prod_beta)
qed simp

lemma revoke_all_forward: "cs_wf s \<Longrightarrow> forward s (snd (revoke_all_for_node now nid s))"
proof -
  assume wf: "cs_wf s"
  have "leases_le s (snd (revoke_all_for_node now nid s))"
    by (auto simp: leases_le_def revoke_all_at [OF wf] lease_le_def revoked_def mark_due_def lease_due_def)
  moreover have "cs_sync_version (snd (revoke_loop now nid ls seen s)) = cs_sync_version s" for ls seen s
  proof (induction now nid ls seen s rule: revoke_loop.induct)
    case (2 now nid l ls seen s)
    obtain b s1 where r: "revoke_lease (l_id l) s = (b, s1)" by (cases "revoke_lease (l_id l) s")
    then have "cs_sync_version s1 = cs_sync_version s" by (auto simp: revoke_lease_def split: option.splits)
    with 2 r show ?case by (auto simp: Let_def split: prod.splits)
  qed simp
  ultimately show ?thesis
    using revoke_all_tables [of now nid s]
    by (simp add: forward_def tasks_le_cong nodes_le_cong revoke_all_for_node_def get_active_leases_eq)
qed

text \<open>The state after a recovery, without the log entry it ends with.\<close>

lemma full_recovery_state:
  "snd (full_recovery now nid s) = log_event now [] nid ''full_recovery''
     (rs_recovery_status (fst (full_recovery now nid s))) (rs_message (fst (full_recovery now nid s)))
     (snd (reschedule_orphaned now (fst (revoke_all_for_node now nid s)) (snd (revoke_all_for_node now nid s))))"
  by (auto simp: full_recovery_def Let_def split: prod.splits)

section \<open>Revocation and recovery\<close>

text \<open>\<open>revoke_all_for_node\<close> revokes every lease of the node that was not revoked, live or
  expired; of the other leases it only marks those that are due as expired; it changes no task and no
  node, and it returns the task of every lease it revoked.\<close>

theorem revoke_all_exact:
  assumes wf: "cs_wf s" and r: "revoke_all_for_node now nid s = (tids, s')"
  shows "(\<forall>k. get_lease s' k = (case get_lease s k of None \<Rightarrow> None
      | Some l \<Rightarrow> Some (if l_node_id l = nid \<and> l_status l \<noteq> Revoked then l\<lparr>l_status := Revoked\<rparr>
          else if l_status l = Active \<and> l_expires_at l \<le> now then l\<lparr>l_status := Expired\<rparr> else l))) \<and>
    (\<forall>k l. get_lease s k = Some l \<longrightarrow> l_node_id l = nid \<longrightarrow> l_status l \<noteq> Revoked \<longrightarrow> l_task_id l \<in> set tids) \<and>
    cs_tasks s' = cs_tasks s \<and> cs_nodes s' = cs_nodes s"
  using revoke_all_at [OF wf, of now nid] revoke_all_ids [OF wf, of _ _ nid now] revoke_all_tables [of now nid s] r
  by (simp add: revoked_def mark_due_def lease_due_def split: option.split)

theorem revoke_all_exact_witness:
  "''t1'' \<in> set (fst (revoke_all_for_node 30 ''n1'' demo2)) \<and>
   cs_tasks (snd (revoke_all_for_node 30 ''n1'' demo2)) = cs_tasks demo2"
proof -
  have "map_option l_node_id (get_lease_by_task demo2 ''t1'') = Some ''n1''" by code_simp
  then obtain l where l: "get_lease_by_task demo2 ''t1'' = Some l" "l_node_id l = ''n1''" by auto
  from get_lease_by_task_Some [OF cs_wfD(3) [OF demo_wf(3)] l(1)]
  have lt: "get_lease demo2 (l_id l) = Some l" "l_task_id l = ''t1''" "l_status l \<noteq> Revoked" by simp_all
  obtain tids s' where r: "revoke_all_for_node 30 ''n1'' demo2 = (tids, s')" by (cases "revoke_all_for_node 30 ''n1'' demo2")
  from revoke_all_exact [OF demo_wf(3) r] lt l(2) have "''t1'' \<in> set tids" "cs_tasks s' = cs_tasks demo2" by metis+
  with r show ?thesis by simp
qed

text \<open>C15: After the recovery of a node that is not online, every lease of the node is revoked, and
  every task one of its leases was for is finished or owned by an active lease of another node; no
  task, lease or version ever moves backwards.\<close>

theorem full_recovery_complete:
  assumes wf: "cs_wf s" and off: "\<And>n. get_node s nid = Some n \<Longrightarrow> n_status n \<noteq> Online"
  shows "(\<forall>k l. get_lease (snd (full_recovery now nid s)) k = Some l \<longrightarrow> l_node_id l = nid \<longrightarrow> l_status l = Revoked) \<and>
    (\<forall>k l t. get_lease s k = Some l \<longrightarrow> l_node_id l = nid \<longrightarrow> l_status l \<noteq> Revoked \<longrightarrow> get_task s (l_task_id l) = Some t \<longrightarrow>
       (\<exists>u. get_task (snd (full_recovery now nid s)) (l_task_id l) = Some u \<and>
          (t_status u \<in> TERMINAL_TASK_STATUSES \<or>
           (\<exists>j l'. get_lease (snd (full_recovery now nid s)) j = Some l' \<and> l_task_id l' = l_task_id l \<and>
              l_status l' = Active \<and> l_node_id l' \<noteq> nid)))) \<and>
    cs_wf (snd (full_recovery now nid s)) \<and> forward s (snd (full_recovery now nid s))"
    (is "?leases \<and> ?tasks \<and> ?wf \<and> ?fwd")
proof -
  obtain tids s1 where r: "revoke_all_for_node now nid s = (tids, s1)" by (cases "revoke_all_for_node now nid s")
  let ?s2 = "snd (reschedule_orphaned now tids s1)" and ?s' = "snd (full_recovery now nid s)"
  have wf1: "cs_wf s1" using revoke_all_wf [OF wf, of now nid] r by simp
  have tab: "cs_tasks s1 = cs_tasks s" "cs_nodes s1 = cs_nodes s" using revoke_all_tables [of now nid s] r by simp_all
  have s': "get_lease ?s' k = get_lease ?s2 k" "get_task ?s' k = get_task ?s2 k" for k
    using full_recovery_state [of now nid s] r by simp_all
  have k: "keeps s1 ?s2" by (rule reschedule_orphaned_keeps [OF wf1])
  have "cs_wf ?s'" "forward s ?s'"
  proof -
    have f: "forward s s1" using revoke_all_forward [OF wf, of now nid] r by simp
    have "forward ?s2 ?s'" "cs_wf ?s2 \<Longrightarrow> cs_wf ?s'"
      unfolding full_recovery_state r by (simp_all add: log_event_forward log_event_wf)
    with f k show "cs_wf ?s'" "forward s ?s'" unfolding keeps_def by (blast intro: forward_trans)+
  qed
  moreover have rev1: "l_status l = Revoked" if "get_lease s1 j = Some l" "l_node_id l = nid" for j l
    using that revoke_all_at [OF wf, of now nid j] r
    by (auto simp: revoked_def mark_due_def lease_due_def split: option.splits if_splits)
  have own: "n_id n \<noteq> nid" if "n \<in> set (online_nodes s1)" for n
  proof
    assume "n_id n = nid"
    moreover have "n \<in> set (dict_values (cs_nodes s))" "n_status n = Online"
      using that tab(2) by (auto simp: online_nodes_def)
    moreover have "nodes_wf s" by (rule cs_wfD(1) [OF wf])
    ultimately have "get_node s nid = Some n"
      unfolding nodes_wf_def get_node_def by (metis dict_value_get)
    with off \<open>n_status n = Online\<close> show False by blast
  qed
  have L: ?leases
  proof (intro allI impI)
    fix j l assume "get_lease ?s' j = Some l" "l_node_id l = nid"
    then have "get_lease ?s2 j = Some l" by (simp add: s')
    then have "get_lease s1 j = Some l \<or> (\<exists>n \<in> set (online_nodes s1). l_node_id l = n_id n)"
      using k unfolding keeps_def by blast
    with own \<open>l_node_id l = nid\<close> rev1 show "l_status l = Revoked" by metis
  qed
  moreover have ?tasks
  proof (intro allI impI)
    fix j l t assume l: "get_lease s j = Some l" "l_node_id l = nid" "l_status l \<noteq> Revoked" "get_task s (l_task_id l) = Some t"
    show "\<exists>u. get_task ?s' (l_task_id l) = Some u \<and> (t_status u \<in> TERMINAL_TASK_STATUSES \<or>
        (\<exists>j l'. get_lease ?s' j = Some l' \<and> l_task_id l' = l_task_id l \<and> l_status l' = Active \<and> l_node_id l' \<noteq> nid))"
    proof (cases "\<exists>u. get_task ?s' (l_task_id l) = Some u \<and> t_status u \<in> TERMINAL_TASK_STATUSES")
      case False
      have "get_task s1 (l_task_id l) = Some t" using l(4) tab(1) by (simp add: get_task_def)
      have mem: "l_task_id l \<in> set tids" using revoke_all_ids [OF wf l(1-3), of now] r by simp
      have "handled ?s2 (l_task_id l)" by (rule orphan_handled [OF wf1 mem \<open>get_task s1 _ = Some t\<close>])
      with False s' L show ?thesis unfolding handled_def leased_def by (metis lease_status.distinct(3))
    qed auto
  qed
  ultimately show ?thesis by blast
qed

theorem full_recovery_complete_witness:
  "\<exists>k l. get_lease (snd (full_recovery 30 ''n1'' demo_off)) k = Some l \<and> l_node_id l = ''n1'' \<and> l_status l = Revoked"
proof -
  have "map_option n_status (get_node demo_off ''n1'') = Some Offline" by code_simp
  then have "n_status n \<noteq> Online" if "get_node demo_off ''n1'' = Some n" for n using that by simp
  note rec = full_recovery_complete [OF demo_off_wf this, where now = 30]
  have "map_option l_node_id (get_lease_by_task demo_off ''t1'') = Some ''n1''" by code_simp
  then obtain l where l: "get_lease_by_task demo_off ''t1'' = Some l" "l_node_id l = ''n1''" by auto
  then have "get_lease demo_off (l_id l) = Some l" using get_lease_by_task_Some [OF cs_wfD(3) [OF demo_off_wf]] by blast
  with rec obtain l' where "get_lease (snd (full_recovery 30 ''n1'' demo_off)) (l_id l) = Some l'" "l_node_id l' = ''n1''"
    using l(2) unfolding forward_def leases_le_def lease_le_def by metis
  with rec show ?thesis by blast
qed

text \<open>The summary of a recovery is consistent: no more tasks are rescheduled than leases were
  revoked, the status is \<open>completed\<close> exactly when the two numbers agree, and the manager's totals
  grow by exactly these numbers.\<close>

theorem recovery_summary_consistent:
  assumes "trigger_recovery now nid m s = (r, m', s')"
  shows "rs_rescheduled r \<le> rs_revoked r \<and>
    (rs_recovery_status r = ''completed'' \<longleftrightarrow> rs_rescheduled r = rs_revoked r) \<and>
    (rs_recovery_status r = ''completed'' \<or> rs_recovery_status r = ''partial'') \<and>
    rm_total_recoveries m' = rm_total_recoveries m + 1 \<and>
    rm_total_revoked m' = rm_total_revoked m + rs_revoked r \<and>
    rm_total_rescheduled m' = rm_total_rescheduled m + rs_rescheduled r"
proof -
  obtain tids s1 where rv: "revoke_all_for_node now nid s = (tids, s1)" by (cases "revoke_all_for_node now nid s")
  obtain n s2 where rs: "reschedule_orphaned now tids s1 = (n, s2)" by (cases "reschedule_orphaned now tids s1")
  with reschedule_orphaned_le [of now tids s1] have "n \<le> length tids" by simp
  with assms rv rs show ?thesis
    by (auto simp: trigger_recovery_def full_recovery_def Let_def split: if_splits)
qed

theorem recovery_summary_consistent_witness:
  "rs_recovery_status (fst (trigger_recovery 30 ''n1'' rm_init demo_off)) = ''partial'' \<and>
   rs_rescheduled (fst (trigger_recovery 30 ''n1'' rm_init demo_off)) < rs_revoked (fst (trigger_recovery 30 ''n1'' rm_init demo_off))"
proof -
  obtain r m' s' where t: "trigger_recovery 30 ''n1'' rm_init demo_off = (r, m', s')" by (metis prod_cases3)
  have "rs_recovery_status (fst (trigger_recovery 30 ''n1'' rm_init demo_off)) = ''partial''" by code_simp
  with recovery_summary_consistent [OF t] t show ?thesis by auto
qed

section \<open>The detector's queue\<close>

text \<open>Offline notices are handled in the order they came, each exactly once, and a stopped
  detector ends after the notices already queued: running the detector once for each queued notice
  recovers the nodes one after the other.\<close>

theorem detector_fifo:
  "(\<forall>m s. rm_event_queue m = map Some nids @ None # q \<longrightarrow>
     ((\<lambda>(b, m, s). detector_step now m s) ^^ length nids) (b0, m, s) =
       ((if nids = [] then b0 else True), m\<lparr>rm_event_queue := None # q\<rparr>,
        fold (\<lambda>nid. handle_offline now nid) nids s)) \<and>
   fst (detector_step now (m0\<lparr>rm_event_queue := None # q\<rparr>) s0) = False"
proof -
  have "((\<lambda>(b, m, s). detector_step now m s) ^^ length nids) (b0, m, s) =
       ((if nids = [] then b0 else True), m\<lparr>rm_event_queue := None # q\<rparr>,
        fold (\<lambda>nid. handle_offline now nid) nids s)"
    if "rm_event_queue m = map Some nids @ None # q" for m s b0
    using that
  proof (induction nids arbitrary: m s b0)
    case (Cons nid nids)
    then show ?case using Cons.IH [of "m\<lparr>rm_event_queue := map Some nids @ None # q\<rparr>" True "handle_offline now nid s"]
      by (simp add: funpow_swap1 detector_step_def split: if_splits)
  qed simp
  then show ?thesis by (simp add: detector_step_def)
qed

theorem detector_fifo_witness:
  "((\<lambda>(b, m, s). detector_step 30 m s) ^^ 1) (True, rm_init\<lparr>rm_event_queue := [Some ''n1'', None]\<rparr>, demo_off) =
     (True, rm_init\<lparr>rm_event_queue := [None]\<rparr>, handle_offline 30 ''n1'' demo_off)"
  using detector_fifo [of "[''n1'']" "[]" 30 True] by simp

end
