(* ===== verification/Health.thy ===== *)
theory Health
  imports Models
begin

text \<open>
  The fitness rules of a node: the free-disk floor (\<^verbatim>\<open>core/disk_preflight.py\<close>), the worker's
  claim gate (\<^verbatim>\<open>core/disk_gate.py\<close>) and the health self-report
  (\<^verbatim>\<open>core/health_selfreport.py\<close>). The operating-system readings (free bytes of a volume,
  processor times) are arguments.
\<close>

section \<open>Disk floor\<close>

definition DEFAULT_MIN_FREE_DISK_GB :: rat where
  "DEFAULT_MIN_FREE_DISK_GB = 5"

text \<open>\<open>usage\<close> is \<open>shutil.disk_usage(path).free\<close>, \<open>None\<close> where the call raises.\<close>

definition free_disk_gb :: "(string \<Rightarrow> int option) \<Rightarrow> string \<Rightarrow> rat option" where
  "free_disk_gb usage path =
     (if path = [] then None else map_option (\<lambda>b. of_int b / 1024 ^ 3) (usage path))"

definition is_below_floor :: "rat option \<Rightarrow> rat \<Rightarrow> bool" where
  "is_below_floor free_gb min_free_gb =
     (case free_gb of None \<Rightarrow> False
      | Some f \<Rightarrow> if min_free_gb \<le> 0 then False else f < min_free_gb)"

definition effective_min_free_gb :: "rat option \<Rightarrow> rat" where
  "effective_min_free_gb config_value =
     (case config_value of None \<Rightarrow> DEFAULT_MIN_FREE_DISK_GB | Some v \<Rightarrow> v)"

definition disk_reason :: "rat option \<Rightarrow> rat \<Rightarrow> string" where
  "disk_reason free_gb min_free_gb =
     (if \<not> is_below_floor free_gb min_free_gb then []
      else case free_gb of None \<Rightarrow> []
        | Some f \<Rightarrow> ''disk below floor: '' @ fmt_fixed 2 f @ '' GB free < '' @ fmt_fixed 1 min_free_gb
             @ '' GB (node.min_free_disk_gb, shared/claude-plugins#892)'')"

text \<open>The value reported at join and heartbeat: three decimals, absent when unreadable.\<close>

definition disk_free_gb :: "(string \<Rightarrow> int option) \<Rightarrow> string \<Rightarrow> rat option" where
  "disk_free_gb usage path =
     map_option (\<lambda>g. of_int (round_half_even (g * 1000)) / 1000) (free_disk_gb usage path)"

definition disk_gate_blocks :: "(string \<Rightarrow> int option) \<Rightarrow> string \<Rightarrow> rat option \<Rightarrow> bool" where
  "disk_gate_blocks usage working_dir min_free_gb =
     (let floor = effective_min_free_gb min_free_gb;
          free = free_disk_gb usage (if working_dir = [] then ''.'' else working_dir)
      in is_below_floor free floor)"

lemma disk_reason_empty_iff: "disk_reason f m = [] \<longleftrightarrow> \<not> is_below_floor f m"
  by (auto simp: disk_reason_def is_below_floor_def split: option.splits)

text \<open>An unreadable volume and a disabled floor never block a claim.\<close>

lemma disk_gate_open:
  "usage (if w = [] then ''.'' else w) = None \<or> (\<exists>m. cfg = Some m \<and> m \<le> 0)
   \<Longrightarrow> \<not> disk_gate_blocks usage w cfg"
  by (auto simp: disk_gate_blocks_def Let_def is_below_floor_def free_disk_gb_def
        effective_min_free_gb_def split: option.splits)

section \<open>Health self-report\<close>

text \<open>
  \<open>CpuSampler._busy_from_samples\<close>: the busy fraction between two (idle, kernel, user) readings,
  kernel time including idle time.
\<close>

definition busy_from_samples :: "(int \<times> int \<times> int) option \<Rightarrow> int \<times> int \<times> int \<Rightarrow> rat option" where
  "busy_from_samples prev cur =
     (case prev of None \<Rightarrow> None
      | Some (i0, k0, u0) \<Rightarrow>
          (case cur of (i1, k1, u1) \<Rightarrow>
             let d_idle = i1 - i0; d_sys = k1 - k0; d_user = u1 - u0; total = d_sys + d_user
             in if total \<le> 0 \<or> d_idle < 0 then None
                else let busy = of_int (total - d_idle) / of_int total
                     in Some (max 0 (min 1 busy))))"

text \<open>
  \<open>CpuSampler.measure\<close> on Windows: the reading replaces the remembered one, and a failed
  reading changes nothing.
\<close>

definition measure_win ::
  "(int \<times> int \<times> int) option \<Rightarrow> (int \<times> int \<times> int) option \<Rightarrow> rat option \<times> (int \<times> int \<times> int) option" where
  "measure_win prev raw =
     (case raw of None \<Rightarrow> (None, prev) | Some r \<Rightarrow> (busy_from_samples prev r, Some r))"

definition is_cpu_saturated :: "rat option \<Rightarrow> rat \<Rightarrow> bool" where
  "is_cpu_saturated cpu max_cpu_load =
     (case cpu of None \<Rightarrow> False | Some c \<Rightarrow> if max_cpu_load \<le> 0 then False else max_cpu_load \<le> c)"

definition is_lane_backlog :: "int option \<Rightarrow> int \<Rightarrow> bool" where
  "is_lane_backlog lane_count max_concurrent =
     (case lane_count of None \<Rightarrow> False
      | Some l \<Rightarrow> if max_concurrent \<le> 0 then False else max_concurrent < l)"

definition health_reason :: "rat option \<Rightarrow> rat \<Rightarrow> int option \<Rightarrow> int \<Rightarrow> bool option \<Rightarrow> string" where
  "health_reason cpu max_cpu_load lane_count max_concurrent duplicate_executor =
     join ''; ''
       ((if duplicate_executor = Some True
         then [''duplicate executor: another live executor shares this node id (#899) '' @ em_dash
               @ '' lanes are being spawned twice'']
         else [])
        @ (if is_lane_backlog lane_count max_concurrent
           then [''lane backlog: '' @ show_int (case lane_count of None \<Rightarrow> 0 | Some l \<Rightarrow> l)
                 @ '' live lanes > declared max_concurrent '' @ show_int max_concurrent
                 @ '' (#879 duplicate-executor fingerprint)'']
           else [])
        @ (if is_cpu_saturated cpu max_cpu_load
           then [''cpu saturated: '' @ fmt_fixed 2 (case cpu of None \<Rightarrow> 0 | Some c \<Rightarrow> c)
                 @ '' >= node.max_cpu_load '' @ fmt_fixed 2 max_cpu_load @ '' (#879)'']
           else []))"

text \<open>The two reasons joined the way \<open>NodeManager\<close> does at join and at heartbeat.\<close>

definition join_reasons :: "string \<Rightarrow> string \<Rightarrow> string" where
  "join_reasons reason h_reason =
     (if h_reason \<noteq> [] then (if reason \<noteq> [] then reason @ ''; '' @ h_reason else h_reason) else reason)"

lemma health_reason_empty_iff:
  "health_reason cpu m l c d = [] \<longleftrightarrow>
   d \<noteq> Some True \<and> \<not> is_lane_backlog l c \<and> \<not> is_cpu_saturated cpu m"
  by (simp add: health_reason_def join_eq_Nil)

lemma join_reasons_empty_iff [simp]: "join_reasons a b = [] \<longleftrightarrow> a = [] \<and> b = []"
  by (simp add: join_reasons_def)

lemma busy_from_samples_range: "busy_from_samples p c = Some b \<Longrightarrow> 0 \<le> b \<and> b \<le> 1"
  by (auto simp: busy_from_samples_def Let_def split: option.splits prod.splits if_splits)

text \<open>Fields an older worker does not send never degrade it.\<close>

lemma absent_report_healthy: "health_reason None m None c None = []"
  by (simp add: health_reason_empty_iff is_lane_backlog_def is_cpu_saturated_def)

end
