(* ===== verification/Watchdog.thy ===== *)
theory Watchdog
  imports Health
begin

text \<open>
  The heartbeat watchdog of \<^verbatim>\<open>core/watchdog.py\<close>. It is written against the interface
  \<open>WatchdogRegistry\<close>: a list of heartbeat nodes and an update of one node's status. The check is
  a function of these two operations; what the registry promises is the locale
  \<open>watchdog_registry\<close>, in which the effect of a whole check is derived.
\<close>

record hb_node =
  hb_id :: string
  hb_last_heartbeat :: time
  hb_status :: string
  hb_disk_free_gb :: "rat option"
  hb_cpu_load_pct :: "rat option"
  hb_lane_count :: "int option"
  hb_max_concurrent :: int
  hb_duplicate_executor :: "bool option"

record watchdog =
  wd_check_interval :: rat
  wd_degraded_after :: rat
  wd_offline_after :: rat
  wd_min_free_disk_gb :: rat
  wd_max_cpu_load :: rat
  wd_running :: bool

definition wd_init :: "rat \<Rightarrow> rat \<Rightarrow> rat \<Rightarrow> rat option \<Rightarrow> rat option \<Rightarrow> watchdog" where
  "wd_init check_interval degraded_after offline_after min_free max_cpu =
     \<lparr>wd_check_interval = check_interval, wd_degraded_after = degraded_after,
      wd_offline_after = offline_after,
      wd_min_free_disk_gb = (case min_free of None \<Rightarrow> 0 | Some v \<Rightarrow> v),
      wd_max_cpu_load = (case max_cpu of None \<Rightarrow> 0 | Some v \<Rightarrow> v), wd_running = False\<rparr>"

definition wd_start :: "watchdog \<Rightarrow> watchdog" where
  "wd_start w = (if wd_running w then w else w\<lparr>wd_running := True\<rparr>)"

definition wd_stop :: "watchdog \<Rightarrow> watchdog" where
  "wd_stop w = (if \<not> wd_running w then w else w\<lparr>wd_running := False\<rparr>)"

definition update_intervals :: "rat \<Rightarrow> rat \<Rightarrow> rat \<Rightarrow> watchdog \<Rightarrow> watchdog" where
  "update_intervals check_interval degraded_after offline_after w =
     w\<lparr>wd_check_interval := check_interval, wd_degraded_after := degraded_after,
       wd_offline_after := offline_after\<rparr>"

definition set_min_free_disk_gb :: "rat option \<Rightarrow> watchdog \<Rightarrow> watchdog" where
  "set_min_free_disk_gb v w = w\<lparr>wd_min_free_disk_gb := (case v of None \<Rightarrow> 0 | Some x \<Rightarrow> x)\<rparr>"

text \<open>The status a check gives a node, and the reason recorded with it.\<close>

definition classify :: "watchdog \<Rightarrow> time \<Rightarrow> hb_node \<Rightarrow> string \<times> string" where
  "classify w now n =
     (let elapsed = total_seconds (now - hb_last_heartbeat n)
      in if wd_offline_after w \<le> elapsed then (''offline'', [])
         else if wd_degraded_after w \<le> elapsed
              then (''degraded'', ''heartbeat stale '' @ fmt_fixed 0 elapsed @ ''s'')
         else if is_below_floor (hb_disk_free_gb n) (wd_min_free_disk_gb w)
              then (''degraded'',
                    ''disk below floor: ''
                    @ fmt_fixed 2 (case hb_disk_free_gb n of None \<Rightarrow> 0 | Some f \<Rightarrow> f) @ '' GB free < ''
                    @ fmt_fixed 1 (wd_min_free_disk_gb w)
                    @ '' GB (node.min_free_disk_gb, shared/claude-plugins#892)'')
         else let h_reason = health_reason (hb_cpu_load_pct n) (wd_max_cpu_load w) (hb_lane_count n)
                               (hb_max_concurrent n) (hb_duplicate_executor n)
              in if h_reason \<noteq> [] then (''degraded'', h_reason) else (''online'', []))"

fun wd_loop ::
  "(string \<Rightarrow> string \<Rightarrow> string \<Rightarrow> 's \<Rightarrow> 's) \<Rightarrow> watchdog \<Rightarrow> time \<Rightarrow> hb_node list \<Rightarrow> 's \<Rightarrow>
   (string \<times> string) list \<times> 's" where
  "wd_loop update w now [] s = ([], s)"
| "wd_loop update w now (n # ns) s =
     (let (new_status, reason) = classify w now n
      in if new_status \<noteq> hb_status n
         then let (evs, s') = wd_loop update w now ns (update (hb_id n) new_status reason s)
              in ((hb_id n, new_status) # evs, s')
         else wd_loop update w now ns s)"

definition wd_check ::
  "('s \<Rightarrow> hb_node list) \<Rightarrow> (string \<Rightarrow> string \<Rightarrow> string \<Rightarrow> 's \<Rightarrow> 's) \<Rightarrow> watchdog \<Rightarrow> time \<Rightarrow> 's \<Rightarrow>
   (string \<times> string) list \<times> 's" where
  "wd_check nodes update w now s = wd_loop update w now (nodes s) s"

lemma classify_range: "fst (classify w now n) \<in> {''online'', ''degraded'', ''offline''}"
  by (simp add: classify_def Let_def)

lemma classify_status [simp]: "classify w now (n\<lparr>hb_status := st\<rparr>) = classify w now n"
  by (simp add: classify_def Let_def)

text \<open>Online exactly when the heartbeat is fresh and every rule is silent.\<close>

lemma classify_online_iff:
  assumes "wd_degraded_after w \<le> wd_offline_after w"
  shows "fst (classify w now n) = ''online'' \<longleftrightarrow>
     total_seconds (now - hb_last_heartbeat n) < wd_degraded_after w \<and>
     \<not> is_below_floor (hb_disk_free_gb n) (wd_min_free_disk_gb w) \<and>
     hb_duplicate_executor n \<noteq> Some True \<and> \<not> is_lane_backlog (hb_lane_count n) (hb_max_concurrent n) \<and>
     \<not> is_cpu_saturated (hb_cpu_load_pct n) (wd_max_cpu_load w)"
  using assms health_reason_empty_iff
  by (auto simp: classify_def Let_def not_le split: if_splits)

section \<open>The registry interface\<close>

locale watchdog_registry =
  fixes nodes :: "'s \<Rightarrow> hb_node list"
    and update :: "string \<Rightarrow> string \<Rightarrow> string \<Rightarrow> 's \<Rightarrow> 's"
    and ok :: "'s \<Rightarrow> bool"
  assumes nodes_update: "ok s \<Longrightarrow> st \<in> {''online'', ''degraded'', ''offline''} \<Longrightarrow>
      nodes (update nid st r s) = map (\<lambda>n. if hb_id n = nid then n\<lparr>hb_status := st\<rparr> else n) (nodes s)"
    and update_ok: "ok s \<Longrightarrow> ok (update nid st r s)"
    and nodes_distinct: "ok s \<Longrightarrow> distinct (map hb_id (nodes s))"
begin

text \<open>The state of the registry while the loop is at \<open>todo\<close>: the nodes before it are classified.\<close>

lemma loop_nodes:
  assumes "ok s" "nodes s = done @ todo" "distinct (map hb_id (done @ todo))"
  shows "ok (snd (wd_loop update w now todo s)) \<and>
     nodes (snd (wd_loop update w now todo s)) =
       done @ map (\<lambda>n. n\<lparr>hb_status := fst (classify w now n)\<rparr>) todo"
  using assms
proof (induction todo arbitrary: "done" s)
  case (Cons n todo)
  obtain st r where c: "classify w now n = (st, r)" by (cases "classify w now n")
  with classify_range [of w now n] have st: "st \<in> {''online'', ''degraded'', ''offline''}" by simp
  let ?n = "n\<lparr>hb_status := st\<rparr>"
  let ?s = "if st \<noteq> hb_status n then update (hb_id n) st r s else s"
  have "nodes (update (hb_id n) st r s) = (done @ [?n]) @ todo"
  proof -
    have "\<forall>m \<in> set (done @ todo). hb_id m \<noteq> hb_id n"
      using Cons.prems(3) by (auto simp: image_iff)
    then have "map (\<lambda>m. if hb_id m = hb_id n then m\<lparr>hb_status := st\<rparr> else m) (done @ n # todo) =
        done @ ?n # todo" by (auto intro: map_idI)
    with nodes_update [OF Cons.prems(1) st] Cons.prems(2) show ?thesis by simp
  qed
  then have nodes: "nodes ?s = (done @ [?n]) @ todo" using Cons.prems(2) by auto
  have ok: "ok ?s" using Cons.prems(1) update_ok by auto
  have "snd (wd_loop update w now (n # todo) s) = snd (wd_loop update w now todo ?s)"
    using c by (simp add: Let_def case_prod_beta)
  with Cons.IH [OF ok nodes] Cons.prems(3) c show ?case by simp
qed simp

lemma check_nodes:
  assumes "ok s"
  shows "ok (snd (wd_check nodes update w now s)) \<and>
     nodes (snd (wd_check nodes update w now s)) =
       map (\<lambda>n. n\<lparr>hb_status := fst (classify w now n)\<rparr>) (nodes s)"
  using loop_nodes [OF assms, of "[]" "nodes s"] nodes_distinct [OF assms] by (simp add: wd_check_def)

lemma loop_settled:
  "\<forall>n \<in> set ns. hb_status n = fst (classify w now n) \<Longrightarrow> wd_loop update w now ns s = ([], s)"
  by (induction ns) (simp_all add: Let_def case_prod_beta)

text \<open>A second check at the same time reports nothing and changes nothing.\<close>

lemma check_twice:
  assumes "ok s"
  shows "wd_check nodes update w now (snd (wd_check nodes update w now s)) =
     ([], snd (wd_check nodes update w now s))"
  using check_nodes [OF assms, of w now] by (simp add: wd_check_def loop_settled)

end

lemma wd_loop_events:
  "fst (wd_loop update w now ns s) =
   map (\<lambda>n. (hb_id n, fst (classify w now n))) (filter (\<lambda>n. fst (classify w now n) \<noteq> hb_status n) ns)"
  by (induction ns arbitrary: s) (simp_all add: Let_def case_prod_beta)

end
