(* ===== verification/NodeManager.thy ===== *)
theory NodeManager
  imports Watchdog ClusterSteps
begin

text \<open>
  The node manager of \<^verbatim>\<open>core/node_manager.py\<close> over \<open>ClusterState\<close>: join with the
  duplicate-executor gate, leave, heartbeats, capabilities, status changes, and the registry it
  hands to the watchdog. Listeners are handles; the events sent to them are recorded in
  \<open>nm_events\<close> in order (the store's timeline ignores events).
\<close>

record watchdog_config =
  wc_check_interval :: rat
  wc_degraded_after :: rat
  wc_offline_after :: rat

definition default_watchdog_config :: watchdog_config where
  "default_watchdog_config = \<lparr>wc_check_interval = 5, wc_degraded_after = 15, wc_offline_after = 30\<rparr>"

record node_event =
  ne_node_id :: string
  ne_event_type :: string
  ne_timestamp :: time
  ne_detail :: string

record node_manager =
  nm_watchdog_cfg :: watchdog_config
  nm_min_free_disk_gb :: rat
  nm_max_cpu_load :: rat
  nm_listeners :: "nat list"
  nm_heartbeat_running :: bool
  nm_local_node_id :: "string option"
  nm_cap_cache :: "(string, string list) dict"
  nm_events :: "node_event list"

datatype join_error =
  NodeIdRequired
| DuplicateInstanceJoin string string string rat rat

definition nm_init :: "watchdog_config option \<Rightarrow> rat option \<Rightarrow> rat option \<Rightarrow> node_manager" where
  "nm_init watchdog_config min_free_disk_gb max_cpu_load =
     \<lparr>nm_watchdog_cfg = (case watchdog_config of None \<Rightarrow> default_watchdog_config | Some c \<Rightarrow> c),
      nm_min_free_disk_gb = effective_min_free_gb min_free_disk_gb,
      nm_max_cpu_load = (case max_cpu_load of None \<Rightarrow> 0 | Some v \<Rightarrow> v),
      nm_listeners = [], nm_heartbeat_running = False, nm_local_node_id = None, nm_cap_cache = [],
      nm_events = []\<rparr>"

definition add_listener :: "nat \<Rightarrow> node_manager \<Rightarrow> node_manager" where
  "add_listener fn m = m\<lparr>nm_listeners := nm_listeners m @ [fn]\<rparr>"

definition remove_listener :: "nat \<Rightarrow> node_manager \<Rightarrow> node_manager" where
  "remove_listener fn m = m\<lparr>nm_listeners := filter (\<lambda>l. l \<noteq> fn) (nm_listeners m)\<rparr>"

definition emit :: "time \<Rightarrow> string \<Rightarrow> string \<Rightarrow> string \<Rightarrow> node_manager \<Rightarrow> node_manager" where
  "emit now node_id event_type detail m =
     m\<lparr>nm_events := nm_events m @
        [\<lparr>ne_node_id = node_id, ne_event_type = event_type, ne_timestamp = now, ne_detail = detail\<rparr>]\<rparr>"

text \<open>\<open>repr\<close> of a list of strings.\<close>

definition list_repr :: "string list \<Rightarrow> string" where
  "list_repr xs = ''['' @ join '', '' (map py_repr xs) @ '']''"

section \<open>Heartbeat\<close>

definition clamp01 :: "rat \<Rightarrow> rat" where
  "clamp01 x = max 0 (min 1 x)"

definition send_heartbeat ::
  "time \<Rightarrow> string \<Rightarrow> rat \<Rightarrow> rat option \<Rightarrow> rat option \<Rightarrow> int option \<Rightarrow> bool option \<Rightarrow>
   node_manager \<Rightarrow> cluster_state \<Rightarrow> node_manager \<times> cluster_state" where
  "send_heartbeat now node_id ld disk cpu lanes dup m s =
     (case get_node s node_id of
        None \<Rightarrow> (m, s)
      | Some n \<Rightarrow>
          let l = clamp01 ld;
              reason = join_reasons (disk_reason disk (nm_min_free_disk_gb m))
                         (health_reason cpu (nm_max_cpu_load m) lanes (n_max_concurrent n) dup);
              s1 = update_heartbeat now node_id l disk reason cpu lanes dup s;
              detail = ''load='' @ fmt_fixed 2 l @
                 (case disk of None \<Rightarrow> [] | Some d \<Rightarrow> '' disk_free_gb='' @ fmt_fixed 2 d)
          in (emit now node_id ''heartbeat'' detail m, s1))"

section \<open>Join and leave\<close>

text \<open>The duplicate-instance gate: the age of the holder's heartbeat when it refuses.\<close>

definition duplicate_gate :: "time \<Rightarrow> string \<Rightarrow> node_manager \<Rightarrow> node \<Rightarrow> rat option" where
  "duplicate_gate now instance_token m existing =
     (if instance_token \<noteq> [] \<and> n_instance_token existing \<noteq> [] \<and> instance_token \<noteq> n_instance_token existing
      then let age = total_seconds (now - n_last_heartbeat existing)
           in if age < wc_offline_after (nm_watchdog_cfg m) then Some age else None
      else None)"

definition rejoin ::
  "time \<Rightarrow> string \<Rightarrow> string list \<Rightarrow> int \<Rightarrow> rat option \<Rightarrow> string \<Rightarrow> rat option \<Rightarrow> int option \<Rightarrow> bool option \<Rightarrow>
   node_manager \<Rightarrow> cluster_state \<Rightarrow> node_manager \<times> cluster_state" where
  "rejoin now node_id caps max_concurrent disk token cpu lanes dup m s =
     (let (m1, s1) = send_heartbeat now node_id 0 disk cpu lanes dup m s;
          s2 = (if caps \<noteq> [] then update_capabilities node_id caps s1 else s1);
          s3 = (if max_concurrent \<noteq> 0 then update_max_concurrent node_id max_concurrent s2 else s2);
          s4 = (if token \<noteq> [] then update_instance_token node_id token s3 else s3)
      in (emit now node_id ''joined'' (''re-join, caps='' @ list_repr caps) m1, s4))"

definition new_node ::
  "time \<Rightarrow> string \<Rightarrow> string \<Rightarrow> string list \<Rightarrow> rat \<Rightarrow> int \<Rightarrow> rat option \<Rightarrow> string \<Rightarrow> rat option \<Rightarrow>
   int option \<Rightarrow> bool option \<Rightarrow> node_manager \<Rightarrow> node" where
  "new_node now node_id name caps ld max_concurrent disk token cpu lanes dup m =
     (let reason = join_reasons (disk_reason disk (nm_min_free_disk_gb m))
                     (health_reason cpu (nm_max_cpu_load m) lanes (max 0 max_concurrent) dup)
      in \<lparr>n_id = node_id, n_name = (if name \<noteq> [] then name else node_id), n_capabilities = caps,
          n_status = (if reason \<noteq> [] then Degraded else Online), n_last_heartbeat = now, n_load = ld,
          n_max_concurrent = max 0 max_concurrent, n_drained = False, n_disk_free_gb = disk,
          n_status_reason = reason, n_instance_token = token, n_cpu_load_pct = cpu,
          n_lane_count = lanes, n_duplicate_executor = dup\<rparr>)"

definition join_node ::
  "time \<Rightarrow> string \<Rightarrow> string \<Rightarrow> string list \<Rightarrow> rat \<Rightarrow> int \<Rightarrow> rat option \<Rightarrow> string \<Rightarrow> rat option \<Rightarrow>
   int option \<Rightarrow> bool option \<Rightarrow> node_manager \<Rightarrow> cluster_state \<Rightarrow>
   join_error + node option \<times> node_manager \<times> cluster_state" where
  "join_node now node_id name caps ld max_concurrent disk token cpu lanes dup m s =
     (if node_id = [] then Inl NodeIdRequired
      else case get_node s node_id of
        Some existing \<Rightarrow>
          (case duplicate_gate now token m existing of
             Some age \<Rightarrow> Inl (DuplicateInstanceJoin node_id (n_instance_token existing) token age
                               (wc_offline_after (nm_watchdog_cfg m)))
           | None \<Rightarrow>
               let (m1, s1) = rejoin now node_id caps max_concurrent disk token cpu lanes dup m s
               in Inr (get_node s1 node_id, m1, s1))
      | None \<Rightarrow>
          let n = new_node now node_id name caps ld max_concurrent disk token cpu lanes dup m;
              s1 = register_node n s;
              m1 = m\<lparr>nm_cap_cache := dict_set node_id caps (nm_cap_cache m)\<rparr>
          in Inr (get_node s1 node_id,
                  emit now node_id ''joined'' (''name='' @ name @ '', caps='' @ list_repr caps) m1, s1))"

definition leave :: "time \<Rightarrow> string \<Rightarrow> node_manager \<Rightarrow> cluster_state \<Rightarrow> bool \<times> node_manager \<times> cluster_state" where
  "leave now node_id m s =
     (case get_node s node_id of
        None \<Rightarrow> (False, m, s)
      | Some _ \<Rightarrow>
          (True, emit now node_id ''left'' ''node left cluster''
                   (m\<lparr>nm_cap_cache := dict_del node_id (nm_cap_cache m)\<rparr>),
           set_node_status node_id Offline [] s))"

section \<open>Heartbeat sender\<close>

definition start_heartbeat_sender :: "string \<Rightarrow> node_manager \<Rightarrow> node_manager" where
  "start_heartbeat_sender node_id m =
     (if nm_heartbeat_running m then m
      else m\<lparr>nm_local_node_id := Some node_id, nm_heartbeat_running := True\<rparr>)"

definition stop_heartbeat_sender :: "node_manager \<Rightarrow> node_manager" where
  "stop_heartbeat_sender m =
     (if \<not> nm_heartbeat_running m then m
      else m\<lparr>nm_heartbeat_running := False, nm_local_node_id := None\<rparr>)"

text \<open>One turn of the sender's loop; \<open>ld\<close> is what \<open>load_fn\<close> returns (0 without one).\<close>

definition sender_turn :: "time \<Rightarrow> rat \<Rightarrow> node_manager \<Rightarrow> cluster_state \<Rightarrow> node_manager \<times> cluster_state" where
  "sender_turn now ld m s =
     (case nm_local_node_id m of
        None \<Rightarrow> (m, s)
      | Some node_id \<Rightarrow> send_heartbeat now node_id ld None None None None m s)"

section \<open>Capabilities\<close>

definition nm_update_capabilities ::
  "time \<Rightarrow> string \<Rightarrow> string list \<Rightarrow> node_manager \<Rightarrow> cluster_state \<Rightarrow> bool \<times> node_manager \<times> cluster_state" where
  "nm_update_capabilities now node_id capabilities m s =
     (case get_node s node_id of
        None \<Rightarrow> (False, m, s)
      | Some _ \<Rightarrow>
          let old_caps = dict_get_or (nm_cap_cache m) node_id [];
              new_caps = sort capabilities
          in if sort old_caps = new_caps then (True, m, s)
             else let s1 = update_capabilities node_id new_caps s;
                      m1 = m\<lparr>nm_cap_cache := dict_set node_id new_caps (nm_cap_cache m)\<rparr>;
                      added = sort (remdups (filter (\<lambda>c. c \<notin> set old_caps) new_caps));
                      removed = sort (remdups (filter (\<lambda>c. c \<notin> set new_caps) old_caps));
                      parts = (if added \<noteq> [] then [''added='' @ list_repr added] else [])
                              @ (if removed \<noteq> [] then [''removed='' @ list_repr removed] else []);
                      detail = (if parts = [] then ''reordered'' else join ''; '' parts)
                  in (True, emit now node_id ''cap_changed'' detail m1, s1))"

definition get_capabilities :: "cluster_state \<Rightarrow> string \<Rightarrow> string list" where
  "get_capabilities s node_id = (case get_node s node_id of None \<Rightarrow> [] | Some n \<Rightarrow> n_capabilities n)"

definition nodes_with_capability :: "cluster_state \<Rightarrow> string \<Rightarrow> node list" where
  "nodes_with_capability s capability =
     filter (\<lambda>n. n_status n = Online \<and> capability \<in> set (n_capabilities n)) (get_all_nodes s)"

section \<open>Status\<close>

definition arrow :: string where
  "arrow = [CHR 0xE2, CHR 0x86, CHR 0x92]"

definition set_status ::
  "time \<Rightarrow> string \<Rightarrow> node_status \<Rightarrow> string \<Rightarrow> node_manager \<Rightarrow> cluster_state \<Rightarrow> bool \<times> node_manager \<times> cluster_state" where
  "set_status now node_id status reason m s =
     (case get_node s node_id of
        None \<Rightarrow> (False, m, s)
      | Some n \<Rightarrow>
          if n_status n = status \<and> (status = Online \<or> n_status_reason n = reason) then (True, m, s)
          else (True,
                emit now node_id ''status_changed''
                  (node_status_value (n_status n) @ '' '' @ arrow @ '' '' @ node_status_value status
                   @ (if reason \<noteq> [] then '' ('' @ reason @ '')'' else [])) m,
                set_node_status node_id status reason s))"

definition get_stale_nodes :: "time \<Rightarrow> rat \<Rightarrow> node_manager \<Rightarrow> cluster_state \<Rightarrow> node list" where
  "get_stale_nodes now threshold m s =
     (let th = (if threshold \<le> 0 then wc_degraded_after (nm_watchdog_cfg m) else threshold)
      in filter (\<lambda>n. th < total_seconds (now - n_last_heartbeat n)) (get_all_nodes s))"

section \<open>Watchdog registry and summary\<close>

definition hb_of :: "node \<Rightarrow> hb_node" where
  "hb_of n =
     \<lparr>hb_id = n_id n, hb_last_heartbeat = n_last_heartbeat n,
      hb_status = node_status_value (n_status n), hb_disk_free_gb = n_disk_free_gb n,
      hb_cpu_load_pct = n_cpu_load_pct n, hb_lane_count = n_lane_count n,
      hb_max_concurrent = n_max_concurrent n, hb_duplicate_executor = n_duplicate_executor n\<rparr>"

definition reg_nodes :: "node_manager \<times> cluster_state \<Rightarrow> hb_node list" where
  "reg_nodes ms = map hb_of (get_all_nodes (snd ms))"

definition reg_update ::
  "time \<Rightarrow> string \<Rightarrow> string \<Rightarrow> string \<Rightarrow> node_manager \<times> cluster_state \<Rightarrow> node_manager \<times> cluster_state" where
  "reg_update now node_id status reason ms =
     (let ns = (case parse_node_status status of None \<Rightarrow> Offline | Some st \<Rightarrow> st)
      in snd (set_status now node_id ns reason (fst ms) (snd ms)))"

definition manager_watchdog :: "node_manager \<Rightarrow> watchdog" where
  "manager_watchdog m =
     wd_init (wc_check_interval (nm_watchdog_cfg m)) (wc_degraded_after (nm_watchdog_cfg m))
       (wc_offline_after (nm_watchdog_cfg m)) (Some (nm_min_free_disk_gb m)) (Some (nm_max_cpu_load m))"

text \<open>One check of the watchdog the manager starts.\<close>

definition watchdog_check ::
  "time \<Rightarrow> node_manager \<times> cluster_state \<Rightarrow> (string \<times> string) list \<times> node_manager \<times> cluster_state" where
  "watchdog_check now ms = wd_check reg_nodes (reg_update now) (manager_watchdog (fst ms)) now ms"

record nm_summary =
  su_total :: nat
  su_online :: nat
  su_degraded :: nat
  su_offline :: nat
  su_heartbeat_running :: bool
  su_capabilities :: "(string, string list) dict"

definition nm_summary_of :: "node_manager \<Rightarrow> cluster_state \<Rightarrow> nm_summary" where
  "nm_summary_of m s =
     (let ns = get_all_nodes s; cnt = (\<lambda>st. length (filter (\<lambda>n. n_status n = st) ns))
      in \<lparr>su_total = length ns, su_online = cnt Online, su_degraded = cnt Degraded,
          su_offline = cnt Offline, su_heartbeat_running = nm_heartbeat_running m,
          su_capabilities = map (\<lambda>n. (n_id n, n_capabilities n)) ns\<rparr>)"

section \<open>Joining keeps the registry\<close>

lemma modify_node_present: "get_node (modify_node k f s) nid \<noteq> None \<longleftrightarrow> get_node s nid \<noteq> None"
  by (auto simp: modify_node_def get_node_def split: option.splits)

lemma node_ops_present [simp]:
  "get_node (update_capabilities k caps s) nid \<noteq> None \<longleftrightarrow> get_node s nid \<noteq> None"
  "get_node (update_max_concurrent k mc s) nid \<noteq> None \<longleftrightarrow> get_node s nid \<noteq> None"
  "get_node (update_instance_token k tok s) nid \<noteq> None \<longleftrightarrow> get_node s nid \<noteq> None"
  "get_node (update_heartbeat now k ld d r c l e s) nid \<noteq> None \<longleftrightarrow> get_node s nid \<noteq> None"
  unfolding update_max_concurrent_def update_instance_token_def update_heartbeat_def modify_node_present
  by (auto simp: update_capabilities_def modify_node_def log_callback_def get_node_def split: option.splits)

lemma send_heartbeat_keeps:
  "cs_wf s \<Longrightarrow> cs_wf (snd (send_heartbeat now k ld disk cpu lanes dup m s)) \<and>
   (get_node (snd (send_heartbeat now k ld disk cpu lanes dup m s)) nid \<noteq> None \<longleftrightarrow> get_node s nid \<noteq> None)"
  by (cases "get_node s k") (simp_all add: send_heartbeat_def Let_def update_heartbeat_wf del: not_None_eq)

lemma rejoin_keeps:
  assumes "cs_wf s" "get_node s nid = Some old"
  shows "cs_wf (snd (rejoin now nid caps mc disk tok cpu lanes dup m s)) \<and>
    get_node (snd (rejoin now nid caps mc disk tok cpu lanes dup m s)) nid \<noteq> None"
proof -
  obtain m1 s1 where h: "send_heartbeat now nid 0 disk cpu lanes dup m s = (m1, s1)"
    by (cases "send_heartbeat now nid 0 disk cpu lanes dup m s")
  with send_heartbeat_keeps [OF assms(1), of now nid 0 disk cpu lanes dup m nid] assms(2)
  have "cs_wf s1" "get_node s1 nid \<noteq> None" by simp_all
  then show ?thesis
    by (simp add: rejoin_def h Let_def update_capabilities_wf node_setters_wf del: not_None_eq)
qed

section \<open>The registry keeps its contract\<close>

lemma dict_value_key:
  assumes "dict_ok d" "\<forall>k v. map_of d k = Some v \<longrightarrow> f v = k" "x \<in> set (dict_values d)"
  shows "map_of d (f x) = Some x"
proof -
  from dict_value_get [OF assms(1,3)] obtain k where "map_of d k = Some x" by blast
  with assms(2) show ?thesis by simp
qed

lemma dict_values_set:
  assumes "dict_ok d" "\<forall>k v. map_of d k = Some v \<longrightarrow> f v = k" "map_of d k = Some w"
  shows "dict_values (dict_set k v d) = map (\<lambda>x. if f x = k then v else x) (dict_values d)"
  using assms
proof (induction d)
  case (Cons p d)
  obtain k' v' where p: "p = (k', v')" by (cases p)
  have inner: "\<forall>j v. map_of d j = Some v \<longrightarrow> f v = j"
  proof (intro allI impI)
    fix j x assume j: "map_of d j = Some x"
    then have "j \<in> fst ` set d" by (force dest: map_of_SomeD)
    with Cons.prems(1) p have "j \<noteq> k'" by auto
    with j p Cons.prems(2) show "f x = j" by simp
  qed
  have fv: "f v' = k'" using Cons.prems(2) p by (simp split: if_splits)
  show ?case
  proof (cases "k' = k")
    case True
    have "\<forall>x \<in> snd ` set d. f x \<noteq> k"
    proof
      fix x assume "x \<in> snd ` set d"
      moreover have "dict_ok d" using Cons.prems(1) by simp
      ultimately have "map_of d (f x) = Some x" using dict_value_key [OF _ inner, of x] by simp
      then have "f x \<in> fst ` set d" by (rule map_of_SomeD [THEN rev_image_eqI]) simp
      moreover have "k \<notin> fst ` set d" using Cons.prems(1) p True by simp
      ultimately show "f x \<noteq> k" by blast
    qed
    then have "map (\<lambda>x. if f x = k then v else x) (dict_values d) = dict_values d"
      by (intro map_idI) auto
    with True fv p show ?thesis by simp
  next
    case False
    with Cons.prems p have "map_of d k = Some w" "dict_ok d" by auto
    with Cons.IH inner fv False p show ?thesis by simp
  qed
qed simp

lemma set_node_status_values:
  assumes "nodes_wf s"
  shows "dict_values (cs_nodes (set_node_status nid st r s)) =
     map (\<lambda>n. if n_id n = nid
              then n\<lparr>n_status := st, n_status_reason := (if st \<noteq> Online then r else [])\<rparr> else n)
       (dict_values (cs_nodes s))"
proof (cases "dict_get (cs_nodes s) nid")
  case None
  then have "\<forall>n \<in> set (dict_values (cs_nodes s)). n_id n \<noteq> nid"
    using assms dict_value_key [of "cs_nodes s" n_id] unfolding nodes_wf_def by (metis option.simps(3))
  then have "map (\<lambda>n. if n_id n = nid then g n else n) (dict_values (cs_nodes s)) = dict_values (cs_nodes s)" for g
    by (intro map_idI) auto
  moreover have "set_node_status nid st r s = s" using None by (simp add: set_node_status_def modify_node_def)
  ultimately show ?thesis by (simp only:)
next
  case (Some w)
  have id: "x \<in> set (dict_values (cs_nodes s)) \<Longrightarrow> n_id x = nid \<Longrightarrow> x = w" for x
    using assms Some dict_value_key [of "cs_nodes s" n_id x] unfolding nodes_wf_def by simp
  have "dict_values (cs_nodes (set_node_status nid st r s)) =
     map (\<lambda>x. if n_id x = nid then w\<lparr>n_status := st, n_status_reason := (if st \<noteq> Online then r else [])\<rparr> else x)
       (dict_values (cs_nodes s))"
    using dict_values_set [of "cs_nodes s" n_id nid w] assms Some
    by (simp add: set_node_status_def modify_node_def nodes_wf_def)
  also have "\<dots> = map (\<lambda>n. if n_id n = nid
              then n\<lparr>n_status := st, n_status_reason := (if st \<noteq> Online then r else [])\<rparr> else n)
       (dict_values (cs_nodes s))"
    using id by (intro map_cong) auto
  finally show ?thesis .
qed

lemma hb_of_status: "hb_of (n\<lparr>n_status := st, n_status_reason := r\<rparr>) = (hb_of n)\<lparr>hb_status := node_status_value st\<rparr>"
  by (simp add: hb_of_def)

lemma node_unique:
  "nodes_wf s \<Longrightarrow> get_node s nid = Some n \<Longrightarrow> x \<in> set (dict_values (cs_nodes s)) \<Longrightarrow> n_id x = nid \<Longrightarrow> x = n"
  unfolding nodes_wf_def get_node_def using dict_value_key [of "cs_nodes s" n_id x] by simp

lemma reg_update_nodes:
  assumes wf: "nodes_wf (snd ms)" and st: "parse_node_status status = Some st"
  shows "reg_nodes (reg_update now nid status r ms) =
     map (\<lambda>n. if hb_id n = nid then n\<lparr>hb_status := node_status_value st\<rparr> else n) (reg_nodes ms)"
proof (cases "get_node (snd ms) nid")
  case None
  then have "\<forall>n \<in> set (get_all_nodes (snd ms)). n_id n \<noteq> nid"
    using wf dict_value_key [of "cs_nodes (snd ms)" n_id] unfolding nodes_wf_def get_node_def get_all_nodes_def
    by (metis option.simps(3))
  with None show ?thesis
    by (auto simp: reg_update_def set_status_def reg_nodes_def st hb_of_def)
next
  case (Some n)
  note uniq = node_unique [OF wf Some]
  show ?thesis
  proof (cases "n_status n = st \<and> (st = Online \<or> n_status_reason n = r)")
    case True
    then have "reg_update now nid status r ms = (fst ms, snd ms)"
      using Some by (simp add: reg_update_def set_status_def st)
    moreover have "map (\<lambda>n. if hb_id n = nid then n\<lparr>hb_status := node_status_value st\<rparr> else n) (reg_nodes ms) = reg_nodes ms"
    proof (rule map_idI)
      fix h assume "h \<in> set (reg_nodes ms)"
      then obtain x where "x \<in> set (dict_values (cs_nodes (snd ms)))" "h = hb_of x"
        by (auto simp: reg_nodes_def get_all_nodes_def)
      with uniq [of x] True show "(if hb_id h = nid then h\<lparr>hb_status := node_status_value st\<rparr> else h) = h"
        by (auto simp: hb_of_def)
    qed
    ultimately show ?thesis by simp
  next
    case False
    then have "snd (reg_update now nid status r ms) = set_node_status nid st r (snd ms)"
      using Some by (auto simp: reg_update_def set_status_def st)
    then show ?thesis
      by (simp add: reg_nodes_def get_all_nodes_def set_node_status_values [OF wf] hb_of_status)
        (simp add: hb_of_def)
  qed
qed

lemma reg_update_wf: "cs_wf (snd ms) \<Longrightarrow> cs_wf (snd (reg_update now nid status r ms))"
  by (simp add: reg_update_def set_status_def Let_def node_setters_wf split: option.splits)

interpretation registry: watchdog_registry reg_nodes "reg_update now" "\<lambda>ms. cs_wf (snd ms)" for now
proof
  fix s :: "node_manager \<times> cluster_state" and st nid r
  assume wf: "cs_wf (snd s)"
  show "distinct (map hb_id (reg_nodes s))"
    using nodes_wf_distinct [OF cs_wfD(1) [OF wf]]
    by (simp add: reg_nodes_def get_all_nodes_def hb_of_def comp_def)
  show "cs_wf (snd (reg_update now nid st r s))" by (rule reg_update_wf [OF wf])
  assume "st \<in> {''online'', ''degraded'', ''offline''}"
  then obtain ns where "parse_node_status st = Some ns" "node_status_value ns = st"
    by (auto simp: parse_node_status_def)
  with reg_update_nodes [OF cs_wfD(1) [OF wf]]
  show "reg_nodes (reg_update now nid st r s) =
      map (\<lambda>n. if hb_id n = nid then n\<lparr>hb_status := st\<rparr> else n) (reg_nodes s)" by auto
qed

end
