(* ===== verification/NodeProps.thy ===== *)
theory NodeProps
  imports Demo NodeManager
begin

text \<open>
  Properties of the node manager and of the watchdog it runs: the duplicate-executor gate, the
  status a heartbeat and a check give, drained nodes, and two places where the registry and what the
  manager believes drift apart.
\<close>

section \<open>Helpers\<close>

lemma reg_update_manager: "manager_watchdog (fst (reg_update now nid st r ms)) = manager_watchdog (fst ms)"
  by (simp add: reg_update_def set_status_def manager_watchdog_def emit_def Let_def split: option.splits)

lemma wd_loop_inv: "(\<And>nid st r s. I s \<Longrightarrow> I (update nid st r s)) \<Longrightarrow> I s \<Longrightarrow> I (snd (wd_loop update w now ns s))"
  by (induction ns arbitrary: s) (simp_all add: Let_def case_prod_beta)

lemma watchdog_check_manager: "manager_watchdog (fst (snd (watchdog_check now ms))) = manager_watchdog (fst ms)"
  unfolding watchdog_check_def wd_check_def
  using wd_loop_inv [where I = "\<lambda>x. manager_watchdog (fst x) = manager_watchdog (fst ms)" and update = "reg_update now"]
    reg_update_manager by metis

lemma hb_of_simps [simp]: "hb_id (hb_of n) = n_id n" "hb_status (hb_of n) = node_status_value (n_status n)"
  by (simp_all add: hb_of_def)

lemma watchdog_check_nodes:
  assumes "cs_wf (snd ms)"
  shows "map hb_of (get_all_nodes (snd (snd (watchdog_check now ms)))) =
     map (\<lambda>n. (hb_of n)\<lparr>hb_status := fst (classify (manager_watchdog (fst ms)) now (hb_of n))\<rparr>) (get_all_nodes (snd ms))"
  using registry.check_nodes [OF assms, of now "manager_watchdog (fst ms)" now]
  by (simp add: watchdog_check_def reg_nodes_def comp_def)

lemma node_in_table: "cs_wf s \<Longrightarrow> n \<in> set (get_all_nodes s) \<longleftrightarrow> get_node s (n_id n) = Some n"
  using cs_wfD(1) [of s] unfolding nodes_wf_def get_node_def get_all_nodes_def
  by (metis dict_get_value dict_value_get)

lemma node_id_of: "cs_wf s \<Longrightarrow> get_node s k = Some n \<Longrightarrow> n_id n = k"
  using cs_wfD(1) [of s] by (simp add: nodes_wf_def get_node_def)

lemma watchdog_check_wf: "cs_wf (snd ms) \<Longrightarrow> cs_wf (snd (snd (watchdog_check now ms)))"
  using registry.check_nodes [of ms now "manager_watchdog (fst ms)" now] by (simp add: watchdog_check_def)

text \<open>A check seen from one node.\<close>

lemma watchdog_check_node:
  assumes wf: "cs_wf s" and n: "get_node s nid = Some n"
  shows "\<exists>n'. get_node (snd (snd (watchdog_check now (m, s)))) nid = Some n' \<and>
     node_status_value (n_status n') = fst (classify (manager_watchdog m) now (hb_of n))"
proof -
  let ?s' = "snd (snd (watchdog_check now (m, s)))"
  let ?h = "(hb_of n)\<lparr>hb_status := fst (classify (manager_watchdog m) now (hb_of n))\<rparr>"
  have wf': "cs_wf ?s'" using watchdog_check_wf [of "(m, s)" now] wf by simp
  have id: "n_id n = nid" by (rule node_id_of [OF wf n])
  then have "n \<in> set (get_all_nodes s)" using node_in_table [OF wf] n by simp
  then have "?h \<in> set (map hb_of (get_all_nodes ?s'))"
    using watchdog_check_nodes [of "(m, s)" now] wf by simp
  then obtain n' where n': "n' \<in> set (get_all_nodes ?s')" "hb_of n' = ?h" by auto
  have "n_id n' = nid" using arg_cong [where f = hb_id, OF n'(2)] id by simp
  moreover have "node_status_value (n_status n') = hb_status ?h" using n'(2) by (metis hb_of_simps(2))
  ultimately show ?thesis using n'(1) node_in_table [OF wf'] by auto
qed

section \<open>Watchdog\<close>

text \<open>C37: A watchdog check gives every registered node the status its rules compute from the state
  before the check, reports exactly the nodes whose status changes, in table order, and a second
  check at the same time reports nothing and changes nothing.\<close>

theorem watchdog_check_exact:
  assumes wf: "cs_wf s" and c: "watchdog_check now (m, s) = (evs, m', s')"
  shows "map (\<lambda>n. (n_id n, node_status_value (n_status n))) (get_all_nodes s') =
      map (\<lambda>n. (n_id n, fst (classify (manager_watchdog m) now (hb_of n)))) (get_all_nodes s) \<and>
    evs = map (\<lambda>n. (n_id n, fst (classify (manager_watchdog m) now (hb_of n))))
      (filter (\<lambda>n. fst (classify (manager_watchdog m) now (hb_of n)) \<noteq> node_status_value (n_status n)) (get_all_nodes s)) \<and>
    watchdog_check now (m', s') = ([], m', s')"
proof -
  have "map (\<lambda>n. (n_id n, node_status_value (n_status n))) (get_all_nodes s') =
      map (\<lambda>h. (hb_id h, hb_status h)) (map hb_of (get_all_nodes s'))" by simp
  also have "\<dots> = map (\<lambda>n. (n_id n, fst (classify (manager_watchdog m) now (hb_of n)))) (get_all_nodes s)"
    using watchdog_check_nodes [of "(m, s)" now] wf c by simp
  finally have 1: "map (\<lambda>n. (n_id n, node_status_value (n_status n))) (get_all_nodes s') =
      map (\<lambda>n. (n_id n, fst (classify (manager_watchdog m) now (hb_of n)))) (get_all_nodes s)" .
  have 2: "evs = map (\<lambda>n. (n_id n, fst (classify (manager_watchdog m) now (hb_of n))))
      (filter (\<lambda>n. fst (classify (manager_watchdog m) now (hb_of n)) \<noteq> node_status_value (n_status n)) (get_all_nodes s))"
    using wd_loop_events [of "reg_update now" "manager_watchdog m" now "reg_nodes (m, s)" "(m, s)"] c
    by (simp add: watchdog_check_def wd_check_def reg_nodes_def filter_map comp_def)
  have "manager_watchdog m' = manager_watchdog m" using watchdog_check_manager [of now "(m, s)"] c by simp
  then have 3: "watchdog_check now (m', s') = ([], m', s')"
    using registry.check_twice [of "(m, s)" now "manager_watchdog m" now] wf c by (simp add: watchdog_check_def)
  from 1 2 3 show ?thesis by blast
qed

theorem watchdog_check_exact_witness:
  "watchdog_check (seconds 20) (snd (watchdog_check (seconds 20) (nm_init None None None, demo2))) =
     ([], snd (watchdog_check (seconds 20) (nm_init None None None, demo2)))"
proof -
  obtain evs m' s' where c: "watchdog_check (seconds 20) (nm_init None None None, demo2) = (evs, m', s')" by (metis prod_cases3)
  from watchdog_check_exact [OF demo_wf(3) c] c show ?thesis by simp
qed

text \<open>A check leaves a node online exactly when its heartbeat is younger than the degraded
  threshold and the disk, lane, processor and duplicate-executor rules are all silent; with the
  offline threshold reached it is offline whatever else holds.\<close>

theorem watchdog_status_rules:
  assumes wf: "cs_wf s" and n: "get_node s nid = Some n"
    and th: "wc_degraded_after (nm_watchdog_cfg m) \<le> wc_offline_after (nm_watchdog_cfg m)"
  shows "\<exists>n'. get_node (snd (snd (watchdog_check now (m, s)))) nid = Some n' \<and>
     (n_status n' = Online \<longleftrightarrow>
        total_seconds (now - n_last_heartbeat n) < wc_degraded_after (nm_watchdog_cfg m) \<and>
        \<not> is_below_floor (n_disk_free_gb n) (nm_min_free_disk_gb m) \<and> n_duplicate_executor n \<noteq> Some True \<and>
        \<not> is_lane_backlog (n_lane_count n) (n_max_concurrent n) \<and>
        \<not> is_cpu_saturated (n_cpu_load_pct n) (nm_max_cpu_load m)) \<and>
     (n_status n' = Offline \<longleftrightarrow>
        wc_offline_after (nm_watchdog_cfg m) \<le> total_seconds (now - n_last_heartbeat n))"
proof -
  let ?w = "manager_watchdog m"
  have w: "wd_degraded_after ?w = wc_degraded_after (nm_watchdog_cfg m)"
    "wd_offline_after ?w = wc_offline_after (nm_watchdog_cfg m)"
    "wd_min_free_disk_gb ?w = nm_min_free_disk_gb m" "wd_max_cpu_load ?w = nm_max_cpu_load m"
    by (simp_all add: manager_watchdog_def wd_init_def)
  obtain n' where n': "get_node (snd (snd (watchdog_check now (m, s)))) nid = Some n'"
    "node_status_value (n_status n') = fst (classify ?w now (hb_of n))"
    using watchdog_check_node [OF wf n] by blast
  have "n_status n' = Online \<longleftrightarrow> fst (classify ?w now (hb_of n)) = ''online''"
    "n_status n' = Offline \<longleftrightarrow> fst (classify ?w now (hb_of n)) = ''offline''"
    unfolding n'(2) [symmetric] by (cases "n_status n'"; simp)+
  moreover have "fst (classify ?w now (hb_of n)) = ''offline'' \<longleftrightarrow>
      wc_offline_after (nm_watchdog_cfg m) \<le> total_seconds (now - n_last_heartbeat n)"
    by (simp add: classify_def Let_def w hb_of_def)
  ultimately show ?thesis using n'(1) classify_online_iff [of ?w now "hb_of n"] th
    by (simp add: w hb_of_def)
qed

theorem watchdog_status_rules_witness:
  "\<exists>n'. get_node (snd (snd (watchdog_check (seconds 40) (nm_init None None None, demo2)))) ''n1'' = Some n' \<and>
     n_status n' = Offline"
proof -
  have "map_option n_last_heartbeat (get_node demo2 ''n1'') = Some 0" by code_simp
  then obtain n where n: "get_node demo2 ''n1'' = Some n" "n_last_heartbeat n = 0" by auto
  from watchdog_status_rules [OF demo_wf(3) n(1), of "nm_init None None None" "seconds 40"] n(2) show ?thesis
    by (auto simp: nm_init_def default_watchdog_config_def total_seconds_def)
qed

section \<open>Join, heartbeat, drain\<close>

text \<open>C38: A join is refused exactly when it names no node, or when the node is already registered
  under a different instance token and its heartbeat is younger than the offline threshold; an
  accepted join leaves the node registered.\<close>

theorem join_gate_exact:
  assumes wf: "cs_wf s"
  shows "(case join_node now nid nm caps ld mc disk tok cpu lanes dup m s of
      Inl e \<Rightarrow> nid = [] \<or> (\<exists>n. get_node s nid = Some n \<and> tok \<noteq> [] \<and> n_instance_token n \<noteq> [] \<and>
          tok \<noteq> n_instance_token n \<and>
          total_seconds (now - n_last_heartbeat n) < wc_offline_after (nm_watchdog_cfg m))
    | Inr (n, m', s') \<Rightarrow> nid \<noteq> [] \<and> n \<noteq> None \<and> get_node s' nid = n \<and> cs_wf s' \<and>
        (\<forall>old. get_node s nid = Some old \<longrightarrow> tok = [] \<or> n_instance_token old = [] \<or> tok = n_instance_token old \<or>
           wc_offline_after (nm_watchdog_cfg m) \<le> total_seconds (now - n_last_heartbeat old)))"
proof (cases "nid = []")
  case True
  then show ?thesis by (simp add: join_node_def)
next
  case ne: False
  show ?thesis
  proof (cases "get_node s nid")
    case None
    then show ?thesis using ne wf
      by (simp add: join_node_def Let_def new_node_def register_node_wf)
        (simp add: get_node_def register_node_def log_callback_def Let_def split: option.splits)
  next
    case (Some old)
    show ?thesis
    proof (cases "duplicate_gate now tok m old")
      case None
      obtain m1 s1 where r: "rejoin now nid caps mc disk tok cpu lanes dup m s = (m1, s1)"
        by (cases "rejoin now nid caps mc disk tok cpu lanes dup m s")
      have "get_node s1 nid \<noteq> None \<and> cs_wf s1"
        using rejoin_keeps [OF wf Some, of now caps mc disk tok cpu lanes dup m] r by simp
      then show ?thesis using ne Some None r
        by (auto simp: join_node_def duplicate_gate_def Let_def not_less split: if_splits)
    next
      case g: (Some age)
      then show ?thesis using ne Some
        by (auto simp: join_node_def duplicate_gate_def Let_def split: if_splits)
    qed
  qed
qed

theorem join_gate_exact_witness:
  "\<exists>e. join_node (seconds 5) ''n1'' [] [] 0 0 None ''other'' None None None (nm_init None None None) demo2 = Inl e \<and>
     (\<exists>n. get_node demo2 ''n1'' = Some n \<and> n_instance_token n \<noteq> ''other'')"
proof -
  have "isl (join_node (seconds 5) ''n1'' [] [] 0 0 None ''other'' None None None (nm_init None None None) demo2)" by code_simp
  then obtain e where e: "join_node (seconds 5) ''n1'' [] [] 0 0 None ''other'' None None None (nm_init None None None) demo2 = Inl e"
    by (auto simp: isl_def)
  with join_gate_exact [OF demo_wf(3), where now = "seconds 5" and nid = "''n1''" and nm = "[]" and caps = "[]" and ld = 0
      and mc = 0 and disk = None and tok = "''other''" and cpu = None and lanes = None and dup = None and m = "nm_init None None None"]
  show ?thesis by auto
qed

text \<open>A heartbeat records the time and the load clamped to the unit interval, and sets the node
  online exactly when the disk floor and every health rule are silent (degraded with the reason
  otherwise); figures it does not carry keep their last value, and no other node changes.\<close>

theorem heartbeat_spec:
  assumes n: "get_node s nid = Some n" and h: "send_heartbeat now nid ld disk cpu lanes dup m s = (m', s')"
  shows "(\<exists>n'. get_node s' nid = Some n' \<and> n_last_heartbeat n' = now \<and> 0 \<le> n_load n' \<and> n_load n' \<le> 1 \<and>
      (0 \<le> ld \<longrightarrow> ld \<le> 1 \<longrightarrow> n_load n' = ld) \<and>
      n_status n' \<noteq> Offline \<and>
      (n_status n' = Online \<longleftrightarrow> \<not> is_below_floor disk (nm_min_free_disk_gb m) \<and> dup \<noteq> Some True \<and>
         \<not> is_lane_backlog lanes (n_max_concurrent n) \<and> \<not> is_cpu_saturated cpu (nm_max_cpu_load m)) \<and>
      (n_status n' = Online \<longleftrightarrow> n_status_reason n' = []) \<and>
      (disk = None \<longrightarrow> n_disk_free_gb n' = n_disk_free_gb n) \<and> n_drained n' = n_drained n) \<and>
    (\<forall>k. k \<noteq> nid \<longrightarrow> get_node s' k = get_node s k) \<and> cs_tasks s' = cs_tasks s \<and> cs_leases s' = cs_leases s"
  using assms
  by (auto simp: send_heartbeat_def update_heartbeat_def modify_node_def get_node_def Let_def clamp01_def
      disk_reason_empty_iff health_reason_empty_iff keep_or_def)

theorem heartbeat_spec_witness:
  "\<exists>n'. get_node (snd (send_heartbeat 50 ''n1'' 3 (Some 1) None None None (nm_init None None None) demo2)) ''n1'' = Some n' \<and>
     n_status n' = Degraded \<and> n_load n' \<le> 1"
proof -
  have "get_node demo2 ''n1'' = Some (demo_node ''n1'' 1)" by code_simp
  moreover obtain m' s' where h: "send_heartbeat 50 ''n1'' 3 (Some 1) None None None (nm_init None None None) demo2 = (m', s')"
    by (cases "send_heartbeat 50 ''n1'' 3 (Some 1) None None None (nm_init None None None) demo2")
  ultimately obtain n' where n': "get_node s' ''n1'' = Some n'" "n_load n' \<le> 1" "n_status n' \<noteq> Offline"
    "n_status n' = Online \<longleftrightarrow> \<not> is_below_floor (Some 1) (nm_min_free_disk_gb (nm_init None None None)) \<and>
       (None :: bool option) \<noteq> Some True \<and> \<not> is_lane_backlog None (n_max_concurrent (demo_node ''n1'' 1)) \<and>
       \<not> is_cpu_saturated None (nm_max_cpu_load (nm_init None None None))"
    using heartbeat_spec [of demo2 "''n1''" "demo_node ''n1'' 1"] by blast
  moreover have "is_below_floor (Some 1) (nm_min_free_disk_gb (nm_init None None None))" by code_simp
  ultimately have "n_status n' = Degraded" by (cases "n_status n'") simp_all
  with n' h show ?thesis by simp
qed

text \<open>A drained node stays registered and drained through every run of operations in which no
  operator takes the mark off, re-registration and heartbeats included.\<close>

theorem drained_stays:
  assumes "cs_step\<^sup>*\<^sup>* s s'" "cs_wf s" "get_node s nid = Some n" "n_drained n"
  shows "\<exists>n'. get_node s' nid = Some n' \<and> n_drained n'"
  using node_registry.run_forward [OF assms(1-3)] assms(4) by blast

theorem drained_stays_witness:
  "\<exists>n'. get_node (register_node (demo_node ''n1'' 4) (set_drained ''n1'' True demo2)) ''n1'' = Some n' \<and> n_drained n'"
proof -
  have "map_option n_drained (get_node (set_drained ''n1'' True demo2) ''n1'') = Some True" by code_simp
  then obtain n where n: "get_node (set_drained ''n1'' True demo2) ''n1'' = Some n" "n_drained n" by auto
  have "cs_wf (set_drained ''n1'' True demo2)" by (rule node_setters_wf [OF demo_wf(3)])
  from drained_stays [OF _ this n] show ?thesis using st_register_node by blast
qed

section \<open>Where registry and manager drift apart\<close>

text \<open>A node that leaves is only marked offline: it stays registered, and while its last
  heartbeat is fresh and no rule speaks against it, the next watchdog check puts it back online.\<close>

theorem leave_is_undone:
  assumes wf: "cs_wf s" and n: "get_node s nid = Some n" and l: "leave now nid m s = (ok, m', s')"
    and th: "wc_degraded_after (nm_watchdog_cfg m) \<le> wc_offline_after (nm_watchdog_cfg m)"
    and fresh: "total_seconds (now' - n_last_heartbeat n) < wc_degraded_after (nm_watchdog_cfg m)"
    and fit: "\<not> is_below_floor (n_disk_free_gb n) (nm_min_free_disk_gb m)" "n_duplicate_executor n \<noteq> Some True"
      "\<not> is_lane_backlog (n_lane_count n) (n_max_concurrent n)" "\<not> is_cpu_saturated (n_cpu_load_pct n) (nm_max_cpu_load m)"
  shows "ok \<and> (\<exists>n1. get_node s' nid = Some n1 \<and> n_status n1 = Offline) \<and>
    (\<exists>n2. get_node (snd (snd (watchdog_check now' (m', s')))) nid = Some n2 \<and> n_status n2 = Online)"
proof -
  let ?n1 = "n\<lparr>n_status := Offline, n_status_reason := []\<rparr>"
  have s': "s' = set_node_status nid Offline [] s" "ok" and m': "nm_watchdog_cfg m' = nm_watchdog_cfg m"
    "nm_min_free_disk_gb m' = nm_min_free_disk_gb m" "nm_max_cpu_load m' = nm_max_cpu_load m"
    using l n by (auto simp: leave_def emit_def)
  have n1: "get_node s' nid = Some ?n1" using n by (simp add: s' set_node_status_def modify_node_def get_node_def)
  have "cs_wf s'" unfolding s' by (intro node_setters_wf wf)
  then obtain n2 where n2: "get_node (snd (snd (watchdog_check now' (m', s')))) nid = Some n2"
    "node_status_value (n_status n2) = fst (classify (manager_watchdog m') now' (hb_of ?n1))"
    using watchdog_check_node [OF _ n1] by blast
  have "fst (classify (manager_watchdog m') now' (hb_of ?n1)) = ''online''"
    using classify_online_iff [of "manager_watchdog m'" now' "hb_of ?n1"] th fresh fit m'
    by (simp add: manager_watchdog_def wd_init_def hb_of_def)
  then have "n_status n2 = Online" using n2(2) by (cases "n_status n2") simp_all
  with n1 n2(1) s'(2) show ?thesis by simp
qed

theorem leave_is_undone_witness:
  "\<exists>ok m' s' n2. leave (seconds 2) ''n1'' (nm_init None None None) demo2 = (ok, m', s') \<and>
     get_node (snd (snd (watchdog_check (seconds 3) (m', s')))) ''n1'' = Some n2 \<and> n_status n2 = Online"
proof -
  have n: "get_node demo2 ''n1'' = Some (demo_node ''n1'' 1)" by code_simp
  obtain ok m' s' where l: "leave (seconds 2) ''n1'' (nm_init None None None) demo2 = (ok, m', s')" by (metis prod_cases3)
  have "total_seconds (seconds 3 - n_last_heartbeat (demo_node ''n1'' 1)) <
      wc_degraded_after (nm_watchdog_cfg (nm_init None None None))"
    "wc_degraded_after (nm_watchdog_cfg (nm_init None None None)) \<le> wc_offline_after (nm_watchdog_cfg (nm_init None None None))"
    "\<not> is_below_floor (n_disk_free_gb (demo_node ''n1'' 1)) (nm_min_free_disk_gb (nm_init None None None))"
    "n_duplicate_executor (demo_node ''n1'' 1) \<noteq> Some True"
    "\<not> is_lane_backlog (n_lane_count (demo_node ''n1'' 1)) (n_max_concurrent (demo_node ''n1'' 1))"
    "\<not> is_cpu_saturated (n_cpu_load_pct (demo_node ''n1'' 1)) (nm_max_cpu_load (nm_init None None None))"
    by code_simp+
  with leave_is_undone [OF demo_wf(3) n l] l show ?thesis by blast
qed

text \<open>The capability cache goes stale: after a join with one set of capabilities and a re-join
  with another, asking for the first set again is reported as done and leaves the registry with the
  second.\<close>

theorem stale_capability_cache:
  "(case join_node 0 ''n9'' [] [''gpu''] 0 0 None [] None None None (nm_init None None None) demo0 of
      Inl _ \<Rightarrow> False
    | Inr (_, m1, s1) \<Rightarrow>
        (case join_node 1 ''n9'' [] [''code''] 0 0 None [] None None None m1 s1 of
           Inl _ \<Rightarrow> False
         | Inr (_, m2, s2) \<Rightarrow>
             (case nm_update_capabilities 2 ''n9'' [''gpu''] m2 s2 of
                (ok, m3, s3) \<Rightarrow> ok \<and> get_capabilities s3 ''n9'' = [''code''])))"
  by code_simp

end
