(* ===== verification/Sync.thy ===== *)
theory Sync
  imports ClusterSteps
begin

text \<open>
  State synchronisation between cluster nodes, \<^verbatim>\<open>sync/__init__.py\<close>: last-writer-wins
  comparison, the receiver of delta batches and of full-state snapshots, and the coordinator that
  queues and sends them. The HTTP client is a parameter: a function that says for each peer whether
  the request succeeded.
\<close>

section \<open>Last writer wins\<close>

definition should_apply :: "int \<Rightarrow> int \<Rightarrow> string \<Rightarrow> int \<Rightarrow> int \<Rightarrow> string \<Rightarrow> bool" where
  "should_apply remote_version remote_timestamp remote_sender local_version local_timestamp local_sender =
     (if local_version < remote_version then True
      else if remote_version < local_version then False
      else if local_timestamp < remote_timestamp then True
      else if remote_timestamp < local_timestamp then False
      else local_sender < remote_sender)"

definition should_apply_task :: "task_sync \<Rightarrow> int \<Rightarrow> bool" where
  "should_apply_task remote local_version = should_apply (ts_version remote) 0 [] local_version 0 []"

lemma should_apply_less:
  "should_apply rv rt rs lv lt ls \<longleftrightarrow> (lv, lt, ls) < (rv, rt, rs)"
  by (auto simp: should_apply_def)

section \<open>Receiver\<close>

record sync_receiver =
  sr_received :: nat
  sr_applied :: nat
  sr_rejected_stale :: nat

definition sr_init :: sync_receiver where
  "sr_init = \<lparr>sr_received = 0, sr_applied = 0, sr_rejected_stale = 0\<rparr>"

datatype receive_result =
  StaleVersion int int
| StoreRejected int
| Applied int sync_event_type

fun res_applied :: "receive_result \<Rightarrow> bool" where
  "res_applied (Applied _ _) = True"
| "res_applied _ = False"

definition receive_single ::
  "time \<Rightarrow> sync_message \<Rightarrow> sync_receiver \<Rightarrow> cluster_state \<Rightarrow>
   receive_result \<times> sync_receiver \<times> cluster_state" where
  "receive_single now msg r s =
     (let r1 = r\<lparr>sr_received := sr_received r + 1\<rparr>; local_version = sync_version s
      in if sm_version msg \<le> local_version
         then (StaleVersion (sm_version msg) local_version,
               r1\<lparr>sr_rejected_stale := sr_rejected_stale r1 + 1\<rparr>, s)
         else let (applied, s1) = handle_sync_message now msg s
              in if applied
                 then (Applied (sm_version msg) (sm_event_type msg),
                       r1\<lparr>sr_applied := sr_applied r1 + 1\<rparr>, s1)
                 else (StoreRejected (sm_version msg),
                       r1\<lparr>sr_rejected_stale := sr_rejected_stale r1 + 1\<rparr>, s1))"

fun receive_loop ::
  "time \<Rightarrow> sync_message list \<Rightarrow> sync_receiver \<Rightarrow> cluster_state \<Rightarrow>
   receive_result list \<times> sync_receiver \<times> cluster_state" where
  "receive_loop now [] r s = ([], r, s)"
| "receive_loop now (m # ms) r s =
     (let (x, r1, s1) = receive_single now m r s; (xs, r2, s2) = receive_loop now ms r1 s1
      in (x # xs, r2, s2))"

record batch_result =
  br_accepted :: nat
  br_rejected :: nat
  br_total :: nat
  br_details :: "receive_result list"

definition receive_batch ::
  "time \<Rightarrow> sync_message list \<Rightarrow> sync_receiver \<Rightarrow> cluster_state \<Rightarrow>
   batch_result \<times> sync_receiver \<times> cluster_state" where
  "receive_batch now msgs r s =
     (let (details, r1, s1) = receive_loop now msgs r s
      in (\<lparr>br_accepted = length (filter res_applied details),
           br_rejected = length (filter (\<lambda>x. \<not> res_applied x) details),
           br_total = length msgs, br_details = details\<rparr>,
          r1\<lparr>sr_received := sr_received r1 + length msgs\<rparr>, s1))"

section \<open>Full-state snapshots\<close>

record snap_node =
  sn_id :: string
  sn_name :: string
  sn_capabilities :: "string list"
  sn_status :: string
  sn_last_heartbeat :: time
  sn_load :: rat

record snap_task =
  sk_id :: string
  sk_title :: string
  sk_requires :: "string list"
  sk_depends_on :: "string list"
  sk_priority :: int
  sk_status :: string
  sk_assigned_to :: "string option"
  sk_created_at :: time
  sk_updated_at :: time
  sk_version :: int
  sk_fail_reason :: "string option"
  sk_description :: string

record full_state =
  fs_node_id :: string
  fs_sync_version :: int
  fs_timestamp :: int
  fs_nodes :: "snap_node list"
  fs_tasks :: "snap_task list"

text \<open>\<open>Node(**data)\<close> and \<open>Task(**data)\<close>: absent fields take the model's defaults.\<close>

definition node_of_snap :: "snap_node \<Rightarrow> node option" where
  "node_of_snap d =
     map_option (\<lambda>st.
       \<lparr>n_id = sn_id d, n_name = sn_name d, n_capabilities = sn_capabilities d, n_status = st,
        n_last_heartbeat = sn_last_heartbeat d, n_load = sn_load d, n_max_concurrent = 0,
        n_drained = False, n_disk_free_gb = None, n_status_reason = [], n_instance_token = [],
        n_cpu_load_pct = None, n_lane_count = None, n_duplicate_executor = None\<rparr>)
       (parse_node_status (sn_status d))"

definition merge_node :: "snap_node \<Rightarrow> cluster_state \<Rightarrow> bool \<times> cluster_state" where
  "merge_node d s =
     (case node_of_snap d of
        None \<Rightarrow> (False, s)
      | Some n \<Rightarrow>
          (case get_node s (n_id n) of
             None \<Rightarrow> (True, register_node n s)
           | Some existing \<Rightarrow>
               if n_load existing \<le> n_load n then (True, register_node n s) else (False, s)))"

definition merge_task :: "time \<Rightarrow> snap_task \<Rightarrow> cluster_state \<Rightarrow> bool \<times> cluster_state" where
  "merge_task now d s =
     (case parse_task_status (sk_status d) of
        None \<Rightarrow> (False, s)
      | Some st \<Rightarrow>
          (case get_task s (sk_id d) of
             None \<Rightarrow>
               (let s1 = snd (create_task now
                      \<lparr>pl_task_id = sk_id d, pl_title = sk_title d, pl_requires = sk_requires d,
                       pl_priority = sk_priority d, pl_lane_key = [], pl_role = ''author'',
                       pl_description = sk_description d, pl_issues = [], pl_depends_on = []\<rparr> s);
                    s2 = (if st \<noteq> Pending then snd (set_task_status now (sk_id d) st [] s1) else s1)
                in (True, s2))
           | Some existing \<Rightarrow>
               if t_version existing < sk_version d
               then (True, snd (set_task_status now (sk_id d) st
                       (case sk_fail_reason d of None \<Rightarrow> [] | Some f \<Rightarrow> f) s))
               else (False, s)))"

fun merge_all :: "('d \<Rightarrow> cluster_state \<Rightarrow> bool \<times> cluster_state) \<Rightarrow> 'd list \<Rightarrow> cluster_state \<Rightarrow>
    nat \<times> nat \<times> cluster_state" where
  "merge_all f [] s = (0, 0, s)"
| "merge_all f (d # ds) s =
     (let (ok, s1) = f d s; (a, r, s2) = merge_all f ds s1
      in if ok then (a + 1, r, s2) else (a, r + 1, s2))"

record full_result =
  fr_nodes_applied :: nat
  fr_nodes_rejected :: nat
  fr_tasks_applied :: nat
  fr_tasks_rejected :: nat

definition receive_full_state :: "time \<Rightarrow> full_state \<Rightarrow> cluster_state \<Rightarrow> full_result \<times> cluster_state" where
  "receive_full_state now fs s =
     (let (na, nr, s1) = merge_all merge_node (fs_nodes fs) s;
          (ta, tr, s2) = merge_all (merge_task now) (fs_tasks fs) s1
      in (\<lparr>fr_nodes_applied = na, fr_nodes_rejected = nr, fr_tasks_applied = ta, fr_tasks_rejected = tr\<rparr>, s2))"

section \<open>Coordinator\<close>

record sync_coordinator =
  sc_node_id :: string
  sc_peers :: "string list"
  sc_full_sync_interval :: rat
  sc_last_full_sync :: rat
  sc_pending_messages :: "sync_message list"

definition sc_init :: "string \<Rightarrow> string list \<Rightarrow> rat \<Rightarrow> sync_coordinator" where
  "sc_init node_id peers full_sync_interval =
     \<lparr>sc_node_id = node_id, sc_peers = peers, sc_full_sync_interval = full_sync_interval,
      sc_last_full_sync = 0, sc_pending_messages = []\<rparr>"

definition add_peer :: "string \<Rightarrow> sync_coordinator \<Rightarrow> sync_coordinator" where
  "add_peer endpoint c =
     (if endpoint \<notin> set (sc_peers c) then c\<lparr>sc_peers := sc_peers c @ [endpoint]\<rparr> else c)"

definition remove_peer :: "string \<Rightarrow> sync_coordinator \<Rightarrow> sync_coordinator" where
  "remove_peer endpoint c =
     (if endpoint \<in> set (sc_peers c) then c\<lparr>sc_peers := remove1 endpoint (sc_peers c)\<rparr> else c)"

definition queue_sync_message :: "sync_message \<Rightarrow> sync_coordinator \<Rightarrow> sync_coordinator" where
  "queue_sync_message msg c = c\<lparr>sc_pending_messages := sc_pending_messages c @ [msg]\<rparr>"

definition queue_task_event ::
  "int \<Rightarrow> string \<Rightarrow> string \<Rightarrow> string \<Rightarrow> sync_event_type \<Rightarrow> string option \<Rightarrow> int \<Rightarrow>
   cluster_state \<Rightarrow> sync_coordinator \<Rightarrow> sync_coordinator" where
  "queue_task_event wall task_id title status ev assigned_to version s c =
     queue_sync_message
       \<lparr>sm_version = sync_version s + 1, sm_sender_node = sc_node_id c,
        sm_task_state = Some \<lparr>ts_task_id = task_id, ts_title = title, ts_status = status,
          ts_assigned_to = assigned_to, ts_version = version\<rparr>,
        sm_event_type = ev, sm_timestamp = wall\<rparr> c"

record delta_summary =
  dl_sent_to :: nat
  dl_messages :: nat
  dl_peers :: "(string, bool) dict"

definition do_delta_sync ::
  "(string \<Rightarrow> sync_message list \<Rightarrow> bool) \<Rightarrow> sync_coordinator \<Rightarrow> delta_summary \<times> sync_coordinator" where
  "do_delta_sync send_batch c =
     (let messages = sc_pending_messages c; c1 = c\<lparr>sc_pending_messages := []\<rparr>
      in if messages = [] then (\<lparr>dl_sent_to = 0, dl_messages = 0, dl_peers = []\<rparr>, c1)
         else let results = fold (\<lambda>p d. dict_set p (send_batch p messages) d) (sc_peers c) []
              in (\<lparr>dl_sent_to = length (filter id (dict_values results)),
                   dl_messages = length messages, dl_peers = results\<rparr>, c1))"

definition snap_of_node :: "node \<Rightarrow> snap_node" where
  "snap_of_node n =
     \<lparr>sn_id = n_id n, sn_name = n_name n, sn_capabilities = n_capabilities n,
      sn_status = node_status_value (n_status n), sn_last_heartbeat = n_last_heartbeat n,
      sn_load = n_load n\<rparr>"

text \<open>The sender does not put the description into the snapshot, so \<open>Task(**data)\<close> sees none.\<close>

definition snap_of_task :: "task \<Rightarrow> snap_task" where
  "snap_of_task t =
     \<lparr>sk_id = t_id t, sk_title = t_title t, sk_requires = t_requires t, sk_depends_on = t_depends_on t,
      sk_priority = t_priority t, sk_status = task_status_value (t_status t),
      sk_assigned_to = t_assigned_to t, sk_created_at = t_created_at t, sk_updated_at = t_updated_at t,
      sk_version = t_version t, sk_fail_reason = t_fail_reason t, sk_description = []\<rparr>"

definition build_full_state :: "int \<Rightarrow> sync_coordinator \<Rightarrow> cluster_state \<Rightarrow> full_state" where
  "build_full_state wall c s =
     \<lparr>fs_node_id = sc_node_id c, fs_sync_version = sync_version s, fs_timestamp = wall,
      fs_nodes = map snap_of_node (get_all_nodes s), fs_tasks = map snap_of_task (get_all_tasks s)\<rparr>"

definition do_full_sync ::
  "int \<Rightarrow> (string \<Rightarrow> full_state \<Rightarrow> bool) \<Rightarrow> sync_coordinator \<Rightarrow> cluster_state \<Rightarrow> nat \<times> (string, bool) dict" where
  "do_full_sync wall send_full_state c s =
     (let fs = build_full_state wall c s;
          results = fold (\<lambda>p d. dict_set p (send_full_state p fs) d) (sc_peers c) []
      in (length (filter id (dict_values results)), results))"

text \<open>One turn of the background loop; \<open>wall\<close> is \<open>time.time()\<close>.\<close>

definition sync_turn ::
  "rat \<Rightarrow> (string \<Rightarrow> sync_message list \<Rightarrow> bool) \<Rightarrow> (string \<Rightarrow> full_state \<Rightarrow> bool) \<Rightarrow> sync_coordinator \<Rightarrow>
   cluster_state \<Rightarrow> delta_summary \<times> (nat \<times> (string, bool) dict) option \<times> sync_coordinator" where
  "sync_turn wall send_batch send_full c s =
     (let (d, c1) = do_delta_sync send_batch c
      in if sc_full_sync_interval c1 \<le> wall - sc_last_full_sync c1
         then (d, Some (do_full_sync \<lfloor>wall\<rfloor> send_full c1 s), c1\<lparr>sc_last_full_sync := wall\<rparr>)
         else (d, None, c1))"

section \<open>Facts\<close>

lemma handle_sync_message_applied:
  "fst (handle_sync_message now m s) \<longleftrightarrow> cs_sync_version s < sm_version m"
  by (cases rule: handle_sync_message_cases [of m s now]) simp_all

lemma handle_sync_message_version:
  "cs_sync_version (snd (handle_sync_message now m s)) = max (cs_sync_version s) (sm_version m)"
  by (cases rule: handle_sync_message_cases [of m s now]) simp_all

lemma receive_single_cases:
  obtains (stale) "sm_version m \<le> cs_sync_version s"
    "\<exists>r'. receive_single now m r s = (StaleVersion (sm_version m) (cs_sync_version s), r', s) \<and>
          sr_received r' = sr_received r + 1"
  | (fresh) "cs_sync_version s < sm_version m"
    "\<exists>r'. receive_single now m r s =
        (Applied (sm_version m) (sm_event_type m), r', snd (handle_sync_message now m s)) \<and>
        sr_received r' = sr_received r + 1"
proof (cases "sm_version m \<le> cs_sync_version s")
  case True
  then show thesis by (intro stale) (simp_all add: receive_single_def sync_version_def Let_def)
next
  case False
  then have "fst (handle_sync_message now m s)" by (simp add: handle_sync_message_applied)
  with False show thesis
    by (intro fresh) (simp_all add: receive_single_def sync_version_def Let_def case_prod_beta)
qed

lemma receive_single_version:
  "receive_single now m r s = (x, r', s') \<Longrightarrow>
   cs_sync_version s' = max (cs_sync_version s) (sm_version m) \<and>
   (res_applied x \<longleftrightarrow> cs_sync_version s < sm_version m) \<and> sr_received r' = sr_received r + 1"
  by (cases rule: receive_single_cases [of m s now r]) (auto simp: handle_sync_message_version)

lemma receive_loop_version:
  "receive_loop now ms r s = (xs, r', s') \<Longrightarrow>
   cs_sync_version s \<le> cs_sync_version s' \<and> (\<forall>m \<in> set ms. sm_version m \<le> cs_sync_version s') \<and>
   sr_received r' = sr_received r + length ms \<and> length xs = length ms"
proof (induction ms arbitrary: r s xs)
  case (Cons m ms)
  obtain x r1 s1 where 1: "receive_single now m r s = (x, r1, s1)" by (metis prod_cases3)
  obtain ys where 2: "receive_loop now ms r1 s1 = (ys, r', s')" "xs = x # ys"
    using Cons.prems 1 by (auto simp: Let_def split: prod.splits)
  from receive_single_version [OF 1] Cons.IH [OF 2(1)] 2(2) show ?case by auto
qed simp

text \<open>Messages at or below the local version are refused one by one, and nothing changes.\<close>

lemma receive_loop_stale:
  assumes "\<forall>m \<in> set ms. sm_version m \<le> cs_sync_version s"
  shows "\<exists>r'. receive_loop now ms r s =
     (map (\<lambda>m. StaleVersion (sm_version m) (cs_sync_version s)) ms, r', s)"
  using assms
proof (induction ms arbitrary: r)
  case (Cons m ms)
  then obtain r1 where 1: "receive_single now m r s = (StaleVersion (sm_version m) (cs_sync_version s), r1, s)"
    by (cases rule: receive_single_cases [of m s now r]) auto
  from Cons obtain r' where "receive_loop now ms r1 s =
     (map (\<lambda>m. StaleVersion (sm_version m) (cs_sync_version s)) ms, r', s)" by auto
  with 1 show ?case by simp
qed simp

lemma filter_stale [simp]: "filter res_applied (map (\<lambda>m. StaleVersion (f m) (g m)) ms) = []"
  by (induction ms) auto

lemma receive_batch_again:
  assumes "receive_batch now ms r s = (b, r1, s1)"
  shows "\<exists>b' r2. receive_batch now' ms r' s1 = (b', r2, s1) \<and> br_accepted b' = 0"
proof -
  obtain xs r0 where l: "receive_loop now ms r s = (xs, r0, s1)"
    using assms by (auto simp: receive_batch_def Let_def split: prod.splits)
  from receive_loop_version [OF l] have "\<forall>m \<in> set ms. sm_version m \<le> cs_sync_version s1" by blast
  from receive_loop_stale [OF this, of now' r'] show ?thesis
    by (auto simp: receive_batch_def Let_def)
qed

text \<open>Of messages that carry the same version, only the first can be accepted.\<close>

lemma receive_batch_same_version:
  assumes "\<forall>m \<in> set ms. sm_version m = v"
  shows "br_accepted (fst (receive_batch now ms r s)) \<le> 1"
proof (cases ms)
  case Nil
  then show ?thesis by (simp add: receive_batch_def)
next
  case (Cons m rest)
  obtain x r1 s1 where 1: "receive_single now m r s = (x, r1, s1)" by (metis prod_cases3)
  have "\<forall>m' \<in> set rest. sm_version m' \<le> cs_sync_version s1"
    using receive_single_version [OF 1] assms Cons by simp
  from receive_loop_stale [OF this, of now r1] 1 Cons show ?thesis
    by (auto simp: receive_batch_def Let_def)
qed

section \<open>Merging moves forward\<close>

lemma merge_node_keeps: "cs_wf s \<Longrightarrow> cs_wf (snd (merge_node d s)) \<and> forward s (snd (merge_node d s))"
  by (simp add: merge_node_def register_node_wf register_node_forward split: option.splits)

lemma merge_task_keeps: "cs_wf s \<Longrightarrow> cs_wf (snd (merge_task now d s)) \<and> forward s (snd (merge_task now d s))"
proof -
  assume wf: "cs_wf s"
  let ?p = "\<lparr>pl_task_id = sk_id d, pl_title = sk_title d, pl_requires = sk_requires d,
     pl_priority = sk_priority d, pl_lane_key = [], pl_role = ''author'',
     pl_description = sk_description d, pl_issues = [], pl_depends_on = []\<rparr>"
  have new: "cs_wf (snd (create_task now ?p s))" by (rule create_task_wf [OF wf])
  have "get_task s (sk_id d) = None \<Longrightarrow> forward s (snd (create_task now ?p s))"
    by (rule create_task_forward) simp
  then show ?thesis
    using wf new task_setters_wf(2) set_task_status_forward forward_trans
    by (auto simp: merge_task_def Let_def split: option.splits)
qed

lemma merge_all_keeps:
  assumes "\<And>d s. cs_wf s \<Longrightarrow> cs_wf (snd (f d s)) \<and> forward s (snd (f d s))" and "cs_wf s"
  shows "cs_wf (snd (snd (merge_all f ds s))) \<and> forward s (snd (snd (merge_all f ds s)))"
  using assms(2)
proof (induction ds arbitrary: s)
  case (Cons d ds)
  obtain ok s1 where 1: "f d s = (ok, s1)" by (cases "f d s")
  from assms(1) [OF Cons.prems, of d] 1 have k: "cs_wf s1" "forward s s1" by simp_all
  from Cons.IH [OF k(1)] k(2) 1 show ?case
    by (auto simp: Let_def split: prod.splits intro: forward_trans)
qed simp

lemma receive_full_state_keeps:
  assumes "cs_wf s"
  shows "cs_wf (snd (receive_full_state now fs s)) \<and> forward s (snd (receive_full_state now fs s))"
proof -
  obtain a r s1 where 1: "merge_all merge_node (fs_nodes fs) s = (a, r, s1)" by (metis prod_cases3)
  obtain a' r' s2 where 2: "merge_all (merge_task now) (fs_tasks fs) s1 = (a', r', s2)" by (metis prod_cases3)
  from merge_all_keeps [of merge_node s "fs_nodes fs", OF merge_node_keeps assms] 1
  have k: "cs_wf s1" "forward s s1" by simp_all
  from merge_all_keeps [of "merge_task now" s1 "fs_tasks fs", OF merge_task_keeps k(1)] 2 k 1 show ?thesis
    by (auto simp: receive_full_state_def Let_def intro: forward_trans)
qed

end
