(* ===== verification/SyncProps.thy ===== *)
theory SyncProps
  imports Demo Sync Promotion
begin

text \<open>
  Properties of state synchronisation (last-writer-wins order, replay, versions inside one batch,
  snapshots) and of the landing gate as the promotion pass applies it.
\<close>

section \<open>Examples and helpers\<close>

definition demo_land :: cluster_state where
  "demo_land =
     (let rv = (demo_plan ''rv'' [] ''acme/app!7'')\<lparr>pl_role := ''reviewer''\<rparr>;
          ld = (demo_plan ''ld'' [] ''acme/app#land-7'')\<lparr>pl_title := ''LAND acme/app!7 at abcdef1''\<rparr>
      in snd (set_task_status 30 ''rv'' Completed []
           (snd (set_task_result 30 ''rv'' (Some ''Verdict: PASS SHA: abcdef1'')
             (snd (create_task 10 ld (snd (create_task 10 rv demo0))))))))"

definition demo_msg :: "int \<Rightarrow> string \<Rightarrow> sync_message" where
  "demo_msg v tid =
     \<lparr>sm_version = v, sm_sender_node = ''peer'',
      sm_task_state = Some \<lparr>ts_task_id = tid, ts_title = tid, ts_status = ''running'', ts_assigned_to = None, ts_version = 5\<rparr>,
      sm_event_type = SyncTaskAssigned, sm_timestamp = 0\<rparr>"

lemma fold_keeps: "(\<And>e c. P c \<Longrightarrow> P (f e c)) \<Longrightarrow> P c \<Longrightarrow> P (fold f es c)"
  by (induction es arbitrary: c) simp_all

lemma merge_task_new:
  assumes "get_task s (t_id t) = None"
  shows "\<exists>u. merge_task now (snap_of_task t) s = (True, put_task (t_id t) u s) \<and> t_id u = t_id t \<and> t_title u = t_title t \<and>
     t_requires u = t_requires t \<and> t_priority u = t_priority t \<and> t_status u = t_status t \<and> t_depends_on u = [] \<and> t_description u = []"
  using assms
  by (simp add: merge_task_def snap_of_task_def Let_def create_task_def set_task_status_def del: task_status_value.simps)
    (auto simp: build_task_def default_task_def touch_def intro!: exI)

text \<open>Merging snapshots of tasks the store does not have: each is stored, nothing else changes.\<close>

lemma merge_tasks_new:
  assumes "distinct (map t_id ts)" "\<forall>t \<in> set ts. get_task s (t_id t) = None"
    "merge_all (merge_task now) (map snap_of_task ts) s = (a, r, s')"
  shows "a = length ts \<and> r = 0 \<and> cs_nodes s' = cs_nodes s \<and> (\<forall>k. k \<notin> t_id ` set ts \<longrightarrow> get_task s' k = get_task s k) \<and>
    (\<forall>t \<in> set ts. \<exists>u. get_task s' (t_id t) = Some u \<and> t_id u = t_id t \<and> t_title u = t_title t \<and>
       t_requires u = t_requires t \<and> t_priority u = t_priority t \<and> t_status u = t_status t \<and> t_depends_on u = [] \<and> t_description u = [])"
  using assms
proof (induction ts arbitrary: s a r s')
  case (Cons t ts)
  from Cons.prems(2) merge_task_new [of s t now] obtain u where
    u: "merge_task now (snap_of_task t) s = (True, put_task (t_id t) u s)" "t_id u = t_id t" "t_title u = t_title t"
      "t_requires u = t_requires t" "t_priority u = t_priority t" "t_status u = t_status t" "t_depends_on u = []" "t_description u = []" by auto
  obtain a1 r1 s1 where m: "merge_all (merge_task now) (map snap_of_task ts) (put_task (t_id t) u s) = (a1, r1, s1)"
    by (metis prod_cases3)
  have "\<forall>x \<in> set ts. get_task (put_task (t_id t) u s) (t_id x) = None" using Cons.prems(1,2) by (auto simp: image_iff)
  note IH = Cons.IH [OF _ this m]
  have "get_task s1 (t_id t) = Some u" using IH Cons.prems(1) by simp
  with IH u m Cons.prems show ?case by auto
qed simp

lemma node_of_snap_of: "node_of_snap (snap_of_node n) = Some
   \<lparr>n_id = n_id n, n_name = n_name n, n_capabilities = n_capabilities n, n_status = n_status n,
    n_last_heartbeat = n_last_heartbeat n, n_load = n_load n, n_max_concurrent = 0,
    n_drained = False, n_disk_free_gb = None, n_status_reason = [], n_instance_token = [],
    n_cpu_load_pct = None, n_lane_count = None, n_duplicate_executor = None\<rparr>"
  by (simp add: node_of_snap_def snap_of_node_def del: node_status_value.simps)

lemma register_node_get:
  "get_node s (n_id n) = None \<Longrightarrow> get_node (register_node n s) k = (if k = n_id n then Some n else get_node s k)"
  by (simp add: register_node_def log_callback_def get_node_def Let_def split: option.splits)

lemma register_node_tasks: "cs_tasks (register_node n s) = cs_tasks s"
  by (simp add: register_node_def log_callback_def Let_def)

lemma merge_nodes_new:
  assumes "distinct (map n_id ns)" "\<forall>n \<in> set ns. get_node s (n_id n) = None"
    "merge_all merge_node (map snap_of_node ns) s = (a, r, s')"
  shows "a = length ns \<and> r = 0 \<and> cs_tasks s' = cs_tasks s \<and> (\<forall>k. k \<notin> n_id ` set ns \<longrightarrow> get_node s' k = get_node s k) \<and>
    (\<forall>n \<in> set ns. get_node s' (n_id n) = node_of_snap (snap_of_node n))"
  using assms
proof (induction ns arbitrary: s a r s')
  case (Cons n ns)
  obtain n1 where n1: "node_of_snap (snap_of_node n) = Some n1" "n_id n1 = n_id n" by (simp add: node_of_snap_of)
  have g: "get_node (register_node n1 s) k = (if k = n_id n then Some n1 else get_node s k)" for k
    using register_node_get [of s n1 k] n1(2) Cons.prems(2) by simp
  obtain a1 r1 s1 where m: "merge_all merge_node (map snap_of_node ns) (register_node n1 s) = (a1, r1, s1)"
    by (metis prod_cases3)
  have "\<forall>x \<in> set ns. get_node (register_node n1 s) (n_id x) = None" using Cons.prems(1,2) g by (auto simp: image_iff)
  note IH = Cons.IH [OF _ this m]
  have "get_node s1 (n_id n) = Some n1" using IH Cons.prems(1) g by simp
  moreover have "merge_node (snap_of_node n) s = (True, register_node n1 s)"
    using n1 Cons.prems(2) by (simp add: merge_node_def)
  ultimately show ?case using IH m g n1 Cons.prems register_node_tasks by auto
qed simp

section \<open>Delta batches\<close>

text \<open>The last-writer-wins test is the strict lexicographic order on version, timestamp and
  sender: of two different writes exactly one wins over the other, and no write wins over itself.\<close>

theorem lww_total_order:
  "(should_apply rv rt rs lv lt ls \<longleftrightarrow> (lv, lt, ls) < (rv, rt, rs)) \<and>
   (should_apply rv rt rs lv lt ls \<and> should_apply lv lt ls rv rt rs \<longleftrightarrow> False) \<and>
   (\<not> should_apply rv rt rs lv lt ls \<and> \<not> should_apply lv lt ls rv rt rs \<longleftrightarrow> (rv, rt, rs) = (lv, lt, ls))"
  unfolding should_apply_less by (metis less_asym' neqE order_less_irrefl)

text \<open>Receiving a batch again changes nothing: every message is refused as stale, whenever and
  with whatever counters the batch is repeated.\<close>

theorem batch_replay_harmless:
  assumes "receive_batch now ms r s = (b, r1, s1)"
  shows "\<exists>b' r2. receive_batch now' ms r' s1 = (b', r2, s1) \<and> br_accepted b' = 0 \<and> br_rejected b' = length ms"
proof -
  obtain xs r0 where l: "receive_loop now ms r s = (xs, r0, s1)"
    using assms by (auto simp: receive_batch_def Let_def split: prod.splits)
  from receive_loop_version [OF l] have "\<forall>m \<in> set ms. sm_version m \<le> cs_sync_version s1" by blast
  from receive_loop_stale [OF this, of now' r'] show ?thesis
    by (auto simp: receive_batch_def Let_def comp_def)
qed

theorem batch_replay_harmless_witness:
  "\<exists>b' r2. receive_batch 60 [demo_msg 3 ''t9''] sr_init (snd (snd (receive_batch 50 [demo_msg 3 ''t9''] sr_init demo1))) =
     (b', r2, snd (snd (receive_batch 50 [demo_msg 3 ''t9''] sr_init demo1))) \<and> br_rejected b' = 1"
proof -
  obtain b r1 s1 where "receive_batch 50 [demo_msg 3 ''t9''] sr_init demo1 = (b, r1, s1)" by (metis prod_cases3)
  from batch_replay_harmless [OF this, of 60 sr_init] this show ?thesis by auto
qed

text \<open>Task events queued between two synchronisations all carry the same version, so a peer
  accepts at most one of them and refuses the rest as stale.\<close>

theorem queued_events_lost:
  "br_accepted (fst (receive_batch now (sc_pending_messages
      (fold (\<lambda>(w, tid, title, st, ev, a, v). queue_task_event w tid title st ev a v s) evs (sc_init nid peers iv))) r s')) \<le> 1"
proof (rule receive_batch_same_version [where v = "sync_version s + 1"])
  let ?P = "\<lambda>c :: sync_coordinator. \<forall>m \<in> set (sc_pending_messages c). sm_version m = sync_version s + 1"
  show "?P (fold (\<lambda>(w, tid, title, st, ev, a, v). queue_task_event w tid title st ev a v s) evs (sc_init nid peers iv))"
  proof (rule fold_keeps [where P = ?P])
    fix e c assume "?P c"
    then show "?P ((case e of (w, tid, title, st, ev, a, v) \<Rightarrow> queue_task_event w tid title st ev a v s) c)"
      by (auto simp: queue_task_event_def queue_sync_message_def split: prod.splits)
  qed (simp add: sc_init_def)
qed

text \<open>In the answer to a batch every message is either accepted or rejected, but the receiver's
  own counter of received messages grows by twice their number.\<close>

theorem batch_counters:
  assumes "receive_batch now ms r s = (b, r', s')"
  shows "br_accepted b + br_rejected b = length ms \<and> br_total b = length ms \<and>
     sr_received r' = sr_received r + 2 * length ms"
proof -
  obtain xs r0 where l: "receive_loop now ms r s = (xs, r0, s')" "r' = r0\<lparr>sr_received := sr_received r0 + length ms\<rparr>"
    "br_accepted b = length (filter res_applied xs)" "br_rejected b = length (filter (\<lambda>x. \<not> res_applied x) xs)"
    "br_total b = length ms"
    using assms by (auto simp: receive_batch_def Let_def split: prod.splits)
  with receive_loop_version [OF l(1)] sum_length_filter_compl [of res_applied xs] show ?thesis by simp
qed

theorem batch_counters_witness:
  "sr_received (fst (snd (receive_batch 50 [demo_msg 3 ''t9''] sr_init demo1))) = 2"
proof -
  obtain b r1 s1 where "receive_batch 50 [demo_msg 3 ''t9''] sr_init demo1 = (b, r1, s1)" by (metis prod_cases3)
  from batch_counters [OF this] this show ?thesis by (simp add: sr_init_def)
qed

section \<open>Snapshots\<close>

text \<open>Merging a snapshot keeps the store well formed and moves it only forward: no terminal task
  is revived, no version or attempt count goes down, no lease changes for the worse and no drained
  node loses its mark.\<close>

theorem snapshot_merge_forward:
  assumes "cs_wf s"
  shows "cs_wf (snd (receive_full_state now fs s)) \<and> forward s (snd (receive_full_state now fs s))"
  by (rule receive_full_state_keeps [OF assms])

theorem snapshot_merge_forward_witness:
  "forward demo3 (snd (receive_full_state 60 (build_full_state 0 (sc_init ''peer'' [] 0) demo2) demo3))"
  using snapshot_merge_forward [OF demo_wf(4)] by blast

text \<open>A snapshot of one store merged into an empty one reproduces every node's identity,
  capabilities, status, heartbeat and load, and every task's identity, title, requirements, priority
  and status, with nothing rejected; the dependencies and the descriptions of the tasks are lost.\<close>

theorem snapshot_round_trip:
  assumes wf: "cs_wf s" and e: "cs_tasks s0 = []" "cs_nodes s0 = []"
    and r: "receive_full_state now (build_full_state wall c s) s0 = (fr, s')"
  shows "fr_nodes_applied fr = length (get_all_nodes s) \<and> fr_nodes_rejected fr = 0 \<and>
    fr_tasks_applied fr = length (get_all_tasks s) \<and> fr_tasks_rejected fr = 0 \<and>
    (\<forall>k n. get_node s k = Some n \<longrightarrow> (\<exists>n'. get_node s' k = Some n' \<and> n_name n' = n_name n \<and>
       n_capabilities n' = n_capabilities n \<and> n_status n' = n_status n \<and>
       n_last_heartbeat n' = n_last_heartbeat n \<and> n_load n' = n_load n)) \<and>
    (\<forall>k t. get_task s k = Some t \<longrightarrow> (\<exists>u. get_task s' k = Some u \<and> t_title u = t_title t \<and>
       t_requires u = t_requires t \<and> t_priority u = t_priority t \<and> t_status u = t_status t \<and> t_depends_on u = [] \<and> t_description u = []))"
proof -
  have dn: "distinct (map n_id (get_all_nodes s))" and dt: "distinct (map t_id (get_all_tasks s))"
    using nodes_wf_distinct [OF cs_wfD(1) [OF wf]] tasks_wf_distinct [OF cs_wfD(2) [OF wf]]
    by (simp_all add: get_all_nodes_def get_all_tasks_def)
  obtain a q s1 where 1: "merge_all merge_node (map snap_of_node (get_all_nodes s)) s0 = (a, q, s1)" by (metis prod_cases3)
  obtain a' q' s2 where 2: "merge_all (merge_task now) (map snap_of_task (get_all_tasks s)) s1 = (a', q', s2)" by (metis prod_cases3)
  have "\<forall>n \<in> set (get_all_nodes s). get_node s0 (n_id n) = None" using e(2) by (simp add: get_node_def)
  note N = merge_nodes_new [OF dn this 1]
  have "\<forall>t \<in> set (get_all_tasks s). get_task s1 (t_id t) = None" using N e(1) by (simp add: get_task_def)
  note T = merge_tasks_new [OF dt this 2]
  have fr: "fr = \<lparr>fr_nodes_applied = a, fr_nodes_rejected = q, fr_tasks_applied = a', fr_tasks_rejected = q'\<rparr>" "s' = s2"
    using r 1 2 by (auto simp: receive_full_state_def build_full_state_def Let_def)
  have nodes: "\<exists>n'. get_node s' k = Some n' \<and> n_name n' = n_name n \<and> n_capabilities n' = n_capabilities n \<and>
      n_status n' = n_status n \<and> n_last_heartbeat n' = n_last_heartbeat n \<and> n_load n' = n_load n" if g: "get_node s k = Some n" for k n
  proof -
    have "n_id n = k" using cs_wfD(1) [OF wf] g by (simp add: nodes_wf_def get_node_def)
    moreover have "n \<in> set (get_all_nodes s)" using g dict_get_value unfolding get_node_def get_all_nodes_def by metis
    ultimately have "get_node s2 k = node_of_snap (snap_of_node n)" using N T by (auto simp: get_node_def)
    then show ?thesis unfolding fr(2) by (simp add: node_of_snap_of)
  qed
  have tasks: "\<exists>u. get_task s' k = Some u \<and> t_title u = t_title t \<and> t_requires u = t_requires t \<and>
      t_priority u = t_priority t \<and> t_status u = t_status t \<and> t_depends_on u = [] \<and> t_description u = []" if g: "get_task s k = Some t" for k t
  proof -
    have "t_id t = k" by (rule tasks_wf_id [OF cs_wfD(2) [OF wf] g])
    moreover have "t \<in> set (get_all_tasks s)" using g dict_get_value unfolding get_task_def get_all_tasks_def by metis
    ultimately show ?thesis using T unfolding fr(2) by blast
  qed
  show ?thesis using N T nodes tasks by (simp add: fr(1))
qed

theorem snapshot_round_trip_witness:
  "fr_tasks_applied (fst (receive_full_state 60 (build_full_state 0 (sc_init ''peer'' [] 0) demo3) demo0)) = 3"
proof -
  have e: "cs_tasks demo0 = []" "cs_nodes demo0 = []" by (simp_all add: demo0_def init_state_def)
  obtain fr s' where r: "receive_full_state 60 (build_full_state 0 (sc_init ''peer'' [] 0) demo3) demo0 = (fr, s')"
    by (cases "receive_full_state 60 (build_full_state 0 (sc_init ''peer'' [] 0) demo3) demo0")
  have "length (get_all_tasks demo3) = 3" by code_simp
  with snapshot_round_trip [OF demo_wf(4) e r] r show ?thesis by simp
qed

text \<open>Because a snapshot carries no dependencies into the store, a pending task whose dependency
  is not completed becomes ready at the receiver's next promotion pass, while the sender keeps it
  pending.\<close>

theorem snapshot_bypasses_dependencies:
  "(let sender = snd (create_task 10 (demo_plan ''t3'' [''t1''] []) demo1);
        receiver = snd (receive_full_state 60 (build_full_state 0 (sc_init ''peer'' [] 0) sender) demo0)
    in map_option t_status (get_task (snd (trigger_pending_tasks 70 sender)) ''t3'') = Some Pending \<and>
       map_option t_status (get_task (snd (trigger_pending_tasks 70 receiver)) ''t3'') = Some Ready)"
  by code_simp

section \<open>Landing\<close>

text \<open>C21: A promotion pass releases a landing task only when the latest completed reviewer of the
  artifact passed it at a commit the landing names: the verdict is \<open>PASS\<close> and pins 7 to 40
  hexadecimal digits that agree with a commit of the landing's title. The lane of the released task is
  not the lane \<open><repo>!<n>\<close> and is no lane that authored the artifact; it may be the lane of a later
  review round (\<open>lander_in_review_lane\<close>).\<close>

theorem landing_release_requires_pass:
  assumes wf: "cs_wf s" and t: "get_task s tid = Some t" "t_status t = Pending"
    and art: "landing_artifact t = Some (repo, n)"
    and rel: "get_task (snd (trigger_pending_tasks now s)) tid = Some t'" "t_status t' = Ready"
  shows "strip (t_lane_key t) \<noteq> repo @ ''!'' @ n \<and>
    (strip (t_lane_key t) \<noteq> [] \<longrightarrow> strip (t_lane_key t) \<notin> set (authoring_lanes (get_all_tasks s) repo n tid)) \<and>
    (\<exists>r sha. r \<in> set (get_all_tasks s) \<and> reviewer_of r repo n \<and> t_status r = Completed \<and>
       (\<forall>u \<in> set (get_all_tasks s). reviewer_of u repo n \<longrightarrow> (t_updated_at u, t_version u) \<le> (t_updated_at r, t_version r)) \<and>
       parse_reviewer_verdict (case t_result r of None \<Rightarrow> [] | Some x \<Rightarrow> x) = (Some ''PASS'', Some sha) \<and>
       7 \<le> length sha \<and> length sha \<le> 40 \<and> list_all is_hex sha \<and>
       (\<exists>named \<in> set (named_shas (t_title t)). startswith sha named \<or> startswith named sha))"
proof -
  have id: "t_id t = tid" by (rule tasks_wf_id [OF cs_wfD(2) [OF wf] t(1)])
  have "t' = promoted now s t"
    using rel(1) t(1) unfolding trigger_pending_partly [OF wf] by (simp add: get_task_partly)
  with rel(2) t(2) have h: "hold_reason (get_all_tasks s) t = None"
    by (auto simp: promoted_def get_all_tasks_def split: if_splits option.splits)
  from hold_reason_None_landing [OF art h] obtain sha rid where g:
    "strip (t_lane_key t) \<noteq> artifact_ref repo n"
    "strip (t_lane_key t) \<noteq> [] \<longrightarrow> strip (t_lane_key t) \<notin> set (authoring_lanes (get_all_tasks s) repo n (t_id t))"
    "latest_reviewer_verdict (get_all_tasks s) repo n = (Some ''PASS'', Some sha, rid)"
    "list_ex (sha_matches sha) (named_shas (t_title t))" by blast
  from latest_reviewer_verdict_Some [OF g(3)] obtain r where
    r: "r \<in> set (get_all_tasks s)" "reviewer_of r repo n"
      "parse_reviewer_verdict (case t_result r of None \<Rightarrow> [] | Some x \<Rightarrow> x) = (Some ''PASS'', Some sha)"
      "\<forall>u \<in> set (get_all_tasks s). reviewer_of u repo n \<longrightarrow> (t_updated_at u, t_version u) \<le> (t_updated_at r, t_version r)"
    by blast
  have named: "\<exists>x \<in> set (named_shas (t_title t)). startswith sha x \<or> startswith x sha"
    using g(4) by (simp add: list_ex_iff sha_matches_def)
  show ?thesis
  proof (intro conjI exI [of _ r] exI [of _ sha])
    show "strip (t_lane_key t) \<noteq> repo @ ''!'' @ n" using g(1) unfolding artifact_ref_def .
    show "strip (t_lane_key t) \<noteq> [] \<longrightarrow> strip (t_lane_key t) \<notin> set (authoring_lanes (get_all_tasks s) repo n tid)"
      using g(2) unfolding id .
    show "7 \<le> length sha" "length sha \<le> 40" "list_all is_hex sha" using parsed_sha_hex [OF r(3)] by blast+
    show "t_status r = Completed" by (rule reviewer_of_Completed [OF r(2)])
  qed (fact r named)+
qed

theorem landing_release_requires_pass_witness:
  "\<exists>t r. get_task demo_land ''ld'' = Some t \<and> landing_artifact t = Some (''acme/app'', ''7'') \<and>
     map_option t_status (get_task (snd (trigger_pending_tasks 40 demo_land)) ''ld'') = Some Ready \<and>
     r \<in> set (get_all_tasks demo_land) \<and> reviewer_of r ''acme/app'' ''7''"
proof -
  have wf: "cs_wf demo_land" unfolding demo_land_def Let_def by (intro task_setters_wf create_task_wf demo_wf(1))
  have "map_option (\<lambda>t. (t_status t, landing_artifact t)) (get_task demo_land ''ld'') = Some (Pending, Some (''acme/app'', ''7''))"
    by code_simp
  then obtain t where t: "get_task demo_land ''ld'' = Some t" "t_status t = Pending" "landing_artifact t = Some (''acme/app'', ''7'')"
    by auto
  have a: "map_option t_status (get_task (snd (trigger_pending_tasks 40 demo_land)) ''ld'') = Some Ready" by code_simp
  then obtain t' where "get_task (snd (trigger_pending_tasks 40 demo_land)) ''ld'' = Some t'" "t_status t' = Ready" by auto
  from landing_release_requires_pass [OF wf t this] t a show ?thesis by blast
qed

text \<open>The gate compares the lander's lane with \<open><repo>!<n>\<close> only, so a landing in the lane of the second
  review round, where the reviewer ran whose verdict releases it, is not held.\<close>

definition demo_same_lane :: cluster_state where
  "demo_same_lane =
     (let rv = (demo_plan ''rv'' [] ''acme/app!7-rev2'')\<lparr>pl_role := ''reviewer''\<rparr>;
          ld = (demo_plan ''ld'' [] ''acme/app!7-rev2'')\<lparr>pl_title := ''LAND acme/app!7 at abcdef1''\<rparr>
      in snd (set_task_status 30 ''rv'' Completed []
           (snd (set_task_result 30 ''rv'' (Some ''Verdict: PASS SHA: abcdef1'')
             (snd (create_task 10 ld (snd (create_task 10 rv demo0))))))))"

theorem lander_in_review_lane:
  "\<exists>rv ld. get_task demo_same_lane ''rv'' = Some rv \<and> reviewer_of rv ''acme/app'' ''7'' \<and>
     get_task (snd (trigger_pending_tasks 40 demo_same_lane)) ''ld'' = Some ld \<and>
     landing_artifact ld = Some (''acme/app'', ''7'') \<and> t_status ld = Ready \<and> t_lane_key ld = t_lane_key rv"
proof -
  have "map_option (\<lambda>t. (reviewer_of t ''acme/app'' ''7'', t_lane_key t)) (get_task demo_same_lane ''rv'') =
      Some (True, ''acme/app!7-rev2'')"
    "map_option (\<lambda>t. (landing_artifact t, t_status t, t_lane_key t))
        (get_task (snd (trigger_pending_tasks 40 demo_same_lane)) ''ld'') =
      Some (Some (''acme/app'', ''7''), Ready, ''acme/app!7-rev2'')"
    by code_simp+
  then show ?thesis by auto
qed

text \<open>The land lane is read back: a task in the lane \<open><repo>#land-<n>\<close> lands artifact
  \<open>n\<close> of \<open>repo\<close>, whatever its title says.\<close>

theorem land_lane_round_trip:
  assumes "repo \<noteq> []" "list_all not_newline repo" "n \<noteq> []" "list_all is_digit n"
    and "t_lane_key t = repo @ ''#land-'' @ n"
  shows "landing_artifact t = Some (strip repo, n)"
  by (rule landing_artifact_lane [OF assms])

theorem land_lane_round_trip_witness:
  "landing_artifact ((default_task 0 ''x'' ''y'')\<lparr>t_lane_key := ''acme/app'' @ ''#land-'' @ ''42''\<rparr>) = Some (strip ''acme/app'', ''42'')"
proof (rule land_lane_round_trip)
  show "list_all not_newline ''acme/app''" "list_all is_digit ''42''" by code_simp+
qed simp_all

end
