(* ===== verification/Ballot.thy ===== *)
theory Ballot
  imports LandingGate
begin

text \<open>
  Decision ballots: \<^verbatim>\<open>core/ballot.py\<close> (building, validating and answering a ballot) and
  \<^verbatim>\<open>core/ballot_wiring.py\<close> (the reference to the formal decision and the directive an answer
  carries). Requests are typed, so the type tests of the source are those of the model's types; a
  raised \<open>BallotError\<close> is the left of a sum. \<open>parse_ballot_column\<close> (JSON decoding) is not
  modelled: the model stores the ballot itself.
\<close>

section \<open>Formal references\<close>

datatype ballot_error =
  BadDecisionRef string
| BadDecisionId string
| QuestionRequired
| QuestionTooLong
| OptionsRequired
| TooManyOptions
| OptionBlank
| OptionTooLong
| BadClass string
| AlreadyAnswered
| BadAnswer

definition ref_char :: "char \<Rightarrow> bool" where
  "ref_char c \<longleftrightarrow> is_word c \<or> c = CHR ''.'' \<or> c = CHR ''-''"

definition REF_RE :: rx where
  "REF_RE =
     Seqs [Bol, Grp 1 (Seq (Plus ref_char) (Many (Seq (Lit ''/'') (Plus ref_char)))),
           Lit ''#'', Grp 2 (Plus is_digit), Eol]"

definition ID_RE :: rx where
  "ID_RE = Seqs [Bol, Plus ref_char, Eol]"

text \<open>\<open>int(...)\<close> of a string of decimal digits.\<close>

definition digits_value :: "string \<Rightarrow> int" where
  "digits_value ds = fold (\<lambda>c v. 10 * v + (of_char c - 48)) ds 0"

definition parse_decision_ref :: "string option \<Rightarrow> ballot_error + formal_ref option" where
  "parse_decision_ref raw =
     (case raw of
        None \<Rightarrow> Inr None
      | Some r \<Rightarrow>
          let s = strip r
          in if s = [] then Inr None
             else case re_match REF_RE s of
                    None \<Rightarrow> Inl (BadDecisionRef r)
                  | Some g \<Rightarrow> Inr (Some \<lparr>fref_project = group 1 g,
                        fref_issue_iid = digits_value (group 2 g), fref_raw = s\<rparr>))"

definition validate_decision_id :: "string option \<Rightarrow> ballot_error + string option" where
  "validate_decision_id raw =
     (case raw of
        None \<Rightarrow> Inr None
      | Some r \<Rightarrow>
          let s = strip r
          in if s = [] then Inr None
             else case re_match ID_RE s of None \<Rightarrow> Inl (BadDecisionId r) | Some _ \<Rightarrow> Inr (Some s))"

section \<open>Building and validating\<close>

definition BALLOT_CLASSES :: "string list" where
  "BALLOT_CLASSES = [''technical'', ''product'']"

definition DEFAULT_CLASS :: string where
  "DEFAULT_CLASS = ''technical''"

definition MAX_QUESTION :: nat where
  "MAX_QUESTION = 4000"

definition MAX_OPTION :: nat where
  "MAX_OPTION = 500"

definition MAX_OPTIONS :: nat where
  "MAX_OPTIONS = 10"

definition MAX_ANSWER :: nat where
  "MAX_ANSWER = 4000"

text \<open>ISO text with seconds: the fraction of the clock reading is dropped.\<close>

definition utcnow_iso :: "time \<Rightarrow> time" where
  "utcnow_iso now = now div 1000000 * 1000000"

fun check_options :: "string list \<Rightarrow> ballot_error option" where
  "check_options [] = None"
| "check_options (x # xs) =
     (if strip x = [] then Some OptionBlank
      else if MAX_OPTION < length x then Some OptionTooLong
      else check_options xs)"

definition validate_core :: "ballot \<Rightarrow> ballot_error + ballot" where
  "validate_core b =
     (if strip (b_question b) = [] then Inl QuestionRequired
      else if MAX_QUESTION < length (b_question b) then Inl QuestionTooLong
      else if b_options b = [] then Inl OptionsRequired
      else if MAX_OPTIONS < length (b_options b) then Inl TooManyOptions
      else case check_options (b_options b) of
             Some e \<Rightarrow> Inl e
           | None \<Rightarrow>
               let cls = (if b_class b = [] then DEFAULT_CLASS else b_class b)
               in if cls \<notin> set BALLOT_CLASSES then Inl (BadClass cls)
                  else Inr (b\<lparr>b_class := cls\<rparr>))"

definition build_ballot ::
  "time \<Rightarrow> string \<Rightarrow> string list \<Rightarrow> string option \<Rightarrow> string \<Rightarrow> string option \<Rightarrow> string option \<Rightarrow>
   ballot_error + ballot" where
  "build_ballot now question options cls lane_key decision_ref decision_id =
     (case parse_decision_ref decision_ref of
        Inl e \<Rightarrow> Inl e
      | Inr parsed_ref \<Rightarrow>
          (case validate_decision_id decision_id of
             Inl e \<Rightarrow> Inl e
           | Inr parsed_id \<Rightarrow>
               validate_core
                 \<lparr>b_question = strip question, b_options = map strip options,
                  b_class = (case cls of None \<Rightarrow> DEFAULT_CLASS | Some c \<Rightarrow> if c = [] then DEFAULT_CLASS else c),
                  b_lane_key = lane_key, b_asked_at = utcnow_iso now,
                  b_decision_ref = (case parsed_ref of None \<Rightarrow> [] | Some r \<Rightarrow> fref_raw r),
                  b_decision_id = (case parsed_id of None \<Rightarrow> [] | Some i \<Rightarrow> i),
                  b_answer = None, b_answered_at = None, b_answered_by = [], b_formal = None\<rparr>))"

section \<open>Answering\<close>

definition validate_answer :: "string \<Rightarrow> string option" where
  "validate_answer raw =
     (let a = strip raw in if a = [] \<or> MAX_ANSWER < length a then None else Some a)"

definition record_answer :: "time \<Rightarrow> ballot \<Rightarrow> string \<Rightarrow> string \<Rightarrow> ballot_error + ballot" where
  "record_answer now b answer answered_by =
     (if b_answer b \<noteq> None \<and> b_answer b \<noteq> Some [] then Inl AlreadyAnswered
      else case validate_answer answer of
             None \<Rightarrow> Inl BadAnswer
           | Some clean \<Rightarrow> Inr (b\<lparr>b_answer := Some clean, b_answered_at := Some (utcnow_iso now),
                                   b_answered_by := take 120 answered_by\<rparr>))"

definition formal_actuation :: "ballot \<Rightarrow> string \<Rightarrow> formal_directive" where
  "formal_actuation b task_id =
     (let out = \<lparr>fd_state = ''needs-actuation'', fd_formal_ref = None, fd_decision_id = None,
                 fd_carrier_task = (if task_id = [] then b_lane_key b else task_id),
                 fd_answer = (case b_answer b of None \<Rightarrow> [] | Some a \<Rightarrow> a),
                 fd_answered_by = b_answered_by b, fd_answered_at = b_answered_at b,
                 fd_question = b_question b, fd_detail = None\<rparr>
      in case parse_decision_ref (Some (b_decision_ref b)) of
           Inl _ \<Rightarrow> out\<lparr>fd_state := ''unformalizable-ref'',
                      fd_detail := Some (''decision_ref '' @ py_repr (b_decision_ref b) @ '' is malformed'')\<rparr>
         | Inr parsed \<Rightarrow>
             let out1 = (case parsed of None \<Rightarrow> out
                         | Some r \<Rightarrow> out\<lparr>fd_formal_ref := Some r, fd_state := ''formal-resolvable''\<rparr>)
             in case validate_decision_id (Some (b_decision_id b)) of
                  Inl _ \<Rightarrow> out1\<lparr>fd_state := ''unformalizable-ref'',
                             fd_detail := Some (''decision_id '' @ py_repr (b_decision_id b) @ '' is malformed'')\<rparr>
                | Inr did \<Rightarrow> out1\<lparr>fd_decision_id := did\<rparr>)"

definition attach_formal :: "ballot \<Rightarrow> string \<Rightarrow> ballot" where
  "attach_formal b task_id = b\<lparr>b_formal := Some (formal_actuation b task_id)\<rparr>"

section \<open>What a built ballot is\<close>

definition ballot_ok :: "ballot \<Rightarrow> bool" where
  "ballot_ok b \<longleftrightarrow> strip (b_question b) \<noteq> [] \<and> length (b_question b) \<le> 4000 \<and>
     b_options b \<noteq> [] \<and> length (b_options b) \<le> 10 \<and>
     (\<forall>x \<in> set (b_options b). strip x \<noteq> [] \<and> length x \<le> 500) \<and>
     b_class b \<in> {''technical'', ''product''}"

lemma check_options_None:
  "check_options xs = None \<longleftrightarrow> (\<forall>x \<in> set xs. strip x \<noteq> [] \<and> length x \<le> 500)"
  by (induction xs) (auto simp: MAX_OPTION_def)

lemma validate_core_Inr: "validate_core b = Inr b' \<Longrightarrow> ballot_ok b' \<and> b_answer b' = b_answer b \<and> b' = b\<lparr>b_class := b_class b'\<rparr>"
  by (auto simp: validate_core_def ballot_ok_def Let_def check_options_None MAX_QUESTION_def MAX_OPTIONS_def
      BALLOT_CLASSES_def split: if_splits option.splits)

lemma validate_core_complete: "ballot_ok b \<Longrightarrow> validate_core b = Inr b"
  using check_options_None [of "b_options b"]
  by (auto simp: validate_core_def ballot_ok_def Let_def MAX_QUESTION_def MAX_OPTIONS_def BALLOT_CLASSES_def)

text \<open>A reference that parsed parses again from the text kept on the ballot.\<close>

lemma lstrip_idem [simp]: "lstrip (lstrip s) = lstrip s"
  by (simp add: lstrip_def)

lemma dropWhile_rev_suffix: "\<exists>u. s = rev (dropWhile p (rev s)) @ u"
  by (metis rev_append rev_rev_ident takeWhile_dropWhile_id)

lemma strip_idem [simp]: "strip (strip s) = strip s"
proof -
  obtain t where t: "t = rev (dropWhile is_space (rev (lstrip s)))" by simp
  have "lstrip t = t"
  proof (cases t)
    case Nil
    then show ?thesis by (simp add: lstrip_def)
  next
    case (Cons c t')
    from dropWhile_rev_suffix [of "lstrip s" is_space] t obtain u where "lstrip s = t @ u" by blast
    with Cons have "lstrip s = c # t' @ u" by simp
    then have "\<not> is_space c" by (metis lstrip_def hd_dropWhile list.distinct(1) list.sel(1))
    with Cons show ?thesis by (simp add: lstrip_def)
  qed
  moreover have "rev (dropWhile is_space (rev t)) = t" by (simp add: t)
  ultimately show ?thesis unfolding strip_def t [symmetric] by simp
qed

lemma strip_Nil [simp]: "strip [] = []"
  by (simp add: strip_def lstrip_def)

lemma parse_decision_ref_raw:
  "parse_decision_ref r = Inr (Some f) \<Longrightarrow> parse_decision_ref (Some (fref_raw f)) = Inr (Some f)"
  by (auto simp: parse_decision_ref_def Let_def split: option.splits if_splits)

lemma parse_decision_ref_None:
  "parse_decision_ref (Some []) = Inr None"
  by (simp add: parse_decision_ref_def Let_def)

lemma validate_decision_id_again:
  "validate_decision_id r = Inr (Some i) \<Longrightarrow> validate_decision_id (Some i) = Inr (Some i)"
  "validate_decision_id (Some []) = Inr None"
  by (auto simp: validate_decision_id_def Let_def split: option.splits if_splits)

lemma build_ballot_Inr:
  assumes "build_ballot now q opts cls lk dref did = Inr b"
  shows "ballot_ok b \<and> b_answer b = None \<and> b_formal b = None \<and>
     (\<exists>f. parse_decision_ref dref = Inr f \<and> parse_decision_ref (Some (b_decision_ref b)) = Inr f) \<and>
     (\<exists>i. validate_decision_id did = Inr i \<and> validate_decision_id (Some (b_decision_id b)) = Inr i)"
proof -
  from assms obtain f i b0 where p: "parse_decision_ref dref = Inr f" "validate_decision_id did = Inr i"
    "validate_core b0 = Inr b" "b_answer b0 = None" "b_formal b0 = None"
    "b_decision_ref b0 = (case f of None \<Rightarrow> [] | Some r \<Rightarrow> fref_raw r)"
    "b_decision_id b0 = (case i of None \<Rightarrow> [] | Some i \<Rightarrow> i)"
    by (auto simp: build_ballot_def split: sum.splits)
  from validate_core_Inr [OF p(3)] have b: "ballot_ok b" "b_answer b = b_answer b0" "b = b0\<lparr>b_class := b_class b\<rparr>" by auto
  from b(3) have "b_formal b = b_formal b0" "b_decision_ref b = b_decision_ref b0" "b_decision_id b = b_decision_id b0"
    by (metis ballot.select_convs ballot.surjective ballot.update_convs)+
  with b p show ?thesis
    using parse_decision_ref_raw [of dref] parse_decision_ref_None validate_decision_id_again
    by (cases f; cases i) auto
qed

text \<open>An answered ballot is not answered again.\<close>

lemma record_answer_once:
  "record_answer now b a by = Inr b' \<Longrightarrow> record_answer now' b' a' by' = Inl AlreadyAnswered"
  by (auto simp: record_answer_def validate_answer_def Let_def split: if_splits option.splits)

end
