(* ===== verification/ReviewerGate.thy ===== *)
theory ReviewerGate
  imports LandingGate
begin

text \<open>
  Two gates on delivered text: the reviewer-completion verdict gate
  (\<^verbatim>\<open>core/reviewer_gate.py\<close>) and the deliverable guard of the reap path
  (\<^verbatim>\<open>core/deliverable_guard.py\<close>). Multi-line anchors are written with the look-around
  constructors: the start of a line is not preceded, and its end not followed, by anything but a
  line feed.
\<close>

section \<open>Verdicts\<close>

definition line_start :: rx where
  "line_start = NotBehind (\<lambda>c. c \<noteq> CHR 0x0A)"

definition line_end :: rx where
  "line_end = NotAhead (\<lambda>c. c \<noteq> CHR 0x0A)"

definition token_char :: "char \<Rightarrow> bool" where
  "token_char c \<longleftrightarrow> is_word c \<or> c = CHR ''-''"

definition verdict_tokens :: rx where
  "verdict_tokens =
     Alts (map Lit [''PASS'', ''NEEDS-CHANGES'', ''NEEDS_CHANGES'', ''NEEDS-HUMAN'', ''NEEDS_HUMAN'',
                    ''INCOMPLETE-ROSTER'', ''INCOMPLETE_ROSTER'', ''NOT-READY'', ''NOT_READY'',
                    ''APPROVE'', ''APPROVED''])"

definition NOT_READY_RE :: rx where
  "NOT_READY_RE =
     Seqs [LitCI ''verdict'', Rep 0 (Some 4) True (ci (\<lambda>c. \<not> (is_lower c \<or> is_upper c))),
           Rep 0 (Some 2) True (is_char CHR ''*''), Star is_space, Opt (is_char CHR '':''),
           Star is_space, Rep 0 (Some 2) True (is_char CHR ''*''), Star is_space,
           Grp 1 (LitCI ''NOT-READY'')]"

definition PROMOTED_RE :: rx where
  "PROMOTED_RE = LitCI ''TRANSCRIPT-PROMOTED''"

definition LINE_TOKEN_RE :: rx where
  "LINE_TOKEN_RE =
     Seqs [line_start, Star is_space, Star (\<lambda>c. \<not> is_word c \<or> c = CHR ''_''),
           Rep 0 (Some 80) False not_newline, NotBehind token_char, Grp 1 verdict_tokens,
           NotAhead token_char, Rep 0 (Some 120) True not_newline, line_end]"

definition VERDICT_LINE_RE :: rx where
  "VERDICT_LINE_RE = LitCI ''verdict''"

definition TOKEN_WORD_RE :: rx where
  "TOKEN_WORD_RE = Seqs [NotBehind token_char, Grp 1 verdict_tokens, NotAhead token_char]"

definition LANDS_RE :: rx where
  "LANDS_RE = Seqs [WordB, Lit ''land'', Opt (is_char CHR ''s''), WordB]"

definition is_landing_row :: "task \<Rightarrow> bool" where
  "is_landing_row t =
     (if landing_artifact t \<noteq> None then True
      else re_search LANDS_RE (replace_char CHR ''_'' CHR ''-'' (lower (t_lane_key t))) \<noteq> None)"

text \<open>\<open>str.splitlines()\<close> on ASCII text.\<close>

definition is_linebreak :: "char \<Rightarrow> bool" where
  "is_linebreak c \<longleftrightarrow> (let n = of_char c :: int in (10 \<le> n \<and> n \<le> 13) \<or> (28 \<le> n \<and> n \<le> 30))"

fun lines_from :: "string \<Rightarrow> string \<Rightarrow> string list" where
  "lines_from cur [] = (if cur = [] then [] else [rev cur])"
| "lines_from cur (c # s) =
     (if is_linebreak c
      then rev cur # (case s of
                        [] \<Rightarrow> []
                      | d # r \<Rightarrow> if c = CHR 0x0D \<and> d = CHR 0x0A then lines_from [] r else lines_from [] s)
      else lines_from (c # cur) s)"

definition splitlines :: "string \<Rightarrow> string list" where
  "splitlines s = lines_from [] s"

text \<open>The normal form of a token: upper case, hyphens, and an approval is a pass.\<close>

definition token_verdict :: "string \<Rightarrow> string" where
  "token_verdict tok =
     (let v = replace_char CHR ''_'' CHR ''-'' (upper tok)
      in if v = ''APPROVE'' \<or> v = ''APPROVED'' then ''PASS'' else v)"

fun verdict_lines :: "string list \<Rightarrow> string option" where
  "verdict_lines [] = None"
| "verdict_lines (l # ls) =
     (if re_search VERDICT_LINE_RE l \<noteq> None
      then let tok = re_findall TOKEN_WORD_RE l
           in if tok \<noteq> [] then Some (token_verdict (last tok)) else verdict_lines ls
      else verdict_lines ls)"

definition reviewer_verdict :: "string option \<Rightarrow> string option" where
  "reviewer_verdict result =
     (case result of
        None \<Rightarrow> None
      | Some r \<Rightarrow>
          if strip r = [] then None
          else if re_search PROMOTED_RE r \<noteq> None then None
          else case fst (parse_reviewer_verdict r) of
                 Some v \<Rightarrow> Some v
               | None \<Rightarrow>
                   let hits = re_findall NOT_READY_RE r
                   in if hits \<noteq> [] then Some (upper (last hits))
                      else let hits2 = re_findall LINE_TOKEN_RE r
                           in if hits2 \<noteq> [] then Some (token_verdict (last hits2))
                              else verdict_lines (splitlines r))"

definition NO_VERDICT :: string where
  "NO_VERDICT =
     ''reviewer completed with no verdict (#919): status=completed is not evidence a review happened ''
     @ em_dash @ '' the delivered result carries no PASS / NEEDS-CHANGES / NEEDS-HUMAN / ''
     @ ''INCOMPLETE-ROSTER / NOT-READY verdict word (or is a #871 transcript promotion). ''
     @ ''The completion is refused; the task is re-queued for another delivery under the retry cap.''"

definition reviewer_completion_veto :: "task \<Rightarrow> string option \<Rightarrow> string option" where
  "reviewer_completion_veto t result =
     (if lower (strip (t_role t)) \<noteq> ''reviewer'' then None
      else if is_landing_row t then None
      else if reviewer_verdict result = None then Some NO_VERDICT
      else None)"

section \<open>Deliverables\<close>

definition PROVIDER_SHAPE :: rx where
  "PROVIDER_SHAPE =
     Seqs [Bol, LitCI ''API call failed after '', Plus is_digit, LitCI '' retries:'', Cls is_space]"

definition NO_TURN_LINE :: rx where
  "NO_TURN_LINE =
     Seqs [Lit ''Session '', Plus (\<lambda>c. \<not> is_space c), Lit '' found but has no messages. Starting fresh.'']"

definition flat :: "string \<Rightarrow> string" where
  "flat s = lower (filter (\<lambda>c. \<not> is_space c) s)"

definition ECHO_TRIM_BUDGET :: nat where
  "ECHO_TRIM_BUDGET = 16"

definition ECHO_MIN_FLAT :: nat where
  "ECHO_MIN_FLAT = 120"

text \<open>The inner loop over what is cut at the end, and the outer one over what is cut at the start.\<close>

definition echo_tails :: "string \<Rightarrow> string \<Rightarrow> bool" where
  "echo_tails cb hd_part =
     list_ex (\<lambda>tail. let core = take (length hd_part - tail) hd_part in core \<noteq> [] \<and> contains core cb)
       [0..<Suc ECHO_TRIM_BUDGET]"

definition is_echo_of_brief :: "string \<Rightarrow> string \<Rightarrow> bool" where
  "is_echo_of_brief content brief_text =
     (let cb = flat brief_text; cr = flat content
      in if length cr < ECHO_MIN_FLAT \<or> length cb < ECHO_MIN_FLAT then False
         else list_ex (\<lambda>lead. drop lead cr \<noteq> [] \<and> echo_tails cb (drop lead cr)) [0..<Suc ECHO_TRIM_BUDGET])"

definition is_provider_shape :: "string \<Rightarrow> bool \<Rightarrow> bool" where
  "is_provider_shape content is_error_response =
     (if re_match PROVIDER_SHAPE (lstrip content) \<noteq> None then True
      else if is_error_response then re_search PROVIDER_SHAPE content \<noteq> None
      else False)"

definition classify_non_deliverable :: "string \<Rightarrow> string \<Rightarrow> bool \<Rightarrow> string option" where
  "classify_non_deliverable content brief_text is_error_response =
     (if strip content = [] then None
      else if is_provider_shape content is_error_response then Some ''provider_error''
      else if is_echo_of_brief content brief_text then Some ''brief_echo''
      else None)"

definition has_no_turn_stderr :: "string \<Rightarrow> bool" where
  "has_no_turn_stderr stderr_text = (stderr_text \<noteq> [] \<and> re_search NO_TURN_LINE stderr_text \<noteq> None)"

section \<open>Facts\<close>

text \<open>A pattern that starts with \<open>^\<close> can only be found at the start of the text.\<close>

lemma rxm_Bol_later: "b \<noteq> [] \<Longrightarrow> rxm (Seqs (Bol # rs)) (b, s, g) = []"
  by simp

lemma search_anchored: "b \<noteq> [] \<Longrightarrow> search_from (Seqs (Bol # rs)) b s = None"
proof (induction s arbitrary: b)
  case Nil
  then show ?case by (subst search_from.simps) (simp del: rxm_Seqs_Cons add: rxm_Bol_later)
next
  case (Cons c s)
  then show ?case by (subst search_from.simps) (simp del: rxm_Seqs_Cons add: rxm_Bol_later)
qed

lemma re_search_anchored: "re_search (Seqs (Bol # rs)) s = re_match (Seqs (Bol # rs)) s"
proof (cases "rxm (Seqs (Bol # rs)) ([], s, [])")
  case Nil
  then have "search_from (Seqs (Bol # rs)) [] s = None"
    by (subst search_from.simps) (simp add: search_anchored del: rxm_Seqs_Cons split: list.split)
  with Nil show ?thesis by (simp add: re_search_def re_match_def first_opt_def del: rxm_Seqs_Cons)
next
  case (Cons p ps)
  then have "search_from (Seqs (Bol # rs)) [] s = Some (snd (snd p))"
    by (subst search_from.simps) (simp del: rxm_Seqs_Cons split: prod.split)
  with Cons show ?thesis
    by (simp add: re_search_def re_match_def first_opt_def case_prod_beta del: rxm_Seqs_Cons)
qed

text \<open>The provider shape does not start with white space.\<close>

lemma LitCI_head:
  "rxm (Seqs (Bol # LitCI (w # ws) # rs)) ([], c # s, g) \<noteq> [] \<Longrightarrow> lower_char c = lower_char w"
  by (rule ccontr) simp

lemma space_not_a: "lower_char c = CHR ''a'' \<Longrightarrow> \<not> is_space c"
  by (auto simp: lower_char_def is_space_def is_upper_def Let_def split: if_splits)

lemma provider_shape_lstrip:
  assumes "re_match PROVIDER_SHAPE s \<noteq> None"
  shows "lstrip s = s"
proof (cases s)
  case (Cons c s')
  from assms have "rxm PROVIDER_SHAPE ([], c # s', []) \<noteq> []"
    using Cons by (auto simp: re_match_def first_opt_def)
  from LitCI_head [OF this [unfolded PROVIDER_SHAPE_def]] have "lower_char c = lower_char CHR ''A''" .
  moreover have "lower_char CHR ''A'' = CHR ''a''" by code_simp
  ultimately show ?thesis using space_not_a [of c] Cons by (simp add: lstrip_def)
qed (simp add: lstrip_def)

lemma is_provider_shape_flag: "is_provider_shape c True = is_provider_shape c False"
proof -
  have s: "re_search PROVIDER_SHAPE c = re_match PROVIDER_SHAPE c"
    unfolding PROVIDER_SHAPE_def by (rule re_search_anchored)
  show ?thesis
  proof (cases "re_match PROVIDER_SHAPE c = None")
    case True
    with s show ?thesis by (simp add: is_provider_shape_def)
  next
    case False
    from provider_shape_lstrip [OF this] False show ?thesis by (simp add: is_provider_shape_def)
  qed
qed

text \<open>
  The echo test finds exactly the bodies that are in the brief after cutting at most sixteen
  characters at either end.
\<close>

lemma list_ex_upto: "list_ex P [0..<Suc n] \<longleftrightarrow> (\<exists>x \<le> n. P x)"
  by (auto simp: list_ex_iff less_Suc_eq_le simp del: upt_Suc)

lemma echo_tails_iff:
  "echo_tails cb h \<longleftrightarrow> (\<exists>tail \<le> 16. tail < length h \<and> contains (take (length h - tail) h) cb)"
  unfolding echo_tails_def ECHO_TRIM_BUDGET_def list_ex_upto Let_def
  by (rule ex_cong1) (auto simp: not_le)

lemma is_echo_alt:
  "is_echo_of_brief content brief \<longleftrightarrow> 120 \<le> length (flat content) \<and> 120 \<le> length (flat brief) \<and>
     (\<exists>lead \<le> 16. drop lead (flat content) \<noteq> [] \<and> echo_tails (flat brief) (drop lead (flat content)))"
  unfolding is_echo_of_brief_def Let_def ECHO_MIN_FLAT_def ECHO_TRIM_BUDGET_def list_ex_upto
  by (simp add: not_less)

lemma is_echo_iff:
  "is_echo_of_brief content brief \<longleftrightarrow>
   120 \<le> length (flat content) \<and> 120 \<le> length (flat brief) \<and>
   (\<exists>pre core post. flat content = pre @ core @ post \<and> core \<noteq> [] \<and> length pre \<le> 16 \<and> length post \<le> 16 \<and>
      contains core (flat brief))" (is "?L \<longleftrightarrow> ?R")
proof
  assume ?L
  then obtain lead tail where len: "120 \<le> length (flat content)" "120 \<le> length (flat brief)"
    and lt: "lead \<le> 16" "tail \<le> 16" "tail < length (drop lead (flat content))"
      "contains (take (length (drop lead (flat content)) - tail) (drop lead (flat content))) (flat brief)"
    unfolding is_echo_alt echo_tails_iff by blast
  let ?d = "drop lead (flat content)"
  have "flat content = take lead (flat content) @ take (length ?d - tail) ?d @ drop (length ?d - tail) ?d"
    by (metis append_take_drop_id)
  moreover have "take (length ?d - tail) ?d \<noteq> []" using lt(3) by auto
  moreover have "length (take lead (flat content)) \<le> 16" "length (drop (length ?d - tail) ?d) \<le> 16" using lt by auto
  ultimately show ?R using len lt(4) by blast
next
  assume ?R
  then obtain pre core post where p: "flat content = pre @ core @ post" "core \<noteq> []" "length pre \<le> 16"
    "length post \<le> 16" "contains core (flat brief)"
    and len: "120 \<le> length (flat content)" "120 \<le> length (flat brief)" by blast
  have d: "drop (length pre) (flat content) = core @ post" using p(1) by simp
  have "echo_tails (flat brief) (core @ post)"
    unfolding echo_tails_iff using p(2,4,5) by (intro exI [of _ "length post"]) simp
  with d p(2,3) len show ?L unfolding is_echo_alt by (metis append_is_Nil_conv)
qed

end
