(* ===== verification/TaskRouter.thy ===== *)
theory TaskRouter
  imports LeaseManager Ballot ReviewerGate
begin

text \<open>
  The task endpoints of \<^verbatim>\<open>routers/tasks.py\<close>. A handler runs to its end without yielding, so it is
  one function of the request, the clock, the lease manager (absent in some configurations) and the
  store. An \<open>HTTPException\<close> is a \<open>refusal\<close>, one constructor per raise with what its text names;
  the status code of each is \<open>status_code\<close>. Since the store hands out the stored objects, what a
  handler reads after a change is what the store then holds.
\<close>

type_synonym router = "lease_manager option \<times> cluster_state"

datatype refusal =
  TaskNotFound
| BriefInTitle string
| TargetNotNamed string string
| ActionMismatch string string "string list"
| ReviewerLands string string
| AuthorLands string string
| UnsatisfiableCapability "string list" "string list"
| UnknownDependency "string list"
| AlreadyTerminal task_status
| ReasonRequired
| NotCancelable task_status
| NotBlocked
| BallotOnTerminal task_status
| AlreadyBlocked
| BallotRejected ballot_error
| BlockRaced
| NoBallot task_status bool
| AnswerRejected
| AnswerConflict ballot_error
| AdvanceTerminal task_status
| DependenciesNotMet
| NotClaimable task_status
| AlreadyClaimed
| NotAssignedHere
| ReleaseTerminal task_status

fun status_code :: "refusal \<Rightarrow> nat" where
  "status_code TaskNotFound = 404"
| "status_code (BriefInTitle _) = 422"
| "status_code (TargetNotNamed _ _) = 422"
| "status_code (ActionMismatch _ _ _) = 422"
| "status_code (ReviewerLands _ _) = 409"
| "status_code (AuthorLands _ _) = 409"
| "status_code (UnsatisfiableCapability _ _) = 422"
| "status_code (UnknownDependency _) = 422"
| "status_code (AlreadyTerminal _) = 409"
| "status_code ReasonRequired = 422"
| "status_code (NotCancelable _) = 409"
| "status_code NotBlocked = 400"
| "status_code (BallotOnTerminal _) = 409"
| "status_code AlreadyBlocked = 409"
| "status_code (BallotRejected _) = 422"
| "status_code BlockRaced = 409"
| "status_code (NoBallot _ _) = 409"
| "status_code AnswerRejected = 422"
| "status_code (AnswerConflict _) = 409"
| "status_code (AdvanceTerminal _) = 409"
| "status_code DependenciesNotMet = 400"
| "status_code (NotClaimable _) = 409"
| "status_code AlreadyClaimed = 409"
| "status_code NotAssignedHere = 403"
| "status_code (ReleaseTerminal _) = 409"

section \<open>Submission\<close>

definition LANE_TARGET_RE :: rx where
  "LANE_TARGET_RE = Seqs [Cls (\<lambda>c. c = CHR ''!'' \<or> c = CHR ''#''), Grp 1 (Plus is_digit)]"

definition lane_target :: "string \<Rightarrow> string option" where
  "lane_target lane_key = map_option (group 1) (re_search LANE_TARGET_RE lane_key)"

definition schedulable_nodes :: "cluster_state \<Rightarrow> node list" where
  "schedulable_nodes s = filter (\<lambda>n. \<not> n_drained n) (get_all_nodes s)"

definition known_capabilities :: "cluster_state \<Rightarrow> string list" where
  "known_capabilities s = remdups (concat (map n_capabilities (schedulable_nodes s)))"

definition unsatisfiable_capabilities :: "string list \<Rightarrow> cluster_state \<Rightarrow> string list" where
  "unsatisfiable_capabilities requires s =
     (if requires = [] then []
      else if schedulable_nodes s = [] then []
      else filter (\<lambda>c. c \<notin> set (known_capabilities s)) (remdups requires))"

definition brief_names_target :: "string \<Rightarrow> string \<Rightarrow> bool" where
  "brief_names_target title target =
     (re_search (Seqs [NotBehind is_digit, Lit target, NotAhead is_digit]) title \<noteq> None)"

text \<open>Building blocks of the verbose pattern: optional parts and required white space.\<close>

abbreviation maybe :: "rx \<Rightarrow> rx" where
  "maybe r \<equiv> Alt r Eps"

abbreviation sp :: rx where
  "sp \<equiv> Plus is_space"

definition bang_hash :: rx where
  "bang_hash = Opt (\<lambda>c. c = CHR ''!'' \<or> c = CHR ''#'')"

definition referrer :: rx where
  "referrer = Alts [LitCI ''pr'', LitCI ''mr'', LitCI ''issue'']"

definition ACTION_REF_RE :: rx where
  "ACTION_REF_RE =
     Seqs [WordB,
       Alts
        [Seqs [Alt (LitCI ''gh'') (LitCI ''glab''), sp, referrer, sp,
               Alts (map LitCI [''comment'', ''review'', ''close'', ''merge'', ''edit'', ''approve'', ''ready''])],
         Seqs [LitCI ''comment'', maybe (Alt (LitCI ''s'') (LitCI ''ed'')), sp, LitCI ''on''],
         Seqs [LitCI ''post'', maybe (Alt (LitCI ''s'') (LitCI ''ed'')),
               maybe (Seqs [sp, LitCI ''the'', sp, Plus is_word]), sp,
               Alts [LitCI ''to'', LitCI ''on'', LitCI ''in'']],
         Seqs [LitCI ''verdict'', sp, Alt (LitCI ''on'') (LitCI ''for'')],
         Seqs [LitCI ''review'', maybe (Alt (LitCI ''s'') (LitCI ''ed'')),
               maybe (Seqs [sp, LitCI ''the'']), sp, referrer, Star is_space, bang_hash],
         Seqs [Alt (LitCI ''merge'') (LitCI ''close''), sp, maybe (Seqs [LitCI ''the'', sp]),
               referrer, Star is_space, bang_hash],
         Seqs [Alt (LitCI ''merged'') (LitCI ''closed''), sp, LitCI ''the'', sp, maybe referrer]],
       Star is_space, bang_hash, Star is_space, Grp 1 (Plus is_digit), NotAhead is_word]"

definition brief_action_numbers :: "string \<Rightarrow> string list" where
  "brief_action_numbers brief = re_findall ACTION_REF_RE brief"

definition action_ref_mismatches :: "string \<Rightarrow> string \<Rightarrow> string list" where
  "action_ref_mismatches brief target =
     filter (\<lambda>n. \<not> brief_names_target n target) (brief_action_numbers brief)"

record submit_request =
  sq_title :: string
  sq_description :: string
  sq_requires :: "string list"
  sq_priority :: "int option"
  sq_lane_key :: string
  sq_role :: string
  sq_depends_on :: "string list"

datatype submit_reply = Deduped task | Submitted "task option"

definition live_reviewer :: "submit_request \<Rightarrow> task \<Rightarrow> bool" where
  "live_reviewer req t \<longleftrightarrow> t_role t = ''reviewer'' \<and> t_lane_key t = sq_lane_key req \<and>
     t_status t \<in> {Pending, Ready, Assigned, Running, CancelRequested}"

text \<open>The guards on the text of the request.\<close>

definition brief_guard :: "submit_request \<Rightarrow> refusal option" where
  "brief_guard req =
     (let described = strip (sq_description req) \<noteq> [];
          brief = (if described then sq_description req else sq_title req)
      in if sq_lane_key req \<noteq> [] \<and> CHR 0x0A \<in> set (strip (sq_title req))
         then Some (BriefInTitle (sq_lane_key req))
         else case lane_target (sq_lane_key req) of
                None \<Rightarrow> None
              | Some target \<Rightarrow>
                  if \<not> brief_names_target brief target then Some (TargetNotNamed (sq_lane_key req) target)
                  else let mismatches = action_ref_mismatches brief target
                             @ (if described then action_ref_mismatches (sq_title req) target else [])
                       in if mismatches \<noteq> []
                          then Some (ActionMismatch (sq_lane_key req) target (sort (remdups mismatches)))
                          else None)"

text \<open>The guards on the identity of a landing.\<close>

definition landing_guard :: "time \<Rightarrow> submit_request \<Rightarrow> cluster_state \<Rightarrow> refusal option" where
  "landing_guard now req s =
     (case landing_artifact ((default_task now ''_probe'' (sq_title req))
              \<lparr>t_requires := sq_requires req, t_lane_key := sq_lane_key req,
               t_role := (if sq_role req = [] then ''author'' else sq_role req)\<rparr>) of
        None \<Rightarrow> None
      | Some (repo, n) \<Rightarrow>
          let target = artifact_ref repo n; lane_name = strip (sq_lane_key req)
          in if lane_name \<noteq> [] \<and> lane_name = target then Some (ReviewerLands lane_name target)
             else if lane_name \<noteq> [] \<and> lane_name \<in> set (authoring_lanes (get_all_tasks s) repo n [])
             then Some (AuthorLands lane_name target)
             else None)"

text \<open>The arguments of \<open>create_task\<close>: the priority defaults, empty dependencies are dropped.\<close>

definition submit_plan :: "string \<Rightarrow> submit_request \<Rightarrow> task_plan" where
  "submit_plan task_id req =
     \<lparr>pl_task_id = task_id, pl_title = sq_title req, pl_requires = sq_requires req,
      pl_priority = (case sq_priority req of None \<Rightarrow> DEFAULT_PRIORITY | Some p \<Rightarrow> p),
      pl_lane_key = sq_lane_key req, pl_role = sq_role req, pl_description = sq_description req,
      pl_issues = [], pl_depends_on = filter (\<lambda>d. d \<noteq> []) (sq_depends_on req)\<rparr>"

definition submit_task ::
  "time \<Rightarrow> submit_request \<Rightarrow> router \<Rightarrow> refusal + submit_reply \<times> router" where
  "submit_task now req rt =
     (let s = snd rt in
      case brief_guard req of
        Some e \<Rightarrow> Inl e
      | None \<Rightarrow>
          (case (if lower (strip (sq_role req)) = ''reviewer'' \<and> sq_lane_key req \<noteq> []
                 then find (live_reviewer req) (get_all_tasks s) else None) of
             Some t \<Rightarrow> Inr (Deduped t, rt)
           | None \<Rightarrow>
               (case landing_guard now req s of
                  Some e \<Rightarrow> Inl e
                | None \<Rightarrow>
                    let unknown = unsatisfiable_capabilities (sq_requires req) s
                    in if unknown \<noteq> []
                       then Inl (UnsatisfiableCapability (sort unknown) (sort (known_capabilities s)))
                       else
                         let (task_id, s1) = generate_id ''task'' s;
                             plan = submit_plan task_id req;
                             missing = filter (\<lambda>d. get_task s1 d = None) (pl_depends_on plan)
                         in if missing \<noteq> [] then Inl (UnknownDependency missing)
                            else let (t, s2) = create_task now plan s1;
                                     s3 = snd (trigger_pending_tasks now s2)
                                 in Inr (Submitted (get_task s3 task_id), (fst rt, s3)))))"

section \<open>Leases of a task\<close>

text \<open>
  \<open>lease = _lease_manager.get_by_task(id); if lease: _lease_manager.revoke(lease.id)\<close>, when there is
  a manager.
\<close>

definition lease_of :: "string \<Rightarrow> router \<Rightarrow> lease option" where
  "lease_of task_id rt = (case fst rt of None \<Rightarrow> None | Some _ \<Rightarrow> lm_get_by_task task_id (snd rt))"

definition revoke_of :: "lease \<Rightarrow> router \<Rightarrow> router" where
  "revoke_of l rt =
     (case fst rt of
        None \<Rightarrow> rt
      | Some m \<Rightarrow> let (_, m1, s1) = lm_revoke (l_id l) m (snd rt) in (Some m1, s1))"

definition drop_lease :: "string \<Rightarrow> router \<Rightarrow> router" where
  "drop_lease task_id rt = (case lease_of task_id rt of None \<Rightarrow> rt | Some l \<Rightarrow> revoke_of l rt)"

definition with_store :: "(cluster_state \<Rightarrow> 'a \<times> cluster_state) \<Rightarrow> router \<Rightarrow> router" where
  "with_store f rt = (fst rt, snd (f (snd rt)))"

section \<open>Cascade\<close>

definition cancel_dependent :: "time \<Rightarrow> string \<Rightarrow> string \<Rightarrow> router \<Rightarrow> router" where
  "cancel_dependent now reason dep_id rt =
     (case get_task (snd rt) dep_id of
        None \<Rightarrow> rt
      | Some t \<Rightarrow>
          if t_status t \<in> {Completed, Failed, Cancelled, CancelRequested} then rt
          else case lease_of dep_id rt of
                 Some l \<Rightarrow> with_store (set_task_status now dep_id CancelRequested reason) (revoke_of l rt)
               | None \<Rightarrow> with_store (set_task_status now dep_id Cancelled reason) rt)"

definition cascade_cancel_dependents ::
  "time \<Rightarrow> string \<Rightarrow> string \<Rightarrow> router \<Rightarrow> string list \<times> router" where
  "cascade_cancel_dependents now task_id reason rt =
     (let chain = get_trigger_chain (snd rt) task_id 10
      in (chain, fold (cancel_dependent now reason) chain rt))"

section \<open>Completion\<close>

definition trigger_dependent :: "time \<Rightarrow> string \<Rightarrow> cluster_state \<Rightarrow> cluster_state" where
  "trigger_dependent now dep_id s =
     (case get_task s dep_id of
        None \<Rightarrow> s
      | Some t \<Rightarrow>
          if t_status t \<noteq> Pending then s
          else if \<not> list_all (dep_completed s) (t_depends_on t) then s
          else case hold_reason (get_all_tasks s) t of
                 Some reason \<Rightarrow>
                   if (case t_fail_reason t of None \<Rightarrow> [] | Some f \<Rightarrow> f) \<noteq> reason
                   then snd (set_task_status now dep_id Pending reason s) else s
               | None \<Rightarrow> snd (set_task_status now dep_id Ready [] s))"

definition trigger_downstream :: "time \<Rightarrow> string \<Rightarrow> cluster_state \<Rightarrow> cluster_state" where
  "trigger_downstream now task_id s =
     snd (schedule_pending now (fold (trigger_dependent now) (get_dependents s task_id) s))"

datatype complete_reply =
  AckCancelled
| CompleteRequeued string
| CompleteFailed string "string list"
| CompletedReply bool

definition parent_failed :: "string \<Rightarrow> string" where
  "parent_failed task_id = ''parent '' @ task_id @ '' failed''"

definition complete_task ::
  "time \<Rightarrow> string \<Rightarrow> string option \<Rightarrow> router \<Rightarrow> refusal + complete_reply \<times> router" where
  "complete_task now task_id result rt =
     (case get_task (snd rt) task_id of
        None \<Rightarrow> Inl TaskNotFound
      | Some t \<Rightarrow>
          if t_status t \<in> {Completed, Failed, Cancelled} then Inl (AlreadyTerminal (t_status t))
          else
            let rt1 = drop_lease task_id rt
            in if t_status t = CancelRequested
               then Inr (AckCancelled, with_store (set_task_status now task_id Cancelled ''cancelled'') rt1)
               else
                 let (stored, s2) = set_task_result now task_id result (snd rt1);
                     rt2 = (fst rt1, s2)
                 in case reviewer_completion_veto t result of
                      Some veto \<Rightarrow>
                        (let rt3 = drop_lease task_id rt2;
                             (requeued, s4) = requeue_task now task_id veto (snd rt3)
                         in if requeued
                            then Inr (CompleteRequeued veto, (fst rt3, snd (schedule_pending now s4)))
                            else
                              let rt5 = (fst rt3, snd (set_task_status now task_id Failed veto s4));
                                  (blocked, rt6) = cascade_cancel_dependents now task_id
                                                     (parent_failed task_id @ '' (#919)'') rt5
                              in Inr (CompleteFailed veto blocked, rt6))
                    | None \<Rightarrow>
                        let s3 = snd (set_task_status now task_id Completed [] s2)
                        in Inr (CompletedReply stored, (fst rt2, trigger_downstream now task_id s3)))"

section \<open>Failure\<close>

datatype fail_reply = FailAckCancelled | FailRequeued string | FailedReply "string list"

definition fail_task ::
  "time \<Rightarrow> string \<Rightarrow> string option \<Rightarrow> bool \<Rightarrow> router \<Rightarrow> refusal + fail_reply \<times> router" where
  "fail_task now task_id req_reason requeue rt =
     (case get_task (snd rt) task_id of
        None \<Rightarrow> Inl TaskNotFound
      | Some t \<Rightarrow>
          let reason = strip (case req_reason of None \<Rightarrow> [] | Some r \<Rightarrow> r)
          in if reason = [] then Inl ReasonRequired
             else if t_status t \<in> {Completed, Failed, Cancelled} then Inl (AlreadyTerminal (t_status t))
             else if t_status t = CancelRequested
             then Inr (FailAckCancelled, with_store (set_task_status now task_id Cancelled reason) rt)
             else
               let (requeued, s1) = (if requeue then requeue_task now task_id reason (snd rt) else (False, snd rt))
               in if requeued
                  then Inr (FailRequeued reason, (fst rt, snd (schedule_pending now s1)))
                  else
                    let rt2 = drop_lease task_id (fst rt, s1);
                        rt3 = with_store (set_task_status now task_id Failed reason) rt2;
                        (blocked, rt4) = cascade_cancel_dependents now task_id (parent_failed task_id) rt3
                    in Inr (FailedReply blocked, rt4))"

section \<open>Cancellation\<close>

datatype cancel_reply = CancelledNow bool | CancelPending bool

definition cancel_task ::
  "time \<Rightarrow> string \<Rightarrow> string \<Rightarrow> bool option \<Rightarrow> router \<Rightarrow> refusal + cancel_reply \<times> router" where
  "cancel_task now task_id reason req_requeue rt =
     (case get_task (snd rt) task_id of
        None \<Rightarrow> Inl TaskNotFound
      | Some t \<Rightarrow>
          let requeue = (case req_requeue of None \<Rightarrow> False | Some b \<Rightarrow> b);
              because = ''parent '' @ task_id @ '' cancelled''
          in if t_status t \<in> {Completed, Failed, Cancelled, CancelRequested}
             then Inl (NotCancelable (t_status t))
             else case lease_of task_id rt of
                    None \<Rightarrow>
                      (let rt1 = with_store (set_task_cancel_requeue now task_id requeue) rt;
                           rt2 = with_store (set_task_status now task_id Cancelled reason) rt1
                       in Inr (CancelledNow requeue, snd (cascade_cancel_dependents now task_id because rt2)))
                  | Some l \<Rightarrow>
                      (let rt0 = revoke_of l rt;
                           rt1 = with_store (set_task_cancel_requeue now task_id requeue) rt0;
                           rt2 = with_store (set_task_status now task_id CancelRequested reason) rt1
                       in Inr (CancelPending requeue, snd (cascade_cancel_dependents now task_id because rt2))))"

definition unblock_endpoint :: "time \<Rightarrow> string \<Rightarrow> router \<Rightarrow> refusal + router" where
  "unblock_endpoint now task_id rt =
     (let (ok, s1) = unblock_task now task_id (snd rt)
      in if ok then Inr (fst rt, s1) else Inl NotBlocked)"

section \<open>Ballots\<close>

record block_request =
  bq_question :: string
  bq_options :: "string list"
  bq_class :: "string option"
  bq_lane_key :: string
  bq_decision_ref :: "string option"
  bq_decision_id :: "string option"

text \<open>A refusal may come after the store has changed; the router is then returned with it.\<close>

definition block_task ::
  "time \<Rightarrow> string \<Rightarrow> block_request \<Rightarrow> router \<Rightarrow> (refusal \<times> router) + ballot \<times> router" where
  "block_task now task_id req rt =
     (case get_task (snd rt) task_id of
        None \<Rightarrow> Inl (TaskNotFound, rt)
      | Some t \<Rightarrow>
          if t_status t \<in> {Completed, Failed, Cancelled, CancelRequested}
          then Inl (BallotOnTerminal (t_status t), rt)
          else if t_status t = Blocked then Inl (AlreadyBlocked, rt)
          else case build_ballot now (bq_question req) (bq_options req) (bq_class req)
                      (if bq_lane_key req \<noteq> [] then bq_lane_key req else t_lane_key t)
                      (bq_decision_ref req) (bq_decision_id req) of
                 Inl e \<Rightarrow> Inl (BallotRejected e, rt)
               | Inr b \<Rightarrow>
                   let rt1 = drop_lease task_id rt;
                       rt2 = with_store (set_task_ballot now task_id (Some b)) rt1;
                       (ok, s3) = set_task_status now task_id Blocked ''awaiting owner decision (ballot)'' (snd rt2)
                   in if ok then Inr (b, (fst rt2, s3))
                      else Inl (BlockRaced, with_store (set_task_ballot now task_id None) (fst rt2, s3)))"

datatype answer_reply = Answered ballot | AnsweredNotResumed ballot

definition answer_task ::
  "time \<Rightarrow> string \<Rightarrow> string \<Rightarrow> string \<Rightarrow> router \<Rightarrow> refusal + answer_reply \<times> router" where
  "answer_task now task_id req_answer answered_by rt =
     (case get_task (snd rt) task_id of
        None \<Rightarrow> Inl TaskNotFound
      | Some t \<Rightarrow>
          (case t_ballot t of
             None \<Rightarrow> Inl (NoBallot (t_status t) False)
           | Some b0 \<Rightarrow>
               if t_status t \<noteq> Blocked then Inl (NoBallot (t_status t) True)
               else case validate_answer req_answer of
                      None \<Rightarrow> Inl AnswerRejected
                    | Some answer \<Rightarrow>
                        (case record_answer now b0 answer answered_by of
                           Inl e \<Rightarrow> Inl (AnswerConflict e)
                         | Inr b1 \<Rightarrow>
                             let b = attach_formal b1 task_id;
                                 s1 = snd (set_task_ballot now task_id (Some b) (snd rt));
                                 (resumed, s2) = unblock_to_ready now task_id s1
                             in if resumed then Inr (Answered b, (fst rt, s2))
                                else Inr (AnsweredNotResumed b, (fst rt, s2)))))"

record pending_ballot =
  pb_task_id :: string
  pb_title :: string
  pb_lane_key :: string
  pb_node :: string
  pb_question :: string
  pb_options :: "string list"
  pb_class :: string
  pb_asked_at :: time

definition unanswered :: "ballot \<Rightarrow> bool" where
  "unanswered b \<longleftrightarrow> b_answer b = None \<or> b_answer b = Some []"

definition pending_row :: "task \<Rightarrow> pending_ballot option" where
  "pending_row t =
     (case t_ballot t of
        None \<Rightarrow> None
      | Some b \<Rightarrow>
          if t_status t \<noteq> Blocked \<or> \<not> unanswered b then None
          else Some \<lparr>pb_task_id = t_id t, pb_title = take 120 (t_title t), pb_lane_key = t_lane_key t,
                     pb_node = (case t_assigned_to t of None \<Rightarrow> [] | Some n \<Rightarrow> n),
                     pb_question = b_question b, pb_options = b_options b, pb_class = b_class b,
                     pb_asked_at = b_asked_at b\<rparr>)"

definition pending_ballots :: "cluster_state \<Rightarrow> pending_ballot list" where
  "pending_ballots s = sort_key pb_asked_at (List.map_filter pending_row (get_all_tasks s))"

section \<open>Advance, dependencies, claim, release\<close>

definition manual_advance :: "time \<Rightarrow> string \<Rightarrow> router \<Rightarrow> refusal + router" where
  "manual_advance now task_id rt =
     (case get_task (snd rt) task_id of
        None \<Rightarrow> Inl TaskNotFound
      | Some t \<Rightarrow>
          if t_status t \<in> {Completed, Failed, Cancelled, CancelRequested} then Inl (AdvanceTerminal (t_status t))
          else if t_depends_on t \<noteq> [] \<and> \<not> list_all (dep_completed (snd rt)) (t_depends_on t)
          then Inl DependenciesNotMet
          else let s1 = snd (set_task_status now task_id Ready [] (snd rt))
               in Inr (fst rt, snd (schedule_pending now s1)))"

definition set_dependencies_endpoint ::
  "time \<Rightarrow> string \<Rightarrow> string list \<Rightarrow> router \<Rightarrow> refusal + task option \<times> router" where
  "set_dependencies_endpoint now task_id depends_on rt =
     (case get_task (snd rt) task_id of
        None \<Rightarrow> Inl TaskNotFound
      | Some _ \<Rightarrow>
          let s1 = snd (set_dependencies now task_id depends_on (snd rt))
          in Inr (get_task s1 task_id, (fst rt, s1)))"

definition read_task :: "string \<Rightarrow> router \<Rightarrow> refusal + task" where
  "read_task task_id rt = (case get_task (snd rt) task_id of None \<Rightarrow> Inl TaskNotFound | Some t \<Rightarrow> Inr t)"

definition trigger_chain_endpoint :: "string \<Rightarrow> router \<Rightarrow> refusal + string list \<times> nat" where
  "trigger_chain_endpoint task_id rt =
     (case get_task (snd rt) task_id of
        None \<Rightarrow> Inl TaskNotFound
      | Some _ \<Rightarrow> let chain = get_trigger_chain (snd rt) task_id 10 in Inr (chain, length chain))"

text \<open>A direct change of the stored object, outside the store's methods.\<close>

definition poke_task :: "time \<Rightarrow> string \<Rightarrow> (task \<Rightarrow> task) \<Rightarrow> cluster_state \<Rightarrow> cluster_state" where
  "poke_task now task_id f s =
     (case get_task s task_id of None \<Rightarrow> s | Some t \<Rightarrow> put_task task_id (touch now (f t)) s)"

text \<open>
  The lease manager raises \<open>ValueError\<close> for an empty node name; by then the task has been set
  running, so the changed router is returned with the error.
\<close>

definition claim_task ::
  "time \<Rightarrow> string \<Rightarrow> string \<Rightarrow> router \<Rightarrow> ((refusal + lm_error) \<times> router) + task option \<times> router" where
  "claim_task now task_id node_id rt =
     (case get_task (snd rt) task_id of
        None \<Rightarrow> Inl (Inl TaskNotFound, rt)
      | Some t \<Rightarrow>
          if t_status t \<noteq> Ready then Inl (Inl (NotClaimable (t_status t)), rt)
          else if t_assigned_to t \<noteq> None then Inl (Inl AlreadyClaimed, rt)
          else
            let s1 = snd (set_task_status now task_id Running [] (snd rt));
                s2 = poke_task now task_id (t_assigned_to_update (\<lambda>_. Some node_id)) s1
            in case fst rt of
                 None \<Rightarrow> Inr (get_task s2 task_id, (None, s2))
               | Some m \<Rightarrow>
                   (case lm_create now task_id node_id None m s2 of
                      Inl e \<Rightarrow> Inl (Inr e, (Some m, s2))
                    | Inr (_, m1, s3) \<Rightarrow> Inr (get_task s3 task_id, (Some m1, s3))))"

definition release_task ::
  "time \<Rightarrow> string \<Rightarrow> string \<Rightarrow> string option \<Rightarrow> router \<Rightarrow> (refusal \<times> router) + task option \<times> router" where
  "release_task now task_id node_id reason rt =
     (case get_task (snd rt) task_id of
        None \<Rightarrow> Inl (TaskNotFound, rt)
      | Some t \<Rightarrow>
          if t_assigned_to t \<noteq> Some node_id then Inl (NotAssignedHere, rt)
          else
            let rt1 = drop_lease task_id rt;
                (transitioned, s2) = set_task_status now task_id Ready [] (snd rt1)
            in if \<not> transitioned then Inl (ReleaseTerminal (t_status t), (fst rt1, s2))
               else let s3 = poke_task now task_id (\<lambda>u.
                          let v = u\<lparr>t_assigned_to := None\<rparr>
                          in case reason of None \<Rightarrow> v | Some r \<Rightarrow> if r = [] then v else v\<lparr>t_fail_reason := Some r\<rparr>) s2
                    in Inr (get_task s3 task_id, (fst rt1, s3)))"

end
