(* ===== verification/RouterInv.thy ===== *)
theory RouterInv
  imports TaskRouter ClusterSteps
begin

text \<open>
  What every task endpoint keeps: the invariant \<open>cs_wf\<close> of the store, and that stored objects only
  move forward. \<open>advances\<close> is this contract between the router before and after a handler; the step
  relation \<open>router_step\<close> interleaves the handlers with any operation of the store (the sweeps that
  run beside the endpoints), and interprets the locale \<open>monotone_store\<close>.
\<close>

section \<open>The contract\<close>

definition advances :: "cluster_state \<Rightarrow> cluster_state \<Rightarrow> bool" where
  "advances s s' \<longleftrightarrow> (cs_wf s \<longrightarrow> cs_wf s' \<and> forward s s')"

inductive router_step :: "router \<Rightarrow> router \<Rightarrow> bool" where
  rs_submit: "submit_task now req rt = Inr (r, rt') \<Longrightarrow>
    get_task (snd rt) (fst (generate_id ''task'' (snd rt))) = None \<Longrightarrow> router_step rt rt'"
| rs_complete: "complete_task now tid res rt = Inr (cr, rt') \<Longrightarrow> router_step rt rt'"
| rs_fail: "fail_task now tid why q rt = Inr (fr, rt') \<Longrightarrow> router_step rt rt'"
| rs_cancel: "cancel_task now tid reason rq rt = Inr (ca, rt') \<Longrightarrow> router_step rt rt'"
| rs_unblock: "unblock_endpoint now tid rt = Inr rt' \<Longrightarrow> router_step rt rt'"
| rs_block: "block_task now tid bq rt = Inr (b, rt') \<Longrightarrow> router_step rt rt'"
| rs_block_refused: "block_task now tid bq rt = Inl (e, rt') \<Longrightarrow> router_step rt rt'"
| rs_answer: "answer_task now tid answer who rt = Inr (ar, rt') \<Longrightarrow> router_step rt rt'"
| rs_advance: "manual_advance now tid rt = Inr rt' \<Longrightarrow> router_step rt rt'"
| rs_dependencies: "set_dependencies_endpoint now tid ds rt = Inr (t, rt') \<Longrightarrow> router_step rt rt'"
| rs_claim: "claim_task now tid nid rt = Inr (t, rt') \<Longrightarrow> router_step rt rt'"
| rs_claim_refused: "claim_task now tid nid rt = Inl (ce, rt') \<Longrightarrow> router_step rt rt'"
| rs_release: "release_task now tid nid why rt = Inr (t, rt') \<Longrightarrow> router_step rt rt'"
| rs_release_refused: "release_task now tid nid why rt = Inl (e, rt') \<Longrightarrow> router_step rt rt'"
| rs_store: "cs_step (snd rt) s' \<Longrightarrow> router_step rt (m, s')"

section \<open>Building blocks\<close>

lemma advances_refl [simp, mono_step]: "advances s s"
  by (simp add: advances_def)

lemma advances_trans: "advances a b \<Longrightarrow> advances b c \<Longrightarrow> advances a c"
  unfolding advances_def by (meson forward_trans)

lemma advances_step: "cs_step s1 s2 \<Longrightarrow> advances s s1 \<Longrightarrow> advances s s2"
  unfolding advances_def by (meson cs_step_wf cs_step_forward forward_trans)

lemma snd_schedule_pending: "snd (schedule_pending now s) = snd (schedule_pending_detailed now s)"
  by (simp add: schedule_pending_def split_beta)

text \<open>A change of the store, at the end of a handler's run so far.\<close>

lemma advances_store [mono_step]:
  assumes "advances s s1"
  shows "advances s (snd (set_task_status now tid st fr s1))"
    "advances s (snd (set_task_result now tid res s1))"
    "advances s (snd (requeue_task now tid r s1))"
    "advances s (snd (set_task_ballot now tid b s1))"
    "advances s (snd (set_task_cancel_requeue now tid q s1))"
    "advances s (snd (unblock_task now tid s1))"
    "advances s (snd (unblock_to_ready now tid s1))"
    "advances s (snd (set_dependencies now tid ds s1))"
    "advances s (snd (schedule_pending now s1))"
    "advances s (snd (trigger_pending_tasks now s1))"
    "advances s (snd (revoke_lease k s1))"
    "advances s (snd (create_lease now tid nid ttl s1))"
  unfolding snd_schedule_pending by (rule advances_step [OF _ assms], rule cs_step.intros)+

lemma advances_with_store [mono_step]:
  "advances s (snd (f (snd rt))) \<Longrightarrow> advances s (snd (with_store f rt))"
  by (simp add: with_store_def)

lemma advances_lm_revoke: "advances s s1 \<Longrightarrow> advances s (snd (snd (lm_revoke k m s1)))"
  by (simp add: lm_revoke_def split_beta advances_store)

lemma advances_revoke_of [mono_step]: "advances s (snd rt) \<Longrightarrow> advances s (snd (revoke_of l rt))"
  by (auto simp: revoke_of_def split_beta advances_lm_revoke split: option.splits)

lemma advances_drop_lease [mono_step]: "advances s (snd rt) \<Longrightarrow> advances s (snd (drop_lease tid rt))"
  by (simp add: drop_lease_def advances_revoke_of split: option.splits)

lemma advances_poke_task:
  assumes s: "advances s s1" and f: "\<And>t. task_le t (touch now (f t))" "\<And>t. t_attempts (f t) = t_attempts t"
  shows "advances s (poke_task now tid f s1)"
proof (cases "get_task s1 tid")
  case (Some t)
  have "forward s1 (put_task tid (touch now (f t)) s1)" by (rule put_task_forward [OF Some f(1)])
  moreover have "cs_wf s1 \<Longrightarrow> cs_wf (put_task tid (touch now (f t)) s1)"
    by (rule put_task_wf_same [OF _ Some]) (use f [of t] in \<open>auto simp: task_le_def\<close>)
  ultimately show ?thesis using s Some forward_trans by (auto simp: advances_def poke_task_def)
qed (use s in \<open>simp add: poke_task_def\<close>)

lemma advances_fold:
  "(\<And>x r. advances (snd r) (snd (f x r))) \<Longrightarrow> advances s (snd rt) \<Longrightarrow> advances s (snd (fold f xs rt))"
proof (induction xs arbitrary: rt)
  case (Cons x xs)
  from Cons.prems(1) [of rt x] Cons.prems(2) have "advances s (snd (f x rt))" by (rule advances_trans [rotated])
  with Cons.IH Cons.prems(1) show ?case by simp
qed simp

lemma advances_cancel_dependent: "advances (snd rt) (snd (cancel_dependent now reason d rt))"
  by (auto simp: cancel_dependent_def split: option.splits intro!: mono_step)

lemma advances_cascade [mono_step]:
  "advances s (snd rt) \<Longrightarrow> advances s (snd (snd (cascade_cancel_dependents now tid reason rt)))"
  by (simp add: cascade_cancel_dependents_def Let_def advances_fold advances_cancel_dependent)

lemma advances_trigger_dependent: "advances s (trigger_dependent now d s)"
  by (auto simp: trigger_dependent_def split: option.splits intro!: mono_step)

lemma advances_trigger_downstream [mono_step]:
  assumes "advances s s1" shows "advances s (trigger_downstream now tid s1)"
proof -
  have "advances s2 (fold (trigger_dependent now) ds s2)" for ds s2
    by (induction ds arbitrary: s2) (auto intro: advances_trans advances_trigger_dependent)
  with assms show ?thesis unfolding trigger_downstream_def by (blast intro: mono_step advances_trans)
qed

section \<open>Every handler\<close>

lemma submit_advances:
  assumes "submit_task now req rt = Inr (r, rt')" "get_task (snd rt) (fst (generate_id ''task'' (snd rt))) = None"
  shows "advances (snd rt) (snd rt')"
proof -
  have g: "advances (snd rt) (snd (generate_id ''task'' (snd rt)))"
    using generate_id_wf [of "snd rt" "''task''"]
    by (auto simp: advances_def generate_id_def Let_def intro!: forward_frame)
  have c: "advances (snd rt) (snd (create_task now p (snd (generate_id ''task'' (snd rt)))))"
    if "pl_task_id p = fst (generate_id ''task'' (snd rt))" for p
  proof (rule advances_step [OF st_create_task g])
    show "get_task (snd (generate_id ''task'' (snd rt))) (pl_task_id p) = None"
      using assms(2) that by (simp add: generate_id_def Let_def get_task_def)
  qed
  show ?thesis using assms(1) unfolding submit_task_def Let_def split_beta
    by (auto split: option.splits if_splits intro!: mono_step c simp: submit_plan_def)
qed

lemma complete_advances: "complete_task now tid res rt = Inr (r, rt') \<Longrightarrow> advances (snd rt) (snd rt')"
  unfolding complete_task_def Let_def split_beta
  by (auto split: option.splits if_splits intro!: mono_step)

lemma fail_advances: "fail_task now tid why q rt = Inr (r, rt') \<Longrightarrow> advances (snd rt) (snd rt')"
  unfolding fail_task_def Let_def split_beta
  by (auto split: option.splits if_splits intro!: mono_step)

lemma cancel_advances: "cancel_task now tid reason rq rt = Inr (r, rt') \<Longrightarrow> advances (snd rt) (snd rt')"
  unfolding cancel_task_def Let_def split_beta
  by (auto split: option.splits if_splits intro!: mono_step)

lemma block_advances:
  "block_task now tid bq rt = Inr (b, rt') \<Longrightarrow> advances (snd rt) (snd rt')"
  "block_task now tid bq rt = Inl (e, rt') \<Longrightarrow> advances (snd rt) (snd rt')"
  unfolding block_task_def Let_def split_beta
  by (auto split: option.splits if_splits sum.splits intro!: mono_step)

lemma answer_advances: "answer_task now tid ans who rt = Inr (r, rt') \<Longrightarrow> advances (snd rt) (snd rt')"
  unfolding answer_task_def Let_def split_beta
  by (auto split: option.splits if_splits sum.splits intro!: mono_step)

lemma small_advances:
  "unblock_endpoint now tid rt = Inr rt' \<Longrightarrow> advances (snd rt) (snd rt')"
  "manual_advance now tid rt = Inr rt' \<Longrightarrow> advances (snd rt) (snd rt')"
  "set_dependencies_endpoint now tid ds rt = Inr (t, rt') \<Longrightarrow> advances (snd rt) (snd rt')"
  unfolding unblock_endpoint_def manual_advance_def set_dependencies_endpoint_def Let_def split_beta
  by (auto split: option.splits if_splits intro!: mono_step)

lemma claim_advances:
  "claim_task now tid nid rt = Inr (t, rt') \<Longrightarrow> advances (snd rt) (snd rt')"
  "claim_task now tid nid rt = Inl (e, rt') \<Longrightarrow> advances (snd rt) (snd rt')"
  unfolding claim_task_def Let_def lm_create_def split_beta
  by (auto split: option.splits if_splits intro!: mono_step advances_poke_task
      simp: task_le_def touch_def)

lemma release_advances:
  "release_task now tid nid why rt = Inr (t, rt') \<Longrightarrow> advances (snd rt) (snd rt')"
  "release_task now tid nid why rt = Inl (e, rt') \<Longrightarrow> advances (snd rt) (snd rt')"
  unfolding release_task_def Let_def split_beta
  by (auto split: option.splits if_splits intro!: mono_step advances_poke_task
      simp: task_le_def touch_def)

lemmas handlers_advance = submit_advances complete_advances fail_advances cancel_advances block_advances
  answer_advances small_advances claim_advances release_advances

lemma router_step_advances: "router_step rt rt' \<Longrightarrow> advances (snd rt) (snd rt')"
  by (induction rule: router_step.induct) (auto dest: handlers_advance intro: advances_step)

interpretation routed_tasks: monotone_store "\<lambda>rt. get_task (snd rt)" task_le "\<lambda>rt. cs_wf (snd rt)" router_step
proof
  show "cs_wf (snd s) \<Longrightarrow> router_step s s' \<Longrightarrow> cs_wf (snd s')" for s s'
    using router_step_advances by (simp add: advances_def)
  show "\<exists>w. get_task (snd s') k = Some w \<and> task_le v w"
    if "cs_wf (snd s)" "router_step s s'" "get_task (snd s) k = Some v" for s s' k v
    using router_step_advances [OF that(2)] that(1,3) by (simp add: advances_def forward_def tasks_le_def)
qed (auto intro: task_le_trans)

end
