(* ===== verification/RouterFacts.thy ===== *)
theory RouterFacts
  imports RouterInv Scheduling Promotion
begin

text \<open>
  How the task endpoints change the store, one group of lemmas per endpoint: the claim, the cascade
  over the trigger chain, cancellation, completion, submission, ballots.
\<close>

section \<open>The router during a completion\<close>

text \<open>The router once the lease is dropped and the result stored, and once the second drop is done.\<close>

abbreviation stored_rt :: "time \<Rightarrow> string \<Rightarrow> string option \<Rightarrow> router \<Rightarrow> router" where
  "stored_rt now tid res rt \<equiv>
     (fst (drop_lease tid rt), snd (set_task_result now tid res (snd (drop_lease tid rt))))"

section \<open>Claims\<close>

lemma claim_store:
  assumes "get_task s tid = Some t" "t_status t = Ready"
  shows "poke_task now tid f (snd (set_task_status now tid Running [] s)) =
     put_task tid (touch now (f (touch now (t\<lparr>t_status := Running\<rparr>)))) s"
  using assms by (simp add: set_task_status_def poke_task_def)

section \<open>The cascade\<close>

lemma revoke_of_tasks [simp]: "cs_tasks (snd (revoke_of l rt)) = cs_tasks (snd rt)"
  by (auto simp: revoke_of_def lm_revoke_def split_beta split: option.splits)

lemma revoke_of_get_task [simp]: "get_task (snd (revoke_of l rt)) k = get_task (snd rt) k"
  by (simp add: get_task_def)

lemma drop_lease_tasks [simp]: "cs_tasks (snd (drop_lease tid rt)) = cs_tasks (snd rt)"
  by (simp add: drop_lease_def split: option.splits)

lemma drop_lease_get_task [simp]: "get_task (snd (drop_lease tid rt)) k = get_task (snd rt) k"
  by (simp add: get_task_def)

lemma set_task_status_at:
  assumes "get_task s tid = Some t" "t_status t \<notin> TERMINAL_TASK_STATUSES"
  shows "snd (set_task_status now tid st fr s) =
     put_task tid (let u = touch now (t\<lparr>t_status := st\<rparr>)
                   in if fr \<noteq> [] then u\<lparr>t_fail_reason := Some fr\<rparr> else u) s"
  using assms by (auto simp: set_task_status_def TERMINAL_TASK_STATUSES_def Let_def)

text \<open>One cancellation of the cascade: the dependent is terminal afterwards, and a task that was
  terminal before is not touched.\<close>

lemma cancel_dependent_done:
  "get_task (snd (cancel_dependent now why d rt)) d = Some t \<Longrightarrow> t_status t \<in> TERMINAL_TASK_STATUSES"
  by (auto simp: cancel_dependent_def with_store_def set_task_status_def TERMINAL_TASK_STATUSES_def Let_def
      split: option.splits if_splits)

lemma cancel_dependent_keeps:
  "get_task (snd rt) k = Some t \<Longrightarrow> t_status t \<in> TERMINAL_TASK_STATUSES \<Longrightarrow>
   get_task (snd (cancel_dependent now why d rt)) k = Some t"
  by (auto simp: cancel_dependent_def with_store_def set_task_status_def TERMINAL_TASK_STATUSES_def Let_def
      split: option.splits)

lemma cancel_dependent_dom:
  "get_task (snd (cancel_dependent now why d rt)) k = None \<longleftrightarrow> get_task (snd rt) k = None"
  by (auto simp: cancel_dependent_def with_store_def set_task_status_def Let_def split: option.splits)

lemma fold_cancel_keeps:
  "get_task (snd rt) k = Some t \<Longrightarrow> t_status t \<in> TERMINAL_TASK_STATUSES \<Longrightarrow>
   get_task (snd (fold (cancel_dependent now why) ds rt)) k = Some t"
  by (induction ds arbitrary: rt) (auto simp: cancel_dependent_keeps)

lemma fold_cancel_done:
  "d \<in> set ds \<Longrightarrow> get_task (snd (fold (cancel_dependent now why) ds rt)) d = Some t \<Longrightarrow>
   t_status t \<in> TERMINAL_TASK_STATUSES"
proof (induction ds arbitrary: rt)
  case (Cons x ds)
  let ?rt = "cancel_dependent now why x rt"
  show ?case
  proof (cases "d \<in> set ds")
    case False
    with Cons.prems(1) have x: "x = d" by simp
    show ?thesis
    proof (cases "get_task (snd ?rt) d")
      case None
      have "get_task (snd (fold (cancel_dependent now why) ds rt')) d = None" if "get_task (snd rt') d = None" for rt'
        using that by (induction ds arbitrary: rt') (auto simp: cancel_dependent_dom)
      with None Cons.prems(2) show ?thesis by simp
    next
      case (Some u)
      then have "t_status u \<in> TERMINAL_TASK_STATUSES" using cancel_dependent_done x by blast
      with fold_cancel_keeps [OF Some this] Cons.prems(2) show ?thesis by simp
    qed
  qed (use Cons in simp)
qed simp

text \<open>The cascade works on the chain of the task, which a change of status does not alter.\<close>

lemma get_dependents_put:
  assumes "get_task s k = Some t" "t_depends_on u = t_depends_on t"
  shows "get_dependents (put_task k u s) x = get_dependents s x"
proof -
  have "map fst (filter (\<lambda>(_, t). x \<in> set (t_depends_on t)) (AList.update k u d)) =
        map fst (filter (\<lambda>(_, t). x \<in> set (t_depends_on t)) d)"
    if "map_of d k = Some t" for d :: "(string \<times> task) list"
    using that assms(2) by (induction d) auto
  then show ?thesis using assms(1) by (simp add: get_dependents_def get_task_def)
qed

lemma get_dependents_cong: "cs_tasks s' = cs_tasks s \<Longrightarrow> get_dependents s' = get_dependents s"
  by (simp add: get_dependents_def fun_eq_iff)

lemma get_trigger_chain_cong:
  "get_dependents s' = get_dependents s \<Longrightarrow> get_trigger_chain s' = get_trigger_chain s"
  by (intro ext) (simp add: get_trigger_chain_def)

lemma dependents_in_chain: "d \<in> set (get_dependents s tid) \<Longrightarrow> d \<in> set (get_trigger_chain s tid 10)"
  using traverse_lists_deps [of d "get_dependents s" tid 9 "[]"] by (simp add: get_trigger_chain_def)

lemma chain_after_status:
  assumes "get_task (snd rt) tid = Some t" "t_status t \<notin> TERMINAL_TASK_STATUSES" "cs_tasks (snd rt1) = cs_tasks (snd rt)"
  shows "get_trigger_chain (snd (with_store (set_task_status now tid st fr) rt1)) = get_trigger_chain (snd rt)"
proof -
  from assms have t: "get_task (snd rt1) tid = Some t" by (simp add: get_task_def)
  have "get_dependents (snd (with_store (set_task_status now tid st fr) rt1)) = get_dependents (snd rt1)"
    unfolding with_store_def snd_conv set_task_status_at [OF t assms(2)]
    by (intro ext get_dependents_put [OF t]) (simp add: Let_def)
  from get_trigger_chain_cong [OF this] get_trigger_chain_cong [OF get_dependents_cong [OF assms(3)]]
  show ?thesis by (rule trans)
qed

lemma requeue_refused: "\<not> fst (requeue_task now tid r s) \<Longrightarrow> snd (requeue_task now tid r s) = s"
  by (auto simp: requeue_task_def Let_def split: option.splits if_splits)

text \<open>A lease that a handler drops is revoked for good.\<close>

lemma lease_of_stored:
  "cs_wf (snd rt) \<Longrightarrow> lease_of tid rt = Some l \<Longrightarrow>
   get_lease (snd rt) (l_id l) = Some l \<and> l_task_id l = tid \<and> l_status l = Active \<and> l_id l \<noteq> [] \<and> fst rt \<noteq> None"
proof -
  assume a: "cs_wf (snd rt)" "lease_of tid rt = Some l"
  then have "fst rt \<noteq> None" "get_lease_by_task (snd rt) tid = Some l"
    by (auto simp: lease_of_def lm_get_by_task_def split: option.splits if_splits)
  with lt.by_task_Some [OF cs_wfD(3) [OF a(1)] this(2)]
    leases_wfD(5) [OF cs_wfD(3) [OF a(1)], of "l_id l" l]
  show ?thesis by (auto simp: get_lease_def gen_id_def)
qed

lemma revoke_of_revokes:
  assumes "cs_wf (snd rt)" "lease_of tid rt = Some l"
  shows "get_lease (snd (revoke_of l rt)) (l_id l) = Some (l\<lparr>l_status := Revoked\<rparr>)"
proof -
  from lease_of_stored [OF assms] obtain m where m: "fst rt = Some m" "l_id l \<noteq> []"
    "get_lease (snd rt) (l_id l) = Some l" by blast
  obtain b s1 where r: "revoke_lease (l_id l) (snd rt) = (b, s1)" by force
  from lt.rv_at [OF r, of "l_id l"] m show ?thesis by (simp add: revoke_of_def lm_revoke_def r)
qed

lemma revoked_stays:
  assumes "advances s s'" "cs_wf s" "get_lease s k = Some l" "l_status l = Revoked"
  shows "\<exists>l'. get_lease s' k = Some l' \<and> l_status l' = Revoked"
proof -
  from assms have "leases_le s s'" by (simp add: advances_def forward_def)
  with assms(3) obtain l' where "get_lease s' k = Some l'" "lease_le l l'" by (auto simp: leases_le_def)
  with assms(4) show ?thesis by (cases "l_status l'") (auto simp: lease_le_def less_eq_lease_status_def)
qed

section \<open>Cancellation\<close>

text \<open>The cascade of a task that is itself terminal by then.\<close>

lemma cascade_from:
  assumes "cascade_cancel_dependents now tid why rt = (chain, rt')"
    and "get_task (snd rt) tid = Some t" "t_status t \<in> TERMINAL_TASK_STATUSES"
  shows "chain = get_trigger_chain (snd rt) tid 10 \<and> get_task (snd rt') tid = Some t \<and>
     (\<forall>d u. d \<in> set chain \<longrightarrow> get_task (snd rt') d = Some u \<longrightarrow> t_status u \<in> TERMINAL_TASK_STATUSES)"
proof -
  from assms(1) have c: "chain = get_trigger_chain (snd rt) tid 10" "rt' = fold (cancel_dependent now why) chain rt"
    by (auto simp: cascade_cancel_dependents_def Let_def)
  then show ?thesis using fold_cancel_keeps [OF assms(2,3)] fold_cancel_done by blast
qed

lemma cancel_marks:
  fixes rt1 :: router and now :: time and q :: bool and why :: string
  assumes "get_task (snd rt1) tid = Some t" "t_status t \<notin> TERMINAL_TASK_STATUSES" "st \<in> TERMINAL_TASK_STATUSES"
  defines "rt2 \<equiv> with_store (set_task_status now tid st why) (with_store (set_task_cancel_requeue now tid q) rt1)"
  shows "\<exists>u. get_task (snd rt2) tid = Some u \<and> t_status u = st \<and> t_cancel_requeue u = Some q \<and>
     get_trigger_chain (snd rt2) = get_trigger_chain (snd rt1) \<and> advances (snd rt1) (snd rt2)"
proof -
  let ?t1 = "touch now (t\<lparr>t_cancel_requeue := Some q\<rparr>)"
  let ?rt1 = "with_store (set_task_cancel_requeue now tid q) rt1"
  have s1: "snd ?rt1 = put_task tid ?t1 (snd rt1)" using assms(1) by (simp add: with_store_def set_task_cancel_requeue_def)
  have t1: "get_task (snd ?rt1) tid = Some ?t1" "t_status ?t1 \<notin> TERMINAL_TASK_STATUSES"
    using assms(2) unfolding s1 by simp_all
  have "get_dependents (snd ?rt1) = get_dependents (snd rt1)"
    unfolding s1 by (intro ext get_dependents_put [OF assms(1)]) simp
  then have "get_trigger_chain (snd rt2) = get_trigger_chain (snd rt1)"
    unfolding rt2_def by (intro trans [OF chain_after_status [OF t1 refl]] get_trigger_chain_cong)
  moreover have "advances (snd rt1) (snd rt2)" unfolding rt2_def by (intro mono_step)
  moreover have "snd rt2 = put_task tid (let u = touch now (?t1\<lparr>t_status := st\<rparr>)
      in if why \<noteq> [] then u\<lparr>t_fail_reason := Some why\<rparr> else u) (snd ?rt1)"
    unfolding rt2_def with_store_def snd_conv by (rule set_task_status_at [OF t1 [unfolded with_store_def snd_conv]])
  ultimately show ?thesis by (simp add: Let_def touch_def)
qed

section \<open>Completion\<close>

lemma schedule_pending_origin:
  assumes "cs_wf s" "get_task (snd (schedule_pending now s)) k = Some v"
  shows "get_task s k = Some v \<or> t_status v = Running"
proof -
  have "\<forall>t \<in> set (ready_tasks now s). t_status t = Ready" using ready_tasks_ready by blast
  note orig = schedule_loop_origin [OF assms(1) loop_tasks_ready [OF assms(1)] this]
  show ?thesis
  proof (cases "online_nodes s = []")
    case False
    with assms(2) have "get_task (snd (schedule_loop now (online_nodes s) (lane_nodes s) (ready_tasks now s)
        (active_counts (dict_values (cs_tasks s))) s)) k = Some v"
      by (simp add: snd_schedule_pending schedule_pending_detailed_def)
    from orig [OF this] show ?thesis by blast
  qed (use assms(2) in \<open>simp add: snd_schedule_pending schedule_pending_detailed_def\<close>)
qed

lemma forward_terminal:
  assumes "advances s s'" "cs_wf s" "get_task s k = Some t" "t_status t \<in> {Completed, Failed, Cancelled}"
  shows "\<exists>t'. get_task s' k = Some t' \<and> t_status t' = t_status t"
proof -
  from assms have "tasks_le s s'" by (simp add: advances_def forward_def)
  with assms(3) obtain t' where "get_task s' k = Some t'" "task_le t t'" by (auto simp: tasks_le_def)
  with assms(4) show ?thesis by (auto simp: task_le_def status_le_def TERMINAL_TASK_STATUSES_def)
qed

lemma set_task_result_at:
  assumes "get_task s tid = Some t"
  shows "\<exists>u. get_task (snd (set_task_result now tid res s)) tid = Some u \<and> t_status u = t_status t \<and>
     t_attempts u = t_attempts t \<and>
     t_result u = (case res of None \<Rightarrow> t_result t | Some r \<Rightarrow> if strip r = [] then t_result t else Some r)"
  using assms by (auto simp: set_task_result_def split: option.split)

lemma requeue_at:
  assumes "get_task s tid = Some t" "t_status t \<notin> TERMINAL_TASK_STATUSES"
  shows "fst (requeue_task now tid r s) \<longleftrightarrow> t_attempts t < 3"
    and "t_attempts t < 3 \<Longrightarrow> \<exists>u. get_task (snd (requeue_task now tid r s)) tid = Some u \<and>
           t_status u = Ready \<and> t_attempts u = t_attempts t + 1"
  using assms by (auto simp: requeue_task_def Let_def task_retry_limit_def get_task_def split: option.split)

lemma complete_prepares:
  assumes "cs_wf (snd rt)" "get_task (snd rt) tid = Some t" "t_status t \<notin> TERMINAL_TASK_STATUSES"
  obtains u where "get_task (snd (stored_rt now tid res rt)) tid = Some u"
    "get_task (snd (drop_lease tid (stored_rt now tid res rt))) tid = Some u"
    "t_status u \<notin> TERMINAL_TASK_STATUSES" "t_attempts u = t_attempts t"
    "cs_wf (snd (stored_rt now tid res rt))" "cs_wf (snd (drop_lease tid (stored_rt now tid res rt)))"
proof -
  have "get_task (snd (drop_lease tid rt)) tid = Some t" using assms(2) by simp
  from set_task_result_at [OF this] obtain u where
    u: "get_task (snd (stored_rt now tid res rt)) tid = Some u" "t_status u = t_status t" "t_attempts u = t_attempts t"
    by (metis snd_conv)
  have "advances (snd rt) (snd (stored_rt now tid res rt))" unfolding snd_conv by (intro mono_step)
  moreover have "advances (snd rt) (snd (drop_lease tid (stored_rt now tid res rt)))"
    by (intro mono_step) (simp, intro mono_step)
  ultimately show thesis using that [of u] u assms(1,3) unfolding advances_def by simp
qed

lemmas complete_run = complete_task_def Let_def split_beta

lemma complete_accepts:
  assumes wf: "cs_wf (snd rt)" and t: "get_task (snd rt) tid = Some t" "t_status t \<notin> TERMINAL_TASK_STATUSES"
    and veto: "reviewer_completion_veto t res = None"
  shows "\<exists>stored rt' u. complete_task now tid res rt = Inr (CompletedReply stored, rt') \<and>
     get_task (snd rt') tid = Some u \<and> t_status u = Completed"
proof -
  from complete_prepares [OF wf t] obtain t2 where t2: "get_task (snd (stored_rt now tid res rt)) tid = Some t2"
    "t_status t2 \<notin> TERMINAL_TASK_STATUSES" "cs_wf (snd (stored_rt now tid res rt))" by metis
  let ?s3 = "snd (set_task_status now tid Completed [] (snd (stored_rt now tid res rt)))"
  have "get_task ?s3 tid = Some (touch now (t2\<lparr>t_status := Completed\<rparr>))"
    using set_task_status_at [OF t2(1,2)] by (simp add: Let_def)
  moreover have "advances ?s3 (trigger_downstream now tid ?s3)" by (intro mono_step)
  moreover have "cs_wf ?s3" using t2(3) by (rule task_setters_wf)
  ultimately obtain u where "get_task (trigger_downstream now tid ?s3) tid = Some u" "t_status u = Completed"
    using forward_terminal by fastforce
  moreover have "complete_task now tid res rt =
      Inr (CompletedReply (fst (set_task_result now tid res (snd (drop_lease tid rt)))),
           fst (drop_lease tid rt), trigger_downstream now tid ?s3)"
    using t veto by (simp add: complete_run TERMINAL_TASK_STATUSES_def)
  ultimately show ?thesis by auto
qed

lemma complete_requeues:
  assumes wf: "cs_wf (snd rt)" and t: "get_task (snd rt) tid = Some t" "t_status t \<notin> TERMINAL_TASK_STATUSES"
    and veto: "reviewer_completion_veto t res = Some v" and room: "t_attempts t < 3"
  shows "\<exists>rt' u. complete_task now tid res rt = Inr (CompleteRequeued v, rt') \<and>
     get_task (snd rt') tid = Some u \<and> t_status u \<in> {Ready, Running} \<and> t_attempts t < t_attempts u"
proof -
  let ?rt3 = "drop_lease tid (stored_rt now tid res rt)"
  from complete_prepares [OF wf t] obtain t2 where t2: "get_task (snd ?rt3) tid = Some t2"
    "t_status t2 \<notin> TERMINAL_TASK_STATUSES" "t_attempts t2 = t_attempts t" "cs_wf (snd ?rt3)" by metis
  let ?q = "requeue_task now tid v (snd ?rt3)"
  from requeue_at [OF t2(1,2)] t2(3) room obtain u where q: "fst ?q" "get_task (snd ?q) tid = Some u"
    "t_status u = Ready" "t_attempts u = t_attempts t + 1" by (metis (no_types, lifting))
  let ?s = "snd (schedule_pending now (snd ?q))"
  have wfq: "cs_wf (snd ?q)" by (rule requeue_task_wf [OF t2(4)])
  have "advances (snd ?q) ?s" by (intro mono_step)
  then have "tasks_le (snd ?q) ?s" using wfq by (simp add: advances_def forward_def)
  with q(2) obtain w where w: "get_task ?s tid = Some w" "task_le u w" unfolding tasks_le_def by blast
  have "t_status w \<in> {Ready, Running}" using schedule_pending_origin [OF wfq w(1)] q(2,3) by auto
  moreover have "complete_task now tid res rt = Inr (CompleteRequeued v, fst ?rt3, ?s)"
    using t veto q(1) by (simp add: complete_run TERMINAL_TASK_STATUSES_def)
  ultimately show ?thesis using w q(4) by (auto simp: task_le_def)
qed

lemma complete_fails:
  assumes wf: "cs_wf (snd rt)" and t: "get_task (snd rt) tid = Some t" "t_status t \<notin> TERMINAL_TASK_STATUSES"
    and veto: "reviewer_completion_veto t res = Some v" and room: "\<not> t_attempts t < 3"
  shows "\<exists>chain rt' u. complete_task now tid res rt = Inr (CompleteFailed v chain, rt') \<and>
     get_task (snd rt') tid = Some u \<and> t_status u = Failed"
proof -
  let ?rt3 = "drop_lease tid (stored_rt now tid res rt)"
  from complete_prepares [OF wf t] obtain t2 where t2: "get_task (snd ?rt3) tid = Some t2"
    "t_status t2 \<notin> TERMINAL_TASK_STATUSES" "t_attempts t2 = t_attempts t" by metis
  from requeue_at(1) [OF t2(1,2)] t2(3) room have q: "\<not> fst (requeue_task now tid v (snd ?rt3))" by simp
  let ?s5 = "snd (set_task_status now tid Failed v (snd ?rt3))"
  let ?c = "cascade_cancel_dependents now tid (parent_failed tid @ '' (#919)'') (fst ?rt3, ?s5)"
  have "complete_task now tid res rt = Inr (CompleteFailed v (fst ?c), snd ?c)"
    using t veto q requeue_refused [OF q] by (simp add: complete_run TERMINAL_TASK_STATUSES_def)
  moreover have "\<exists>u. get_task ?s5 tid = Some u \<and> t_status u = Failed"
    using set_task_status_at [OF t2(1,2)] by (simp add: Let_def)
  then obtain u where "get_task ?s5 tid = Some u" "t_status u = Failed" by blast
  with cascade_from [of now tid "parent_failed tid @ '' (#919)''" "(fst ?rt3, ?s5)" "fst ?c" "snd ?c" u]
  have "get_task (snd (snd ?c)) tid = Some u" "t_status u = Failed" by (simp_all add: TERMINAL_TASK_STATUSES_def)
  ultimately show ?thesis by auto
qed

lemma veto_iff:
  "reviewer_completion_veto t res =
     (if lower (strip (t_role t)) = ''reviewer'' \<and> \<not> is_landing_row t \<and> reviewer_verdict res = None
      then Some NO_VERDICT else None)"
  by (simp add: reviewer_completion_veto_def)

section \<open>Submission\<close>

lemma submit_Submitted:
  assumes "submit_task now req rt = Inr (Submitted reply, rt')"
  obtains tid s1 s2 where "brief_guard req = None"
    "lower (strip (sq_role req)) = ''reviewer'' \<and> sq_lane_key req \<noteq> [] \<longrightarrow>
       find (live_reviewer req) (get_all_tasks (snd rt)) = None"
    "unsatisfiable_capabilities (sq_requires req) (snd rt) = []"
    "\<forall>d \<in> set (sq_depends_on req). d = [] \<or> get_task (snd rt) d \<noteq> None"
    "generate_id ''task'' (snd rt) = (tid, s1)" "cs_tasks s1 = cs_tasks (snd rt)"
    "s2 = put_task tid (build_task now Pending (submit_plan tid req)) s1"
    "snd rt' = snd (trigger_pending_tasks now s2)" "reply = get_task (snd rt') tid"
proof -
  obtain tid s1 where g: "generate_id ''task'' (snd rt) = (tid, s1)" by force
  then have t: "cs_tasks s1 = cs_tasks (snd rt)" by (auto simp: generate_id_def Let_def)
  then have same: "get_task s1 = get_task (snd rt)" by (simp add: get_task_def fun_eq_iff)
  have p: "pl_task_id (submit_plan tid req) = tid"
    "pl_depends_on (submit_plan tid req) = filter (\<lambda>d. d \<noteq> []) (sq_depends_on req)"
    by (simp_all add: submit_plan_def)
  show thesis using assms that [OF _ _ _ _ g t refl] unfolding submit_task_def Let_def
    by (auto simp: g same p create_task_def Let_def split_beta filter_empty_conv split: option.splits if_splits)
qed

lemma unsatisfiable_None:
  "unsatisfiable_capabilities req s = [] \<Longrightarrow> schedulable_nodes s \<noteq> [] \<Longrightarrow>
   c \<in> set req \<Longrightarrow> \<exists>n \<in> set (get_all_nodes s). \<not> n_drained n \<and> c \<in> set (n_capabilities n)"
  by (auto simp: unsatisfiable_capabilities_def known_capabilities_def schedulable_nodes_def filter_empty_conv
      split: if_splits)

text \<open>A freshly created task after the promotion pass that follows its creation.\<close>

lemma promoted_new:
  assumes "cs_wf s1" "pl_task_id p = tid" "s2 = put_task tid (build_task now Pending p) s1"
  shows "\<exists>t. get_task (snd (trigger_pending_tasks now s2)) tid = Some t \<and> t_title t = pl_title p \<and>
     t_requires t = pl_requires p \<and> t_lane_key t = pl_lane_key p \<and> t_role t = pl_role p \<and>
     t_priority t = pl_priority p \<and> t_depends_on t = pl_depends_on p \<and> t_assigned_to t = None \<and>
     t_description t = pl_description p \<and> t_issues t = pl_issues p \<and> t_result t = None \<and>
     (t_status t = Pending \<or> t_status t = Ready \<and>
        (\<forall>d \<in> set (pl_depends_on p). map_option t_status (get_task s1 d) = Some Completed))"
proof -
  let ?t = "build_task now Pending p"
  have "cs_wf s2" using create_task_wf [OF assms(1), of now p] assms(2,3) by (simp add: create_task_def Let_def)
  from trigger_pending_partly [OF this, of now]
  have get: "get_task (snd (trigger_pending_tasks now s2)) tid = Some (promoted now s2 ?t)"
    using assms(3) by (simp add: get_task_partly)
  have "map_option t_status (get_task s1 d) = Some Completed" if "deps_met s2 ?t" "d \<in> set (pl_depends_on p)" for d
    using that assms(3) by (auto simp: deps_met_def dep_completed_def list_all_iff split: option.splits if_splits)
  then show ?thesis unfolding get
    by (auto simp: promoted_def build_task_def default_task_def split: option.split)
qed

lemma length_filter_update:
  "filter P (map snd d) = [] \<Longrightarrow> length (filter P (map snd (AList.update k v d))) = (if P v then 1 else 0)"
  by (induction d) (auto simp: filter_map comp_def split: if_splits)

lemma live_reviewer_promoted: "live_reviewer req (promoted now s t) = live_reviewer req t"
  by (auto simp: live_reviewer_def promoted_def split: option.splits)

section \<open>Ballots\<close>

lemma block_run:
  assumes "block_task now tid bq rt = Inr (b, rt1)"
  shows "(\<exists>lk. build_ballot now (bq_question bq) (bq_options bq) (bq_class bq) lk (bq_decision_ref bq)
            (bq_decision_id bq) = Inr b) \<and>
     (\<exists>u. get_task (snd rt1) tid = Some u \<and> t_status u = Blocked \<and> t_ballot u = Some b)"
proof -
  have put: "\<exists>u'. get_task (snd (set_task_status now tid Blocked why (put_task tid u s))) tid = Some u' \<and>
      t_status u' = Blocked \<and> t_ballot u' = t_ballot u"
    if "t_status u \<notin> TERMINAL_TASK_STATUSES" for u s why
    using set_task_status_at [of "put_task tid u s" tid u now Blocked why] that by (simp add: Let_def touch_def)
  from assms obtain t lk where t: "get_task (snd rt) tid = Some t" "t_status t \<notin> TERMINAL_TASK_STATUSES"
    "build_ballot now (bq_question bq) (bq_options bq) (bq_class bq) lk (bq_decision_ref bq) (bq_decision_id bq) = Inr b"
    "snd rt1 = snd (set_task_status now tid Blocked ''awaiting owner decision (ballot)''
       (put_task tid (touch now (t\<lparr>t_ballot := Some b\<rparr>)) (snd (drop_lease tid rt))))"
    unfolding block_task_def Let_def split_beta
    by (auto simp: with_store_def set_task_ballot_def TERMINAL_TASK_STATUSES_def
        split: option.splits if_splits sum.splits)
  from put [of "touch now (t\<lparr>t_ballot := Some b\<rparr>)" "''awaiting owner decision (ballot)''" "snd (drop_lease tid rt)"]
  show ?thesis using t by (auto simp: touch_def)
qed

lemma formal_of_built:
  assumes "build_ballot now q opts cls lk dref did = Inr b" "b_decision_ref b2 = b_decision_ref b"
    "b_decision_id b2 = b_decision_id b"
  shows "fd_answer (formal_actuation b2 tid) = (case b_answer b2 of None \<Rightarrow> [] | Some a \<Rightarrow> a) \<and>
     fd_state (formal_actuation b2 tid) \<in> {''formal-resolvable'', ''needs-actuation''}"
  using build_ballot_Inr [OF assms(1)] assms(2,3)
  by (auto simp: formal_actuation_def Let_def split: option.splits)

lemma pending_ballots_at:
  assumes "cs_wf s" "get_task s tid = Some t" "t_ballot t = Some b"
  shows "tid \<in> pb_task_id ` set (pending_ballots s) \<longleftrightarrow> t_status t = Blocked \<and> unanswered b"
proof -
  have mem: "u \<in> set (get_all_tasks s) \<longleftrightarrow> get_task s (t_id u) = Some u" for u
    using tasks_wf_value [OF cs_wfD(2) [OF assms(1)]] by (simp add: get_all_tasks_def)
  have row: "pending_row u = Some r \<Longrightarrow> pb_task_id r = t_id u" for u r
    by (auto simp: pending_row_def split: option.splits if_splits)
  have "tid \<in> pb_task_id ` set (pending_ballots s) \<longleftrightarrow>
      (\<exists>u. get_task s (t_id u) = Some u \<and> t_id u = tid \<and> pending_row u \<noteq> None)"
    using row by (auto simp: pending_ballots_def map_filter_def mem image_iff)
  also have "\<dots> \<longleftrightarrow> pending_row t \<noteq> None" using assms cs_wf_taskD [OF assms(1,2)] by auto
  finally show ?thesis using assms(3) by (simp add: pending_row_def)
qed

end
