(* ===== verification/RouterProps.thy ===== *)
theory RouterProps
  imports RouterFacts Demo
begin

text \<open>
  Properties of the task endpoints: terminality over every sequence of requests, claims, the cancel
  protocol, the cascade of a failure, the verdict gate, submission, and ballots.
\<close>

section \<open>Concrete routers\<close>

definition demo_manager :: lease_manager where
  "demo_manager = fst (lm_init None demo0)"

text \<open>\<open>t1\<close> runs under a lease, \<open>t2\<close> is ready and \<open>t3\<close> waits for \<open>t1\<close>.\<close>

definition demo_router :: router where
  "demo_router = (Some demo_manager, snd (create_task 25 (demo_plan ''t3'' [''t1''] []) demo2))"

text \<open>A ready reviewer task, and a request for a reviewer of the lane \<open>acme/app!7\<close>.\<close>

definition demo_review :: router where
  "demo_review = (Some demo_manager, snd (create_tasks_batch 10
     [(demo_plan ''r1'' [] [])\<lparr>pl_role := ''reviewer''\<rparr>] (register_node (demo_node ''n1'' 1) demo0)))"

definition demo_submit :: "string \<Rightarrow> submit_request" where
  "demo_submit role = \<lparr>sq_title = ''Review PR 7'', sq_description = [], sq_requires = [''code''], sq_priority = None,
     sq_lane_key = ''acme/app!7'', sq_role = role, sq_depends_on = []\<rparr>"

definition created :: "refusal + submit_reply \<times> router \<Rightarrow> (task \<times> router) option" where
  "created r = (case r of Inr (Submitted (Some t), rt) \<Rightarrow> Some (t, rt) | _ \<Rightarrow> None)"

definition demo_block :: block_request where
  "demo_block = \<lparr>bq_question = ''Which API?'', bq_options = [''v1'', ''v2''], bq_class = None, bq_lane_key = [],
     bq_decision_ref = Some ''acme/app#12'', bq_decision_id = None\<rparr>"

text \<open>The first router once the cancellation of \<open>t1\<close> has been requested.\<close>

definition demo_cancelling :: router where
  "demo_cancelling = (case cancel_task 30 ''t1'' ''stop'' None demo_router of Inr (_, rt) \<Rightarrow> rt | Inl _ \<Rightarrow> demo_router)"

lemma created_iff: "created r = Some (t, rt) \<longleftrightarrow> r = Inr (Submitted (Some t), rt)"
  by (auto simp: created_def split: sum.splits submit_reply.splits option.splits)

lemma demo_router_wf: "cs_wf (snd demo_router)"
  by (simp add: demo_router_def create_task_wf demo_wf)

lemma demo_router_tasks:
  "map_option (\<lambda>t. (t_status t, t_assigned_to t)) (get_task (snd demo_router) ''t1'') = Some (Running, Some ''n1'')"
  "map_option (\<lambda>t. (t_status t, t_assigned_to t)) (get_task (snd demo_router) ''t2'') = Some (Ready, None)"
  by code_simp+

section \<open>Runs of requests\<close>

text \<open>C5: Over every sequence of task requests, interleaved with any operations of the store, a
  task that has reached a terminal status keeps it, except that a requested cancellation may be
  acknowledged; the task is never dropped, its version and attempt count never fall, and the store's
  invariant holds throughout.\<close>

theorem requests_keep_terminal:
  assumes "router_step\<^sup>*\<^sup>* rt rt'" "cs_wf (snd rt)" "get_task (snd rt) k = Some t"
  shows "cs_wf (snd rt') \<and> (\<exists>t'. get_task (snd rt') k = Some t' \<and> t_version t \<le> t_version t' \<and>
           t_attempts t \<le> t_attempts t' \<and> t_attempts t' \<le> 3 \<and>
           (t_status t \<in> {Completed, Failed, Cancelled} \<longrightarrow> t_status t' = t_status t) \<and>
           (t_status t = CancelRequested \<longrightarrow> t_status t' \<in> {CancelRequested, Cancelled}))"
proof -
  from routed_tasks.run_forward [OF assms] obtain t' where
    t': "get_task (snd rt') k = Some t'" "task_le t t'" by blast
  have wf: "cs_wf (snd rt')" by (rule routed_tasks.run_inv [OF assms(1,2)])
  with cs_wf_taskD [OF wf t'(1)] t' show ?thesis
    by (auto simp: task_le_def status_le_def TERMINAL_TASK_STATUSES_def task_retry_limit_def)
qed

theorem requests_keep_terminal_witness:
  "\<exists>rt'. fail_task 50 ''t2'' (Some ''boom'') False (None, demo3) = Inr (FailedReply [], rt') \<and>
     map_option t_status (get_task (snd rt') ''t1'') = Some Completed"
proof -
  have "(case fail_task 50 ''t2'' (Some ''boom'') False (None, demo3) of Inr (FailedReply b, _) \<Rightarrow> b = [] | _ \<Rightarrow> False)"
    by code_simp
  then obtain rt' where f: "fail_task 50 ''t2'' (Some ''boom'') False (None, demo3) = Inr (FailedReply [], rt')"
    by (auto split: sum.splits fail_reply.splits)
  obtain t where t: "get_task (snd (None :: lease_manager option, demo3)) ''t1'' = Some t" "t_status t = Completed"
    using demo3_t1 by auto
  have "router_step\<^sup>*\<^sup>* (None, demo3) rt'" by (rule r_into_rtranclp, rule rs_fail [OF f])
  from requests_keep_terminal [OF this _ t(1)] t(2) demo_wf(4) f show ?thesis by auto
qed

section \<open>Claims\<close>

text \<open>C9: A claim succeeds only for a ready task nobody holds. It then runs, assigned to the
  claimer, under an active lease of that node when there is a lease manager; no other task changes;
  and any further claim, by anyone, is refused with the state unchanged. A refused claim leaves the
  state alone, with one exception: for an empty node name the manager raises only after the task has
  been set running, and the task stays running with no new lease.\<close>

theorem claim_exclusive:
  assumes "cs_wf (snd rt)" "tid \<noteq> []"
  shows "case claim_task now tid nid rt of
      Inr (reply, rt') \<Rightarrow>
        (\<exists>t u. get_task (snd rt) tid = Some t \<and> t_status t = Ready \<and> t_assigned_to t = None \<and>
           reply = Some u \<and> get_task (snd rt') tid = Some u \<and> t_status u = Running \<and>
           t_assigned_to u = Some nid \<and> t_version u = t_version t + 2) \<and>
        (\<forall>k. k \<noteq> tid \<longrightarrow> get_task (snd rt') k = get_task (snd rt) k) \<and>
        (fst rt \<noteq> None \<longrightarrow> (\<exists>l. lm_get_by_task tid (snd rt') = Some l \<and> l_task_id l = tid \<and>
           l_node_id l = nid \<and> l_status l = Active)) \<and>
        (\<forall>now' nid'. claim_task now' tid nid' rt' = Inl (Inl (NotClaimable Running), rt'))
    | Inl (Inl e, rt') \<Rightarrow> rt' = rt \<and>
        (case get_task (snd rt) tid of None \<Rightarrow> e = TaskNotFound
         | Some t \<Rightarrow> t_status t \<noteq> Ready \<or> t_assigned_to t \<noteq> None)
    | Inl (Inr e, rt') \<Rightarrow> nid = [] \<and> fst rt \<noteq> None \<and> cs_leases (snd rt') = cs_leases (snd rt) \<and>
        map_option t_status (get_task (snd rt') tid) = Some Running"
proof (cases "get_task (snd rt) tid")
  case (Some t)
  show ?thesis
  proof (cases "t_status t = Ready \<and> t_assigned_to t = None")
    case True
    let ?u = "touch now ((touch now (t\<lparr>t_status := Running\<rparr>))\<lparr>t_assigned_to := Some nid\<rparr>)"
    let ?s2 = "put_task tid ?u (snd rt)"
    have st: "poke_task now tid (t_assigned_to_update (\<lambda>_. Some nid)) (snd (set_task_status now tid Running [] (snd rt))) = ?s2"
      using claim_store Some True by simp
    have again: "claim_task now' tid nid' rt' = Inl (Inl (NotClaimable Running), rt')"
      if "get_task (snd rt') tid = Some ?u" for now' nid' rt'
      using that by (simp add: claim_task_def)
    show ?thesis
    proof (cases "fst rt")
      case None
      then show ?thesis using Some True again [of "(None, ?s2)"] by (simp add: claim_task_def st)
    next
      case m: (Some m)
      obtain l s3 where c: "create_lease now tid nid (effective_ttl None m) ?s2 = (l, s3)" by force
      have wf: "leases_wf ?s2" by (intro cs_wfD put_task_wf_same [OF assms(1) Some]) simp_all
      have fr: "get_task s3 k = get_task ?s2 k" for k
        using create_lease_frame c by (metis get_task_def snd_conv)
      show ?thesis
      proof (cases "nid = []")
        case True
        then show ?thesis using Some m \<open>t_status t = Ready \<and> t_assigned_to t = None\<close> assms(2)
          by (simp add: claim_task_def st [unfolded True] lm_create_def)
      next
        case False
        let ?rt = "(Some (m\<lparr>lm_total_created := lm_total_created m + 1\<rparr>), s3)"
        have "claim_task now tid nid rt = Inr (get_task s3 tid, ?rt)"
          using Some True m False assms(2) by (simp add: claim_task_def st lm_create_def c)
        then show ?thesis using Some True lt.mk_lease [OF wf c] create_lease_indexed [OF assms(2) c] again [of ?rt]
          by (simp add: fr)
      qed
    qed
  qed (use Some in \<open>auto simp: claim_task_def\<close>)
qed (simp add: claim_task_def)

theorem claim_exclusive_witness:
  "\<exists>u rt'. claim_task 30 ''t2'' ''n1'' demo_router = Inr (Some u, rt') \<and> t_status u = Running \<and>
     t_assigned_to u = Some ''n1'' \<and> claim_task 40 ''t2'' ''n2'' rt' = Inl (Inl (NotClaimable Running), rt')"
proof -
  have "map_option (\<lambda>t. (t_status t, t_assigned_to t)) (get_task (snd demo_router) ''t2'') = Some (Ready, None)"
    by (rule demo_router_tasks)
  with claim_exclusive [OF demo_router_wf, where tid = "''t2''" and now = 30 and nid = "''n1''"]
  show ?thesis by (auto split: sum.splits option.splits prod.splits) (metis sum.exhaust)
qed

section \<open>The cascade\<close>

text \<open>C10: A task reported failed and not requeued is failed with the reported reason, its lease is
  revoked, and every task of its trigger chain, which holds all its direct dependents, is terminal
  afterwards: no dependent of a failed task is left waiting or running unmarked.\<close>

theorem fail_cascades:
  assumes "cs_wf (snd rt)" "fail_task now tid why q rt = Inr (FailedReply blocked, rt')"
  shows "blocked = get_trigger_chain (snd rt) tid 10 \<and> set (get_dependents (snd rt) tid) \<subseteq> set blocked \<and>
     (\<exists>t r. why = Some r \<and> get_task (snd rt') tid = Some t \<and> t_status t = Failed \<and> t_fail_reason t = Some (strip r)) \<and>
     (\<forall>d t. d \<in> set blocked \<longrightarrow> get_task (snd rt') d = Some t \<longrightarrow>
        t_status t \<in> {Completed, Failed, Cancelled, CancelRequested}) \<and>
     (\<forall>l. lease_of tid rt = Some l \<longrightarrow> (\<exists>l'. get_lease (snd rt') (l_id l) = Some l' \<and> l_status l' = Revoked))"
proof -
  let ?why = "case why of None \<Rightarrow> [] | Some r \<Rightarrow> r"
  let ?rt2 = "drop_lease tid rt"
  let ?rt3 = "with_store (set_task_status now tid Failed (strip ?why)) ?rt2"
  from assms(2) obtain t where t: "get_task (snd rt) tid = Some t" "t_status t \<notin> TERMINAL_TASK_STATUSES"
    and why: "strip ?why \<noteq> []"
    and e: "(blocked, rt') = cascade_cancel_dependents now tid (parent_failed tid) ?rt3"
    using requeue_refused [of now tid "strip ?why" "snd rt"]
    by (auto simp: fail_task_def Let_def split_beta TERMINAL_TASK_STATUSES_def split: option.splits if_splits)
  have chain: "blocked = get_trigger_chain (snd rt) tid 10"
    and rt': "rt' = fold (cancel_dependent now (parent_failed tid)) blocked ?rt3"
    using e chain_after_status [OF t, of ?rt2] by (auto simp: cascade_cancel_dependents_def Let_def)
  have t2: "get_task (snd ?rt2) tid = Some t" using t by simp
  have t3: "get_task (snd ?rt3) tid = Some ((touch now (t\<lparr>t_status := Failed\<rparr>))\<lparr>t_fail_reason := Some (strip ?why)\<rparr>)"
    unfolding with_store_def snd_conv set_task_status_at [OF t2 t(2)] using why by (simp add: Let_def)
  have adv: "advances (snd ?rt2) (snd rt')"
    unfolding rt' by (intro advances_fold advances_cancel_dependent mono_step)
  have "\<exists>l'. get_lease (snd rt') (l_id l) = Some l' \<and> l_status l' = Revoked" if l: "lease_of tid rt = Some l" for l
  proof (rule revoked_stays [OF adv])
    show "cs_wf (snd ?rt2)" using advances_drop_lease [OF advances_refl] assms(1) by (simp add: advances_def)
    show "get_lease (snd ?rt2) (l_id l) = Some (l\<lparr>l_status := Revoked\<rparr>)"
      using revoke_of_revokes [OF assms(1) l] l by (simp add: drop_lease_def)
  qed simp
  moreover have "t_status u \<in> {Completed, Failed, Cancelled, CancelRequested}"
    if "d \<in> set blocked" "get_task (snd rt') d = Some u" for d u
    using fold_cancel_done [OF that(1)] that(2) by (simp add: rt' TERMINAL_TASK_STATUSES_def)
  moreover have "get_task (snd rt') tid = get_task (snd ?rt3) tid"
    using fold_cancel_keeps [OF t3] t3 by (simp add: rt' TERMINAL_TASK_STATUSES_def)
  moreover obtain r where "why = Some r" using why by (cases why) auto
  ultimately show ?thesis using chain dependents_in_chain t3 by auto
qed

theorem fail_cascades_witness:
  "\<exists>rt'. fail_task 30 ''t1'' (Some ''boom'') False demo_router = Inr (FailedReply [''t3''], rt') \<and>
     map_option t_status (get_task (snd rt') ''t1'') = Some Failed"
proof -
  have "(case fail_task 30 ''t1'' (Some ''boom'') False demo_router of
      Inr (FailedReply b, _) \<Rightarrow> b = [''t3''] | _ \<Rightarrow> False)" by code_simp
  then obtain rt' where f: "fail_task 30 ''t1'' (Some ''boom'') False demo_router = Inr (FailedReply [''t3''], rt')"
    by (auto split: sum.splits fail_reply.splits)
  from fail_cascades [OF demo_router_wf f] show ?thesis using f by auto
qed

section \<open>Cancellation\<close>

text \<open>C8: A cancellation is accepted only for a task that is not terminal. A task that holds a
  lease becomes cancel_requested and its lease is revoked, so its worker has to acknowledge; one
  that holds none is cancelled at once. The request records whether the work should be requeued, and
  every task of the trigger chain is terminal afterwards.\<close>

theorem cancel_protocol:
  assumes "cs_wf (snd rt)" "cancel_task now tid why rq rt = Inr (reply, rt')"
  shows "(\<exists>t. get_task (snd rt) tid = Some t \<and> t_status t \<notin> {Completed, Failed, Cancelled, CancelRequested}) \<and>
     (\<exists>u. get_task (snd rt') tid = Some u \<and> t_cancel_requeue u = Some (rq = Some True) \<and>
        (case lease_of tid rt of
           None \<Rightarrow> reply = CancelledNow (rq = Some True) \<and> t_status u = Cancelled
         | Some l \<Rightarrow> reply = CancelPending (rq = Some True) \<and> t_status u = CancelRequested \<and>
             (\<exists>l'. get_lease (snd rt') (l_id l) = Some l' \<and> l_status l' = Revoked))) \<and>
     (\<forall>d u. d \<in> set (get_trigger_chain (snd rt) tid 10) \<longrightarrow> get_task (snd rt') d = Some u \<longrightarrow>
        t_status u \<in> {Completed, Failed, Cancelled, CancelRequested})"
proof -
  let ?q = "rq = Some True"
  let ?st = "if lease_of tid rt = None then Cancelled else CancelRequested"
  let ?rt1 = "case lease_of tid rt of None \<Rightarrow> rt | Some l \<Rightarrow> revoke_of l rt"
  let ?rt2 = "with_store (set_task_status now tid ?st why) (with_store (set_task_cancel_requeue now tid ?q) ?rt1)"
  have q: "(case rq of None \<Rightarrow> False | Some b \<Rightarrow> b) = ?q" by (cases rq) auto
  from assms(2) obtain t chain where t: "get_task (snd rt) tid = Some t" "t_status t \<notin> TERMINAL_TASK_STATUSES"
    and c: "cascade_cancel_dependents now tid (''parent '' @ tid @ '' cancelled'') ?rt2 = (chain, rt')"
    and r: "reply = (if lease_of tid rt = None then CancelledNow ?q else CancelPending ?q)"
    unfolding cancel_task_def q Let_def TERMINAL_TASK_STATUSES_def
    by (auto split: option.splits if_splits simp: prod_eq_iff)
  have t1: "get_task (snd ?rt1) tid = Some t" using t(1) by (simp split: option.split)
  have st: "?st \<in> TERMINAL_TASK_STATUSES" by (simp add: TERMINAL_TASK_STATUSES_def)
  from cancel_marks [OF t1 t(2) st] obtain u where u: "get_task (snd ?rt2) tid = Some u" "t_status u = ?st"
    "t_cancel_requeue u = Some ?q" and chain: "get_trigger_chain (snd ?rt2) = get_trigger_chain (snd ?rt1)"
    and adv: "advances (snd ?rt1) (snd ?rt2)" by blast
  have chain1: "get_trigger_chain (snd ?rt1) = get_trigger_chain (snd rt)"
    by (intro get_trigger_chain_cong get_dependents_cong) (simp split: option.split)
  have fin: "get_task (snd rt') tid = Some u"
    "\<forall>d v. d \<in> set chain \<longrightarrow> get_task (snd rt') d = Some v \<longrightarrow> t_status v \<in> TERMINAL_TASK_STATUSES"
    "chain = get_trigger_chain (snd rt) tid 10"
    using cascade_from [OF c u(1)] st u(2) chain chain1 by simp_all
  have "\<exists>l'. get_lease (snd rt') (l_id l) = Some l' \<and> l_status l' = Revoked" if l: "lease_of tid rt = Some l" for l
  proof (rule revoked_stays)
    show "advances (snd (revoke_of l rt)) (snd rt')"
      using advances_cascade [OF adv, of now tid "''parent '' @ tid @ '' cancelled''"] l c by simp
    show "cs_wf (snd (revoke_of l rt))"
      using advances_revoke_of [OF advances_refl] assms(1) by (simp add: advances_def)
    show "get_lease (snd (revoke_of l rt)) (l_id l) = Some (l\<lparr>l_status := Revoked\<rparr>)"
      by (rule revoke_of_revokes [OF assms(1) l])
  qed simp
  then show ?thesis using t u fin r unfolding TERMINAL_TASK_STATUSES_def by (auto split: option.split)
qed

theorem cancel_protocol_witness:
  "\<exists>rt'. cancel_task 30 ''t1'' ''stop'' None demo_router = Inr (CancelPending False, rt') \<and>
     map_option t_status (get_task (snd rt') ''t1'') = Some CancelRequested"
proof -
  have "(case cancel_task 30 ''t1'' ''stop'' None demo_router of Inr (r, _) \<Rightarrow> r = CancelPending False | _ \<Rightarrow> False)"
    by code_simp
  then obtain rt' where c: "cancel_task 30 ''t1'' ''stop'' None demo_router = Inr (CancelPending False, rt')"
    by (auto split: sum.splits)
  from cancel_protocol [OF demo_router_wf c] show ?thesis using c by (auto split: option.splits)
qed

text \<open>While a cancellation is pending, the worker's next report, success or failure, is taken as
  the acknowledgement: the task becomes cancelled, a late result is not stored, no attempt is charged,
  and no other task changes.\<close>

theorem cancel_acknowledged:
  assumes "get_task (snd rt) tid = Some t" "t_status t = CancelRequested"
  shows "(\<exists>rt' u. complete_task now tid res rt = Inr (AckCancelled, rt') \<and> get_task (snd rt') tid = Some u \<and>
            t_status u = Cancelled \<and> t_result u = t_result t \<and> t_attempts u = t_attempts t \<and>
            (\<forall>k. k \<noteq> tid \<longrightarrow> get_task (snd rt') k = get_task (snd rt) k)) \<and>
         (strip why \<noteq> [] \<longrightarrow> (\<exists>rt' u. fail_task now tid (Some why) q rt = Inr (FailAckCancelled, rt') \<and>
            get_task (snd rt') tid = Some u \<and> t_status u = Cancelled \<and> t_attempts u = t_attempts t \<and>
            (\<forall>k. k \<noteq> tid \<longrightarrow> get_task (snd rt') k = get_task (snd rt) k)))"
  using assms by (simp add: complete_task_def fail_task_def with_store_def set_task_status_def Let_def)

theorem cancel_acknowledged_witness:
  "\<exists>rt' u. complete_task 40 ''t1'' (Some ''late'') demo_cancelling = Inr (AckCancelled, rt') \<and>
     get_task (snd rt') ''t1'' = Some u \<and> t_status u = Cancelled \<and> t_result u = None"
proof -
  have "map_option (\<lambda>t. (t_status t, t_result t)) (get_task (snd demo_cancelling) ''t1'') = Some (CancelRequested, None)"
    by code_simp
  then obtain t where t: "get_task (snd demo_cancelling) ''t1'' = Some t" "t_status t = CancelRequested" "t_result t = None"
    by auto
  from conjunct1 [OF cancel_acknowledged [OF t(1,2), where now = 40 and res = "Some ''late''"]] t(3)
  show ?thesis by metis
qed

section \<open>Completion\<close>

text \<open>C7: A report of success for a live task always returns. A reviewer task that lands nothing is
  completed only if its result carries a verdict: without one it goes back to the queue with one more
  attempt charged, or fails when the three attempts are used up. Every other live task is completed.\<close>

theorem complete_verdict_gate:
  assumes wf: "cs_wf (snd rt)" and t: "get_task (snd rt) tid = Some t"
    and live: "t_status t \<notin> {Completed, Failed, Cancelled, CancelRequested}"
  shows "\<exists>reply rt' u. complete_task now tid res rt = Inr (reply, rt') \<and> get_task (snd rt') tid = Some u \<and>
     (if lower (strip (t_role t)) = ''reviewer'' \<and> \<not> is_landing_row t \<and> reviewer_verdict res = None
      then (if t_attempts t < 3
            then reply = CompleteRequeued NO_VERDICT \<and> t_status u \<in> {Ready, Running} \<and> t_attempts t < t_attempts u
            else (\<exists>chain. reply = CompleteFailed NO_VERDICT chain) \<and> t_status u = Failed)
      else (\<exists>stored. reply = CompletedReply stored) \<and> t_status u = Completed)" (is "\<exists>reply rt' u. ?P reply rt' u")
proof -
  have nt: "t_status t \<notin> TERMINAL_TASK_STATUSES" using live by (simp add: TERMINAL_TASK_STATUSES_def)
  show ?thesis
  proof (cases "reviewer_completion_veto t res")
    case None
    with complete_accepts [OF wf t nt None] show ?thesis unfolding veto_iff by (metis option.distinct(1))
  next
    case (Some v)
    then have "v = NO_VERDICT" "lower (strip (t_role t)) = ''reviewer'' \<and> \<not> is_landing_row t \<and> reviewer_verdict res = None"
      unfolding veto_iff by (metis option.distinct(1) option.inject)+
    then show ?thesis using complete_requeues [OF wf t nt Some] complete_fails [OF wf t nt Some]
      by (cases "t_attempts t < 3") (simp, blast, simp, blast)
  qed
qed

theorem complete_verdict_gate_witness:
  "\<exists>rt'. complete_task 20 ''r1'' (Some ''done'') demo_review = Inr (CompleteRequeued NO_VERDICT, rt')"
proof -
  have wf: "cs_wf (snd demo_review)"
    by (simp add: demo_review_def create_tasks_batch_wf register_node_wf demo_wf(1))
  have "map_option (\<lambda>t. (t_status t, t_attempts t, lower (strip (t_role t)), is_landing_row t))
      (get_task (snd demo_review) ''r1'') = Some (Ready, 0, ''reviewer'', False)" by code_simp
  then obtain t where t: "get_task (snd demo_review) ''r1'' = Some t" "t_status t = Ready" "t_attempts t = 0"
    "lower (strip (t_role t)) = ''reviewer''" "\<not> is_landing_row t" by auto
  have v: "reviewer_verdict (Some ''done'') = None" by code_simp
  show ?thesis using complete_verdict_gate [OF wf t(1), where now = 20 and res = "Some ''done''"] t(2-5) v by auto
qed

section \<open>Submission\<close>



text \<open>C24: Counting as reviewers the stored tasks whose role is exactly \<open>reviewer\<close>: a reviewer
  submission for a lane with at most one live reviewer leaves it with at most one. It returns that one
  and changes nothing when there is one; it creates a task only when there is none, and the lane then
  has exactly one live reviewer, unless the role was sent in another spelling, which is stored as sent
  and never counts (\<open>reviewer_dedup_bypassed\<close>).\<close>

theorem one_live_reviewer:
  assumes "cs_wf (snd rt)" "lower (strip (sq_role req)) = ''reviewer''" "sq_lane_key req \<noteq> []"
    and "submit_task now req rt = Inr (reply, rt')"
    and "length (filter (live_reviewer req) (get_all_tasks (snd rt))) \<le> 1"
  shows "length (filter (live_reviewer req) (get_all_tasks (snd rt'))) \<le> 1 \<and>
     (case reply of Deduped t \<Rightarrow> rt' = rt \<and> t \<in> set (get_all_tasks (snd rt)) \<and> live_reviewer req t
      | Submitted _ \<Rightarrow> filter (live_reviewer req) (get_all_tasks (snd rt)) = [] \<and>
          length (filter (live_reviewer req) (get_all_tasks (snd rt'))) = (if sq_role req = ''reviewer'' then 1 else 0))"
proof (cases reply)
  case (Deduped t)
  with assms(4) have "rt' = rt" "find (live_reviewer req) (get_all_tasks (snd rt)) = Some t"
    by (auto simp: submit_task_def Let_def split_beta split: option.splits if_splits)
  then show ?thesis using assms(5) Deduped by (auto simp: find_Some_iff)
next
  case (Submitted r)
  from assms(4) [unfolded Submitted] obtain tid s1 s2 where
    f: "lower (strip (sq_role req)) = ''reviewer'' \<and> sq_lane_key req \<noteq> [] \<longrightarrow>
         find (live_reviewer req) (get_all_tasks (snd rt)) = None"
    and id: "generate_id ''task'' (snd rt) = (tid, s1)" "cs_tasks s1 = cs_tasks (snd rt)"
    and s2: "s2 = put_task tid (build_task now Pending (submit_plan tid req)) s1"
    and r: "snd rt' = snd (trigger_pending_tasks now s2)"
    by (rule submit_Submitted)
  have none: "filter (live_reviewer req) (dict_values (cs_tasks (snd rt))) = []"
    using f assms(2,3) by (simp add: find_None_iff filter_empty_conv get_all_tasks_def)
  have "cs_wf s1" using generate_id_wf [OF assms(1), of "''task''"] id(1) by simp
  from create_task_wf [OF this, of now "submit_plan tid req"] have "cs_wf s2"
    by (simp add: create_task_def Let_def s2 submit_plan_def)
  then have "dict_values (cs_tasks (snd rt')) = map (promoted now s2) (dict_values (cs_tasks s2))"
    unfolding r trigger_pending_partly [OF \<open>cs_wf s2\<close>] by (simp add: partly_def case_prod_unfold)
  then have "length (filter (live_reviewer req) (get_all_tasks (snd rt'))) =
      length (filter (live_reviewer req) (dict_values (cs_tasks s2)))"
    by (simp add: get_all_tasks_def filter_map comp_def live_reviewer_promoted)
  also have "\<dots> = (if live_reviewer req (build_task now Pending (submit_plan tid req)) then 1 else 0)"
    using length_filter_update [of "live_reviewer req" "cs_tasks s1" tid] none unfolding s2 id(2) [symmetric] by simp
  also have "live_reviewer req (build_task now Pending (submit_plan tid req)) \<longleftrightarrow> sq_role req = ''reviewer''"
    by (simp add: live_reviewer_def build_task_def default_task_def submit_plan_def)
  finally show ?thesis using none Submitted by (simp add: get_all_tasks_def)
qed

theorem one_live_reviewer_witness:
  "\<exists>r rt1. submit_task 30 (demo_submit ''reviewer'') demo_review = Inr (r, rt1) \<and>
     length (filter (live_reviewer (demo_submit ''reviewer'')) (get_all_tasks (snd rt1))) \<le> 1"
proof -
  let ?req = "demo_submit ''reviewer''"
  have wf: "cs_wf (snd demo_review)"
    by (simp add: demo_review_def create_tasks_batch_wf register_node_wf demo_wf(1))
  have "\<not> isl (submit_task 30 ?req demo_review)" by code_simp
  then obtain r rt1 where s: "submit_task 30 ?req demo_review = Inr (r, rt1)"
    by (cases "submit_task 30 ?req demo_review") auto
  have req: "lower (strip (sq_role ?req)) = ''reviewer''" "sq_lane_key ?req \<noteq> []"
    "length (filter (live_reviewer ?req) (get_all_tasks (snd demo_review))) \<le> 1" by code_simp+
  from one_live_reviewer [OF wf req(1,2) s req(3)] s show ?thesis by blast
qed

text \<open>The promise of one live reviewer per lane fails for another spelling of the role: the test
  on the request ignores case, the test on the stored tasks does not, and the role is stored as it was
  written. Two submissions of the same \<open>Reviewer\<close> request make two live tasks.\<close>

theorem reviewer_dedup_bypassed:
  "\<exists>t u rt1 rt2. submit_task 30 (demo_submit ''Reviewer'') demo_review = Inr (Submitted (Some t), rt1) \<and>
     submit_task 40 (demo_submit ''Reviewer'') rt1 = Inr (Submitted (Some u), rt2) \<and> t_id t \<noteq> t_id u \<and>
     t_lane_key t = t_lane_key u \<and> t_status t = Ready \<and> t_status u = Ready"
proof -
  have "(case created (submit_task 30 (demo_submit ''Reviewer'') demo_review) of
      None \<Rightarrow> False
    | Some (t, rt1) \<Rightarrow> (case created (submit_task 40 (demo_submit ''Reviewer'') rt1) of
         None \<Rightarrow> False
       | Some (u, _) \<Rightarrow> t_id t \<noteq> t_id u \<and> t_lane_key t = t_lane_key u \<and> t_status t = Ready \<and> t_status u = Ready))"
    by code_simp
  then show ?thesis by (auto simp: created_iff split: option.splits)
qed

section \<open>Ballots\<close>

text \<open>C26: A task blocked on a ballot is blocked with a well-formed ballot and listed among the
  pending ones. Any acceptable answer then resumes it: it is ready again, carries the answer with a
  directive for the formal decision that repeats it, is no longer listed, and a second answer is
  refused.\<close>

theorem block_then_answer:
  assumes wf: "cs_wf (snd rt)" and block: "block_task now tid bq rt = Inr (b, rt1)"
    and ans: "validate_answer ans = Some a"
  shows "ballot_ok b \<and> tid \<in> pb_task_id ` set (pending_ballots (snd rt1)) \<and>
     (\<exists>b2 rt2 u. answer_task later tid ans who rt1 = Inr (Answered b2, rt2) \<and>
        get_task (snd rt2) tid = Some u \<and> t_status u = Ready \<and> t_ballot u = Some b2 \<and>
        b_answer b2 = Some a \<and> b_question b2 = b_question b \<and> b_options b2 = b_options b \<and>
        (\<exists>d. b_formal b2 = Some d \<and> fd_answer d = a \<and> fd_state d \<in> {''formal-resolvable'', ''needs-actuation''}) \<and>
        tid \<notin> pb_task_id ` set (pending_ballots (snd rt2)) \<and>
        answer_task afterwards tid again_ans again_who rt2 = Inl (NoBallot Ready True))"
proof -
  from block_run [OF block] obtain lk t where
    built: "build_ballot now (bq_question bq) (bq_options bq) (bq_class bq) lk (bq_decision_ref bq) (bq_decision_id bq) = Inr b"
    and t: "get_task (snd rt1) tid = Some t" "t_status t = Blocked" "t_ballot t = Some b" by blast
  from build_ballot_Inr [OF built] have ok: "ballot_ok b" "b_answer b = None" by auto
  have a: "validate_answer a = Some a" "a \<noteq> []" using ans by (auto simp: validate_answer_def Let_def split: if_splits)
  let ?b1 = "b\<lparr>b_answer := Some a, b_answered_at := Some (utcnow_iso later), b_answered_by := take 120 who\<rparr>"
  let ?b2 = "attach_formal ?b1 tid"
  let ?u = "touch later ((touch later (t\<lparr>t_ballot := Some ?b2\<rparr>))\<lparr>t_status := Ready\<rparr>)"
  let ?rt2 = "(fst rt1, put_task tid ?u (snd rt1))"
  have run: "answer_task later tid ans who rt1 = Inr (Answered ?b2, ?rt2)"
    using t ok(2) a(1) ans
    by (simp add: answer_task_def record_answer_def set_task_ballot_def unblock_to_ready_def Let_def)
  have wf1: "cs_wf (snd rt1)" using block_advances(1) [OF block] wf by (simp add: advances_def)
  have wf2: "cs_wf (snd ?rt2)" using answer_advances [OF run] wf1 by (simp add: advances_def)
  have u: "get_task (snd ?rt2) tid = Some ?u" "t_status ?u = Ready" "t_ballot ?u = Some ?b2"
    by (simp_all add: touch_def)
  have "answer_task afterwards tid again_ans again_who ?rt2 = Inl (NoBallot Ready True)"
    using u by (simp add: answer_task_def)
  moreover have "fd_answer (formal_actuation ?b1 tid) = a \<and>
      fd_state (formal_actuation ?b1 tid) \<in> {''formal-resolvable'', ''needs-actuation''}"
    using formal_of_built [OF built, of ?b1] by simp
  ultimately show ?thesis
    using run u ok pending_ballots_at [OF wf1 t(1,3)] pending_ballots_at [OF wf2 u(1,3)] t(2)
    by (auto simp: unanswered_def attach_formal_def)
qed

theorem block_then_answer_witness:
  "\<exists>b rt1 b2 rt2. block_task 30 ''t2'' demo_block demo_router = Inr (b, rt1) \<and>
     answer_task 40 ''t2'' '' v2 '' ''owner'' rt1 = Inr (Answered b2, rt2) \<and> b_answer b2 = Some ''v2''"
proof -
  have "\<not> isl (block_task 30 ''t2'' demo_block demo_router)" by code_simp
  then obtain b rt1 where b: "block_task 30 ''t2'' demo_block demo_router = Inr (b, rt1)"
    by (cases "block_task 30 ''t2'' demo_block demo_router") auto
  have a: "validate_answer '' v2 '' = Some ''v2''" by code_simp
  from block_then_answer [OF demo_router_wf b a, where later = 40 and who = "''owner''"] b show ?thesis by blast
qed

section \<open>Deliverables\<close>

text \<open>The deliverable guard calls a text an echo of the brief exactly when it is neither blank
  nor a provider error and, with white space and case removed, both are at least 120 characters long
  and the brief contains the text after at most 16 characters are cut at either end. The flag that
  marks an error response, documented to widen the provider test, never changes the verdict.\<close>

theorem deliverable_guard_exact:
  "(classify_non_deliverable content brief err = Some ''brief_echo'' \<longleftrightarrow>
      strip content \<noteq> [] \<and> re_match PROVIDER_SHAPE (lstrip content) = None \<and>
      120 \<le> length (flat content) \<and> 120 \<le> length (flat brief) \<and>
      (\<exists>pre core post. flat content = pre @ core @ post \<and> core \<noteq> [] \<and> length pre \<le> 16 \<and> length post \<le> 16 \<and>
         contains core (flat brief))) \<and>
   classify_non_deliverable content brief err = classify_non_deliverable content brief False"
proof -
  have flag: "is_provider_shape content err = is_provider_shape content False"
    using is_provider_shape_flag by (cases err) simp_all
  show ?thesis unfolding classify_non_deliverable_def flag is_echo_iff [symmetric]
    by (auto simp: is_provider_shape_def)
qed

end
