(* ===== verification/Grouping.thy ===== *)
theory Grouping
  imports LandingGate "HOL-Library.Multiset"
begin

text \<open>
  The grouping planner of \<^verbatim>\<open>core/intake_grouping.py\<close>: which lane an issue belongs to, which
  issues are skipped, how the waiting issues of a repository are packed into one bundle, and when a
  bundle may be made. An issue carries the fields of the GitLab payload the planner reads.
  \<open>datetime.fromisoformat\<close> (read as UTC when it names no zone) is the parameter \<open>fromiso\<close>; it
  gives \<open>None\<close> where Python raises. The clock reading is \<open>now\<close>.
\<close>

section \<open>Configuration and issues\<close>

definition DEFAULT_LANE_BRANCH :: string where
  "DEFAULT_LANE_BRANCH = ''env/dev''"

text \<open>An optional \<open>status::\<close> in front of a label.\<close>

definition status_label :: "string \<Rightarrow> rx" where
  "status_label name = Seqs [Bol, Alt (Lit ''status::'') Eps, Lit name, Eol]"

definition DEFAULT_SKIP_LABEL_PATTERNS :: "rx list" where
  "DEFAULT_SKIP_LABEL_PATTERNS =
     [status_label ''blocked'', status_label ''needs-human'', status_label ''needs-decision'',
      Seqs [Bol, Lit ''epic'', Eol], Seqs [Bol, Lit ''type::epic'', Eol]]"

record grouping_config =
  gc_enabled :: bool
  gc_lane_branch :: string
  gc_lane_branches :: "(string, string) dict"
  gc_max_bundle_size :: int
  gc_max_area_clusters_per_bundle :: int
  gc_skip_label_patterns :: "rx list"
  gc_blocker_link_types :: "string list"
  gc_accumulate_window_s :: int

definition default_grouping_config :: grouping_config where
  "default_grouping_config =
     \<lparr>gc_enabled = False, gc_lane_branch = DEFAULT_LANE_BRANCH, gc_lane_branches = [],
      gc_max_bundle_size = 30, gc_max_area_clusters_per_bundle = 8,
      gc_skip_label_patterns = DEFAULT_SKIP_LABEL_PATTERNS,
      gc_blocker_link_types = [''is_blocked_by'', ''blocked_by''], gc_accumulate_window_s = 0\<rparr>"

text \<open>The field validators; a pattern of the model is always well formed.\<close>

definition grouping_config_ok :: "grouping_config \<Rightarrow> bool" where
  "grouping_config_ok cfg \<longleftrightarrow> \<not> gc_accumulate_window_s cfg < 0 \<and> \<not> gc_max_bundle_size cfg < 1"

record issue =
  is_iid :: int
  is_title :: string
  is_description :: string
  is_labels :: "string list"
  is_created_at :: "string option"
  is_full_ref :: string
  is_author_id :: "int option"
  is_intake_band :: "int option"

type_synonym candidate = "string \<times> issue \<times> int"

abbreviation cand_id :: "candidate \<Rightarrow> string" where
  "cand_id c \<equiv> fst c"

abbreviation cand_issue :: "candidate \<Rightarrow> issue" where
  "cand_issue c \<equiv> fst (snd c)"

abbreviation cand_band :: "candidate \<Rightarrow> int" where
  "cand_band c \<equiv> snd (snd c)"

record lane_view =
  lv_queued_bundles :: "(string, (string \<times> int) list) dict"
  lv_active_bundles :: "(string, (string \<times> int) list) dict"

record bundle_plan =
  bp_lane_key :: string
  bp_iids :: "int list"
  bp_project_paths :: "string list"
  bp_priority :: int
  bp_issue_ids :: "string list"
  bp_reason :: string

section \<open>Lanes and labels\<close>

definition lane_repo :: "string \<Rightarrow> string" where
  "lane_repo project_path =
     (let repo = path_tail (rstrip_char CHR ''/'' project_path)
      in if repo = [] then ''unknown-repo'' else repo)"

definition lane_branch_for :: "string \<Rightarrow> grouping_config \<Rightarrow> string" where
  "lane_branch_for project_path cfg =
     (case dict_get (gc_lane_branches cfg) (lane_repo project_path) of
        Some b \<Rightarrow> b
      | None \<Rightarrow> (case dict_get (gc_lane_branches cfg) project_path of
                   Some b \<Rightarrow> b
                 | None \<Rightarrow> gc_lane_branch cfg))"

definition lane_key_for :: "string \<Rightarrow> grouping_config \<Rightarrow> string" where
  "lane_key_for project_path cfg = lane_repo project_path @ ''#'' @ lane_branch_for project_path cfg"

definition is_doomed_label :: "string \<Rightarrow> grouping_config \<Rightarrow> bool" where
  "is_doomed_label label cfg = list_ex (\<lambda>p. re_search p label \<noteq> None) (gc_skip_label_patterns cfg)"

definition issue_is_doomed :: "issue \<Rightarrow> grouping_config \<Rightarrow> bool" where
  "issue_is_doomed iss cfg = list_ex (\<lambda>l. is_doomed_label l cfg) (is_labels iss)"

definition area_cluster :: "issue \<Rightarrow> string" where
  "area_cluster iss =
     (case find (\<lambda>l. startswith l ''area::'') (is_labels iss) of None \<Rightarrow> [] | Some l \<Rightarrow> l)"

section \<open>Ages\<close>

definition parse_gitlab_time :: "(string \<Rightarrow> time option) \<Rightarrow> string option \<Rightarrow> time option" where
  "parse_gitlab_time fromiso value =
     (case value of
        None \<Rightarrow> None
      | Some v \<Rightarrow>
          let s = strip v
          in if s = [] then None
             else if last s = CHR ''Z'' \<or> last s = CHR ''z'' then fromiso (butlast s @ ''+00:00'')
             else fromiso s)"

definition recency_key :: "(string \<Rightarrow> time option) \<Rightarrow> candidate \<Rightarrow> nat \<times> int \<times> string" where
  "recency_key fromiso c =
     (case parse_gitlab_time fromiso (is_created_at (cand_issue c)) of
        None \<Rightarrow> (1, 0, cand_id c)
      | Some dt \<Rightarrow> (0, - dt, cand_id c))"

definition oldest_candidate_age :: "(string \<Rightarrow> time option) \<Rightarrow> time \<Rightarrow> issue list \<Rightarrow> duration option" where
  "oldest_candidate_age fromiso now issues =
     (let ages = map (\<lambda>dt. max 0 (now - dt))
                   (List.map_filter (\<lambda>iss. parse_gitlab_time fromiso (is_created_at iss)) issues)
      in if ages = [] then None else Some (fold max ages 0))"

definition should_accumulate :: "nat \<Rightarrow> int \<Rightarrow> duration option \<Rightarrow> grouping_config \<Rightarrow> bool" where
  "should_accumulate batch_size top_band oldest_age cfg =
     (if gc_accumulate_window_s cfg \<le> 0 then False
      else if top_band = 0 then False
      else if gc_max_bundle_size cfg \<le> int batch_size then False
      else case oldest_age of
             None \<Rightarrow> False
           | Some age \<Rightarrow> age < seconds (gc_accumulate_window_s cfg))"

section \<open>Packing\<close>

definition filter_candidates ::
  "(string \<times> issue) list \<Rightarrow> grouping_config \<Rightarrow> (issue \<Rightarrow> int) \<Rightarrow> candidate list" where
  "filter_candidates issues cfg band_of =
     map (\<lambda>(iid, iss). (iid, iss, band_of iss)) (filter (\<lambda>(_, iss). \<not> issue_is_doomed iss cfg) issues)"

definition clusters_of :: "candidate list \<Rightarrow> (string, candidate list) dict" where
  "clusters_of cs =
     fold (\<lambda>c d. let k = area_cluster (cand_issue c) in dict_set k (dict_get_or d k [] @ [c]) d) cs []"

definition cluster_order :: "(string, candidate list) dict \<Rightarrow> (string \<times> candidate list) list" where
  "cluster_order d = sort_key (\<lambda>(name, grp). (- int (length grp), name = [], name)) d"

fun pack_group :: "int \<Rightarrow> string \<Rightarrow> candidate list \<Rightarrow> candidate list \<times> string list \<Rightarrow> candidate list \<times> string list" where
  "pack_group cap name [] st = st"
| "pack_group cap name (c # cs) (batch, used) =
     (if cap \<le> int (length batch) then (batch, used)
      else pack_group cap name cs (batch @ [c], if name \<in> set used then used else used @ [name]))"

fun pack_clusters ::
  "grouping_config \<Rightarrow> (string \<times> candidate list) list \<Rightarrow> candidate list \<times> string list \<Rightarrow>
   candidate list \<times> string list" where
  "pack_clusters cfg [] st = st"
| "pack_clusters cfg ((name, grp) # rest) (batch, used) =
     (if gc_max_area_clusters_per_bundle cfg \<le> int (length used) \<and> name \<notin> set used then (batch, used)
      else let (batch1, used1) = pack_group (gc_max_bundle_size cfg) name grp (batch, used)
           in if gc_max_bundle_size cfg \<le> int (length batch1) then (batch1, used1)
              else pack_clusters cfg rest (batch1, used1))"

text \<open>\<open>min(b for _, _, b in candidates)\<close>, and the text of a list of strings.\<close>

definition top_band :: "candidate list \<Rightarrow> int" where
  "top_band cs = Min (set (map cand_band cs))"

definition repr_list :: "string list \<Rightarrow> string" where
  "repr_list xs = ''['' @ join '', '' (map py_repr xs) @ '']''"

definition pack_repo_candidates ::
  "(string \<Rightarrow> time option) \<Rightarrow> string \<Rightarrow> candidate list \<Rightarrow> grouping_config \<Rightarrow> candidate list \<times> string" where
  "pack_repo_candidates fromiso lane_key cs cfg =
     (if cs = [] then ([], ''empty'')
      else let band = top_band cs;
               members = sort_key (recency_key fromiso) (filter (\<lambda>c. cand_band c = band) cs);
               (batch, used) = pack_clusters cfg (cluster_order (clusters_of members)) ([], [])
           in (batch, ''band='' @ show_int band @ '' clusters='' @ repr_list (sort used)
                      @ '' batch='' @ show_nat (length batch) @ ''/'' @ show_int (gc_max_bundle_size cfg)
                      @ '' cap''))"

definition lane_bundles :: "(string, (string \<times> int) list) dict \<Rightarrow> string \<Rightarrow> (string \<times> int) list" where
  "lane_bundles d lane_key = dict_get_or d lane_key []"

definition bundle_plan_for_repo ::
  "(string \<Rightarrow> time option) \<Rightarrow> time \<Rightarrow> string \<Rightarrow> candidate list \<Rightarrow> grouping_config \<Rightarrow> lane_view \<Rightarrow>
   (string \<Rightarrow> string) \<Rightarrow> bundle_plan option" where
  "bundle_plan_for_repo fromiso now lane_key cs cfg view project_of =
     (if cs = [] then None
      else let band = top_band cs;
               queued = lane_bundles (lv_queued_bundles view) lane_key;
               active = lane_bundles (lv_active_bundles view) lane_key;
               nonterminal = length queued + length active
           in if nonterminal \<noteq> 0 \<and> 0 < band then None
              else if nonterminal \<noteq> 0 \<and> list_ex (\<lambda>(_, b). b = 0) queued then None
              else if should_accumulate (length cs) band
                        (oldest_candidate_age fromiso now (map cand_issue cs)) cfg then None
              else let (batch, reason) = pack_repo_candidates fromiso lane_key cs cfg
                   in if batch = [] then None
                      else Some \<lparr>bp_lane_key = lane_key, bp_iids = map (is_iid \<circ> cand_issue) batch,
                                 bp_project_paths = sort (remdups (map (project_of \<circ> cand_id) batch)),
                                 bp_priority = band, bp_issue_ids = map cand_id batch,
                                 bp_reason = reason\<rparr>)"

text \<open>The ellipsis of the source's title, as its UTF-8 bytes.\<close>

definition ellipsis :: string where
  "ellipsis = [CHR 0xE2, CHR 0x80, CHR 0xA6]"

definition bundle_title :: "bundle_plan \<Rightarrow> string" where
  "bundle_title b =
     (let lane = ''[lane:'' @ bp_lane_key b @ '']''
      in if length (bp_iids b) = 1 then lane @ ''[##'' @ show_int (hd (bp_iids b)) @ '']''
         else lane @ ''[##'' @ show_int (hd (bp_iids b)) @ ellipsis @ show_int (last (bp_iids b))
              @ '' x'' @ show_nat (length (bp_iids b)) @ '']'')"

section \<open>Clusters\<close>

abbreviation cand_area :: "candidate \<Rightarrow> string" where
  "cand_area c \<equiv> area_cluster (cand_issue c)"

lemma clusters_of_snoc:
  "clusters_of (cs @ [c]) =
   dict_set (cand_area c) (dict_get_or (clusters_of cs) (cand_area c) [] @ [c]) (clusters_of cs)"
  by (simp add: clusters_of_def Let_def)

lemma clusters_of_Nil [simp]: "clusters_of [] = []"
  by (simp add: clusters_of_def)

lemma clusters_of_ok: "dict_ok (clusters_of cs)"
  by (induction cs rule: rev_induct) (simp_all add: clusters_of_snoc distinct_update)

lemma clusters_of_get:
  "dict_get (clusters_of cs) k =
   (if filter (\<lambda>c. cand_area c = k) cs = [] then None else Some (filter (\<lambda>c. cand_area c = k) cs))"
proof (induction cs rule: rev_induct)
  case (snoc c cs)
  show ?case
  proof (cases "cand_area c = k")
    case True
    with snoc show ?thesis by (simp add: clusters_of_snoc dict_get_or_def)
  next
    case False
    with snoc show ?thesis by (simp add: clusters_of_snoc)
  qed
qed simp

lemma clusters_of_mem:
  "(k, g) \<in> set (clusters_of cs) \<longleftrightarrow> g \<noteq> [] \<and> g = filter (\<lambda>c. cand_area c = k) cs"
  using map_of_eq_Some_iff [OF clusters_of_ok, of cs k g] clusters_of_get [of cs k] by (auto split: if_splits)

lemma cluster_order_set [simp]: "set (cluster_order d) = set d"
  by (simp add: cluster_order_def)

lemma cluster_order_keys: "dict_ok d \<Longrightarrow> distinct (map fst (cluster_order d))"
proof -
  have "mset (map fst (cluster_order d)) = mset (map fst d)" by (simp add: cluster_order_def)
  then show "dict_ok d \<Longrightarrow> ?thesis" using mset_eq_imp_distinct_iff by blast
qed

text \<open>The clusters split the candidates.\<close>

lemma mset_filter_areas:
  assumes "distinct ks" "\<forall>c \<in> set cs. cand_area c \<in> set ks"
  shows "mset (concat (map (\<lambda>k. filter (\<lambda>c. cand_area c = k) cs) ks)) = mset cs"
  using assms
proof (induction ks arbitrary: cs)
  case (Cons k ks)
  let ?rest = "filter (\<lambda>c. cand_area c \<noteq> k) cs"
  have same: "map (\<lambda>j. filter (\<lambda>c. cand_area c = j) cs) ks = map (\<lambda>j. filter (\<lambda>c. cand_area c = j) ?rest) ks"
    using Cons.prems(1) by (auto intro!: map_cong filter_cong)
  have "mset (concat (map (\<lambda>j. filter (\<lambda>c. cand_area c = j) cs) ks)) = mset ?rest"
    unfolding same by (rule Cons.IH) (use Cons.prems in auto)
  then show ?case using multiset_partition [of "mset cs" "\<lambda>c. cand_area c = k"] by simp
next
  case Nil
  then have "cs = []" by (cases cs) auto
  then show ?case by simp
qed

lemma mset_clusters: "mset (concat (map snd (cluster_order (clusters_of cs)))) = mset cs"
proof -
  let ?o = "cluster_order (clusters_of cs)"
  have "map snd ?o = map (\<lambda>k. filter (\<lambda>c. cand_area c = k) cs) (map fst ?o)"
    using clusters_of_mem by (auto simp: cluster_order_set)
  moreover have "cand_area c \<in> set (map fst ?o)" if "c \<in> set cs" for c
  proof -
    have "(cand_area c, filter (\<lambda>x. cand_area x = cand_area c) cs) \<in> set ?o"
      using that by (auto simp: clusters_of_mem filter_empty_conv)
    then show ?thesis by (force simp: image_iff)
  qed
  ultimately show ?thesis using mset_filter_areas [OF cluster_order_keys [OF clusters_of_ok]] by metis
qed

section \<open>The loops of the packer\<close>

lemma pack_group_eq:
  "pack_group cap name grp (batch, used) =
   (let taken = take (nat (cap - int (length batch))) grp
    in (batch @ taken, if taken = [] \<or> name \<in> set used then used else used @ [name]))"
proof (induction grp arbitrary: batch used)
  case (Cons c cs)
  show ?case
  proof (cases "cap \<le> int (length batch)")
    case False
    then have "nat (cap - int (length batch)) = Suc (nat (cap - int (length (batch @ [c]))))" by simp
    with False show ?thesis by (simp add: Cons.IH Let_def)
  qed simp
qed simp

text \<open>From every cluster the packer takes an initial part.\<close>

lemma no_takes [simp]:
  "concat (map2 (\<lambda>n p. take n (snd p)) (replicate (length ps) 0) ps) = []"
  by (induction ps) auto

lemma pack_clusters_takes:
  assumes "pack_clusters cfg order (batch, used) = (batch', used')"
  shows "\<exists>ns. length ns = length order \<and> batch' = batch @ concat (map2 (\<lambda>n p. take n (snd p)) ns order)"
  using assms
proof (induction order arbitrary: batch used)
  case (Cons p order)
  obtain name grp where p: "p = (name, grp)" by (cases p)
  show ?case
  proof (cases "gc_max_area_clusters_per_bundle cfg \<le> int (length used) \<and> name \<notin> set used")
    case True
    with p Cons.prems have "batch' = batch" by simp
    then show ?thesis using no_takes [of "p # order"]
      by (intro exI [of _ "replicate (length (p # order)) 0"]) (simp del: no_takes concat_eq_Nil_conv replicate.simps)
  next
    case False
    let ?n = "nat (gc_max_bundle_size cfg - int (length batch))"
    obtain b1 u1 where g: "pack_group (gc_max_bundle_size cfg) name grp (batch, used) = (b1, u1)" by force
    then have b1: "b1 = batch @ take ?n grp" by (simp add: pack_group_eq Let_def)
    show ?thesis
    proof (cases "gc_max_bundle_size cfg \<le> int (length b1)")
      case True
      with False p g Cons.prems have "batch' = b1" by (simp split: if_splits)
      then show ?thesis using p b1 no_takes [of order]
        by (intro exI [of _ "?n # replicate (length order) 0"]) (simp del: no_takes concat_eq_Nil_conv)
    next
      case more: False
      with False p g Cons.prems have "pack_clusters cfg order (b1, u1) = (batch', used')" by (simp split: if_splits)
      from Cons.IH [OF this] obtain ns where "length ns = length order"
        "batch' = b1 @ concat (map2 (\<lambda>n p. take n (snd p)) ns order)" by blast
      with p b1 show ?thesis by (intro exI [of _ "?n # ns"]) simp
    qed
  qed
qed (auto intro: exI [of _ "[]"])

lemma pack_clusters_caps:
  assumes "pack_clusters cfg order (batch, used) = (batch', used')" "int (length batch) \<le> gc_max_bundle_size cfg"
    and "int (length used) \<le> gc_max_area_clusters_per_bundle cfg"
  shows "int (length batch') \<le> gc_max_bundle_size cfg \<and> int (length used') \<le> gc_max_area_clusters_per_bundle cfg"
  using assms
proof (induction order arbitrary: batch used)
  case (Cons p order)
  obtain name grp where p: "p = (name, grp)" by (cases p)
  show ?case
  proof (cases "gc_max_area_clusters_per_bundle cfg \<le> int (length used) \<and> name \<notin> set used")
    case False
    obtain b1 u1 where g: "pack_group (gc_max_bundle_size cfg) name grp (batch, used) = (b1, u1)" by force
    then have "int (length b1) \<le> gc_max_bundle_size cfg" "int (length u1) \<le> gc_max_area_clusters_per_bundle cfg"
      using False Cons.prems(2,3) by (auto simp: pack_group_eq Let_def split: if_splits)
    then show ?thesis using Cons.IH [of b1 u1] Cons.prems(1) p g False by (auto split: if_splits)
  qed (use Cons.prems p in auto)
qed simp

text \<open>The areas of the batch are the clusters counted as used.\<close>

lemma pack_clusters_areas:
  assumes "pack_clusters cfg order (batch, used) = (batch', used')" "cand_area ` set batch \<subseteq> set used"
    and "\<forall>(name, grp) \<in> set order. \<forall>c \<in> set grp. cand_area c = name"
  shows "cand_area ` set batch' \<subseteq> set used'"
  using assms
proof (induction order arbitrary: batch used)
  case (Cons p order)
  obtain name grp where p: "p = (name, grp)" by (cases p)
  show ?case
  proof (cases "gc_max_area_clusters_per_bundle cfg \<le> int (length used) \<and> name \<notin> set used")
    case False
    obtain b1 u1 where g: "pack_group (gc_max_bundle_size cfg) name grp (batch, used) = (b1, u1)" by force
    define tk where "tk = take (nat (gc_max_bundle_size cfg - int (length batch))) grp"
    have b1: "b1 = batch @ tk" and u1: "u1 = (if tk = [] \<or> name \<in> set used then used else used @ [name])"
      using g by (simp_all add: pack_group_eq Let_def tk_def)
    have "cand_area c = name" if "c \<in> set tk" for c
      using Cons.prems(3) p in_set_takeD [of c _ grp] that by (auto simp: tk_def)
    then have "cand_area ` set tk \<subseteq> set u1" using u1 by (cases "tk = []") auto
    then have "cand_area ` set b1 \<subseteq> set u1"
      using Cons.prems(2) u1 unfolding b1 set_append image_Un by (simp split: if_splits) blast+
    then show ?thesis using Cons.IH [of b1 u1] Cons.prems(1,3) p g False by (auto split: if_splits)
  qed (use Cons.prems p in auto)
qed simp

lemma pack_clusters_some:
  assumes "pack_clusters cfg order ([], []) = (batch, used)" "order \<noteq> []" "\<forall>(name, grp) \<in> set order. grp \<noteq> []"
    and "1 \<le> gc_max_bundle_size cfg" "1 \<le> gc_max_area_clusters_per_bundle cfg"
  shows "batch \<noteq> []"
proof -
  obtain name grp rest where o: "order = (name, grp) # rest" using assms(2) by (metis list.exhaust surj_pair)
  obtain b1 u1 where g: "pack_group (gc_max_bundle_size cfg) name grp ([], []) = (b1, u1)" by force
  have "b1 \<noteq> []" using g assms(3,4) o by (auto simp: pack_group_eq Let_def)
  moreover have "b1 = batch \<or> pack_clusters cfg rest (b1, u1) = (batch, used)"
    using assms(1,5) o g by (auto split: if_splits)
  ultimately show ?thesis using pack_clusters_takes [of cfg rest b1 u1 batch used] by auto
qed

text \<open>When neither limit bites, everything is taken.\<close>

lemma pack_clusters_all:
  assumes "pack_clusters cfg order (batch, used) = (batch', used')" "int (length batch') < gc_max_bundle_size cfg"
    and "int (length used) + int (length order) \<le> gc_max_area_clusters_per_bundle cfg"
  shows "batch' = batch @ concat (map snd order)"
  using assms
proof (induction order arbitrary: batch used)
  case (Cons p order)
  obtain name grp where p: "p = (name, grp)" by (cases p)
  let ?n = "nat (gc_max_bundle_size cfg - int (length batch))"
  obtain b1 u1 where g: "pack_group (gc_max_bundle_size cfg) name grp (batch, used) = (b1, u1)" by force
  then have b1: "b1 = batch @ take ?n grp" and u1: "length u1 \<le> Suc (length used)"
    by (auto simp: pack_group_eq Let_def split: if_splits)
  have "pack_clusters cfg order (b1, u1) = (batch', used') \<and> int (length b1) < gc_max_bundle_size cfg"
    using Cons.prems p g by (auto split: if_splits)
  moreover from this have "length (take ?n grp) < ?n" unfolding b1 by (simp only: length_append) linarith
  then have "take ?n grp = grp" by (simp add: min_def split: if_splits)
  ultimately show ?case using Cons.IH [of b1 u1] Cons.prems(2,3) u1 p b1 by simp
qed simp

section \<open>The batch\<close>

lemma takes_mset:
  "length ns = length ps \<Longrightarrow> mset (concat (map2 (\<lambda>n p. take n (snd p)) ns ps)) \<subseteq># mset (concat (map snd ps))"
proof (induction ns ps rule: list_induct2)
  case (Cons n ns p ps)
  have "mset (take n (snd p)) \<subseteq># mset (snd p)" by (metis append_take_drop_id mset_append mset_subset_eq_add_left)
  with Cons show ?case by (simp add: subset_mset.add_mono)
qed simp

lemma takes_other:
  assumes "length ns = length ps" "\<forall>(name, grp) \<in> set ps. \<forall>c \<in> set grp. cand_area c = name" "k \<notin> fst ` set ps"
  shows "filter (\<lambda>c. cand_area c = k) (concat (map2 (\<lambda>n p. take n (snd p)) ns ps)) = []"
  using assms
proof (induction ns ps rule: list_induct2)
  case (Cons n ns p ps)
  have "\<forall>c \<in> set (take n (snd p)). cand_area c \<noteq> k" using Cons.prems in_set_takeD by (cases p) fastforce
  with Cons show ?case by (auto simp: filter_empty_conv)
qed simp

lemma takes_area:
  assumes "length ns = length ps" "\<forall>(name, grp) \<in> set ps. \<forall>c \<in> set grp. cand_area c = name"
    and "distinct (map fst ps)" "(k, g) \<in> set ps"
  shows "\<exists>n. filter (\<lambda>c. cand_area c = k) (concat (map2 (\<lambda>n p. take n (snd p)) ns ps)) = take n g"
  using assms
proof (induction ns ps rule: list_induct2)
  case (Cons n ns p ps)
  obtain name grp where p: "p = (name, grp)" by (cases p)
  have hom: "\<forall>c \<in> set (take n grp). cand_area c = name" using Cons.prems(1) p in_set_takeD by fastforce
  show ?case
  proof (cases "name = k")
    case True
    then have "g = grp" using Cons.prems(2,3) p by (auto simp: image_iff)
    moreover have "filter (\<lambda>c. cand_area c = k) (concat (map2 (\<lambda>n p. take n (snd p)) ns ps)) = []"
      by (rule takes_other) (use Cons True p in auto)
    moreover have "filter (\<lambda>c. cand_area c = k) (take n grp) = take n grp" using hom True by simp
    ultimately show ?thesis using p by auto
  next
    case False
    have "filter (\<lambda>c. cand_area c = k) (take n grp) = []" using hom False by (simp add: filter_empty_conv)
    then show ?thesis using Cons False p by auto
  qed
qed simp

lemma top_band_le: "c \<in> set cs \<Longrightarrow> top_band cs \<le> cand_band c"
  by (simp add: top_band_def)

lemma top_band_mem: "cs \<noteq> [] \<Longrightarrow> \<exists>c \<in> set cs. cand_band c = top_band cs"
proof -
  assume "cs \<noteq> []"
  then have "Min (set (map cand_band cs)) \<in> set (map cand_band cs)" by (intro Min_in) simp_all
  then obtain c where "Min (set (map cand_band cs)) = cand_band c" "c \<in> set cs" unfolding set_map by (rule imageE)
  then show ?thesis by (intro bexI [of _ c]) (simp_all only: top_band_def)
qed

text \<open>The top band, newest first, and what \<open>pack_repo_candidates\<close> takes of it.\<close>

definition members_of :: "(string \<Rightarrow> time option) \<Rightarrow> candidate list \<Rightarrow> candidate list" where
  "members_of fromiso cs = sort_key (recency_key fromiso) (filter (\<lambda>c. cand_band c = top_band cs) cs)"

abbreviation order_of :: "(string \<Rightarrow> time option) \<Rightarrow> candidate list \<Rightarrow> (string \<times> candidate list) list" where
  "order_of fromiso cs \<equiv> cluster_order (clusters_of (members_of fromiso cs))"

lemma pack_repo_run:
  "cs \<noteq> [] \<Longrightarrow> fst (pack_repo_candidates fromiso lane cs cfg) = fst (pack_clusters cfg (order_of fromiso cs) ([], []))"
  by (simp add: pack_repo_candidates_def members_of_def Let_def split_beta)

lemma order_of_areas: "(name, grp) \<in> set (order_of fromiso cs) \<Longrightarrow> c \<in> set grp \<Longrightarrow> cand_area c = name"
  using clusters_of_mem [of name grp "members_of fromiso cs"] by auto

lemma mset_members: "mset (members_of fromiso cs) = mset (filter (\<lambda>c. cand_band c = top_band cs) cs)"
  by (simp add: members_of_def)

lemma pack_repo_mset:
  "mset (fst (pack_repo_candidates fromiso lane cs cfg)) \<subseteq># mset (filter (\<lambda>c. cand_band c = top_band cs) cs)"
proof (cases "cs = []")
  case False
  obtain b u where r: "pack_clusters cfg (order_of fromiso cs) ([], []) = (b, u)" by force
  from pack_clusters_takes [OF r] takes_mset have "mset b \<subseteq># mset (concat (map snd (order_of fromiso cs)))" by auto
  then show ?thesis unfolding mset_clusters mset_members pack_repo_run [OF False] r by simp
qed (simp add: pack_repo_candidates_def)

lemma pack_repo_newest:
  assumes x: "x \<in> set (fst (pack_repo_candidates fromiso lane cs cfg))"
    and y: "y \<in> set cs" "cand_band y = top_band cs" "y \<notin> set (fst (pack_repo_candidates fromiso lane cs cfg))"
    and area: "cand_area x = cand_area y"
  shows "recency_key fromiso x \<le> recency_key fromiso y"
proof -
  let ?o = "order_of fromiso cs" and ?k = "cand_area y" and ?m = "members_of fromiso cs"
  let ?g = "filter (\<lambda>c. cand_area c = ?k) ?m"
  have ne: "cs \<noteq> []" using y(1) by auto
  obtain b u where r: "pack_clusters cfg ?o ([], []) = (b, u)" by force
  from pack_clusters_takes [OF r] obtain ns where ns: "length ns = length ?o"
    "b = concat (map2 (\<lambda>n p. take n (snd p)) ns ?o)" by auto
  have hom: "\<forall>(name, grp) \<in> set ?o. \<forall>c \<in> set grp. cand_area c = name" using order_of_areas by fast
  have "y \<in> set ?m" using y(1,2) by (simp add: members_of_def)
  then have yg: "y \<in> set ?g" and "(?k, ?g) \<in> set ?o" by (auto simp: clusters_of_mem filter_empty_conv)
  from takes_area [OF ns(1) hom cluster_order_keys [OF clusters_of_ok] this(2)] ns(2)
  obtain n where n: "filter (\<lambda>c. cand_area c = ?k) b = take n ?g" by auto
  have b: "set b = set (fst (pack_repo_candidates fromiso lane cs cfg))" by (simp add: pack_repo_run [OF ne] r)
  have "x \<in> set (take n ?g)" using x area unfolding n [symmetric] b [symmetric] by simp
  moreover have "y \<notin> set (take n ?g)" using y(3) unfolding n [symmetric] b [symmetric] by simp
  then have "y \<in> set (drop n ?g)" using yg by (metis Un_iff append_take_drop_id set_append)
  moreover have "sorted (map (recency_key fromiso) ?g)"
    unfolding members_of_def by (rule sorted_filter) simp
  then have "sorted (map (recency_key fromiso) (take n ?g) @ map (recency_key fromiso) (drop n ?g))"
    by (metis append_take_drop_id map_append)
  ultimately show ?thesis by (simp add: sorted_append)
qed

lemma pack_repo_some:
  assumes "cs \<noteq> []" "1 \<le> gc_max_bundle_size cfg" "1 \<le> gc_max_area_clusters_per_bundle cfg"
  shows "fst (pack_repo_candidates fromiso lane cs cfg) \<noteq> []"
proof -
  obtain b u where r: "pack_clusters cfg (order_of fromiso cs) ([], []) = (b, u)" by force
  from top_band_mem [OF assms(1)] obtain c where "c \<in> set (members_of fromiso cs)" by (auto simp: members_of_def)
  then have "set (members_of fromiso cs) \<noteq> {}" by auto
  then have "order_of fromiso cs \<noteq> []" using mset_clusters [of "members_of fromiso cs"] by force
  moreover have "\<forall>(name, grp) \<in> set (order_of fromiso cs). grp \<noteq> []" by (auto simp: clusters_of_mem)
  ultimately show ?thesis using pack_clusters_some [OF r] assms(2,3) by (simp add: pack_repo_run [OF assms(1)] r)
qed

lemma pack_repo_caps:
  assumes "0 \<le> gc_max_bundle_size cfg" "0 \<le> gc_max_area_clusters_per_bundle cfg"
  shows "int (length (fst (pack_repo_candidates fromiso lane cs cfg))) \<le> gc_max_bundle_size cfg \<and>
     int (card (cand_area ` set (fst (pack_repo_candidates fromiso lane cs cfg)))) \<le> gc_max_area_clusters_per_bundle cfg"
proof (cases "cs = []")
  case False
  obtain b u where r: "pack_clusters cfg (order_of fromiso cs) ([], []) = (b, u)" by force
  have "\<forall>(name, grp) \<in> set (order_of fromiso cs). \<forall>c \<in> set grp. cand_area c = name" using order_of_areas by fast
  with pack_clusters_areas [OF r] have "cand_area ` set b \<subseteq> set u" by simp
  then have "card (cand_area ` set b) \<le> length u" by (meson List.finite_set card_length card_mono le_trans)
  with pack_clusters_caps [OF r] assms show ?thesis by (simp add: pack_repo_run [OF False] r)
qed (use assms in \<open>simp add: pack_repo_candidates_def\<close>)

lemma pack_repo_all:
  assumes "int (length (fst (pack_repo_candidates fromiso lane cs cfg))) < gc_max_bundle_size cfg"
    and "int (card (cand_area ` set cs)) \<le> gc_max_area_clusters_per_bundle cfg"
    and "c \<in> set cs" "cand_band c = top_band cs"
  shows "c \<in> set (fst (pack_repo_candidates fromiso lane cs cfg))"
proof -
  have ne: "cs \<noteq> []" using assms(3) by auto
  obtain b u where r: "pack_clusters cfg (order_of fromiso cs) ([], []) = (b, u)" by force
  let ?ks = "map fst (order_of fromiso cs)"
  have "set ?ks \<subseteq> cand_area ` set cs"
  proof
    fix k
    assume "k \<in> set ?ks"
    then obtain g where g: "(k, g) \<in> set (order_of fromiso cs)" by auto
    then obtain x where "x \<in> set g" by (auto simp: clusters_of_mem filter_empty_conv)
    with g have "x \<in> set cs" "cand_area x = k" by (auto simp: clusters_of_mem members_of_def)
    then show "k \<in> cand_area ` set cs" by (metis image_eqI)
  qed
  moreover have "card (set ?ks) = length (order_of fromiso cs)"
    using distinct_card [OF cluster_order_keys [OF clusters_of_ok]] by simp
  ultimately have "length (order_of fromiso cs) \<le> card (cand_area ` set cs)" by (metis List.finite_set card_mono finite_imageI)
  with pack_clusters_all [OF r] assms(1,2) have "b = concat (map snd (order_of fromiso cs))"
    by (simp add: pack_repo_run [OF ne] r)
  then have "set b = set (members_of fromiso cs)" using mset_clusters by (metis set_mset_mset)
  moreover have "c \<in> set (members_of fromiso cs)" using assms(3,4) by (simp add: members_of_def)
  ultimately show ?thesis by (simp add: pack_repo_run [OF ne] r)
qed

end
