(* ===== verification/IntakePolicy.thy ===== *)
theory IntakePolicy
  imports Grouping
begin

text \<open>
  The runtime intake policy of \<^verbatim>\<open>core/intake_policy.py\<close>: scopes, priority bands, the endpoint
  allow-list and the loading of the stored section. A stored section is a policy record that has not
  been validated yet; a validation error is the left of a sum. \<open>urllib.parse.urlsplit\<close> is the
  parameter \<open>urlsplit\<close>: \<open>None\<close> where it raises, and in the parts \<open>up_port\<close> is \<open>None\<close> where
  reading the port raises. The two environment variables read here are the record \<open>env\<close>.
\<close>

section \<open>Endpoints\<close>

record url_parts =
  up_scheme :: string
  up_netloc :: string
  up_hostname :: "string option"
  up_port :: "int option option"

record env =
  env_endpoint :: string
  env_allowed :: "string option"

datatype policy_error =
  PortError
| BadScopeType string
| BadDefaultBand int
| BadBand int
| BadDedupScope string
| RequiresEmpty
| BadGrouping
| EndpointRefused

definition DEFAULT_GITLAB_ENDPOINT :: string where
  "DEFAULT_GITLAB_ENDPOINT = ''https://gitlab.bdaya-dev.com''"

definition endpoint_host :: "(string \<Rightarrow> url_parts option) \<Rightarrow> string \<Rightarrow> policy_error + string" where
  "endpoint_host urlsplit value =
     (case urlsplit value of
        None \<Rightarrow> Inr []
      | Some p \<Rightarrow>
          if up_scheme p \<notin> {''http'', ''https''} \<or> up_netloc p = [] then Inr []
          else let host = rstrip_char CHR ''.'' (lower (case up_hostname p of None \<Rightarrow> [] | Some h \<Rightarrow> h))
               in if host = [] then Inr []
                  else case up_port p of
                         None \<Rightarrow> Inl PortError
                       | Some None \<Rightarrow> Inr host
                       | Some (Some port) \<Rightarrow> Inr (host @ '':'' @ show_int port))"

text \<open>\<open>s.split(\",\")\<close>.\<close>

fun split_on :: "char \<Rightarrow> string \<Rightarrow> string list" where
  "split_on c [] = [[]]"
| "split_on c (x # xs) =
     (if x = c then [] # split_on c xs
      else case split_on c xs of [] \<Rightarrow> [[x]] | y # ys \<Rightarrow> (x # y) # ys)"

fun add_hosts :: "(string \<Rightarrow> url_parts option) \<Rightarrow> string list \<Rightarrow> string list \<Rightarrow> policy_error + string list" where
  "add_hosts urlsplit [] hosts = Inr hosts"
| "add_hosts urlsplit (raw # parts) hosts =
     (let part = strip raw
      in if part = [] then add_hosts urlsplit parts hosts
         else case endpoint_host urlsplit (if contains ''://'' part then part else ''https://'' @ part) of
                Inl e \<Rightarrow> Inl e
              | Inr host \<Rightarrow> add_hosts urlsplit parts (if host = [] then hosts else List.insert host hosts))"

definition allowed_endpoint_hosts ::
  "(string \<Rightarrow> url_parts option) \<Rightarrow> env \<Rightarrow> string \<Rightarrow> policy_error + string list" where
  "allowed_endpoint_hosts urlsplit env boot_default =
     (let effective_default = (if boot_default \<noteq> [] then boot_default
                               else if env_endpoint env \<noteq> [] then env_endpoint env
                               else DEFAULT_GITLAB_ENDPOINT)
      in add_hosts urlsplit (split_on CHR '','' effective_default @ split_on CHR '',''
            (case env_allowed env of None \<Rightarrow> [] | Some a \<Rightarrow> a)) [])"

definition sanitize_endpoint ::
  "(string \<Rightarrow> url_parts option) \<Rightarrow> env \<Rightarrow> string \<Rightarrow> bool \<Rightarrow> policy_error + string" where
  "sanitize_endpoint urlsplit env value strict =
     (if value = [] then Inr []
      else case endpoint_host urlsplit value of
             Inl e \<Rightarrow> Inl e
           | Inr host \<Rightarrow>
               (case allowed_endpoint_hosts urlsplit env [] of
                  Inl e \<Rightarrow> Inl e
                | Inr allowed \<Rightarrow>
                    if host \<noteq> [] \<and> host \<in> set allowed then Inr value
                    else if strict then Inl EndpointRefused
                    else Inr []))"

section \<open>Scopes and bands\<close>

definition VALID_PRIORITY_BANDS :: "int list" where
  "VALID_PRIORITY_BANDS = [0, 1, 2, 3, 4, 5]"

record intake_scope =
  sc_type :: string
  sc_path :: string
  sc_label :: string
  sc_enabled :: bool

record intake_priority =
  ip_default :: int
  ip_author_ids :: "(int, int) dict"
  ip_project_paths :: "(string, int) dict"
  ip_labels :: "(string, int) dict"
  ip_label_prefixes :: "string list"

definition default_priority :: intake_priority where
  "default_priority =
     \<lparr>ip_default = 3, ip_author_ids = [], ip_project_paths = [], ip_labels = [], ip_label_prefixes = []\<rparr>"

definition check_type :: "intake_scope \<Rightarrow> policy_error + unit" where
  "check_type s = (if sc_type s \<notin> {''project'', ''group''} then Inl (BadScopeType (sc_type s)) else Inr ())"

definition check_bands :: "int list \<Rightarrow> policy_error + unit" where
  "check_bands bands =
     (case find (\<lambda>b. b \<notin> set VALID_PRIORITY_BANDS) bands of None \<Rightarrow> Inr () | Some b \<Rightarrow> Inl (BadBand b))"

definition check_priority :: "intake_priority \<Rightarrow> policy_error + unit" where
  "check_priority p =
     (if ip_default p \<notin> set VALID_PRIORITY_BANDS then Inl (BadDefaultBand (ip_default p))
      else check_bands (dict_values (ip_author_ids p) @ dict_values (ip_project_paths p) @ dict_values (ip_labels p)))"

text \<open>The first key of a list that the table has.\<close>

fun first_band :: "('k, int) dict \<Rightarrow> 'k list \<Rightarrow> int option" where
  "first_band d [] = None"
| "first_band d (k # ks) = (case dict_get d k of Some b \<Rightarrow> Some b | None \<Rightarrow> first_band d ks)"

definition band_for :: "intake_priority \<Rightarrow> int option \<Rightarrow> string \<Rightarrow> string \<Rightarrow> string list \<Rightarrow> int" where
  "band_for p author_id project_path scope_path labels =
     (case (case author_id of None \<Rightarrow> None | Some a \<Rightarrow> dict_get (ip_author_ids p) a) of
        Some b \<Rightarrow> b
      | None \<Rightarrow>
          (case first_band (ip_project_paths p) (filter (\<lambda>x. x \<noteq> []) [project_path, scope_path]) of
             Some b \<Rightarrow> b
           | None \<Rightarrow>
               (case first_band (ip_labels p) labels of
                  Some b \<Rightarrow> b
                | None \<Rightarrow>
                    if list_ex (\<lambda>prefix. list_ex (\<lambda>l. startswith l prefix) labels) (ip_label_prefixes p) then 0
                    else ip_default p)))"

section \<open>The policy\<close>

record policy =
  po_enabled :: "bool option"
  po_endpoint :: string
  po_interval_seconds :: int
  po_requires :: "string list"
  po_scopes :: "intake_scope list"
  po_priority :: intake_priority
  po_dedup_scope :: string
  po_grouping :: grouping_config
  po_allowed_endpoints :: "string list"
  po_configured :: bool

definition default_policy :: policy where
  "default_policy =
     \<lparr>po_enabled = None, po_endpoint = [], po_interval_seconds = 0, po_requires = [''tooling''],
      po_scopes = [], po_priority = default_priority, po_dedup_scope = ''iid'',
      po_grouping = default_grouping_config, po_allowed_endpoints = [], po_configured = False\<rparr>"

definition check_requires :: "string list \<Rightarrow> policy_error + string list" where
  "check_requires v =
     (let cleaned = map strip (filter (\<lambda>x. x \<noteq> [] \<and> strip x \<noteq> []) v)
      in if cleaned = [] then Inl RequiresEmpty else Inr cleaned)"

fun check_scopes :: "intake_scope list \<Rightarrow> policy_error + unit" where
  "check_scopes [] = Inr ()"
| "check_scopes (s # ss) = (case check_type s of Inl e \<Rightarrow> Inl e | Inr _ \<Rightarrow> check_scopes ss)"

text \<open>The validators run field by field; the first error is reported here, Python reports them all.\<close>

definition model_validate :: "(string \<Rightarrow> url_parts option) \<Rightarrow> env \<Rightarrow> policy \<Rightarrow> policy_error + policy" where
  "model_validate urlsplit env raw =
     (case sanitize_endpoint urlsplit env (po_endpoint raw) False of
        Inl e \<Rightarrow> Inl e
      | Inr endpoint \<Rightarrow>
     (case check_requires (po_requires raw) of
        Inl e \<Rightarrow> Inl e
      | Inr requires \<Rightarrow>
     (case check_scopes (po_scopes raw) of
        Inl e \<Rightarrow> Inl e
      | Inr _ \<Rightarrow>
     (case check_priority (po_priority raw) of
        Inl e \<Rightarrow> Inl e
      | Inr _ \<Rightarrow>
          if po_dedup_scope raw \<notin> {''iid'', ''full''} then Inl (BadDedupScope (po_dedup_scope raw))
          else if \<not> grouping_config_ok (po_grouping raw) then Inl BadGrouping
          else Inr (raw\<lparr>po_endpoint := endpoint, po_requires := requires, po_configured := False\<rparr>)))))"

definition validate_policy_write :: "(string \<Rightarrow> url_parts option) \<Rightarrow> env \<Rightarrow> policy \<Rightarrow> policy_error + policy" where
  "validate_policy_write urlsplit env raw =
     (if po_endpoint raw = [] then model_validate urlsplit env raw
      else case endpoint_host urlsplit (po_endpoint raw) of
             Inl e \<Rightarrow> Inl e
           | Inr host \<Rightarrow>
               (case allowed_endpoint_hosts urlsplit env [] of
                  Inl e \<Rightarrow> Inl e
                | Inr allowed \<Rightarrow>
                    if host \<notin> set allowed then Inl EndpointRefused else model_validate urlsplit env raw))"

text \<open>
  \<open>load_policy\<close>: \<open>stored\<close> is the section of the store, if it has one. A seeded host list goes into
  the environment, unless the variable is already set.
\<close>

definition lift_allowed :: "policy \<Rightarrow> env \<Rightarrow> env" where
  "lift_allowed raw env =
     (if po_allowed_endpoints raw \<noteq> [] \<and> env_allowed env = None
      then env\<lparr>env_allowed := Some (join '','' (po_allowed_endpoints raw))\<rparr> else env)"

definition load_policy ::
  "(string \<Rightarrow> url_parts option) \<Rightarrow> env \<Rightarrow> string \<Rightarrow> int \<Rightarrow> policy option \<Rightarrow> (policy_error + policy) \<times> env" where
  "load_policy urlsplit env default_endpoint default_interval stored =
     (let finish = (\<lambda>p. p\<lparr>po_endpoint := (if po_endpoint p = [] then default_endpoint else po_endpoint p),
                           po_configured := (stored \<noteq> None)\<rparr>)
      in case stored of
           None \<Rightarrow>
             ((case sanitize_endpoint urlsplit env default_endpoint False of
                 Inl e \<Rightarrow> Inl e
               | Inr endpoint \<Rightarrow>
                   Inr (finish (default_policy\<lparr>po_endpoint := endpoint, po_interval_seconds := default_interval\<rparr>))), env)
         | Some raw \<Rightarrow>
             (let env1 = lift_allowed raw env
              in ((case model_validate urlsplit env1 raw of
                     Inl e \<Rightarrow> Inl e
                   | Inr p \<Rightarrow>
                       Inr (finish (p\<lparr>po_interval_seconds :=
                             (if po_interval_seconds p = 0 then default_interval else po_interval_seconds p)\<rparr>))), env1)))"

end
