(* ===== verification/Briefs.thy ===== *)
theory Briefs
  imports Grouping Ballot
begin

text \<open>
  The texts \<^verbatim>\<open>core/intake_grouping.py\<close> renders: the delivery brief of a bundle and the
  brief of the review it hands off, both line by line. A text is its lines, each ended by a
  newline; characters outside ASCII are their UTF-8 bytes.
\<close>

definition text_lines :: "string list \<Rightarrow> string" where
  "text_lines ls = concat (map (\<lambda>l. l @ [CHR 0x0A]) ls)"

abbreviation apos :: string where
  "apos \<equiv> [CHR 0x27]"

abbreviation bslash :: string where
  "bslash \<equiv> [CHR 0x5C]"

abbreviation right_arrow :: string where
  "right_arrow \<equiv> [CHR 0xE2, CHR 0x86, CHR 0x92]"

abbreviation times_sign :: string where
  "times_sign \<equiv> [CHR 0xC3, CHR 0x97]"

definition issue_refs :: "bundle_plan \<Rightarrow> string" where
  "issue_refs b = join '', '' (map (\<lambda>i. ''#'' @ show_int i) (bp_iids b))"

section \<open>The delivery brief\<close>

definition bundle_brief_sitting :: "bundle_plan \<Rightarrow> string" where
  "bundle_brief_sitting b = text_lines
    [''## LFP-1 stateful lane sitting '' @ em_dash @ '' '' @ (show_nat (length (bp_iids b))) @ '' issue(s) in one bundle'',
     [],
     ''Lane key: `'' @ (bp_lane_key b) @ ''` (one long-lived lane per client'' @ times_sign @ ''repo '' @ em_dash,
     ''shared/claude-plugins#762, owner D7-stateful; #833 note 133037 rule #1).'',
     [],
     ''Issues in this bundle: '' @ (issue_refs b),
     ''(projects: '' @ (join '', '' (bp_project_paths b)) @ '')'',
     [],
     ''Sitting discipline (#762, #613 note 105482):'',
     ''  * ONE clone, ONE app session: launch/attach the app once, authenticate'',
     ''    once, iterate over ALL issues above against the still-running app.'',
     ''  * LOCAL-FIRST (LFP-1, !685): batch every fix into the one clone, run the'',
     ''    exact CI suite locally to green, push ONCE '' @ em_dash @ '' CI confirms, it does not'',
     ''    iterate. ONE Draft MR for the whole bundle '' @ em_dash @ '' Draft while CI spins up,'',
     ''    marked READY before the HAND-OFF below (a Draft is not a merge'',
     ''    candidate and the reviewer pipeline bounces it).'',
     ''  * AB-1: never cross stacks; this bundle is one repo, cross-area bundling'',
     ''    inside it is the LFP-1 carve-out and the diff MUST stay reviewable '' @ em_dash,
     ''    if it exceeds one review pass, split the MR and say so on every'',
     ''    dropped issue'' @ apos @ ''s disposition note.'',
     ''  * PROOF IS NOT DILUTED BY BUNDLING (per-issue, folded per the'',
     ''    2026-09-14 owner ruling): each bug-labeled issue needs its own'',
     ''    TDDD-1 fence AND the guard it names '' @ em_dash @ '' extend the e2e/test layer'',
     ''    where the symptom is user-visible (patrol/playwright for frontend,'',
     ''    black-box e2e / integration / unit for backend), proven RED with'',
     ''    the defect and GREEN with the fix '' @ em_dash @ '' plus its own disposition note.'',
     ''    There is NO separate live-verification pass anymore: the MR'' @ apos @ ''s'',
     ''    reviewer re-runs that guard RED'' @ right_arrow @ ''GREEN and reads the post-deploy'',
     ''    e2e job at env/dev, then posts the folded VP-1 note and closes'',
     ''    the issue itself. The MR `Refs` every issue '' @ em_dash @ '' NEVER `Closes`'',
     ''    (the close gate fires them on merge before the reviewer'' @ apos @ ''s proof).'',
     ''  * DAG: do not fix an issue above whose open blocker (is_blocked_by,'',
     ''    outside this bundle) is unmerged '' @ em_dash @ '' record the hold as its'',
     ''    disposition instead.'',
     ''  * Drain the fix-merged-awaiting-live-verify queue first (S16) so the'',
     ''    sitting never re-derives a landed fix.'',
     ''  * Escalate once, in a batch: one AskHumanQuestion with several'',
     ''    questions beats N separate blocks.'']"

definition bundle_brief_handoff :: "bundle_plan \<Rightarrow> string" where
  "bundle_brief_handoff b = text_lines
    [[],
     ''HAND-OFF (#893 '' @ em_dash @ '' reviewer self-dispatch; no lead in the loop):'',
     ''  * The reviewer pipeline'' @ apos @ ''s Stage 1 REFUSES a Draft MR (a Draft is not'',
     ''    a merge candidate) and a red required job at head '' @ em_dash @ '' handing off'',
     ''    before they clear makes the reviewer bounce with a NEEDS-CHANGES'',
     ''    follow-up author task on THIS lane: wasted credits, zero review.'',
     ''    So the hand-off preconditions are explicit and ORDERED:'',
     ''      1. push ONCE (LOCAL-FIRST: the exact CI suite already runs green'',
     ''         locally, with every per-issue disposition note posted);'',
     ''      2. wait for the required CI jobs at head to be green by their'',
     ''         TERMINAL traces (`bdaya-glab pipeline` / job trace '' @ em_dash @ '' read the'',
     ''         ending, never assume) '' @ em_dash @ '' if red, fix LOCALLY, re-push, re-wait;'',
     ''      3. mark the MR READY (`bdaya-glab mr update --ready` on GitLab /'',
     ''         `markPullRequestReadyForReview` on GitHub);'',
     ''      4. THEN '' @ em_dash @ '' and only then '' @ em_dash @ '' do NOT park for the lead: call the'',
     ''         `kanban_cluster_submit` tool to create your OWN reviewer task '' @ em_dash,
     ''         `role='' @ apos @ ''reviewer'' @ apos @ ''`, `requires=['' @ apos @ ''review'' @ apos @ '']`,'',
     ''         `lane_key='' @ apos @ (bp_lane_key b) @ ''-rev'' @ apos @ ''`, priority = this task'' @ apos @ ''s'',
     ''         priority ('' @ (show_int (bp_priority b)) @ ''), and the title = the full'',
     ''         INDEPENDENT REVIEW brief rendered by'',
     ''         `reviewer_handoff_brief(bundle, mr_url, head_sha)` '' @ em_dash @ '' the single'',
     ''         source of that wording: it carries the MR URL, the head sha'',
     ''         (ALREADY green-CI and READY per the ordering above), the'',
     ''         issue list, the rubric (block only on CONFIRMED in-diff'',
     ''         correctness/acceptance/secret/CLAUDE.md-rule findings;'',
     ''         `INCOMPLETE-ROSTER` if SocratiCode is short; `NEEDS-HUMAN`'',
     ''         never overridden), the posting instruction'',
     ''         (`bdaya-glab mr note` via `npx -y -p'',
     ''         @shared/bdaya-gitlab@latest`), and the CLOSE-THE-LOOP rule:'',
     ''         on PASS at head the REVIEWER lane lands a GITLAB MR itself'',
     ''         with `bdaya-glab mr land --project <p> --mr <n> --sha <head>`;'',
     ''         on a GITHUB PR the reviewer cannot land (#882 read-only, no'',
     ''         `bdaya-glab` verb) and instead SUBMITS a landing task'',
     ''         (role='' @ apos @ ''author'' @ apos @ '', requires=['' @ apos @ ''github-write'' @ apos @ ''], lane_key'',
     ''         `<repo>#land-<n>`, priority 5) whose brief verifies'',
     ''         headRefOid==reviewed sha, then `gh pr ready` +'',
     ''         `gh pr merge --merge` '' @ em_dash @ '' the #902 fix that stopped'',
     ''         PASSed GitHub PRs sitting Draft with no valid action;'',
     ''         (reviewer != author, fresh context, so RV-1'',
     ''         holds; a `needs-human` label is a hard stop '' @ em_dash @ '' never land past'',
     ''         it); on NEEDS-CHANGES the reviewer submits a follow-up author'',
     ''         task on the ORIGINAL lane key `'' @ (bp_lane_key b) @ ''` with the'',
     ''         findings.'']"

definition bundle_brief_closing :: "bundle_plan \<Rightarrow> string" where
  "bundle_brief_closing b = text_lines
    [''  * Submit exactly one reviewer task, then finish: never cancel or'',
     ''    resubmit it (#898). A queued reviewer is capacity-waiting, not'',
     ''    lost '' @ em_dash @ '' the reviewer reads the live head and pins its verdict sha,'',
     ''    so a moved head is no reason to touch the task; the main returns'',
     ''    the existing task for any live-lane_key resubmit. Waiting for the'',
     ''    reviewer is not the author'' @ apos @ ''s job: it hands back on NEEDS-CHANGES.'',
     ''  * The author lane NEVER approves, merges, or reviews its own MR,'',
     ''    and it does not park for the lead '' @ em_dash @ '' the hand-off above IS the'',
     ''    end of the author'' @ apos @ ''s duties for this sitting.'']"

definition bundle_brief :: "bundle_plan \<Rightarrow> string" where
  "bundle_brief b = bundle_brief_sitting b @ bundle_brief_handoff b @ bundle_brief_closing b"

section \<open>The review brief\<close>

definition GITHUB_PULL_RE :: rx where
  "GITHUB_PULL_RE =
     Seqs [Lit ''http'', Opt (is_char CHR ''s''), Lit ''://'', Alt (Lit ''www.'') Eps, Lit ''github.com/'',
           Grp 1 (Seqs [Plus (\<lambda>c. is_word c \<or> c = CHR ''.'' \<or> c = CHR ''-''), Lit ''/'',
                        Plus (\<lambda>c. is_word c \<or> c = CHR ''.'' \<or> c = CHR ''-'')]),
           Lit ''/pull/'', Grp 2 (Plus is_digit)]"

definition parse_github_pr_url :: "string \<Rightarrow> (string \<times> int) option" where
  "parse_github_pr_url mr_url =
     (case re_search GITHUB_PULL_RE mr_url of
        None \<Rightarrow> None
      | Some g \<Rightarrow> Some (group 1 g, digits_value (group 2 g)))"

definition review_title :: "string \<Rightarrow> bundle_plan \<Rightarrow> string \<Rightarrow> string" where
  "review_title rev_key b mr_url =
     (case parse_github_pr_url mr_url of
        Some gh \<Rightarrow> ''[lane:'' @ rev_key @ ''][REVIEW '' @ bp_lane_key b @ '' PR #'' @ show_int (snd gh) @ '']''
      | None \<Rightarrow> ''[lane:'' @ rev_key @ ''][REVIEW '' @ bp_lane_key b @ '' MR !''
                @ path_tail (rstrip_char CHR ''/'' mr_url) @ '']'')"

definition review_intro :: "string \<Rightarrow> string \<Rightarrow> bundle_plan \<Rightarrow> string \<Rightarrow> string \<Rightarrow> string" where
  "review_intro title rev_key b mr_url head_sha = text_lines
    [title,
     [],
     ''## INDEPENDENT REVIEW (shared/claude-plugins#893) '' @ em_dash @ '' fresh context, reviewer role'',
     [],
     ''Artifact under review: '' @ mr_url,
     ''Head sha (verdict pins to this sha ONLY; anything else = stale): '' @ head_sha,
     ''Author lane: `'' @ (bp_lane_key b) @ ''`  |  Your lane key: `'' @ rev_key @ ''`'',
     [],
     ''Issues this bundle delivers (every one must be Refs'' @ apos @ ''d by the MR and'',
     ''carry its own per-issue disposition note '' @ em_dash @ '' PROOF IS NOT DILUTED BY'',
     ''BUNDLING): '' @ (issue_refs b),
     ''(projects: '' @ (join '', '' (bp_project_paths b)) @ '')'',
     [],
     ''Rubric '' @ em_dash @ '' block ONLY on a CONFIRMED in-diff finding:'',
     ''  * correctness bug you can point at in the diff,'',
     ''  * acceptance-criteria violation for a listed issue (missing per-issue'',
     ''    proof/disposition counts as the finding '' @ em_dash @ '' name the issue number),'',
     ''  * a secret in the diff,'',
     ''  * a CLAUDE.md-rule violation. Style opinions are not findings.'',
     ''  * If SocratiCode (or any roster tool the review needs) is short or'',
     ''    unavailable, verdict is INCOMPLETE-ROSTER '' @ em_dash @ '' never a PASS you'',
     ''    guessed around the gap.'',
     ''  * A `needs-human` label anywhere on this bundle is a hard stop:'',
     ''    verdict NEEDS-HUMAN, and it is NEVER overridden '' @ em_dash @ '' not by you,'',
     ''    not by the author.'',
     [],
     ''Post your verdict: an MR note pinned to the head sha, via'',
     ''`bdaya-glab mr note` (npx -y -p @shared/bdaya-gitlab@latest ...).'',
     ''The note is the durable oracle the landing gate reads.'']"

definition record_review :: "string \<Rightarrow> string \<Rightarrow> string" where
  "record_review mr_url head_sha = text_lines
    [[],
     ''RECORD THE REVIEW AS bdaya-lane-agent (#918 '' @ em_dash @ '' GitHub PR only;'',
     ''the note above is unchanged, this is ADDED):'',
     ''  python -m hermes_cluster.core.gh_review --mr-url '' @ mr_url @ '' '' @ bslash,
     ''    --sha '' @ head_sha @ '' --verdict <PASS|NEEDS-CHANGES> '' @ bslash,
     ''    --body '' @ apos @ ''<one-line verdict summary>'' @ apos,
     ''  * PASS at head -> the tool submits APPROVE; NEEDS-CHANGES ->'',
     ''    REQUEST_CHANGES; INCOMPLETE-ROSTER or a verdict-less'',
     ''    completion -> NO review is submitted (the tool refuses and'',
     ''    says so '' @ em_dash @ '' '' @ apos @ ''completed'' @ apos @ '' is never a verdict, #914'' @ apos @ ''s rule).'',
     ''  * The tool mints the App installation token through the estate'',
     ''    resolver (#867), submits the sha-pinned review, and reports'',
     ''    success ONLY after read-back proves a recorded bot review at'',
     ''    this sha in GET /pulls/<n>/reviews. If it exits non-zero '' @ em_dash,
     ''    token un-mintable, submission 4xx, or read-back empty '' @ em_dash @ '' SAY'',
     ''    SO verbatim in your result ('' @ apos @ ''App review FAILED: <reason>'' @ apos @ '');'',
     ''    never report a successful review the forge cannot show.'',
     ''  * Never print a token value; the tool reports byte lengths.'',
     ''  * Approving is not merging (#882): this gives you NO merge'',
     ''    verb '' @ em_dash @ '' you never merge, never land it yourself; the landing'',
     ''    task below still closes the loop.'']"

definition landing_github :: "string \<times> int \<Rightarrow> string \<Rightarrow> string" where
  "landing_github gh head_sha = text_lines
    [''  * On PASS at head (GitHub PR '' @ em_dash @ '' you do NOT land it yourself:'',
     ''    you are read-only #882 and `bdaya-glab mr land` has no GitHub'',
     ''    verb): submit a LANDING task via `kanban_cluster_submit` '' @ em_dash,
     ''    role='' @ apos @ ''author'' @ apos @ '', lane_key='' @ apos @ (path_tail (fst gh)) @ ''#land-'' @ (show_int (snd gh)) @ apos @ '','',
     ''    requires=['' @ apos @ ''github-write'' @ apos @ ''], priority=5, depends_on=[<THIS reviewer'',
     ''    task'' @ apos @ ''s id>] (#905: the create handler holds a dep-tagged task'',
     ''    pending until every dependency completes '' @ em_dash @ '' the landing cannot run'',
     ''    before your verdict is filed), and its title/brief IS:'',
     ''    `gh pr view '' @ (show_int (snd gh)) @ '' --repo '' @ (fst gh) @ '' --json headRefOid` MUST equal'',
     ''    '' @ head_sha @ '' (STOP + NEEDS-CHANGES follow-up if the head moved) '' @ right_arrow,
     ''    `gh pr ready '' @ (show_int (snd gh)) @ '' --repo '' @ (fst gh) @ ''` '' @ right_arrow @ '' `gh pr merge '' @ (show_int (snd gh)),
     ''    --repo '' @ (fst gh) @ '' --merge` '' @ right_arrow @ '' post-merge verify per the PR body'' @ apos @ ''s'',
     ''    own proof section, then the folded VP-1 note + issue close per'',
     ''    the next bullet run on the deployed surface it names. Submit'',
     ''    it EXACTLY ONCE (#898 dedupe applies) '' @ em_dash @ '' never resubmit, never'',
     ''    park for the lead. Nothing in this brief ever tells you to'',
     ''    '' @ apos @ ''submit the reviewer task'' @ apos @ '': that step is the task you are now'',
     ''    completing.'']"

definition landing_gitlab :: "string \<Rightarrow> string" where
  "landing_gitlab head_sha = text_lines
    [''  * On PASS at head: YOU land the MR yourself:'',
     ''    `bdaya-glab mr land --project <p> --mr <n> --sha '' @ head_sha @ ''`'',
     ''    (sha pinned; the tool refuses a stale head). Reviewer != author'',
     ''    and this lane is fresh-context, so RV-1 holds '' @ em_dash @ '' a `needs-human`'',
     ''    label is a hard stop: NEVER land past it.'']"

definition review_tail :: "bundle_plan \<Rightarrow> string \<Rightarrow> string" where
  "review_tail b mr_url = text_lines
    [''  * FOLDED VP-1 (owner ruling 2026-09-14 '' @ em_dash @ '' the separate live-verify'',
     ''    lane is RETIRED; you are the live verifier): for every listed'',
     ''    user-facing issue, before its close '' @ em_dash @ '' (1) RE-RUN the issue'' @ apos @ ''s'',
     ''    TDDD-1 guard YOURSELF both ways: RED with the defect present'',
     ''    (mutation/revert of the fix line), GREEN with the fix; keep the'',
     ''    red and green output lines; (2) AFTER landing at the merge sha,'',
     ''    read the post-deploy e2e job on the deployed env/dev surface'',
     ''    (patrol/playwright frontend, black-box e2e/integration backend):'',
     ''    `finished_at` set + `status=success` + the trace shows the suite'',
     ''    ran and passed '' @ em_dash @ '' CG-1: the job'' @ apos @ ''s TERMINAL TRACE, never pipeline'',
     ''    color. Then post on EACH fixed issue:'',
     ''    `VP-1: PASS '' @ em_dash @ '' Surface: merged@<merge-sha> + ci-job@<project>/<job-id> '' @ em_dash @ '' '' @ mr_url @ '' '' @ em_dash @ '' verifier: @<your-username>`'',
     ''    (bdaya-glab note post; the close gate parses exactly this folded'',
     ''    shape) and CLOSE it yourself: `bdaya-glab issue close`. An issue'',
     ''    whose post-deploy job is not green STAYS OPEN with label'',
     ''    `fix-merged-awaiting-live-verify` '' @ em_dash @ '' never close on the merge'',
     ''    alone, and never relabel to dodge the gate.'',
     ''  * On NEEDS-CHANGES: do NOT land. Submit a follow-up AUTHOR task on'',
     ''    the ORIGINAL lane_key `'' @ (bp_lane_key b) @ ''` (role='' @ apos @ ''author'' @ apos @ '') via'',
     ''    `kanban_cluster_submit`, carrying your findings verbatim '' @ em_dash @ '' the'',
     ''    fix round is a delivery into the author lane session (#833 rule #1).'']"

definition reviewer_handoff_brief :: "bundle_plan \<Rightarrow> string \<Rightarrow> string \<Rightarrow> string option \<Rightarrow> string" where
  "reviewer_handoff_brief b mr_url head_sha reviewer_lane_key =
     (let rev_key = (case reviewer_lane_key of
                       None \<Rightarrow> bp_lane_key b @ ''-rev''
                     | Some k \<Rightarrow> if k = [] then bp_lane_key b @ ''-rev'' else k);
          gh = parse_github_pr_url mr_url
      in review_intro (review_title rev_key b mr_url) rev_key b mr_url head_sha
         @ (case gh of None \<Rightarrow> [] | Some _ \<Rightarrow> record_review mr_url head_sha)
         @ text_lines [[], ''CLOSE THE LOOP (#893) '' @ em_dash @ '' after posting the note:'']
         @ (case gh of None \<Rightarrow> landing_gitlab head_sha | Some pr \<Rightarrow> landing_github pr head_sha)
         @ review_tail b mr_url)"

end
