(* ===== verification/Intake.thy ===== *)
theory Intake
  imports IntakePolicy ClusterOps Ballot Briefs
begin

text \<open>
  The GitLab intake of \<^verbatim>\<open>routers/intake.py\<close>: deduplication, the view of the lanes the planner
  works on, the grouped and the per-issue cycle of the poller, the webhook and the rate limiter of
  policy writes. GitLab is a parameter, the record \<open>gitlab\<close>: an answer that is an error is the left
  of a sum or \<open>None\<close>. What the module and its poller keep is the record \<open>intake\<close>, with the store in
  it. Sets of ids are lists without repetition.
\<close>

section \<open>State\<close>

record link =
  ln_link_type :: string
  ln_full_ref :: string
  ln_state :: string

text \<open>
  \<open>gl_issues base label page\<close>, \<open>gl_merge_requests project page\<close> (title and description of each) and
  \<open>gl_links path iid\<close>.
\<close>

record gitlab =
  gl_issues :: "string \<Rightarrow> string \<Rightarrow> nat \<Rightarrow> string + issue list"
  gl_merge_requests :: "string \<Rightarrow> nat \<Rightarrow> (string \<times> string) list option"
  gl_links :: "string \<Rightarrow> string \<Rightarrow> link list option"

record boot =
  bo_endpoint :: string
  bo_project :: string
  bo_label :: string
  bo_interval :: int
  bo_requires :: "string list"

record intake =
  it_store :: cluster_state
  it_dedup :: "(string, string) dict"
  it_attempts :: "(string, rat list) dict"
  it_last_poll :: "time option"
  it_last_poll_ok :: bool
  it_issues_seen :: nat
  it_tasks_created :: nat
  it_last_errors :: "(string, string) dict"
  it_error_history :: "(string \<times> string \<times> time) list"
  it_error_counts :: "(string, int) dict"
  it_seen_keys :: "string list"

section \<open>Keys and scopes\<close>

definition dedup_key :: "string \<Rightarrow> string \<Rightarrow> int \<Rightarrow> string" where
  "dedup_key mode path iid =
     (if mode = ''full'' \<and> path \<noteq> [] then path @ ''#'' @ show_int iid else show_int iid)"

definition scope_matches :: "string \<Rightarrow> intake_scope \<Rightarrow> bool" where
  "scope_matches path s \<longleftrightarrow> sc_enabled s \<and> sc_path s \<noteq> [] \<and>
     (sc_type s = ''project'' \<and> sc_path s = path \<or>
      sc_type s = ''group'' \<and> (path = sc_path s \<or> startswith path (sc_path s @ ''/'')))"

definition in_scope :: "string \<Rightarrow> intake_scope list \<Rightarrow> intake_scope option" where
  "in_scope path_with_namespace scopes = find (scope_matches path_with_namespace) scopes"

text \<open>\<open>s.rsplit(\"#\", 1)\<close>: what is before and after the last \<open>#\<close>.\<close>

definition before_hash :: "string \<Rightarrow> string" where
  "before_hash s = rev (drop 1 (dropWhile (\<lambda>c. c \<noteq> CHR ''#'') (rev s)))"

definition after_hash :: "string \<Rightarrow> string" where
  "after_hash s = rev (takeWhile (\<lambda>c. c \<noteq> CHR ''#'') (rev s))"

definition project_path_of :: "issue \<Rightarrow> intake_scope option \<Rightarrow> string" where
  "project_path_of iss scope =
     (if CHR ''#'' \<in> set (is_full_ref iss) then before_hash (is_full_ref iss)
      else case scope of None \<Rightarrow> [] | Some s \<Rightarrow> if sc_type s = ''project'' then sc_path s else [])"

section \<open>The view of the lanes\<close>

definition ISSUE_HOLDING_STATUSES :: "task_status list" where
  "ISSUE_HOLDING_STATUSES = [Pending, Ready, Running, Assigned, CancelRequested]"

definition LEGACY_TITLE_RE :: rx where
  "LEGACY_TITLE_RE = Seqs [Lit ''[#'', Grp 1 (Plus is_digit), Lit '']'']"

definition add_entry ::
  "string \<Rightarrow> string \<times> int \<Rightarrow> (string, (string \<times> int) list) dict \<Rightarrow> (string, (string \<times> int) list) dict" where
  "add_entry lane entry d = dict_set lane (lane_bundles d lane @ [entry]) d"

definition add_all :: "'a list \<Rightarrow> 'a list \<Rightarrow> 'a list" where
  "add_all xs acc = fold List.insert xs acc"

definition view_task ::
  "task \<Rightarrow> lane_view \<times> string list \<times> int list \<Rightarrow> lane_view \<times> string list \<times> int list" where
  "view_task t acc =
     (let (view, blocked, legacy) = acc; members = t_issues t; status = t_status t
      in if members = []
         then if status \<in> {Pending, Ready, Running, Assigned, CancelRequested}
              then case re_match LEGACY_TITLE_RE (t_title t) of
                     None \<Rightarrow> acc
                   | Some g \<Rightarrow> (view, blocked, List.insert (digits_value (group 1 g)) legacy)
              else acc
         else if status = Completed then (view, add_all members blocked, legacy)
         else if status = Cancelled
         then if t_cancel_requeue t = Some False then (view, add_all members blocked, legacy) else acc
         else if status \<notin> set ISSUE_HOLDING_STATUSES then acc
         else let blocked1 = add_all members blocked; lane = t_lane_key t; entry = (t_id t, t_priority t)
              in if lane = [] then (view, blocked1, legacy)
                 else if status = Running \<or> status = Assigned
                 then (view\<lparr>lv_active_bundles := add_entry lane entry (lv_active_bundles view)\<rparr>, blocked1, legacy)
                 else (view\<lparr>lv_queued_bundles := add_entry lane entry (lv_queued_bundles view)\<rparr>, blocked1, legacy))"

definition grouping_view :: "cluster_state \<Rightarrow> lane_view \<times> string list \<times> int list" where
  "grouping_view s =
     fold view_task (get_all_tasks s) (\<lparr>lv_queued_bundles = [], lv_active_bundles = []\<rparr>, [], [])"

section \<open>Creating tasks\<close>

definition bundle_task_plan :: "string \<Rightarrow> bundle_plan \<Rightarrow> string list \<Rightarrow> task_plan" where
  "bundle_task_plan task_id b requires =
     \<lparr>pl_task_id = task_id, pl_title = bundle_title b, pl_requires = requires,
      pl_priority = bp_priority b, pl_lane_key = bp_lane_key b, pl_role = ''author'',
      pl_description = bundle_brief b, pl_issues = bp_issue_ids b, pl_depends_on = []\<rparr>"

definition kick :: "time \<Rightarrow> cluster_state \<Rightarrow> cluster_state" where
  "kick now s = snd (schedule_pending now (snd (trigger_pending_tasks now s)))"

definition create_bundle_task ::
  "time \<Rightarrow> bundle_plan \<Rightarrow> string list \<Rightarrow> cluster_state \<Rightarrow> task \<times> cluster_state" where
  "create_bundle_task now b requires s =
     (let (task_id, s1) = generate_id ''task'' s;
          (t, s2) = create_task now (bundle_task_plan task_id b requires) s1
      in (t, kick now s2))"

definition create_task_from_issue ::
  "time \<Rightarrow> string \<Rightarrow> int \<Rightarrow> string \<Rightarrow> int \<Rightarrow> string list \<Rightarrow> string \<Rightarrow> intake \<Rightarrow> (task \<times> bool) \<times> intake" where
  "create_task_from_issue now key display_iid title priority requires description it =
     (case (case dict_get (it_dedup it) key of None \<Rightarrow> None | Some tid \<Rightarrow> get_task (it_store it) tid) of
        Some existing \<Rightarrow> ((existing, False), it)
      | None \<Rightarrow>
          let (task_id, s1) = generate_id ''task'' (it_store it);
              (t, s2) = create_task now
                \<lparr>pl_task_id = task_id, pl_title = ''[#'' @ show_int display_iid @ ''] '' @ title,
                 pl_requires = requires, pl_priority = priority, pl_lane_key = [], pl_role = ''author'',
                 pl_description = description, pl_issues = [], pl_depends_on = []\<rparr> s1
          in ((t, True), it\<lparr>it_dedup := dict_set key task_id (it_dedup it), it_store := kick now s2\<rparr>))"

section \<open>What GitLab says\<close>

definition MR_REF_RE :: rx where
  "MR_REF_RE =
     Seqs [Alts [Seq (Cls (\<lambda>c. c = CHR ''C'' \<or> c = CHR ''c'')) (Lit ''loses''),
                 Seqs [Cls (\<lambda>c. c = CHR ''R'' \<or> c = CHR ''r''), Lit ''ef'', Opt (is_char CHR ''s'')],
                 Lit ''#''],
           Star is_space, Opt (is_char CHR ''#''), Grp 1 (Plus is_digit)]"

definition mr_refs :: "string \<Rightarrow> string \<times> string \<Rightarrow> string list" where
  "mr_refs project_path mr =
     map (\<lambda>n. project_path @ ''#'' @ n) (re_findall MR_REF_RE (fst mr @ [CHR 0x0A] @ snd mr))"

text \<open>The page loop stops after five pages; the first argument counts the pages left.\<close>

fun mr_census :: "nat \<Rightarrow> gitlab \<Rightarrow> string \<Rightarrow> nat \<Rightarrow> string list \<Rightarrow> string list option" where
  "mr_census 0 gl project_path page refs = Some refs"
| "mr_census (Suc k) gl project_path page refs =
     (case gl_merge_requests gl project_path page of
        None \<Rightarrow> None
      | Some batch \<Rightarrow>
          let refs1 = add_all (concat (map (mr_refs project_path) batch)) refs
          in if length batch < 100 then Some refs1
             else mr_census k gl project_path (Suc page) refs1)"

definition open_mr_issue_refs :: "gitlab \<Rightarrow> string \<Rightarrow> string list \<Rightarrow> string list" where
  "open_mr_issue_refs gl project_path open_ids =
     (case mr_census 5 gl project_path 1 [] of
        None \<Rightarrow> open_ids
      | Some refs \<Rightarrow> filter (\<lambda>i. i \<in> set refs) open_ids)"

definition open_blocker :: "string list \<Rightarrow> string list \<Rightarrow> link \<Rightarrow> bool" where
  "open_blocker batch_ids blocker_types dep \<longleftrightarrow>
     ln_link_type dep \<in> set blocker_types \<and> CHR ''#'' \<in> set (ln_full_ref dep) \<and>
     ln_full_ref dep \<notin> set batch_ids \<and> ln_state dep \<noteq> ''closed''"

definition held_by_open_blockers :: "gitlab \<Rightarrow> string \<Rightarrow> string list \<Rightarrow> string list \<Rightarrow> string list" where
  "held_by_open_blockers gl issue_id batch_ids blocker_types =
     (case gl_links gl (before_hash issue_id) (after_hash issue_id) of
        None \<Rightarrow> [issue_id]
      | Some links \<Rightarrow> if list_ex (open_blocker batch_ids blocker_types) links then [issue_id] else [])"

section \<open>The grouped cycle\<close>

record collected =
  co_by_repo :: "(string, (string \<times> issue) list) dict"
  co_seen :: "string list"
  co_count :: nat

definition collect_issue :: "policy \<Rightarrow> intake_scope option \<Rightarrow> issue \<Rightarrow> collected \<Rightarrow> collected" where
  "collect_issue po scope iss co =
     (let co1 = co\<lparr>co_count := Suc (co_count co)\<rparr>; proj_path = project_path_of iss scope;
          issue_id = proj_path @ ''#'' @ show_int (is_iid iss)
      in if proj_path = [] then co1
         else if issue_id \<in> set (co_seen co1) then co1
         else let band = (case scope of
                            None \<Rightarrow> 3
                          | Some s \<Rightarrow> band_for (po_priority po) (is_author_id iss) proj_path (sc_path s) (is_labels iss));
                  pairs = dict_get_or (co_by_repo co1) proj_path []
              in co1\<lparr>co_seen := co_seen co1 @ [issue_id],
                     co_by_repo := dict_set proj_path (pairs @ [(issue_id, iss\<lparr>is_intake_band := Some band\<rparr>)])
                                     (co_by_repo co1)\<rparr>)"

definition collect :: "policy \<Rightarrow> (issue list \<times> intake_scope option) list \<Rightarrow> collected" where
  "collect po scoped =
     fold (\<lambda>(issues, scope). fold (collect_issue po scope) issues) scoped
       \<lparr>co_by_repo = [], co_seen = [], co_count = 0\<rparr>"

definition waiting :: "string list \<Rightarrow> int list \<Rightarrow> string \<Rightarrow> bool" where
  "waiting blocked_ids legacy_iids pid \<longleftrightarrow>
     pid \<notin> set blocked_ids \<and> \<not> list_ex (\<lambda>i. after_hash pid = show_int i) legacy_iids"

text \<open>The plan of one repository, if it gets a bundle in this cycle.\<close>

definition plan_repo ::
  "(string \<Rightarrow> time option) \<Rightarrow> time \<Rightarrow> gitlab \<Rightarrow> grouping_config \<Rightarrow> lane_view \<Rightarrow> string list \<Rightarrow> int list \<Rightarrow>
   string \<times> (string \<times> issue) list \<Rightarrow> bundle_plan option" where
  "plan_repo fromiso now gl cfg view blocked_ids legacy_iids repo =
     (let (proj_path, pairs) = repo;
          lane_key = lane_key_for proj_path cfg;
          cands = filter_candidates (filter (\<lambda>(pid, _). waiting blocked_ids legacy_iids pid) pairs) cfg
                    (\<lambda>iss. case is_intake_band iss of None \<Rightarrow> 3 | Some b \<Rightarrow> b);
          plan_of = (\<lambda>cs. bundle_plan_for_repo fromiso now lane_key cs cfg view before_hash)
      in case plan_of cands of
           None \<Rightarrow> None
         | Some _ \<Rightarrow>
             let artifact = open_mr_issue_refs gl proj_path (map cand_id cands);
                 cands1 = filter (\<lambda>c. cand_id c \<notin> set artifact) cands
             in case plan_of cands1 of
                  None \<Rightarrow> None
                | Some plan \<Rightarrow>
                    let batch_ids = bp_issue_ids plan;
                        held = concat (map (\<lambda>pid. held_by_open_blockers gl pid batch_ids (gc_blocker_link_types cfg)) batch_ids)
                    in if held = [] then Some plan
                       else plan_of (filter (\<lambda>c. cand_id c \<notin> set held) cands1))"

fun draw_plans :: "bundle_plan list \<Rightarrow> string list \<Rightarrow> cluster_state \<Rightarrow> task_plan list \<times> cluster_state" where
  "draw_plans [] requires s = ([], s)"
| "draw_plans (b # bs) requires s =
     (let (task_id, s1) = generate_id ''task'' s; (ps, s2) = draw_plans bs requires s1
      in (bundle_task_plan task_id b requires # ps, s2))"

definition note_bundle :: "bundle_plan \<times> task_plan \<Rightarrow> intake \<Rightarrow> intake" where
  "note_bundle bp it =
     (let (b, p) = bp
      in it\<lparr>it_dedup := fold (\<lambda>pid. dict_set pid (pl_task_id p)) (bp_issue_ids b) (it_dedup it),
            it_seen_keys := add_all (bp_issue_ids b) (it_seen_keys it),
            it_tasks_created := Suc (it_tasks_created it)\<rparr>)"

definition grouped_cycle ::
  "(string \<Rightarrow> time option) \<Rightarrow> time \<Rightarrow> gitlab \<Rightarrow> policy \<Rightarrow> (issue list \<times> intake_scope option) list \<Rightarrow>
   intake \<Rightarrow> string list \<times> intake" where
  "grouped_cycle fromiso now gl po scoped it =
     (let co = collect po scoped;
          it1 = it\<lparr>it_issues_seen := it_issues_seen it + co_count co\<rparr>;
          (view, blocked_ids, legacy_iids) = grouping_view (it_store it1);
          plans = List.map_filter (plan_repo fromiso now gl (po_grouping po) view blocked_ids legacy_iids)
                    (co_by_repo co);
          (payload, s1) = draw_plans plans (po_requires po) (it_store it1)
      in if payload = [] then ([], it1\<lparr>it_store := s1\<rparr>)
         else let s2 = snd (create_tasks_batch now payload s1);
                  it2 = fold note_bundle (zip plans payload) (it1\<lparr>it_store := s2\<rparr>)
              in (map pl_task_id payload, it2\<lparr>it_store := kick now (it_store it2)\<rparr>))"

section \<open>The per-issue cycle\<close>

definition ingest_issue ::
  "time \<Rightarrow> policy \<Rightarrow> boot \<Rightarrow> intake_scope option \<Rightarrow> issue \<Rightarrow> string list \<times> intake \<Rightarrow> string list \<times> intake" where
  "ingest_issue now po bo scope iss acc =
     (let (created, it) = acc;
          it1 = it\<lparr>it_issues_seen := Suc (it_issues_seen it)\<rparr>;
          proj_path = (let p = (if CHR ''#'' \<in> set (is_full_ref iss) then before_hash (is_full_ref iss) else [])
                       in if p \<noteq> [] then p
                          else case scope of None \<Rightarrow> [] | Some s \<Rightarrow> if sc_type s = ''project'' then sc_path s else []);
          (priority, requires, key) =
            (case scope of
               Some s \<Rightarrow> (band_for (po_priority po) (is_author_id iss) proj_path (sc_path s) (is_labels iss),
                          po_requires po, dedup_key (po_dedup_scope po) proj_path (is_iid iss))
             | None \<Rightarrow> (3, bo_requires bo, dedup_key ''iid'' [] (is_iid iss)))
      in if key \<in> set (it_seen_keys it1) then (created, it1)
         else let it2 = it1\<lparr>it_seen_keys := List.insert key (it_seen_keys it1)\<rparr>
              in if dict_get (it_dedup it2) key \<noteq> None then (created, it2)
                 else let ((t, is_new), it3) = create_task_from_issue now key (is_iid iss) (is_title iss) priority
                            requires (is_description iss) it2
                      in if is_new then (created @ [t_id t], it3\<lparr>it_tasks_created := Suc (it_tasks_created it3)\<rparr>)
                         else (created, it3))"

section \<open>The poller\<close>

definition ERROR_HISTORY_MAX :: nat where
  "ERROR_HISTORY_MAX = 50"

definition alarm_history :: "time \<Rightarrow> string \<Rightarrow> string \<Rightarrow> intake \<Rightarrow> intake" where
  "alarm_history now stage message it =
     it\<lparr>it_error_history := last_n ERROR_HISTORY_MAX (it_error_history it @ [(stage, take 200 message, now)])\<rparr>"

definition record_error :: "time \<Rightarrow> string \<Rightarrow> string \<Rightarrow> intake \<Rightarrow> intake" where
  "record_error now stage message it =
     (let it1 = it\<lparr>it_error_counts := bump stage (it_error_counts it),
                   it_last_errors := dict_set stage (take 500 message) (it_last_errors it)\<rparr>
      in alarm_history now stage (take 500 message) it1)"

definition note_scope_error :: "time \<Rightarrow> string \<Rightarrow> string \<Rightarrow> intake \<Rightarrow> intake" where
  "note_scope_error now base detail it =
     alarm_history now base detail (it\<lparr>it_last_errors := dict_set base detail (it_last_errors it)\<rparr>)"

fun fetch_pages :: "nat \<Rightarrow> gitlab \<Rightarrow> string \<Rightarrow> string \<Rightarrow> nat \<Rightarrow> issue list \<Rightarrow> string + issue list" where
  "fetch_pages 0 gl base label page out = Inr out"
| "fetch_pages (Suc k) gl base label page out =
     (case gl_issues gl base label page of
        Inl e \<Rightarrow> Inl e
      | Inr batch \<Rightarrow> if length batch < 100 then Inr (out @ batch)
                     else fetch_pages k gl base label (Suc page) (out @ batch))"

definition fetch_issues :: "gitlab \<Rightarrow> string \<Rightarrow> string \<Rightarrow> string + issue list" where
  "fetch_issues gl base label = fetch_pages 20 gl base label 1 []"

text \<open>\<open>urllib.parse.quote\<close> with no safe characters.\<close>

definition quote :: "string \<Rightarrow> string" where
  "quote s = concat (map (\<lambda>c. if is_word c \<or> c \<in> set ''.-~'' then [c]
      else let n = of_char c :: nat in ''%'' @ map upper_char [hex_digit (n div 16), hex_digit (n mod 16)]) s)"

definition work_list :: "policy \<Rightarrow> boot \<Rightarrow> (string \<times> string \<times> intake_scope option) list" where
  "work_list po bo =
     (if po_configured po \<and> po_scopes po \<noteq> []
      then map (\<lambda>s. ((if sc_type s = ''project'' then ''projects/'' else ''groups/'') @ quote (sc_path s) @ ''/issues'',
                     sc_label s, Some s))
             (filter (\<lambda>s. sc_enabled s \<and> sc_path s \<noteq> []) (po_scopes po))
      else [(''projects/'' @ bo_project bo @ ''/issues'', bo_label bo, None)])"

fun fetch_scopes ::
  "time \<Rightarrow> gitlab \<Rightarrow> (string \<times> string \<times> intake_scope option) list \<Rightarrow> intake \<Rightarrow>
   (issue list \<times> intake_scope option) list \<times> intake" where
  "fetch_scopes now gl [] it = ([], it)"
| "fetch_scopes now gl ((base, label, scope) # ws) it =
     (case fetch_issues gl base label of
        Inl e \<Rightarrow> fetch_scopes now gl ws (note_scope_error now base e it)
      | Inr issues \<Rightarrow>
          let (rest, it1) = fetch_scopes now gl ws (it\<lparr>it_last_errors := dict_del base (it_last_errors it)\<rparr>)
          in ((issues, scope) # rest, it1))"

fun ingest_scopes ::
  "time \<Rightarrow> gitlab \<Rightarrow> policy \<Rightarrow> boot \<Rightarrow> (string \<times> string \<times> intake_scope option) list \<Rightarrow>
   string list \<times> intake \<Rightarrow> string list \<times> intake" where
  "ingest_scopes now gl po bo [] acc = acc"
| "ingest_scopes now gl po bo ((base, label, scope) # ws) (created, it) =
     (case fetch_issues gl base label of
        Inl e \<Rightarrow> ingest_scopes now gl po bo ws (created, note_scope_error now base e it)
      | Inr issues \<Rightarrow>
          ingest_scopes now gl po bo ws
            (fold (ingest_issue now po bo scope) issues
               (created, it\<lparr>it_last_errors := dict_del base (it_last_errors it)\<rparr>)))"

definition finish_poll :: "time \<Rightarrow> intake \<Rightarrow> intake" where
  "finish_poll now it = it\<lparr>it_last_poll := Some now, it_last_poll_ok := (it_last_errors it = [])\<rparr>"

text \<open>
  One cycle. \<open>stored\<close> is the policy section of the store. A malformed section raises out of the
  cycle; the left of the sum carries the state at that point.
\<close>

definition poll_once ::
  "(string \<Rightarrow> time option) \<Rightarrow> (string \<Rightarrow> url_parts option) \<Rightarrow> time \<Rightarrow> gitlab \<Rightarrow> boot \<Rightarrow> policy option \<Rightarrow>
   env \<Rightarrow> intake \<Rightarrow> (policy_error \<times> env \<times> intake) + string list \<times> int \<times> env \<times> intake" where
  "poll_once fromiso urlsplit now gl bo stored env it =
     (let (loaded, env1) = load_policy urlsplit env (bo_endpoint bo) (bo_interval bo) stored
      in case loaded of
           Inl e \<Rightarrow> Inl (e, env1, it)
         | Inr po \<Rightarrow>
             let it1 = it\<lparr>it_last_errors := []\<rparr>; interval = po_interval_seconds po
             in if po_enabled po = Some False then Inr ([], interval, env1, finish_poll now it1)
                else let endpoint = (if po_endpoint po = [] then bo_endpoint bo else po_endpoint po)
                     in case (endpoint_host urlsplit endpoint, allowed_endpoint_hosts urlsplit env1 (bo_endpoint bo)) of
                          (Inl e, _) \<Rightarrow> Inl (e, env1, it1)
                        | (_, Inl e) \<Rightarrow> Inl (e, env1, it1)
                        | (Inr host, Inr allowed) \<Rightarrow>
                            if host \<notin> set allowed
                            then let msg = ''endpoint outside allowlist; cycle refused'';
                                     it2 = it1\<lparr>it_last_errors := dict_set ''endpoint'' msg (it_last_errors it1)\<rparr>
                                 in Inr ([], interval, env1, finish_poll now (alarm_history now ''endpoint'' msg it2))
                            else if gc_enabled (po_grouping po) \<and> po_configured po
                            then let (scoped, it2) = fetch_scopes now gl (work_list po bo) it1;
                                     (created, it3) = grouped_cycle fromiso now gl po scoped it2;
                                     it4 = it3\<lparr>it_last_errors := dict_del ''grouped_cycle'' (it_last_errors it3),
                                               it_error_counts := dict_del ''grouped_cycle'' (it_error_counts it3)\<rparr>
                                 in Inr (created, interval, env1, finish_poll now it4)
                            else let (created, it2) = ingest_scopes now gl po bo (work_list po bo) ([], it1)
                                 in Inr (created, interval, env1, finish_poll now it2))"

text \<open>One turn of the poller thread: the cycle, its alarm, and the seconds to wait.\<close>

definition poller_turn ::
  "(string \<Rightarrow> time option) \<Rightarrow> (string \<Rightarrow> url_parts option) \<Rightarrow> time \<Rightarrow> gitlab \<Rightarrow> boot \<Rightarrow> policy option \<Rightarrow>
   env \<Rightarrow> intake \<Rightarrow> int \<times> env \<times> intake" where
  "poller_turn fromiso urlsplit now gl bo stored env it =
     (let (interval, env1, it1) =
        (case poll_once fromiso urlsplit now gl bo stored env it of
           Inl (e, env1, it1) \<Rightarrow> (bo_interval bo, env1, record_error now ''poll_cycle'' ''ValueError'' it1)
         | Inr (_, interval, env1, it1) \<Rightarrow>
             (interval, env1, it1\<lparr>it_last_errors := dict_del ''poll_cycle'' (it_last_errors it1),
                                   it_error_counts := dict_del ''poll_cycle'' (it_error_counts it1)\<rparr>))
      in (max 5 (min (if interval = 0 then 30 else interval) 3600), env1, it1))"

section \<open>The webhook\<close>

record hook_event =
  he_object_kind :: string
  he_action :: string
  he_labels :: "string list"
  he_iid :: "int option"
  he_title :: string
  he_description :: string
  he_path :: string
  he_author_id :: "int option"

datatype hook_refusal = BadHookToken | BadIid | PolicyError policy_error

datatype hook_reply =
  Ignored string
| DedupedIssue
| QueuedGrouping string
| HookCreated task bool

definition webhook_secret_matches :: "string \<Rightarrow> string \<Rightarrow> bool" where
  "webhook_secret_matches secret token = (if secret = [] then True else token = secret)"

definition webhook_grouped ::
  "time \<Rightarrow> policy \<Rightarrow> int \<Rightarrow> int \<Rightarrow> string list \<Rightarrow> hook_event \<Rightarrow> intake \<Rightarrow> hook_reply \<times> intake" where
  "webhook_grouped now po iid priority requires ev it =
     (let cfg = po_grouping po
      in if list_ex (\<lambda>l. is_doomed_label l cfg) (he_labels ev) then (Ignored ''doomed label (grouped mode)'', it)
         else let key = dedup_key ''full'' (he_path ev) iid;
                  (view, live, legacy_iids) = grouping_view (it_store it)
              in if key \<in> set live \<or> iid \<in> set legacy_iids then (DedupedIssue, it)
                 else if 0 < priority
                 then (QueuedGrouping (''grouping enabled; poll cycles accumulate it into this lane'' @ apos @ ''s next bundle''
                        @ (if 0 < gc_accumulate_window_s cfg
                           then '' (window '' @ show_int (gc_accumulate_window_s cfg) @ ''s)'' else [])), it)
                 else let lane = lane_key_for (he_path ev) cfg
                      in if list_ex (\<lambda>(_, b). b = 0) (lane_bundles (lv_queued_bundles view) lane)
                         then (QueuedGrouping (''band-0 bundle already queued on lane '' @ lane), it)
                         else let (t, s1) = create_bundle_task now
                                    \<lparr>bp_lane_key = lane, bp_iids = [iid], bp_project_paths = [he_path ev],
                                     bp_priority = 0, bp_issue_ids = [key], bp_reason = ''webhook:band0-instant''\<rparr>
                                    requires (it_store it)
                              in (HookCreated t True,
                                  it\<lparr>it_store := s1, it_dedup := dict_set key (t_id t) (it_dedup it)\<rparr>))"

definition webhook ::
  "(string \<Rightarrow> url_parts option) \<Rightarrow> time \<Rightarrow> string \<Rightarrow> string \<Rightarrow> boot \<Rightarrow> policy option \<Rightarrow> env \<Rightarrow> hook_event \<Rightarrow>
   intake \<Rightarrow> (hook_refusal + hook_reply) \<times> env \<times> intake" where
  "webhook urlsplit now secret token bo stored env ev it =
     (if \<not> webhook_secret_matches secret token then (Inl BadHookToken, env, it)
      else if he_object_kind ev \<noteq> ''issue'' then (Inr (Ignored (''event='' @ he_object_kind ev)), env, it)
      else if he_action ev \<notin> {''open'', ''reopen''} then (Inr (Ignored (''action='' @ he_action ev)), env, it)
      else case he_iid ev of
             None \<Rightarrow> (Inl BadIid, env, it)
           | Some iid \<Rightarrow>
               (case load_policy urlsplit env (bo_endpoint bo) (bo_interval bo) stored of
                  (Inl e, env1) \<Rightarrow> (Inl (PolicyError e), env1, it)
                | (Inr po, env1) \<Rightarrow>
                    let policy_mode = po_configured po \<and> po_scopes po \<noteq> [];
                        decided =
                          (if policy_mode
                           then if po_enabled po = Some False then Inl ''intake disabled by policy''
                                else case in_scope (he_path ev) (po_scopes po) of
                                       None \<Rightarrow> Inl (''project '' @ py_repr (he_path ev) @ '' not in any enabled scope'')
                                     | Some matched \<Rightarrow>
                                         if sc_label matched \<noteq> [] \<and> sc_label matched \<notin> set (he_labels ev)
                                         then Inl (''scope label '' @ py_repr (sc_label matched) @ '' not in '' @ repr_list (he_labels ev))
                                         else Inr (band_for (po_priority po) (he_author_id ev) (he_path ev)
                                                     (sc_path matched) (he_labels ev),
                                                   po_requires po, dedup_key (po_dedup_scope po) (he_path ev) iid)
                           else if bo_label bo \<notin> set (he_labels ev) then Inl (''label='' @ bo_label bo @ '' not in '' @ repr_list (he_labels ev))
                                else Inr (3, bo_requires bo, dedup_key ''iid'' [] iid))
                    in case decided of
                         Inl why \<Rightarrow> (Inr (Ignored why), env1, it)
                       | Inr (priority, requires, key) \<Rightarrow>
                           if policy_mode \<and> gc_enabled (po_grouping po)
                           then let (r, it1) = webhook_grouped now po iid priority requires ev it in (Inr r, env1, it1)
                           else let ((t, is_new), it1) = create_task_from_issue now key iid (he_title ev) priority
                                      requires (he_description ev) it
                                in (Inr (HookCreated t is_new), env1, it1)))"

section \<open>Rate limit of policy writes\<close>

definition RATE_LIMIT_WINDOW :: rat where
  "RATE_LIMIT_WINDOW = 60"

definition RATE_LIMIT_COUNT :: nat where
  "RATE_LIMIT_COUNT = 20"

definition policy_write_rate_limited :: "string \<Rightarrow> rat \<Rightarrow> intake \<Rightarrow> bool \<times> intake" where
  "policy_write_rate_limited ip now it =
     (let dq = dropWhile (\<lambda>t. RATE_LIMIT_WINDOW < now - t) (dict_get_or (it_attempts it) ip []) @ [now]
      in (RATE_LIMIT_COUNT < length dq, it\<lparr>it_attempts := dict_set ip dq (it_attempts it)\<rparr>))"

end
