(* ===== verification/IntakeFacts.thy ===== *)
theory IntakeFacts
  imports Intake Scheduling Promotion
begin

text \<open>
  What the intake does to the store and to its backlog, as the lemmas the properties rest on: the
  wake-up of the scheduler after a creation (\<open>kick\<close>), the ids a batch draws, which issues the view of
  the lanes counts as held, how the collected issues are split over the repositories, and what a plan
  of a repository can contain.
\<close>

section \<open>Definitions\<close>

text \<open>A task whose issues the view of the lanes holds because the task is under way.\<close>

definition holding :: "task \<Rightarrow> bool" where
  "holding t \<longleftrightarrow> t_status t \<in> set ISSUE_HOLDING_STATUSES"

text \<open>Why an issue may not be bundled again: its task is under way, delivered it, or was cancelled
  for good.\<close>

definition retains :: "task \<Rightarrow> bool" where
  "retains t \<longleftrightarrow> holding t \<or> t_status t = Completed \<or> (t_status t = Cancelled \<and> t_cancel_requeue t = Some False)"

definition issues_disjoint :: "cluster_state \<Rightarrow> bool" where
  "issues_disjoint s \<longleftrightarrow>
     (\<forall>j k t u. get_task s j = Some t \<and> get_task s k = Some u \<and> j \<noteq> k \<and> holding t \<and> holding u \<longrightarrow>
        set (t_issues t) \<inter> set (t_issues u) = {})"

text \<open>The random ids to come are not taken.\<close>

definition fresh_task_ids :: "cluster_state \<Rightarrow> bool" where
  "fresh_task_ids s \<longleftrightarrow> (\<forall>i \<ge> cs_draws s. get_task s (gen_id ''task'' (cs_rng s) i) = None)"

abbreviation bundle_ids :: "bundle_plan list \<Rightarrow> string list" where
  "bundle_ids plans \<equiv> concat (map bp_issue_ids plans)"

abbreviation repo_ids :: "(string, (string \<times> issue) list) dict \<Rightarrow> string list" where
  "repo_ids d \<equiv> concat (map (map fst \<circ> snd) d)"

text \<open>The candidates of a repository before and after the census of open merge requests.\<close>

abbreviation repo_candidates :: "grouping_config \<Rightarrow> string list \<Rightarrow> int list \<Rightarrow> (string \<times> issue) list \<Rightarrow> candidate list" where
  "repo_candidates cfg blocked legacy prs \<equiv>
     filter_candidates (filter (\<lambda>(pid, _). waiting blocked legacy pid) prs) cfg
       (\<lambda>iss. case is_intake_band iss of None \<Rightarrow> 3 | Some b \<Rightarrow> b)"

abbreviation without_artifact :: "gitlab \<Rightarrow> string \<Rightarrow> candidate list \<Rightarrow> candidate list" where
  "without_artifact gl path cs \<equiv> filter (\<lambda>c. cand_id c \<notin> set (open_mr_issue_refs gl path (map cand_id cs))) cs"

text \<open>The plans of a cycle, and the batch they become.\<close>

definition cycle_plans ::
  "(string \<Rightarrow> time option) \<Rightarrow> time \<Rightarrow> gitlab \<Rightarrow> policy \<Rightarrow> (issue list \<times> intake_scope option) list \<Rightarrow>
   cluster_state \<Rightarrow> bundle_plan list" where
  "cycle_plans fromiso now gl po scoped s =
     (let (view, blocked, legacy) = grouping_view s
      in List.map_filter (plan_repo fromiso now gl (po_grouping po) view blocked legacy) (co_by_repo (collect po scoped)))"

abbreviation cycle_batch :: "bundle_plan list \<Rightarrow> string list \<Rightarrow> cluster_state \<Rightarrow> task_plan list" where
  "cycle_batch plans requires s \<equiv>
     map (\<lambda>(i, b). bundle_task_plan (gen_id ''task'' (cs_rng s) i) b requires)
       (zip [cs_draws s..<cs_draws s + length plans] plans)"

text \<open>What the collection keeps: every issue in one place, once.\<close>

definition collected_ok :: "collected \<Rightarrow> bool" where
  "collected_ok co \<longleftrightarrow> mset (repo_ids (co_by_repo co)) = mset (co_seen co) \<and> distinct (co_seen co)"

text \<open>A task of the woken store: the same issues as before, and at most moved on towards running.\<close>

definition woken :: "task \<Rightarrow> task \<Rightarrow> bool" where
  "woken t u \<longleftrightarrow> t_issues u = t_issues t \<and> t_lane_key u = t_lane_key t \<and> t_priority u = t_priority t \<and>
     t_role u = t_role t \<and> t_cancel_requeue u = t_cancel_requeue t \<and>
     (t_status u = t_status t \<or> t_status t \<in> {Pending, Ready} \<and> t_status u \<in> {Ready, Running})"

section \<open>The wake-up\<close>

lemma distinct_sub: "mset xs \<subseteq># mset ys \<Longrightarrow> distinct ys \<Longrightarrow> distinct xs"
proof -
  assume "mset xs \<subseteq># mset ys" "distinct ys"
  then obtain zs where "mset ys = mset (xs @ zs)" by (metis ex_mset mset_append subset_mset.le_iff_add)
  with \<open>distinct ys\<close> show "distinct xs" using mset_eq_imp_distinct_iff [of ys "xs @ zs"] by simp
qed

lemma woken_trans: "woken a b \<Longrightarrow> woken b c \<Longrightarrow> woken a c"
  by (auto simp: woken_def)

lemma woken_holding: "woken t u \<Longrightarrow> holding u \<longleftrightarrow> holding t"
  by (auto simp: woken_def holding_def ISSUE_HOLDING_STATUSES_def)

lemma shared_issue:
  "get_task s j = Some t \<Longrightarrow> get_task s k = Some u \<Longrightarrow> j \<noteq> k \<Longrightarrow> holding t \<Longrightarrow> holding u \<Longrightarrow>
   x \<in> set (t_issues t) \<Longrightarrow> x \<in> set (t_issues u) \<Longrightarrow> \<not> issues_disjoint s"
  unfolding issues_disjoint_def by blast

lemma woken_issues: "woken t u \<Longrightarrow> t_issues u = t_issues t"
  by (simp add: woken_def)

lemma bundle_task_issues [simp]: "t_issues (build_task now st (bundle_task_plan k b req)) = bp_issue_ids b"
  by (simp add: build_task_def bundle_task_plan_def)

lemma promoted_woken: "woken t (promoted now s t)"
  by (auto simp: woken_def promoted_def split: option.split)

lemma schedule_woken:
  assumes wf: "cs_wf s" and g: "get_task (snd (schedule_pending_detailed now s)) k = Some v"
  shows "\<exists>t. get_task s k = Some t \<and> woken t v"
proof -
  define cnt where "cnt = active_counts (get_all_tasks s)"
  let ?R = "ready_tasks now s" and ?loop = "schedule_loop now (online_nodes s) (lane_nodes s) (ready_tasks now s) cnt s"
  have R: "\<forall>t \<in> set ?R. t_status t = Ready" using ready_tasks_ready by blast
  have "get_task s k = Some v \<or> get_task (snd ?loop) k = Some v"
    using g by (auto simp: schedule_pending_detailed_def cnt_def get_all_tasks_def split: if_splits)
  then show ?thesis
  proof
    assume l: "get_task (snd ?loop) k = Some v"
    show ?thesis
    proof (cases "k \<in> as_task_id ` set (fst ?loop)")
      case True
      then obtain a where a: "a \<in> set (fst ?loop)" "as_task_id a = k" by auto
      from schedule_loop_placed_ok [OF wf loop_tasks_ready [OF wf] R] a(1)
      have "placed_ok now (online_nodes s) (lane_nodes s) ?R (snd ?loop) a" by blast
      then obtain t n where t: "t \<in> set ?R" "a = mk_assignment t n"
        "get_task (snd ?loop) (t_id t) = Some (touch now (t\<lparr>t_status := Running, t_assigned_to := Some (n_id n)\<rparr>))"
        by (rule placed_okE)
      then have "v = touch now (t\<lparr>t_status := Running, t_assigned_to := Some (n_id n)\<rparr>)" "t_id t = k"
        using a(2) l by (simp_all add: mk_assignment_def)
      moreover have "get_task s (t_id t) = Some t" using loop_tasks_ready [OF wf] t(1) by (auto simp: loop_tasks_def)
      ultimately show ?thesis using R t(1) by (auto simp: woken_def touch_def)
    next
      case False
      with schedule_loop_unplaced [OF wf loop_tasks_ready [OF wf], where now = now and ns = "online_nodes s"
          and lns = "lane_nodes s" and cnt = cnt] l
      show ?thesis by (auto simp: woken_def)
    qed
  qed (auto simp: woken_def)
qed

lemma kick_wf: "cs_wf s \<Longrightarrow> cs_wf (kick now s)"
  by (simp add: kick_def schedule_pending_def split_beta trigger_pending_tasks_wf schedule_pending_detailed_wf)

lemma kick_woken:
  assumes wf: "cs_wf s" and g: "get_task (kick now s) k = Some v"
  shows "\<exists>t. get_task s k = Some t \<and> woken t v"
proof -
  let ?s1 = "snd (trigger_pending_tasks now s)"
  have "get_task (snd (schedule_pending_detailed now ?s1)) k = Some v"
    using g by (simp add: kick_def schedule_pending_def split_beta)
  from schedule_woken [OF trigger_pending_tasks_wf [OF wf] this]
  obtain u where u: "get_task ?s1 k = Some u" "woken u v" by blast
  then obtain t where "get_task s k = Some t" "u = promoted now s t"
    unfolding trigger_pending_partly [OF wf] by (auto simp: get_task_partly)
  with u(2) promoted_woken woken_trans show ?thesis by blast
qed

lemma kick_present:
  assumes wf: "cs_wf s" and g: "get_task s k = Some t"
  shows "\<exists>u. get_task (kick now s) k = Some u \<and> woken t u"
proof -
  have "forward s (kick now s)"
    using trigger_pending_tasks_forward [of s now]
      schedule_pending_detailed_forward [OF trigger_pending_tasks_wf [OF wf, of now], of now]
    by (auto simp: kick_def schedule_pending_def split_beta intro: forward_trans)
  then obtain u where "get_task (kick now s) k = Some u" using g by (auto simp: forward_def tasks_le_def)
  with kick_woken [OF wf this] g show ?thesis by auto
qed

section \<open>The ids of a batch\<close>

lemma draw_plans_eq:
  "draw_plans bs requires s =
   (map (\<lambda>(i, b). bundle_task_plan (gen_id ''task'' (cs_rng s) i) b requires) (zip [cs_draws s..<cs_draws s + length bs] bs),
    s\<lparr>cs_draws := cs_draws s + length bs\<rparr>)"
proof (induction bs arbitrary: s)
  case (Cons b bs)
  have "[cs_draws s..<cs_draws s + length (b # bs)] = cs_draws s # [Suc (cs_draws s)..<Suc (cs_draws s) + length bs]"
    by (simp add: upt_conv_Cons del: upt_Suc)
  then show ?case by (simp add: Cons generate_id_def del: upt_Suc)
qed simp

text \<open>The store after the batch: the new tasks under their ids, the rest unchanged.\<close>

lemma batch_tasks:
  assumes "distinct (map pl_task_id ps)"
  shows "get_task (snd (create_tasks_batch now ps s)) k =
    (case find (\<lambda>p. pl_task_id p = k) ps of
       Some p \<Rightarrow> Some (build_task now (if pl_depends_on p = [] then Ready else Pending) p)
     | None \<Rightarrow> get_task s k)"
proof -
  have "distinct (map t_id ts) \<Longrightarrow> get_task (fold (\<lambda>t. put_task (t_id t) t) ts s) k =
      (case find (\<lambda>t. t_id t = k) ts of Some t \<Rightarrow> Some t | None \<Rightarrow> get_task s k)" for ts
  proof (induction ts arbitrary: s)
    case (Cons t ts)
    then have "t_id t = k \<Longrightarrow> find (\<lambda>t. t_id t = k) ts = None" by (auto simp: find_None_iff image_iff)
    with Cons show ?case by (auto split: option.split)
  qed simp
  moreover have "find (\<lambda>t. t_id t = k) (map (\<lambda>p. build_task now (if pl_depends_on p = [] then Ready else Pending) p) ps) =
      map_option (\<lambda>p. build_task now (if pl_depends_on p = [] then Ready else Pending) p) (find (\<lambda>p. pl_task_id p = k) ps)"
    by (induction ps) auto
  ultimately show ?thesis
    using assms by (auto simp: create_tasks_batch_def Let_def comp_def split: option.split)
qed

section \<open>The view of the lanes\<close>

lemma set_add_all [simp]: "set (add_all xs acc) = set xs \<union> set acc"
  by (induction xs arbitrary: acc) (auto simp: add_all_def)

lemma view_task_blocked:
  "set (fst (snd (view_task t acc))) = set (fst (snd acc)) \<union> (if retains t then set (t_issues t) else {})"
  by (cases acc) (auto simp: view_task_def retains_def holding_def ISSUE_HOLDING_STATUSES_def Let_def split: option.split)

lemma grouping_view_blocked:
  "set (fst (snd (grouping_view s))) = (\<Union>t \<in> {t \<in> set (get_all_tasks s). retains t}. set (t_issues t))"
proof -
  have "set (fst (snd (fold view_task ts acc))) =
      set (fst (snd acc)) \<union> (\<Union>t \<in> {t \<in> set ts. retains t}. set (t_issues t))" for ts acc
    by (induction ts arbitrary: acc) (auto simp: view_task_blocked)
  then show ?thesis by (simp add: grouping_view_def)
qed

lemma retained_blocked:
  assumes "cs_wf s" "get_task s k = Some t" "retains t" "x \<in> set (t_issues t)"
  shows "x \<in> set (fst (snd (grouping_view s)))"
proof -
  have "t \<in> set (get_all_tasks s)"
    using tasks_wf_value [OF cs_wfD(2) [OF assms(1)], of t] tasks_wf_id [OF cs_wfD(2) [OF assms(1)] assms(2)] assms(2)
    by (simp add: get_all_tasks_def)
  with assms(3,4) show ?thesis unfolding grouping_view_blocked by auto
qed

section \<open>The collected issues\<close>

lemma repo_ids_add:
  "mset (repo_ids (AList.update k (dict_get_or d k [] @ [p]) d)) = add_mset (fst p) (mset (repo_ids d))"
  by (induction d) (auto simp: dict_get_or_def)

lemma collect_issue_ok: "collected_ok co \<Longrightarrow> collected_ok (collect_issue po scope iss co)"
  by (auto simp: collected_ok_def collect_issue_def Let_def repo_ids_add)

lemma collect_ok: "collected_ok (collect po scoped)"
proof -
  have one: "collected_ok co \<Longrightarrow> collected_ok (fold (collect_issue po scope) issues co)" for co scope issues
    by (induction issues arbitrary: co) (simp_all add: collect_issue_ok)
  have "collected_ok co \<Longrightarrow> collected_ok (fold (\<lambda>(issues, scope). fold (collect_issue po scope) issues) scoped co)" for co
    by (induction scoped arbitrary: co) (auto simp: one)
  then show ?thesis by (simp add: collect_def collected_ok_def)
qed

lemma collect_distinct: "distinct (repo_ids (co_by_repo (collect po scoped)))"
  using collect_ok [of po scoped] mset_eq_imp_distinct_iff by (fastforce simp: collected_ok_def)

section \<open>The plan of a repository\<close>

lemma bundle_plan_Some:
  assumes "bundle_plan_for_repo fromiso now lane cs cfg view project_of = Some plan"
  defines "batch \<equiv> fst (pack_repo_candidates fromiso lane cs cfg)"
  shows "bp_issue_ids plan = map cand_id batch" "batch \<noteq> []" "bp_lane_key plan = lane"
    "bp_priority plan = top_band cs" "bp_iids plan = map (is_iid \<circ> cand_issue) batch"
  using assms by (auto simp: bundle_plan_for_repo_def Let_def split: if_splits prod.splits)

lemma bundle_plan_ids:
  assumes "bundle_plan_for_repo fromiso now lane cs cfg view project_of = Some plan"
  shows "mset (bp_issue_ids plan) \<subseteq># mset (map cand_id cs)"
proof -
  have "mset (fst (pack_repo_candidates fromiso lane cs cfg)) \<subseteq># mset cs"
    using pack_repo_mset [of fromiso lane cs cfg] multiset_filter_subset subset_mset.trans
    unfolding mset_filter by blast
  then show ?thesis using image_mset_subseteq_mono unfolding bundle_plan_Some(1) [OF assms] mset_map by blast
qed

lemma mset_map_filter_mono: "mset xs \<subseteq># mset (map f (filter P ys)) \<Longrightarrow> mset xs \<subseteq># mset (map f ys)"
  by (metis (no_types, lifting) image_mset_subseteq_mono mset_filter mset_map multiset_filter_subset subset_mset.trans)

lemma filter_candidates_ids:
  "map cand_id (filter_candidates prs cfg band) = map fst (filter (\<lambda>(_, iss). \<not> issue_is_doomed iss cfg) prs)"
  by (simp add: filter_candidates_def case_prod_beta comp_def)

text \<open>Every candidate list the plan of a repository can come from, and what it has in common.\<close>

lemma plan_repo_source:
  assumes "plan_repo fromiso now gl cfg view blocked legacy (proj_path, prs) = Some plan"
  shows "\<exists>keep. bundle_plan_for_repo fromiso now (lane_key_for proj_path cfg)
       (filter keep (without_artifact gl proj_path (repo_candidates cfg blocked legacy prs))) cfg view before_hash = Some plan"
proof -
  define P where "P = (\<lambda>cs. bundle_plan_for_repo fromiso now (lane_key_for proj_path cfg) cs cfg view before_hash)"
  define C where "C = without_artifact gl proj_path (repo_candidates cfg blocked legacy prs)"
  define held where "held = (\<lambda>ids. concat (map (\<lambda>pid. held_by_open_blockers gl pid ids (gc_blocker_link_types cfg)) ids))"
  have "plan_repo fromiso now gl cfg view blocked legacy (proj_path, prs) =
    (case P (repo_candidates cfg blocked legacy prs) of
       None \<Rightarrow> None
     | Some _ \<Rightarrow> (case P C of
         None \<Rightarrow> None
       | Some p \<Rightarrow> if held (bp_issue_ids p) = [] then Some p
                   else P (filter (\<lambda>c. cand_id c \<notin> set (held (bp_issue_ids p))) C)))"
    by (simp only: plan_repo_def Let_def prod.case P_def C_def held_def)
  with assms have "P C = Some plan \<or> (\<exists>keep. P (filter keep C) = Some plan)"
    by (simp split: option.splits if_splits) blast
  moreover have "filter (\<lambda>_. True) C = C" by simp
  ultimately have "\<exists>keep. P (filter keep C) = Some plan" by metis
  then show ?thesis by (simp only: P_def C_def)
qed

lemma plan_repo_ids:
  assumes "plan_repo fromiso now gl cfg view blocked legacy (proj_path, prs) = Some plan"
  shows "mset (bp_issue_ids plan) \<subseteq># mset (map fst prs)"
    "x \<in> set (bp_issue_ids plan) \<Longrightarrow> waiting blocked legacy x"
proof -
  from plan_repo_source [OF assms] obtain keep where
    k: "bundle_plan_for_repo fromiso now (lane_key_for proj_path cfg)
       (filter keep (repo_candidates cfg blocked legacy prs)) cfg view before_hash = Some plan"
    unfolding filter_filter by blast
  have w: "mset (bp_issue_ids plan) \<subseteq># mset (map fst (filter (\<lambda>(pid, _). waiting blocked legacy pid) prs))"
    using mset_map_filter_mono [OF bundle_plan_ids [OF k]] unfolding filter_candidates_ids by (rule mset_map_filter_mono)
  then show "mset (bp_issue_ids plan) \<subseteq># mset (map fst prs)" by (rule mset_map_filter_mono)
  assume "x \<in> set (bp_issue_ids plan)"
  with w have "x \<in> set (map fst (filter (\<lambda>(pid, _). waiting blocked legacy pid) prs))"
    using mset_subset_eqD [OF w, of x] by (simp only: set_mset_mset)
  then show "waiting blocked legacy x" by auto
qed

lemma plans_mset:
  "mset (bundle_ids (List.map_filter (plan_repo fromiso now gl cfg view blocked legacy) repos)) \<subseteq># mset (repo_ids repos)"
proof (induction repos)
  case (Cons r repos)
  obtain path prs where r: "r = (path, prs)" by (cases r)
  show ?case
  proof (cases "plan_repo fromiso now gl cfg view blocked legacy r")
    case None
    with Cons show ?thesis by (simp add: map_filter_simps subset_mset.add_increasing)
  next
    case (Some plan)
    with plan_repo_ids(1) [of fromiso now gl cfg view blocked legacy path prs plan] Cons r
    show ?thesis by (simp add: map_filter_simps subset_mset.add_mono)
  qed
qed (simp add: map_filter_simps)

section \<open>The cycle\<close>

lemma note_bundles_store: "it_store (fold note_bundle bps it) = it_store it"
  by (induction bps arbitrary: it) (auto simp: note_bundle_def Let_def)

lemma cycle_batch_ids:
  "map pl_task_id (cycle_batch plans requires s) = map (gen_id ''task'' (cs_rng s)) [cs_draws s..<cs_draws s + length plans]"
proof -
  have "map pl_task_id (cycle_batch plans requires s) =
      map (gen_id ''task'' (cs_rng s)) (map fst (zip [cs_draws s..<cs_draws s + length plans] plans))"
    unfolding map_map by (rule map_cong [OF refl]) (simp add: bundle_task_plan_def case_prod_beta)
  then show ?thesis by (simp only: map_fst_zip length_upt diff_add_inverse)
qed

lemma grouped_cycle_run:
  assumes "grouped_cycle fromiso now gl po scoped it = (created, it')"
  defines "plans \<equiv> cycle_plans fromiso now gl po scoped (it_store it)"
  shows "created = map (gen_id ''task'' (cs_rng (it_store it))) [cs_draws (it_store it)..<cs_draws (it_store it) + length plans]"
    "it_store it' = (if plans = [] then it_store it
       else kick now (snd (create_tasks_batch now (cycle_batch plans (po_requires po) (it_store it))
              ((it_store it)\<lparr>cs_draws := cs_draws (it_store it) + length plans\<rparr>))))"
proof -
  obtain view blocked legacy where v: "grouping_view (it_store it) = (view, blocked, legacy)" by (cases "grouping_view (it_store it)")
  have plans: "plans = List.map_filter (plan_repo fromiso now gl (po_grouping po) view blocked legacy) (co_by_repo (collect po scoped))"
    by (simp add: plans_def cycle_plans_def v)
  let ?b = "cycle_batch plans (po_requires po) (it_store it)"
  have e: "?b = [] \<longleftrightarrow> plans = []" by (cases plans) (simp_all del: upt_Suc add: upt_conv_Cons)
  have r: "(created, it_store it') = (if ?b = [] then ([], it_store it)
      else (map pl_task_id ?b, kick now (snd (create_tasks_batch now ?b ((it_store it)\<lparr>cs_draws := cs_draws (it_store it) + length plans\<rparr>)))))"
    using assms(1) e by (auto simp: grouped_cycle_def Let_def v plans [symmetric] draw_plans_eq note_bundles_store split: if_splits)
  show "created = map (gen_id ''task'' (cs_rng (it_store it))) [cs_draws (it_store it)..<cs_draws (it_store it) + length plans]"
    using r e unfolding cycle_batch_ids by (auto split: if_splits)
  show "it_store it' = (if plans = [] then it_store it
       else kick now (snd (create_tasks_batch now ?b ((it_store it)\<lparr>cs_draws := cs_draws (it_store it) + length plans\<rparr>))))"
    using r e by (auto split: if_splits)
qed

text \<open>The plans of a cycle share no issue, and plan only issues no task retains.\<close>

lemma cycle_plans_distinct: "distinct (bundle_ids (cycle_plans fromiso now gl po scoped s))"
proof -
  have "mset (bundle_ids (cycle_plans fromiso now gl po scoped s)) \<subseteq># mset (repo_ids (co_by_repo (collect po scoped)))"
    unfolding cycle_plans_def Let_def by (cases "grouping_view s") (simp only: prod.case plans_mset)
  then show ?thesis using collect_distinct [of po scoped] by (rule distinct_sub)
qed

lemma cycle_plan_of:
  assumes "b \<in> set (cycle_plans fromiso now gl po scoped s)"
  obtains path prs where "plan_repo fromiso now gl (po_grouping po) (fst (grouping_view s)) (fst (snd (grouping_view s)))
     (snd (snd (grouping_view s))) (path, prs) = Some b"
  using assms unfolding cycle_plans_def Let_def map_filter_def
  by (cases "grouping_view s") (force simp: image_iff)

lemma cycle_plan_unretained:
  assumes "b \<in> set (cycle_plans fromiso now gl po scoped s)" "x \<in> set (bp_issue_ids b)" "cs_wf s"
    and "get_task s k = Some t" "retains t"
  shows "x \<notin> set (t_issues t)"
proof
  assume "x \<in> set (t_issues t)"
  from retained_blocked [OF assms(3-5) this] have "x \<in> set (fst (snd (grouping_view s)))" .
  moreover obtain path prs where "plan_repo fromiso now gl (po_grouping po) (fst (grouping_view s)) (fst (snd (grouping_view s)))
     (snd (snd (grouping_view s))) (path, prs) = Some b" by (rule cycle_plan_of [OF assms(1)])
  from plan_repo_ids(2) [OF this assms(2)] have "x \<notin> set (fst (snd (grouping_view s)))" by (simp add: waiting_def)
  ultimately show False by blast
qed

lemma cycle_batch_find:
  assumes "inj (cs_rng s)" "i < length plans"
  shows "find (\<lambda>p. pl_task_id p = gen_id ''task'' (cs_rng s) (cs_draws s + i)) (cycle_batch plans requires s) =
     Some (bundle_task_plan (gen_id ''task'' (cs_rng s) (cs_draws s + i)) (plans ! i) requires)"
proof -
  let ?ps = "cycle_batch plans requires s"
  have at: "?ps ! j = bundle_task_plan (gen_id ''task'' (cs_rng s) (cs_draws s + j)) (plans ! j) requires" if "j < length plans" for j
    using that by simp
  have "find (\<lambda>p. pl_task_id p = gen_id ''task'' (cs_rng s) (cs_draws s + i)) ?ps = Some (?ps ! i)"
    unfolding find_Some_iff
    by (rule exI [of _ i]) (use assms at in \<open>auto simp: bundle_task_plan_def\<close>)
  with at [OF assms(2)] show ?thesis by simp
qed

text \<open>The store after a cycle: what was there, woken, and the new bundles under fresh ids.\<close>

lemma cycle_tasks:
  assumes wf: "cs_wf (it_store it)" and fresh: "fresh_task_ids (it_store it)"
    and run: "grouped_cycle fromiso now gl po scoped it = (created, it')"
  defines "s \<equiv> it_store it"
  defines "plans \<equiv> cycle_plans fromiso now gl po scoped s"
  defines "new \<equiv> (\<lambda>i. gen_id ''task'' (cs_rng s) (cs_draws s + i))"
  shows "cs_wf (it_store it')" "created = map new [0..<length plans]"
    and "i < length plans \<Longrightarrow> get_task s (new i) = None \<and>
      (\<exists>t. get_task (it_store it') (new i) = Some t \<and> woken (build_task now Ready (bundle_task_plan (new i) (plans ! i) (po_requires po))) t)"
    and "get_task s k = Some t \<Longrightarrow> \<exists>u. get_task (it_store it') k = Some u \<and> woken t u"
    and "get_task (it_store it') k = Some u \<Longrightarrow> (\<exists>t. get_task s k = Some t \<and> woken t u) \<or>
      (\<exists>i < length plans. k = new i \<and> woken (build_task now Ready (bundle_task_plan (new i) (plans ! i) (po_requires po))) u)"
proof -
  let ?b = "cycle_batch plans (po_requires po) s" and ?s1 = "s\<lparr>cs_draws := cs_draws s + length plans\<rparr>"
  let ?s2 = "snd (create_tasks_batch now ?b ?s1)"
  have inj: "inj (cs_rng s)" using cs_wfD(3) [OF wf] by (simp add: leases_wf_def s_def)
  have wf1: "cs_wf ?s1"
    using wf unfolding s_def [symmetric]
    by (auto simp: cs_wf_def nodes_wf_def tasks_wf_def leases_wf_def logs_wf_def) (meson trans_less_add1)+
  have wf2: "cs_wf ?s2" by (rule create_tasks_batch_wf [OF wf1])
  have dist: "distinct (map pl_task_id ?b)" unfolding cycle_batch_ids using inj by (simp add: distinct_map inj_on_def)
  have store: "it_store it' = (if plans = [] then s else kick now ?s2)"
    using grouped_cycle_run(2) [OF run] by (simp add: plans_def s_def)
  then show "cs_wf (it_store it')" using kick_wf [OF wf2] wf by (simp add: s_def)
  show "created = map new [0..<length plans]"
    using grouped_cycle_run(1) [OF run] by (auto simp: plans_def s_def new_def intro!: nth_equalityI)
  have free: "get_task s (new i) = None" for i using fresh by (simp add: fresh_task_ids_def new_def s_def)
  have at: "get_task ?s2 (new i) = Some (build_task now Ready (bundle_task_plan (new i) (plans ! i) (po_requires po)))"
    if "i < length plans" for i
    using cycle_batch_find [OF inj that, of "po_requires po"] unfolding batch_tasks [OF dist] new_def
    by (simp add: bundle_task_plan_def)
  have off: "get_task ?s2 k = get_task s k" if "\<forall>i < length plans. k \<noteq> new i" for k
  proof -
    have "k \<notin> set (map pl_task_id ?b)" unfolding cycle_batch_ids
      using that by (auto simp: new_def) (metis le_Suc_ex nat_add_left_cancel_less)
    then have "find (\<lambda>p. pl_task_id p = k) ?b = None" unfolding find_None_iff set_map by blast
    then show ?thesis unfolding batch_tasks [OF dist] by (simp add: get_task_def)
  qed
  show "get_task s (new i) = None \<and> (\<exists>t. get_task (it_store it') (new i) = Some t \<and>
      woken (build_task now Ready (bundle_task_plan (new i) (plans ! i) (po_requires po))) t)" if "i < length plans"
    using free kick_present [OF wf2 at [OF that], of now] store that by auto
  show "\<exists>u. get_task (it_store it') k = Some u \<and> woken t u" if "get_task s k = Some t"
  proof (cases "plans = []")
    case False
    from that free have "\<forall>i < length plans. k \<noteq> new i" by auto
    with off that kick_present [OF wf2, of k t now] store False show ?thesis by simp
  qed (use store that in \<open>simp add: woken_def\<close>)
  show "(\<exists>t. get_task s k = Some t \<and> woken t u) \<or>
      (\<exists>i < length plans. k = new i \<and> woken (build_task now Ready (bundle_task_plan (new i) (plans ! i) (po_requires po))) u)"
    if "get_task (it_store it') k = Some u"
  proof (cases "plans = []")
    case False
    with that store kick_woken [OF wf2, of now k u] obtain t where t: "get_task ?s2 k = Some t" "woken t u" by auto
    show ?thesis
    proof (cases "\<forall>i < length plans. k \<noteq> new i")
      case True
      with off t show ?thesis by auto
    next
      case False
      then obtain i where "i < length plans" "k = new i" by blast
      with at t show ?thesis by auto
    qed
  qed (use store that in \<open>simp add: woken_def\<close>)
qed

end
