(* ===== verification/IntakeProps.thy ===== *)
theory IntakeProps
  imports IntakeFacts TaskRouter Demo
begin

text \<open>
  Properties of the intake: what a bundle contains, that the backlog drains, that a grouped cycle
  never gives one issue to two tasks under way, and where it still can.
\<close>

section \<open>Definitions\<close>

text \<open>Repeated packing: every sitting takes a bundle out of the backlog.\<close>

fun sittings :: "(string \<Rightarrow> time option) \<Rightarrow> string \<Rightarrow> grouping_config \<Rightarrow> nat \<Rightarrow> candidate list \<Rightarrow> candidate list list" where
  "sittings fromiso lane cfg 0 cs = []"
| "sittings fromiso lane cfg (Suc n) cs =
     (if cs = [] then []
      else let batch = fst (pack_repo_candidates fromiso lane cs cfg)
           in batch # sittings fromiso lane cfg n (filter (\<lambda>c. c \<notin> set batch) cs))"

definition small_config :: grouping_config where
  "small_config = default_grouping_config\<lparr>gc_max_bundle_size := 2, gc_max_area_clusters_per_bundle := 2\<rparr>"

definition demo_issue :: "int \<Rightarrow> string list \<Rightarrow> issue" where
  "demo_issue i labels =
     \<lparr>is_iid = i, is_title = ''t'', is_description = [], is_labels = labels, is_created_at = Some (show_int i),
      is_full_ref = ''g/p#'' @ show_int i, is_author_id = None, is_intake_band = None\<rparr>"

definition demo_cand :: "int \<Rightarrow> string list \<Rightarrow> int \<Rightarrow> candidate" where
  "demo_cand i labels band = (''g/p#'' @ show_int i, demo_issue i labels, band)"

definition demo_clock :: "string \<Rightarrow> time option" where
  "demo_clock v = (if v = ''1'' then Some 1 else if v = ''2'' then Some 2 else if v = ''3'' then Some 3 else None)"

abbreviation demo_backlog :: "candidate list" where
  "demo_backlog \<equiv> [demo_cand 1 [''area::a''] 1, demo_cand 2 [''area::a''] 1, demo_cand 3 [''area::a''] 1, demo_cand 4 [] 2]"

text \<open>GitLab with one project: no merge request, no link, and no answer to the issue query, which
  the cycle gets as its argument.\<close>

definition demo_gitlab :: gitlab where
  "demo_gitlab = \<lparr>gl_issues = \<lambda>_ _ _. Inr [], gl_merge_requests = \<lambda>_ _. Some [], gl_links = \<lambda>_ _. Some []\<rparr>"

definition demo_scope :: intake_scope where
  "demo_scope = \<lparr>sc_type = ''project'', sc_path = ''g/p'', sc_label = [], sc_enabled = True\<rparr>"

abbreviation demo_scoped :: "(issue list \<times> intake_scope option) list" where
  "demo_scoped \<equiv> [([demo_issue 1 []], Some demo_scope)]"

definition demo_intake :: "cluster_state \<Rightarrow> intake" where
  "demo_intake s =
     \<lparr>it_store = s, it_dedup = [], it_attempts = [], it_last_poll = None, it_last_poll_ok = False,
      it_issues_seen = 0, it_tasks_created = 0, it_last_errors = [], it_error_history = [],
      it_error_counts = [], it_seen_keys = []\<rparr>"

text \<open>Issue 1 is blocked by issue 2, and issue 2 by an open issue elsewhere.\<close>

definition chained_gitlab :: gitlab where
  "chained_gitlab = demo_gitlab\<lparr>gl_links := \<lambda>path iid.
     Some (if iid = ''1'' then [\<lparr>ln_link_type = ''is_blocked_by'', ln_full_ref = ''g/p#2'', ln_state = ''opened''\<rparr>]
           else [\<lparr>ln_link_type = ''is_blocked_by'', ln_full_ref = ''g/q#9'', ln_state = ''opened''\<rparr>])\<rparr>"

text \<open>Two projects whose paths end alike.\<close>

abbreviation namesakes :: "(issue list \<times> intake_scope option) list" where
  "namesakes \<equiv> [([demo_issue 1 [], (demo_issue 2 [])\<lparr>is_full_ref := ''h/p#2''\<rparr>], Some demo_scope)]"

text \<open>A store with one bundle for issue 1 in the given status, the ids drawn so far used up.\<close>

definition demo_bundle :: "task_status \<Rightarrow> cluster_state" where
  "demo_bundle st = put_task ''b1'' (build_task 5 st
     ((demo_plan ''b1'' [] ''p#env/dev'')\<lparr>pl_issues := [''g/p#1'']\<rparr>)) demo0"

section \<open>The bundle\<close>

lemma distinct_concat_nth:
  assumes "distinct (concat (map f xs))" "i < length xs" "j < length xs" "i \<noteq> j"
  shows "set (f (xs ! i)) \<inter> set (f (xs ! j)) = {}"
proof -
  have sorted: "set (f (xs ! i)) \<inter> set (f (xs ! j)) = {}" if "i < j" "j < length xs" for i j
  proof -
    have "xs = take j xs @ drop j xs" by simp
    then have "distinct (concat (map f (take j xs)) @ concat (map f (drop j xs)))"
      using assms(1) by (metis concat_append map_append)
    then have "set (concat (map f (take j xs))) \<inter> set (concat (map f (drop j xs))) = {}" by simp
    moreover have "xs ! i \<in> set (take j xs)" "xs ! j \<in> set (drop j xs)"
      using that by (auto simp: in_set_conv_nth) (metis add.right_neutral diff_less_mono2 less_or_eq_imp_le linorder_not_less nth_drop zero_less_diff)+
    ultimately show ?thesis by auto
  qed
  show ?thesis using sorted [of i j] sorted [of j i] assms(2-4) by (cases "i < j") auto
qed

text \<open>C19: A bundle is a part of the candidates of the most urgent band; it is not empty and keeps
  within the configured size and number of areas. Within an area it takes the newest issues, and when
  neither limit bites it takes the whole band.\<close>

theorem pack_repo_spec:
  assumes "grouping_config_ok cfg" "1 \<le> gc_max_area_clusters_per_bundle cfg" "cs \<noteq> []"
  shows "let batch = fst (pack_repo_candidates fromiso lane cs cfg); top = filter (\<lambda>c. cand_band c = top_band cs) cs
    in batch \<noteq> [] \<and> mset batch \<subseteq># mset top \<and> (\<forall>c \<in> set cs. top_band cs \<le> cand_band c) \<and>
       int (length batch) \<le> gc_max_bundle_size cfg \<and>
       int (card (cand_area ` set batch)) \<le> gc_max_area_clusters_per_bundle cfg \<and>
       (\<forall>x \<in> set batch. \<forall>y \<in> set top. y \<notin> set batch \<and> cand_area x = cand_area y \<longrightarrow>
          recency_key fromiso x \<le> recency_key fromiso y) \<and>
       (int (length batch) < gc_max_bundle_size cfg \<and> int (card (cand_area ` set cs)) \<le> gc_max_area_clusters_per_bundle cfg \<longrightarrow>
          set batch = set top)"
proof -
  let ?b = "fst (pack_repo_candidates fromiso lane cs cfg)"
  have cap: "1 \<le> gc_max_bundle_size cfg" using assms(1) by (simp add: grouping_config_ok_def)
  have sub: "set ?b \<subseteq> set (filter (\<lambda>c. cand_band c = top_band cs) cs)"
    using set_mset_mono [OF pack_repo_mset] by (simp only: set_mset_mset)
  have all: "set ?b = set (filter (\<lambda>c. cand_band c = top_band cs) cs)"
    if "int (length ?b) < gc_max_bundle_size cfg" "int (card (cand_area ` set cs)) \<le> gc_max_area_clusters_per_bundle cfg"
  proof (rule equalityI [OF sub subsetI])
    fix c
    assume "c \<in> set (filter (\<lambda>c. cand_band c = top_band cs) cs)"
    then have "c \<in> set cs" "cand_band c = top_band cs" by simp_all
    then show "c \<in> set ?b" by (rule pack_repo_all [OF that])
  qed
  have new: "recency_key fromiso x \<le> recency_key fromiso y"
    if "x \<in> set ?b" "y \<in> set (filter (\<lambda>c. cand_band c = top_band cs) cs)" "y \<notin> set ?b" "cand_area x = cand_area y" for x y
    by (rule pack_repo_newest [OF that(1) _ _ that(3,4)]) (use that(2) in simp_all)
  show ?thesis unfolding Let_def
    by (intro conjI ballI impI pack_repo_some [OF assms(3) cap assms(2)] pack_repo_mset top_band_le all new
        pack_repo_caps [THEN conjunct1] pack_repo_caps [THEN conjunct2]) (use cap assms(2) in simp_all)
qed

theorem pack_repo_spec_witness:
  "map cand_id (fst (pack_repo_candidates demo_clock ''p#env/dev'' demo_backlog small_config)) = [''g/p#3'', ''g/p#2''] \<and>
   int (length (fst (pack_repo_candidates demo_clock ''p#env/dev'' demo_backlog small_config))) \<le> 2"
proof -
  have ok: "grouping_config_ok small_config" "1 \<le> gc_max_area_clusters_per_bundle small_config"
    "gc_max_bundle_size small_config = 2"
    by (simp_all add: grouping_config_ok_def small_config_def default_grouping_config_def)
  have "map cand_id (fst (pack_repo_candidates demo_clock ''p#env/dev'' demo_backlog small_config)) = [''g/p#3'', ''g/p#2'']"
    by code_simp
  with pack_repo_spec [OF ok(1,2), of demo_backlog demo_clock "''p#env/dev''"] ok(3) show ?thesis
    by (simp add: Let_def)
qed

lemma sittings_members: "x \<in> set (concat (sittings fromiso lane cfg n cs)) \<Longrightarrow> x \<in> set cs"
proof (induction n arbitrary: cs)
  case (Suc n)
  have "set (fst (pack_repo_candidates fromiso lane cs cfg)) \<subseteq> set cs"
    using set_mset_mono [OF pack_repo_mset] unfolding set_mset_mset by fastforce
  moreover have "x \<in> set (fst (pack_repo_candidates fromiso lane cs cfg)) \<or>
      x \<in> set (concat (sittings fromiso lane cfg n (filter (\<lambda>c. c \<notin> set (fst (pack_repo_candidates fromiso lane cs cfg))) cs)))"
    using Suc.prems by (auto simp: Let_def split: if_splits)
  ultimately show ?case using Suc.IH [of "filter (\<lambda>c. c \<notin> set (fst (pack_repo_candidates fromiso lane cs cfg))) cs"]
    by (meson filter_is_subset subsetD)
qed simp

lemma sitting_step:
  fixes fromiso :: "string \<Rightarrow> time option" and lane :: string
  assumes "distinct cs" "cs \<noteq> []" "grouping_config_ok cfg" "1 \<le> gc_max_area_clusters_per_bundle cfg"
  defines "batch \<equiv> fst (pack_repo_candidates fromiso lane cs cfg)"
  shows "mset cs = mset batch + mset (filter (\<lambda>c. c \<notin> set batch) cs)"
    "length (filter (\<lambda>c. c \<notin> set batch) cs) < length cs"
proof -
  have sub: "mset batch \<subseteq># mset (filter (\<lambda>c. cand_band c = top_band cs) cs)" unfolding batch_def by (rule pack_repo_mset)
  then have db: "distinct batch" by (rule distinct_sub) (use assms(1) in simp)
  have "set batch \<subseteq> set cs" using set_mset_mono [OF sub] by auto
  then have "mset (filter (\<lambda>c. c \<in> set batch) cs) = mset batch"
    using db assms(1) by (intro set_eq_iff_mset_eq_distinct [THEN iffD1]) auto
  then show e: "mset cs = mset batch + mset (filter (\<lambda>c. c \<notin> set batch) cs)"
    using multiset_partition [of "mset cs" "\<lambda>c. c \<in> set batch"] by simp
  have "batch \<noteq> []" unfolding batch_def
    by (rule pack_repo_some) (use assms in \<open>simp_all add: grouping_config_ok_def\<close>)
  then show "length (filter (\<lambda>c. c \<notin> set batch) cs) < length cs"
    using arg_cong [OF e, of size] unfolding size_union size_mset by simp
qed

text \<open>C25: Repeated packing drains a backlog of distinct candidates, under a valid configuration whose
  limit of area clusters per bundle is at least 1 (no validator asks for that; with 0 nothing is ever
  packed, \<open>zero_clusters_stall\<close>): as many sittings as there are candidates deliver every candidate
  exactly once, and never a less urgent one before a more urgent one.\<close>

theorem backlog_delivered:
  assumes "distinct cs" "grouping_config_ok cfg" "1 \<le> gc_max_area_clusters_per_bundle cfg"
  shows "mset (concat (sittings fromiso lane cfg (length cs) cs)) = mset cs \<and>
    sorted_wrt (\<lambda>b1 b2. \<forall>x \<in> set b1. \<forall>y \<in> set b2. cand_band x \<le> cand_band y) (sittings fromiso lane cfg (length cs) cs)"
proof -
  have "length cs \<le> n \<Longrightarrow> distinct cs \<Longrightarrow> mset (concat (sittings fromiso lane cfg n cs)) = mset cs \<and>
      sorted_wrt (\<lambda>b1 b2. \<forall>x \<in> set b1. \<forall>y \<in> set b2. cand_band x \<le> cand_band y) (sittings fromiso lane cfg n cs)"
    for n and cs :: "candidate list"
  proof (induction n arbitrary: cs)
    case (Suc n)
    show ?case
    proof (cases "cs = []")
      case False
      let ?b = "fst (pack_repo_candidates fromiso lane cs cfg)"
      let ?r = "filter (\<lambda>c. c \<notin> set ?b) cs"
      note step = sitting_step [OF Suc.prems(2) False assms(2,3), of fromiso lane]
      from step(2) Suc.prems have "length ?r \<le> n" "distinct ?r" by simp_all
      note IH = Suc.IH [OF this]
      have "cand_band x \<le> cand_band y" if "x \<in> set ?b" "y \<in> set (concat (sittings fromiso lane cfg n ?r))" for x y
      proof -
        have "cand_band x = top_band cs" using that(1) set_mset_mono [OF pack_repo_mset [of fromiso lane cs cfg]] by fastforce
        moreover have "y \<in> set cs" using sittings_members [OF that(2)] by simp
        ultimately show ?thesis using top_band_le by metis
      qed
      then have "\<forall>b \<in> set (sittings fromiso lane cfg n ?r). \<forall>x \<in> set ?b. \<forall>y \<in> set b. cand_band x \<le> cand_band y"
        unfolding set_concat by blast
      moreover have "sittings fromiso lane cfg (Suc n) cs = ?b # sittings fromiso lane cfg n ?r" using False by (simp add: Let_def)
      ultimately show ?thesis using IH step(1) by (simp only: concat.simps mset_append sorted_wrt.simps)
    qed simp
  qed simp
  with assms(1) show ?thesis by blast
qed

theorem backlog_delivered_witness:
  "mset (concat (sittings demo_clock ''p#env/dev'' small_config 4 demo_backlog)) = mset demo_backlog"
proof -
  have "distinct demo_backlog" by code_simp
  moreover have "grouping_config_ok small_config" "1 \<le> gc_max_area_clusters_per_bundle small_config"
    by (simp_all add: grouping_config_ok_def small_config_def default_grouping_config_def)
  moreover have "length demo_backlog = 4" by simp
  ultimately show ?thesis using backlog_delivered [of demo_backlog small_config demo_clock "''p#env/dev''"] by metis
qed

section \<open>The cycle\<close>

text \<open>C6: A grouped cycle creates its bundles under fresh ids and leaves every other task with the
  issues it had. A new bundle has issues, none of them twice, and none that another task retains: one
  under way, one that delivered it, or one cancelled for good.\<close>

theorem cycle_bundles_unheld:
  assumes "cs_wf (it_store it)" "fresh_task_ids (it_store it)"
    and "grouped_cycle fromiso now gl po scoped it = (created, it')"
  shows "cs_wf (it_store it') \<and> distinct created \<and>
    (\<forall>k \<in> set created. get_task (it_store it) k = None \<and>
      (\<exists>t. get_task (it_store it') k = Some t \<and> holding t \<and> t_role t = ''author'' \<and> t_issues t \<noteq> [] \<and> distinct (t_issues t) \<and>
        (\<forall>j u. get_task (it_store it) j = Some u \<and> retains u \<longrightarrow> set (t_issues t) \<inter> set (t_issues u) = {}))) \<and>
    (\<forall>k u. get_task (it_store it') k = Some u \<and> k \<notin> set created \<longrightarrow>
      (\<exists>t. get_task (it_store it) k = Some t \<and> t_issues u = t_issues t \<and> (holding u \<longleftrightarrow> holding t)))"
proof -
  define s where "s = it_store it"
  define plans where "plans = cycle_plans fromiso now gl po scoped s"
  define new where "new i = gen_id ''task'' (cs_rng s) (cs_draws s + i)" for i
  note run = cycle_tasks [OF assms, folded s_def, folded plans_def, folded new_def]
  have inj: "inj (cs_rng s)" using cs_wfD(3) [OF assms(1)] by (simp add: leases_wf_def s_def)
  have dist: "distinct created" unfolding run(2) using inj by (simp add: distinct_map inj_on_def new_def)
  have made: "get_task s k = None \<and> (\<exists>t. get_task (it_store it') k = Some t \<and> holding t \<and> t_role t = ''author'' \<and>
      t_issues t \<noteq> [] \<and> distinct (t_issues t) \<and>
      (\<forall>j u. get_task s j = Some u \<and> retains u \<longrightarrow> set (t_issues t) \<inter> set (t_issues u) = {}))" if "k \<in> set created" for k
  proof -
    from that obtain i where i: "i < length plans" "k = new i" by (auto simp: run(2))
    from run(3) [OF i(1)] obtain t where t: "get_task s k = None" "get_task (it_store it') k = Some t"
      "woken (build_task now Ready (bundle_task_plan (new i) (plans ! i) (po_requires po))) t" unfolding i(2) by blast
    have iss: "t_issues t = bp_issue_ids (plans ! i)" and "t_role t = ''author''"
      using t(3) by (simp_all add: woken_def build_task_def bundle_task_plan_def)
    moreover have "holding t" using woken_holding [OF t(3)] by (simp add: holding_def ISSUE_HOLDING_STATUSES_def)
    moreover have "plans ! i \<in> set plans" using i(1) by simp
    note mem = this [unfolded plans_def]
    have "distinct (bp_issue_ids (plans ! i))"
      using cycle_plans_distinct [of fromiso now gl po scoped s] i(1)
      by (auto simp: plans_def distinct_concat_iff)
    moreover obtain path prs where "plan_repo fromiso now gl (po_grouping po) (fst (grouping_view s))
        (fst (snd (grouping_view s))) (snd (snd (grouping_view s))) (path, prs) = Some (plans ! i)"
      using cycle_plan_of mem unfolding plans_def by metis
    from plan_repo_source [OF this] have "bp_issue_ids (plans ! i) \<noteq> []" using bundle_plan_Some(1,2) by (metis map_is_Nil_conv)
    moreover have "x \<notin> set (t_issues u)" if "x \<in> set (bp_issue_ids (plans ! i))" "get_task s j = Some u" "retains u" for x j u
      using cycle_plan_unretained [OF mem _ _ that(2,3), of x] that(1) assms(1) by (simp add: plans_def s_def)
    ultimately show ?thesis using t(1,2) unfolding iss [symmetric] by blast
  qed
  have rest: "\<exists>t. get_task s k = Some t \<and> t_issues u = t_issues t \<and> (holding u \<longleftrightarrow> holding t)"
    if "get_task (it_store it') k = Some u" "k \<notin> set created" for k u
    using run(5) [OF that(1)] that(2) woken_holding by (auto simp: run(2) woken_def)
  show ?thesis unfolding s_def [symmetric] using run(1) dist made rest by blast
qed

text \<open>C20: When no two tasks under way share an issue, this still holds after a grouped cycle.\<close>

theorem cycle_keeps_issues_disjoint:
  assumes "cs_wf (it_store it)" "fresh_task_ids (it_store it)" "issues_disjoint (it_store it)"
    and "grouped_cycle fromiso now gl po scoped it = (created, it')"
  shows "issues_disjoint (it_store it')"
proof -
  define s where "s = it_store it"
  define plans where "plans = cycle_plans fromiso now gl po scoped s"
  define new where "new i = gen_id ''task'' (cs_rng s) (cs_draws s + i)" for i
  note run = cycle_tasks [OF assms(1,2,4), folded s_def, folded plans_def, folded new_def]
  have origin: "(\<exists>t'. get_task s k = Some t' \<and> t_issues t' = t_issues t \<and> holding t') \<or>
      (\<exists>i < length plans. k = new i \<and> t_issues t = bp_issue_ids (plans ! i))"
    if "get_task (it_store it') k = Some t" "holding t" for k t
    using run(5) [OF that(1)] that(2) woken_holding woken_issues bundle_task_issues by metis
  have new_old: "set (bp_issue_ids (plans ! i)) \<inter> set (t_issues t) = {}"
    if "i < length plans" "get_task s k = Some t" "holding t" for i k t
  proof -
    have "x \<notin> set (t_issues t)" if "x \<in> set (bp_issue_ids (plans ! i))" for x
      by (rule cycle_plan_unretained [OF _ that _ \<open>get_task s k = Some t\<close>])
        (use nth_mem [OF \<open>i < length plans\<close>] \<open>holding t\<close> assms(1) in \<open>simp_all add: plans_def s_def retains_def\<close>)
    then show ?thesis by blast
  qed
  have new_new: "set (bp_issue_ids (plans ! i)) \<inter> set (bp_issue_ids (plans ! j)) = {}"
    if "i < length plans" "j < length plans" "i \<noteq> j" for i j
    using cycle_plans_distinct [of fromiso now gl po scoped s, folded plans_def] that by (rule distinct_concat_nth)
  show ?thesis unfolding issues_disjoint_def
  proof (intro allI impI, elim conjE)
    fix j k t u
    assume t: "get_task (it_store it') j = Some t" "holding t" and u: "get_task (it_store it') k = Some u" "holding u" and "j \<noteq> k"
    from origin [OF t] origin [OF u] show "set (t_issues t) \<inter> set (t_issues u) = {}"
    proof (elim disjE exE conjE)
      fix a b
      assume "get_task s j = Some a" "t_issues a = t_issues t" "holding a" "get_task s k = Some b" "t_issues b = t_issues u" "holding b"
      with assms(3) \<open>j \<noteq> k\<close> show ?thesis unfolding issues_disjoint_def s_def by metis
    next
      fix a i
      assume "get_task s j = Some a" "t_issues a = t_issues t" "holding a" "i < length plans" "t_issues u = bp_issue_ids (plans ! i)"
      with new_old show ?thesis by (metis Int_commute)
    next
      fix i b
      assume "i < length plans" "t_issues t = bp_issue_ids (plans ! i)" "get_task s k = Some b" "t_issues b = t_issues u" "holding b"
      with new_old show ?thesis by metis
    next
      fix i i'
      assume "i < length plans" "j = new i" "t_issues t = bp_issue_ids (plans ! i)"
        "i' < length plans" "k = new i'" "t_issues u = bp_issue_ids (plans ! i')"
      with new_new \<open>j \<noteq> k\<close> show ?thesis by metis
    qed
  qed
qed

lemma demo_bundle_tasks:
  "get_task (demo_bundle st) k =
     (if k = ''b1'' then Some (build_task 5 st ((demo_plan ''b1'' [] ''p#env/dev'')\<lparr>pl_issues := [''g/p#1'']\<rparr>)) else None)"
  by (simp add: demo_bundle_def demo0_def init_state_def get_task_def put_task_def)

lemma demo_bundle_ok: "cs_wf (demo_bundle st)" "fresh_task_ids (demo_bundle st)" "issues_disjoint (demo_bundle st)"
proof -
  show "cs_wf (demo_bundle st)" unfolding demo_bundle_def
    by (rule put_task_wf [OF demo_wf(1)]) (simp_all add: demo_plan_def task_retry_limit_def)
  show "fresh_task_ids (demo_bundle st)" by (simp add: fresh_task_ids_def demo_bundle_tasks gen_id_def)
  show "issues_disjoint (demo_bundle st)" by (simp add: issues_disjoint_def demo_bundle_tasks)
qed

lemma demo_intake_store: "it_store (demo_intake s) = s"
  by (simp add: demo_intake_def)

lemma demo_intake_ok:
  "cs_wf (it_store (demo_intake (demo_bundle st)))" "fresh_task_ids (it_store (demo_intake (demo_bundle st)))"
  "issues_disjoint (it_store (demo_intake (demo_bundle st)))"
  by (simp_all only: demo_intake_store demo_bundle_ok)

text \<open>A cycle that finds issue 1 held, delivered, or blocked on a question.\<close>

lemma demo_cycle_plans:
  "cycle_plans demo_clock 9 demo_gitlab default_policy demo_scoped (demo_bundle Running) = []"
  "cycle_plans demo_clock 9 demo_gitlab default_policy demo_scoped (demo_bundle Completed) = []"
  "map bp_issue_ids (cycle_plans demo_clock 9 demo_gitlab default_policy demo_scoped (demo_bundle Blocked)) = [[''g/p#1'']]"
  "map bp_issue_ids (cycle_plans demo_clock 9 demo_gitlab default_policy demo_scoped (demo_bundle Failed)) = [[''g/p#1'']]"
  by code_simp+

theorem cycle_bundles_unheld_witness:
  "\<exists>k it' t. grouped_cycle demo_clock 9 demo_gitlab default_policy demo_scoped (demo_intake (demo_bundle Failed)) = ([k], it') \<and>
     get_task (it_store it') k = Some t \<and> holding t"
proof -
  let ?it = "demo_intake (demo_bundle Failed)"
  obtain created it' where r: "grouped_cycle demo_clock 9 demo_gitlab default_policy demo_scoped ?it = (created, it')"
    by (cases "grouped_cycle demo_clock 9 demo_gitlab default_policy demo_scoped ?it")
  note ok = demo_intake_ok [of Failed]
  have "length created = 1"
    using cycle_tasks(2) [OF ok(1,2) r] arg_cong [OF demo_cycle_plans(4), of length] by (simp add: demo_intake_store)
  then obtain k where "created = [k]" by (cases created) auto
  with r cycle_bundles_unheld [OF ok(1,2) r] show ?thesis by auto
qed

theorem cycle_keeps_issues_disjoint_witness:
  "issues_disjoint (it_store (snd (grouped_cycle demo_clock 9 demo_gitlab default_policy demo_scoped (demo_intake (demo_bundle Failed)))))"
proof -
  obtain created it' where r: "grouped_cycle demo_clock 9 demo_gitlab default_policy demo_scoped (demo_intake (demo_bundle Failed)) = (created, it')"
    by (cases "grouped_cycle demo_clock 9 demo_gitlab default_policy demo_scoped (demo_intake (demo_bundle Failed))")
  show ?thesis unfolding r snd_conv by (rule cycle_keeps_issues_disjoint [OF demo_intake_ok r])
qed

text \<open>A bundle that is blocked on a question does not hold its issues: a cycle gives them to a
  second bundle, and once the question is answered both are under way with the same issue.\<close>

theorem blocked_bundle_doubled:
  "issues_disjoint (demo_bundle Blocked) \<and>
   \<not> issues_disjoint (snd (unblock_to_ready 10 ''b1''
       (it_store (snd (grouped_cycle demo_clock 9 demo_gitlab default_policy demo_scoped (demo_intake (demo_bundle Blocked)))))))"
proof -
  let ?s = "demo_bundle Blocked" and ?P = "cycle_plans demo_clock 9 demo_gitlab default_policy demo_scoped (demo_bundle Blocked)"
  obtain created it' where r: "grouped_cycle demo_clock 9 demo_gitlab default_policy demo_scoped (demo_intake ?s) = (created, it')"
    by (cases "grouped_cycle demo_clock 9 demo_gitlab default_policy demo_scoped (demo_intake ?s)")
  note run = cycle_tasks [OF demo_intake_ok(1,2) r, unfolded demo_intake_store]
  obtain p where p: "?P = [p]" "bp_issue_ids p = [''g/p#1'']" using demo_cycle_plans(3) by (cases ?P) auto
  define k where "k = gen_id ''task'' (cs_rng ?s) (cs_draws ?s + 0)"
  from run(3) [of 0] p obtain t where t: "get_task (it_store it') k = Some t" "t_issues t = [''g/p#1'']" "holding t"
    unfolding k_def by (auto simp: woken_issues woken_holding) (auto simp: holding_def ISSUE_HOLDING_STATUSES_def)
  obtain u where u: "get_task (it_store it') ''b1'' = Some u" "t_issues u = [''g/p#1'']" "t_status u = Blocked"
    using run(4) [of "''b1''"] by (auto simp: demo_bundle_tasks woken_def) (simp add: build_task_def)
  have k: "k \<noteq> ''b1''" by (simp add: k_def gen_id_def)
  have un: "snd (unblock_to_ready 10 ''b1'' (it_store it')) = put_task ''b1'' (touch 10 (u\<lparr>t_status := Ready\<rparr>)) (it_store it')"
    using u by (simp add: unblock_to_ready_def)
  have ready: "holding (touch 10 (u\<lparr>t_status := Ready\<rparr>))" "t_issues (touch 10 (u\<lparr>t_status := Ready\<rparr>)) = t_issues u"
    by (simp_all add: holding_def ISSUE_HOLDING_STATUSES_def touch_def)
  have "get_task (snd (unblock_to_ready 10 ''b1'' (it_store it'))) k = Some t"
    "get_task (snd (unblock_to_ready 10 ''b1'' (it_store it'))) ''b1'' = Some (touch 10 (u\<lparr>t_status := Ready\<rparr>))"
    unfolding un using t(1) k by simp_all
  then have "\<not> issues_disjoint (snd (unblock_to_ready 10 ''b1'' (it_store it')))"
    by (rule shared_issue [where x = "''g/p#1''", OF _ _ k t(3) ready(1)]) (simp_all add: t(2) u(2) ready(2))
  with demo_bundle_ok(3) r show ?thesis by simp
qed

text \<open>The plan that replaces a held one is not checked again: issue 1 waits for issue 2, issue 2
  is held for its own blocker, and the cycle bundles issue 1 although its blocker is open and outside
  the bundle.\<close>

theorem held_blocker_escapes:
  "map bp_issue_ids (cycle_plans demo_clock 9 chained_gitlab default_policy
       [([demo_issue 1 [], demo_issue 2 []], Some demo_scope)] demo0) = [[''g/p#1'']] \<and>
   held_by_open_blockers chained_gitlab ''g/p#1'' [''g/p#1''] (gc_blocker_link_types default_grouping_config) = [''g/p#1'']"
  by code_simp

text \<open>The lane key keeps only the last segment of a project path and the lanes are viewed once a
  cycle, so two projects with the same last segment get two bundles on one lane in one cycle.\<close>

theorem namesakes_share_lane:
  "map (\<lambda>b. (bp_lane_key b, bp_issue_ids b)) (cycle_plans demo_clock 9 demo_gitlab default_policy namesakes demo0) =
     [(''p#env/dev'', [''g/p#1'']), (''p#env/dev'', [''h/p#2''])]"
  by code_simp

text \<open>A limit of no area per bundle is accepted by the validators and stops the intake for good:
  no repository ever gets a bundle.\<close>

theorem zero_clusters_stall:
  "grouping_config_ok (default_grouping_config\<lparr>gc_max_area_clusters_per_bundle := 0\<rparr>) \<and>
   bundle_plan_for_repo fromiso now lane cs (default_grouping_config\<lparr>gc_max_area_clusters_per_bundle := 0\<rparr>) view project_of = None"
proof -
  have "pack_clusters (default_grouping_config\<lparr>gc_max_area_clusters_per_bundle := 0\<rparr>) order ([], []) = ([], [])" for order
    by (cases order) auto
  then show ?thesis
    by (auto simp: bundle_plan_for_repo_def pack_repo_candidates_def Let_def grouping_config_ok_def default_grouping_config_def)
qed

section \<open>The hand-off\<close>

lemma dropWhile_keeps: "\<not> P c \<Longrightarrow> \<exists>p'. dropWhile P (p @ c # m) = p' @ c # m"
  by (induction p) auto

lemma strip_keeps:
  assumes "\<not> is_space c" "\<not> is_space d"
  shows "set m \<subseteq> set (strip (p @ c # m @ d # q))"
proof -
  obtain p' where "lstrip (p @ c # m @ d # q) = p' @ c # m @ d # q"
    using dropWhile_keeps [where P = is_space, OF assms(1)] unfolding lstrip_def by metis
  moreover obtain q' where "dropWhile is_space (rev q @ d # rev (p' @ c # m)) = q' @ d # rev (p' @ c # m)"
    using dropWhile_keeps [where P = is_space, OF assms(2)] by metis
  ultimately show ?thesis by (auto simp: strip_def)
qed

text \<open>The brief of a review hand-off is a text of several lines that the author is told to submit
  as the title of the reviewer task of a lane; the endpoint refuses every such submission.\<close>

theorem handoff_title_refused:
  assumes "sq_title req = reviewer_handoff_brief b mr_url head_sha rev_key" "sq_lane_key req \<noteq> []"
  shows "submit_task now req rt = Inl (BriefInTitle (sq_lane_key req))"
proof -
  have "\<exists>m q. sq_title req = CHR ''['' # m @ CHR ''#'' # q \<and> CHR 0x0A \<in> set m"
  proof -
    define k where "k = (case rev_key of None \<Rightarrow> bp_lane_key b @ ''-rev'' | Some k \<Rightarrow> if k = [] then bp_lane_key b @ ''-rev'' else k)"
    have "\<exists>t. review_title k b mr_url = CHR ''['' # t" by (cases "parse_github_pr_url mr_url") (simp_all add: review_title_def)
    then obtain t where t: "review_title k b mr_url = CHR ''['' # t" by blast
    have "\<exists>rest. review_intro (review_title k b mr_url) k b mr_url head_sha =
        (CHR ''['' # t) @ [CHR 0x0A] @ [CHR 0x0A] @ CHR ''#'' # rest"
      by (simp add: review_intro_def text_lines_def t)
    then have "\<exists>q. sq_title req = CHR ''['' # (t @ [CHR 0x0A, CHR 0x0A]) @ CHR ''#'' # q"
      unfolding assms(1) reviewer_handoff_brief_def Let_def k_def [symmetric] by auto
    moreover have "CHR 0x0A \<in> set (t @ [CHR 0x0A, CHR 0x0A])" by simp
    ultimately show ?thesis by blast
  qed
  then obtain m q where mq: "sq_title req = [] @ CHR ''['' # m @ CHR ''#'' # q" "CHR 0x0A \<in> set m" by auto
  have "\<not> is_space CHR ''[''" "\<not> is_space CHR ''#''" by code_simp+
  from strip_keeps [OF this, of m "[]" q] mq have "CHR 0x0A \<in> set (strip (sq_title req))" by auto
  with assms(2) have "brief_guard req = Some (BriefInTitle (sq_lane_key req))" by (simp add: brief_guard_def Let_def)
  then show ?thesis by (simp add: submit_task_def Let_def)
qed

theorem handoff_title_refused_witness:
  "submit_task 0 \<lparr>sq_title = reviewer_handoff_brief \<lparr>bp_lane_key = ''p#env/dev'', bp_iids = [1], bp_project_paths = [''g/p''],
       bp_priority = 3, bp_issue_ids = [''g/p#1''], bp_reason = []\<rparr> ''https://x/1'' ''abc'' None,
     sq_description = [], sq_requires = [''review''], sq_priority = None, sq_lane_key = ''p#env/dev-rev'', sq_role = ''reviewer'',
     sq_depends_on = []\<rparr> (None, demo0) = Inl (BriefInTitle ''p#env/dev-rev'')"
  using handoff_title_refused [where req = "\<lparr>sq_title = reviewer_handoff_brief \<lparr>bp_lane_key = ''p#env/dev'', bp_iids = [1],
       bp_project_paths = [''g/p''], bp_priority = 3, bp_issue_ids = [''g/p#1''], bp_reason = []\<rparr> ''https://x/1'' ''abc'' None,
     sq_description = [], sq_requires = [''review''], sq_priority = None, sq_lane_key = ''p#env/dev-rev'', sq_role = ''reviewer'',
     sq_depends_on = []\<rparr>"] by simp

end
