(* ===== verification/PeerAuth.thy ===== *)
theory PeerAuth
  imports Ballot IntakePolicy
begin

text \<open>
  Peer authentication: \<^verbatim>\<open>core/peer_auth.py\<close> (signing and verifying a request with a shared
  token) and \<^verbatim>\<open>auth_middleware.py\<close> (which requests are let through). The hexadecimal digests
  of SHA-256 and of HMAC-SHA-256 are the parameters \<open>sha256\<close> and \<open>hmac\<close> (key first); the clock reading
  in whole seconds is \<open>now\<close>. Texts are strings of bytes.
\<close>

section \<open>State and requests\<close>

record peer_auth =
  pa_local_node_id :: string
  pa_local_token :: string
  pa_peer_tokens :: "(string, string) dict"
  pa_replay_window :: int

record peer_headers =
  ph_node :: string
  ph_timestamp :: string
  ph_signature :: string

record request =
  rq_method :: string
  rq_path :: string
  rq_query :: string
  rq_body :: string
  rq_peer :: peer_headers

definition is_configured :: "peer_auth \<Rightarrow> bool" where
  "is_configured pa \<longleftrightarrow> pa_local_token pa \<noteq> [] \<and> pa_local_node_id pa \<noteq> []"

definition pa_add_peer :: "string \<Rightarrow> string \<Rightarrow> peer_auth \<Rightarrow> peer_auth" where
  "pa_add_peer node_id token pa = pa\<lparr>pa_peer_tokens := dict_set node_id token (pa_peer_tokens pa)\<rparr>"

definition pa_remove_peer :: "string \<Rightarrow> peer_auth \<Rightarrow> peer_auth" where
  "pa_remove_peer node_id pa = pa\<lparr>pa_peer_tokens := dict_del node_id (pa_peer_tokens pa)\<rparr>"

section \<open>Signing\<close>

text \<open>The signed text, \<open>node:ts:method:path:body_hash\<close>.\<close>

definition peer_message :: "(string \<Rightarrow> string) \<Rightarrow> string \<Rightarrow> int \<Rightarrow> string \<Rightarrow> string \<Rightarrow> string \<Rightarrow> string" where
  "peer_message sha256 node_id ts method path body =
     node_id @ '':'' @ show_int ts @ '':'' @ method @ '':'' @ path @ '':'' @ sha256 body"

definition sign_request ::
  "(string \<Rightarrow> string) \<Rightarrow> (string \<Rightarrow> string \<Rightarrow> string) \<Rightarrow> int \<Rightarrow> peer_auth \<Rightarrow> string \<Rightarrow> string \<Rightarrow> string \<Rightarrow>
   int option \<Rightarrow> peer_headers option" where
  "sign_request sha256 hmac now pa method path body timestamp =
     (if \<not> is_configured pa then None
      else let ts = (case timestamp of None \<Rightarrow> now | Some t \<Rightarrow> if t = 0 then now else t)
           in Some \<lparr>ph_node = pa_local_node_id pa, ph_timestamp = show_int ts,
                    ph_signature = hmac (pa_local_token pa)
                      (peer_message sha256 (pa_local_node_id pa) ts method path body)\<rparr>)"

section \<open>Verifying\<close>

text \<open>\<open>int(s)\<close> on ASCII text: surrounding white space, a sign, digits with single underscores between
  them; \<open>None\<close> is \<open>ValueError\<close>.\<close>

definition unsigned_int :: "string \<Rightarrow> int option" where
  "unsigned_int s =
     (if list_all (\<lambda>g. g \<noteq> [] \<and> list_all is_digit g) (split_on CHR ''_'' s)
      then Some (digits_value (concat (split_on CHR ''_'' s))) else None)"

definition py_int :: "string \<Rightarrow> int option" where
  "py_int v =
     (case strip v of
        [] \<Rightarrow> None
      | c # cs \<Rightarrow> if c = CHR ''-'' then map_option uminus (unsigned_int cs)
                  else if c = CHR ''+'' then unsigned_int cs
                  else unsigned_int (c # cs))"

definition verify_request ::
  "(string \<Rightarrow> string) \<Rightarrow> (string \<Rightarrow> string \<Rightarrow> string) \<Rightarrow> int \<Rightarrow> peer_auth \<Rightarrow> string \<Rightarrow> string \<Rightarrow> string \<Rightarrow>
   peer_headers \<Rightarrow> bool" where
  "verify_request sha256 hmac now pa method path body h =
     (if ph_node h = [] \<or> ph_timestamp h = [] \<or> ph_signature h = [] then False
      else case dict_get (pa_peer_tokens pa) (ph_node h) of
             None \<Rightarrow> False
           | Some peer_token \<Rightarrow>
               if peer_token = [] then False
               else case py_int (ph_timestamp h) of
                      None \<Rightarrow> False
                    | Some ts \<Rightarrow>
                        if pa_replay_window pa < \<bar>now - ts\<bar> then False
                        else hmac peer_token (peer_message sha256 (ph_node h) ts method path body) = ph_signature h)"

section \<open>The middleware\<close>

definition PUBLIC_PATHS :: "string list" where
  "PUBLIC_PATHS =
     [''/health'', ''/metrics'', ''/docs'', ''/redoc'', ''/openapi.json'',
      ''/api/v1/intake/gitlab/webhook'', ''/api/v1/intake/gitlab/policy'']"

definition PUBLIC_PREFIXES :: "string list" where
  "PUBLIC_PREFIXES = [''/dashboard/'', ''/dashboard/static/'']"

definition is_public :: "string \<Rightarrow> bool" where
  "is_public path \<longleftrightarrow> path \<in> set PUBLIC_PATHS \<or> list_ex (startswith path) PUBLIC_PREFIXES"

definition signed_path :: "'a request_scheme \<Rightarrow> string" where
  "signed_path r = (if rq_query r \<noteq> [] then rq_path r @ ''?'' @ rq_query r else rq_path r)"

text \<open>\<open>dispatch\<close>: whether the request reaches its handler (otherwise it is answered with 401).
  \<open>own\<close> is the state bound to the middleware, \<open>module_state\<close> the module's.\<close>

definition dispatch ::
  "(string \<Rightarrow> string) \<Rightarrow> (string \<Rightarrow> string \<Rightarrow> string) \<Rightarrow> int \<Rightarrow> bool \<Rightarrow> peer_auth option \<Rightarrow> peer_auth \<Rightarrow> request \<Rightarrow> bool" where
  "dispatch sha256 hmac now enabled own module_state r =
     (if \<not> enabled then True
      else if is_public (rq_path r) then True
      else let pa = (case own of None \<Rightarrow> module_state | Some s \<Rightarrow> s)
           in verify_request sha256 hmac now pa (rq_method r) (signed_path r) (rq_body r) (rq_peer r))"

section \<open>Numbers\<close>

lemma is_digit_char: "n < 10 \<Longrightarrow> is_digit (char_of (48 + n :: nat))"
  by (simp add: is_digit_def Let_def)

lemma digits_value_snoc: "digits_value (ds @ [c]) = 10 * digits_value ds + (of_char c - 48)"
  by (simp add: digits_value_def)

lemma digit_value: "n < 10 \<Longrightarrow> (of_char (char_of (48 + n :: nat)) :: int) - 48 = int n"
  unfolding of_char_int by simp

lemma show_nat_digits: "list_all is_digit (show_nat n)"
  by (induction n rule: show_nat.induct) (subst show_nat.simps, simp add: is_digit_char)

lemma show_nat_value: "digits_value (show_nat n) = int n"
proof (induction n rule: show_nat.induct)
  case (1 n)
  have "digits_value [c] = of_char c - 48" for c by (simp add: digits_value_def)
  moreover have "10 * int (n div 10) + int (n mod 10) = int (10 * (n div 10) + n mod 10)" by (simp only: of_nat_add of_nat_mult of_nat_numeral)
  ultimately show ?case using 1
    by (subst show_nat.simps) (auto simp: digits_value_snoc digit_value simp del: char_of_eq_iff)
qed

lemma split_on_none: "c \<notin> set s \<Longrightarrow> split_on c s = [s]"
  by (induction s) auto

lemma digits_plain:
  assumes "list_all is_digit s" "s \<noteq> []"
  shows "CHR ''_'' \<notin> set s" "hd s \<noteq> CHR ''-''" "hd s \<noteq> CHR ''+''" "strip s = s" "CHR '':'' \<notin> set s"
    "dropWhile is_space (rev s) = rev s"
proof -
  have d: "is_digit c" if "c \<in> set s" for c using assms(1) that by (simp add: list_all_iff)
  have no: "\<not> is_digit CHR ''_''" "\<not> is_digit CHR ''-''" "\<not> is_digit CHR ''+''" "\<not> is_digit CHR '':''" by code_simp+
  show "CHR ''_'' \<notin> set s" "CHR '':'' \<notin> set s" using d no by auto
  show "hd s \<noteq> CHR ''-''" "hd s \<noteq> CHR ''+''" using d [OF hd_in_set [OF assms(2)]] no by auto
  have sp: "\<not> is_space c" if "c \<in> set s" for c using d [OF that] by (auto simp: is_digit_def is_space_def Let_def)
  then have "dropWhile is_space s = s" using assms(2) by (simp add: dropWhile_eq_self_iff)
  moreover show "dropWhile is_space (rev s) = rev s"
    using sp [of "last s"] assms(2) by (simp add: dropWhile_eq_self_iff hd_rev)
  ultimately show "strip s = s" by (simp add: strip_def lstrip_def)
qed

lemma unsigned_int_show: "unsigned_int (show_nat n) = Some (int n)"
  using digits_plain(1) [OF show_nat_digits show_nat_nonempty] show_nat_digits [of n]
  by (simp add: unsigned_int_def split_on_none show_nat_value)

lemma strip_minus: "list_all is_digit s \<Longrightarrow> s \<noteq> [] \<Longrightarrow> strip (CHR ''-'' # s) = CHR ''-'' # s"
proof -
  assume s: "list_all is_digit s" "s \<noteq> []"
  have "\<not> is_space CHR ''-''" by code_simp
  moreover have "dropWhile is_space (rev s @ [CHR ''-'']) = rev s @ [CHR ''-'']"
    using digits_plain(6) [OF s] s(2) by (simp add: dropWhile_eq_self_iff hd_append)
  ultimately show ?thesis by (simp add: strip_def lstrip_def)
qed

text \<open>Python reads back the timestamp it writes.\<close>

lemma py_int_show: "py_int (show_int i) = Some i"
proof (cases "i < 0")
  case True
  have "py_int (show_int i) = map_option uminus (unsigned_int (show_nat (nat (- i))))"
    using True strip_minus [OF show_nat_digits show_nat_nonempty] by (simp add: py_int_def show_int_def)
  with True show ?thesis by (simp add: unsigned_int_show)
next
  case False
  obtain c cs where c: "show_nat (nat i) = c # cs" by (metis list.exhaust show_nat_nonempty)
  with digits_plain [OF show_nat_digits show_nat_nonempty, of "nat i"] False unsigned_int_show [of "nat i"]
  show ?thesis by (simp add: py_int_def show_int_def)
qed

lemma show_int_nonempty [simp]: "show_int i \<noteq> []"
  by (simp add: show_int_def)

lemma show_int_no_colon: "CHR '':'' \<notin> set (show_int i)"
  using digits_plain(5) [OF show_nat_digits show_nat_nonempty] by (simp add: show_int_def)

section \<open>The signed text\<close>

lemma colon_split:
  "c \<notin> set a \<Longrightarrow> c \<notin> set a' \<Longrightarrow> a @ c # b = a' @ c # b' \<Longrightarrow> a = a' \<and> b = b'"
proof (induction a arbitrary: a')
  case Nil
  then show ?case by (cases a') auto
next
  case (Cons x a)
  then show ?case by (cases a') auto
qed

lemma peer_message_inj:
  assumes "peer_message sha256 n ts m p b = peer_message sha256 n' ts' m' p' b'"
    and "CHR '':'' \<notin> set n" "CHR '':'' \<notin> set n'" "CHR '':'' \<notin> set m" "CHR '':'' \<notin> set m'"
    and "CHR '':'' \<notin> set (sha256 b)" "CHR '':'' \<notin> set (sha256 b')"
  shows "n = n' \<and> ts = ts' \<and> m = m' \<and> p = p' \<and> sha256 b = sha256 b'"
proof -
  have 1: "n @ CHR '':'' # show_int ts @ CHR '':'' # m @ CHR '':'' # p @ CHR '':'' # sha256 b =
      n' @ CHR '':'' # show_int ts' @ CHR '':'' # m' @ CHR '':'' # p' @ CHR '':'' # sha256 b'"
    using assms(1) by (simp add: peer_message_def)
  note 2 = colon_split [OF assms(2,3) 1]
  note 3 = colon_split [OF show_int_no_colon show_int_no_colon conjunct2 [OF 2]]
  note 4 = colon_split [OF assms(4,5) conjunct2 [OF 3]]
  have "rev (sha256 b) @ CHR '':'' # rev p = rev (sha256 b') @ CHR '':'' # rev p'"
    using arg_cong [OF conjunct2 [OF 4], of rev] by simp
  then have 5: "rev (sha256 b) = rev (sha256 b') \<and> rev p = rev p'"
    by (rule colon_split [rotated 2]) (use assms(6,7) in simp_all)
  have "ts = ts'" using conjunct1 [OF 3] py_int_show by (metis option.inject)
  with 2 4 5 show ?thesis by simp
qed

end
