(* ===== verification/PolicyWrite.thy ===== *)
theory PolicyWrite
  imports PeerAuth Intake
begin

text \<open>
  The write endpoint of the intake policy in \<^verbatim>\<open>routers/intake.py\<close>: the rate limit, the two
  credentials it takes, the unwrapping of the body, the validation, the audit entry and what is stored.
  A body is read by the parameter \<open>parse_json\<close> into what the handler tells apart; a section is a
  policy record that has not been validated, or \<open>IllTyped\<close> where the model refuses the type of a field.
  The handler reads \<open>endpoint\<close> before the model does, so an ill-typed section keeps what that
  field holds: a text, a false value that is no text, or a true one, on which \<open>urlsplit\<close> raises.
\<close>

section \<open>Requests and state\<close>

record policy_request = request +
  pr_gitlab_token :: string
  pr_forwarded_for :: string
  pr_client_host :: "string option"

record secrets =
  se_policy_secret :: string
  se_webhook_secret :: string

datatype raw_endpoint = EndpointText string | EndpointFalse | EndpointOther

datatype policy_section = IllTyped raw_endpoint | Section policy

datatype intake_member = NoGitlab | GitlabSection policy_section | GitlabNotDict

text \<open>An object: its member \<open>gitlab\<close> if that is an object, its member \<open>intake\<close> if that is an object,
  and the object itself read as a section.\<close>

record json_object =
  jo_gitlab :: "policy_section option"
  jo_intake :: "intake_member option"
  jo_self :: policy_section

text \<open>\<open>json.loads\<close> raises \<open>JSONDecodeError\<close> (\<open>BadJson\<close>) or another error (\<open>ParseCrash\<close>), as
  \<open>UnicodeDecodeError\<close> on bytes that are no text.\<close>

datatype payload = BadJson | ParseCrash | NotObject | JsonObject json_object

record audit_entry =
  au_decision :: string
  au_source_ip :: string
  au_credential :: string
  au_scopes :: "nat option"
  au_enabled :: "bool option"

record policy_surface =
  ps_intake :: intake
  ps_stored :: "policy option"
  ps_audit :: "audit_entry list"

datatype write_refusal =
  RateLimited
| Unauthorised
| InvalidJson
| BodyNotObject
| IllTypedPolicy
| InvalidPolicy policy_error
| WriteCrash

section \<open>Who writes\<close>

definition client_ip :: "policy_request \<Rightarrow> string" where
  "client_ip r =
     (if pr_forwarded_for r \<noteq> [] then strip (hd (split_on CHR '','' (pr_forwarded_for r)))
      else case pr_client_host r of
             None \<Rightarrow> ''unknown''
           | Some host \<Rightarrow> if host = [] then ''unknown'' else host)"

definition peer_signed_ok ::
  "(string \<Rightarrow> string) \<Rightarrow> (string \<Rightarrow> string \<Rightarrow> string) \<Rightarrow> int \<Rightarrow> peer_auth \<Rightarrow> policy_request \<Rightarrow> bool" where
  "peer_signed_ok sha256 hmac now pa r =
     (if \<not> is_configured pa then False
      else verify_request sha256 hmac now pa (rq_method r) (signed_path r) (rq_body r) (rq_peer r))"

definition policy_token_matches :: "secrets \<Rightarrow> policy_request \<Rightarrow> bool" where
  "policy_token_matches sec r =
     (if se_policy_secret sec = [] then False
      else if pr_gitlab_token r = [] then False
      else pr_gitlab_token r = se_policy_secret sec)"

definition policy_write_auth_configured :: "secrets \<Rightarrow> peer_auth \<Rightarrow> bool" where
  "policy_write_auth_configured sec pa \<longleftrightarrow>
     se_policy_secret sec \<noteq> [] \<or> se_webhook_secret sec \<noteq> [] \<or> is_configured pa"

definition audit_policy_write ::
  "string \<Rightarrow> string \<Rightarrow> string \<Rightarrow> nat option \<Rightarrow> bool option \<Rightarrow> policy_surface \<Rightarrow> policy_surface" where
  "audit_policy_write ip decision credential scopes enabled ps =
     ps\<lparr>ps_audit := ps_audit ps @
        [\<lparr>au_decision = decision, au_source_ip = (if ip = [] then ''unknown'' else ip), au_credential = credential,
          au_scopes = scopes, au_enabled = enabled\<rparr>]\<rparr>"

section \<open>What is written\<close>

text \<open>The section of a body; \<open>None\<close> is the exception on a member \<open>gitlab\<close> that is not an object.\<close>

definition gitlab_section :: "json_object \<Rightarrow> policy_section option" where
  "gitlab_section obj =
     (case jo_gitlab obj of
        Some sct \<Rightarrow> Some sct
      | None \<Rightarrow> (case jo_intake obj of
                   Some NoGitlab \<Rightarrow> Some (Section default_policy)
                 | Some (GitlabSection sct) \<Rightarrow> Some sct
                 | Some GitlabNotDict \<Rightarrow> None
                 | None \<Rightarrow> Some (jo_self obj)))"

definition strip_file_only :: "policy \<Rightarrow> policy" where
  "strip_file_only p = p\<lparr>po_allowed_endpoints := []\<rparr>"

text \<open>The strict test of the endpoint, which \<open>validate_policy_write\<close> makes first.\<close>

definition endpoint_refusal :: "(string \<Rightarrow> url_parts option) \<Rightarrow> env \<Rightarrow> string \<Rightarrow> policy_error option" where
  "endpoint_refusal urlsplit env endpoint =
     (if endpoint = [] then None
      else case endpoint_host urlsplit endpoint of
             Inl e \<Rightarrow> Some e
           | Inr host \<Rightarrow> (case allowed_endpoint_hosts urlsplit env [] of
                            Inl e \<Rightarrow> Some e
                          | Inr allowed \<Rightarrow> if host \<notin> set allowed then Some EndpointRefused else None))"

lemma validate_policy_write_strict:
  "validate_policy_write urlsplit env raw =
     (case endpoint_refusal urlsplit env (po_endpoint raw) of
        Some e \<Rightarrow> Inl e | None \<Rightarrow> model_validate urlsplit env raw)"
  by (simp add: validate_policy_write_def endpoint_refusal_def split: sum.split)

definition validate_section ::
  "(string \<Rightarrow> url_parts option) \<Rightarrow> env \<Rightarrow> policy_section \<Rightarrow> write_refusal + policy" where
  "validate_section urlsplit env sct =
     (case sct of
        Section raw \<Rightarrow> (case validate_policy_write urlsplit env (strip_file_only raw) of
                          Inl e \<Rightarrow> Inl (InvalidPolicy e) | Inr p \<Rightarrow> Inr p)
      | IllTyped (EndpointText endpoint) \<Rightarrow>
          (case endpoint_refusal urlsplit env endpoint of
             Some e \<Rightarrow> Inl (InvalidPolicy e) | None \<Rightarrow> Inl IllTypedPolicy)
      | IllTyped EndpointFalse \<Rightarrow> Inl IllTypedPolicy
      | IllTyped EndpointOther \<Rightarrow> Inl WriteCrash)"

definition put_policy ::
  "(string \<Rightarrow> payload) \<Rightarrow> (string \<Rightarrow> url_parts option) \<Rightarrow> (string \<Rightarrow> string) \<Rightarrow> (string \<Rightarrow> string \<Rightarrow> string) \<Rightarrow>
   int \<Rightarrow> rat \<Rightarrow> env \<Rightarrow> secrets \<Rightarrow> peer_auth \<Rightarrow> policy_request \<Rightarrow> policy_surface \<Rightarrow>
   (write_refusal + nat) \<times> policy_surface" where
  "put_policy parse_json urlsplit sha256 hmac now tick env sec pa r ps =
     (let ip = client_ip r;
          (limited, it1) = policy_write_rate_limited ip tick (ps_intake ps);
          ps1 = ps\<lparr>ps_intake := it1\<rparr>
      in if limited then (Inl RateLimited, audit_policy_write ip ''deny'' ''rate-limited'' None None ps1)
         else
           let signed = peer_signed_ok sha256 hmac now pa r;
               credential = (if signed then ''peer-hmac''
                             else if policy_token_matches sec r then ''policy-token'' else ''none'')
           in if \<not> signed \<and> credential \<noteq> ''policy-token'' \<and> policy_write_auth_configured sec pa
              then (Inl Unauthorised, audit_policy_write ip ''deny'' ''none'' None None ps1)
              else
                let ps2 = (if \<not> signed \<and> credential \<noteq> ''policy-token''
                           then audit_policy_write ip ''allow'' ''none'' None None ps1 else ps1);
                    deny = (\<lambda>e. (Inl e, audit_policy_write ip ''deny'' credential None None ps2))
                in case (if rq_body r = [] then NotObject else parse_json (rq_body r)) of
                     BadJson \<Rightarrow> deny InvalidJson
                   | ParseCrash \<Rightarrow> (Inl WriteCrash, ps2)
                   | NotObject \<Rightarrow> deny BodyNotObject
                   | JsonObject obj \<Rightarrow>
                       (case gitlab_section obj of
                          None \<Rightarrow> (Inl WriteCrash, ps2)
                        | Some sct \<Rightarrow>
                            (case validate_section urlsplit env sct of
                               Inl e \<Rightarrow> if e = WriteCrash then (Inl WriteCrash, ps2) else deny e
                             | Inr p \<Rightarrow>
                                 (Inr (length (po_scopes p)),
                                  audit_policy_write ip ''allow'' credential (Some (length (po_scopes p))) (po_enabled p)
                                    (ps2\<lparr>ps_stored := Some (strip_file_only p)\<rparr>)))))"

section \<open>The rate limiter\<close>

text \<open>A sequence of attempts, each with its address and the reading of the monotonic clock.\<close>

fun attempts :: "(string \<times> rat) list \<Rightarrow> intake \<Rightarrow> (string \<times> rat \<times> bool) list \<times> intake" where
  "attempts [] it = ([], it)"
| "attempts ((ip, now) # as) it =
     (let (limited, it1) = policy_write_rate_limited ip now it; (rest, it2) = attempts as it1
      in ((ip, now, limited) # rest, it2))"

abbreviation times_of :: "string \<Rightarrow> (string \<times> rat) list \<Rightarrow> rat list" where
  "times_of ip as \<equiv> map snd (filter (\<lambda>a. fst a = ip) as)"

text \<open>What the limiter keeps of an address: the attempts of the window that ended with its last one.\<close>

definition tracks :: "(string \<times> rat) list \<Rightarrow> intake \<Rightarrow> bool" where
  "tracks past it \<longleftrightarrow>
     (\<forall>ip. \<exists>l. (\<forall>t \<in> set (times_of ip past). t \<le> l) \<and> (l \<in> snd ` set past \<or> times_of ip past = []) \<and>
        dict_get_or (it_attempts it) ip [] = filter (\<lambda>t. l - t \<le> RATE_LIMIT_WINDOW) (times_of ip past))"

lemma sorted_dropWhile_old:
  "sorted xs \<Longrightarrow> dropWhile (\<lambda>t. w < now - t) xs = filter (\<lambda>t. now - t \<le> (w :: rat)) xs"
proof (induction xs)
  case (Cons x xs)
  show ?case
  proof (cases "w < now - x")
    case False
    then have "\<forall>y \<in> set (x # xs). now - y \<le> w" using Cons.prems by (auto simp: not_less intro: order_trans)
    then have "filter (\<lambda>t. now - t \<le> w) (x # xs) = x # xs" by (simp only: filter_id_conv)
    with False show ?thesis by simp
  qed (use Cons in simp)
qed simp

lemma sorted_times: "sorted (map snd past) \<Longrightarrow> sorted (times_of ip past)"
  by (simp add: sorted_filter)

lemma limiter_step:
  assumes tr: "tracks past it" and srt: "sorted (map snd past)" "\<forall>t \<in> snd ` set past. t \<le> now"
    and step: "policy_write_rate_limited ip now it = (limited, it1)"
  shows "limited \<longleftrightarrow> RATE_LIMIT_COUNT < length (filter (\<lambda>t. now - t \<le> RATE_LIMIT_WINDOW) (times_of ip (past @ [(ip, now)])))"
    "tracks (past @ [(ip, now)]) it1"
proof -
  let ?w = RATE_LIMIT_WINDOW
  from tr obtain l where l: "l \<in> snd ` set past \<or> times_of ip past = []"
    "dict_get_or (it_attempts it) ip [] = filter (\<lambda>t. l - t \<le> ?w) (times_of ip past)" unfolding tracks_def by blast
  have "dropWhile (\<lambda>t. ?w < now - t) (dict_get_or (it_attempts it) ip []) =
      filter (\<lambda>t. now - t \<le> ?w) (filter (\<lambda>t. l - t \<le> ?w) (times_of ip past))"
    unfolding l(2) by (rule sorted_dropWhile_old) (rule sorted_wrt_filter [OF sorted_times [OF srt(1)]])
  also have "\<dots> = filter (\<lambda>t. now - t \<le> ?w) (times_of ip past)"
  proof (cases "times_of ip past = []")
    case False
    with l(1) srt(2) have "l \<le> now" by blast
    then have "(l - t \<le> ?w \<and> now - t \<le> ?w) = (now - t \<le> ?w)" for t by linarith
    then show ?thesis by (simp only: filter_filter)
  qed (simp only: filter.simps)
  finally have dq: "dropWhile (\<lambda>t. ?w < now - t) (dict_get_or (it_attempts it) ip []) @ [now] =
      filter (\<lambda>t. now - t \<le> ?w) (times_of ip (past @ [(ip, now)]))" by (simp add: RATE_LIMIT_WINDOW_def)
  then show "limited \<longleftrightarrow> RATE_LIMIT_COUNT < length (filter (\<lambda>t. now - t \<le> ?w) (times_of ip (past @ [(ip, now)])))"
    using step by (auto simp: policy_write_rate_limited_def Let_def)
  have it1: "it_attempts it1 = dict_set ip (filter (\<lambda>t. now - t \<le> ?w) (times_of ip (past @ [(ip, now)]))) (it_attempts it)"
    using step unfolding policy_write_rate_limited_def Let_def dq by auto
  show "tracks (past @ [(ip, now)]) it1" unfolding tracks_def
  proof
    fix ip'
    show "\<exists>l. (\<forall>t \<in> set (times_of ip' (past @ [(ip, now)])). t \<le> l) \<and>
        (l \<in> snd ` set (past @ [(ip, now)]) \<or> times_of ip' (past @ [(ip, now)]) = []) \<and>
        dict_get_or (it_attempts it1) ip' [] = filter (\<lambda>t. l - t \<le> ?w) (times_of ip' (past @ [(ip, now)]))"
    proof (cases "ip' = ip")
      case True
      then show ?thesis using srt(2) by (intro exI [of _ now]) (auto simp: it1 dict_get_or_def)
    next
      case False
      with tr [unfolded tracks_def, rule_format, of ip'] show ?thesis by (auto simp: it1 dict_get_or_def)
    qed
  qed
qed

text \<open>An attempt is refused exactly when it is past the count within the window that ends with it.\<close>

lemma attempts_exact:
  assumes "tracks past it" "sorted (map snd (past @ as))" "i < length as"
  shows "fst (attempts as it) ! i = (fst (as ! i), snd (as ! i),
     RATE_LIMIT_COUNT < length (filter (\<lambda>t. snd (as ! i) - t \<le> RATE_LIMIT_WINDOW) (times_of (fst (as ! i)) (past @ take (Suc i) as))))"
  using assms
proof (induction as arbitrary: past it i)
  case (Cons a as)
  obtain ip now where a: "a = (ip, now)" by (cases a)
  obtain limited it1 where st: "policy_write_rate_limited ip now it = (limited, it1)" by (cases "policy_write_rate_limited ip now it")
  have "sorted (map snd past)" "\<forall>t \<in> snd ` set past. t \<le> now" using Cons.prems(2) by (auto simp: a sorted_append)
  note step = limiter_step [OF Cons.prems(1) this st]
  show ?case
  proof (cases i)
    case 0
    then show ?thesis using step(1) by (simp add: a st split_beta)
  next
    case (Suc j)
    from Cons.IH [OF step(2), of j] Cons.prems(2,3) Suc show ?thesis by (simp add: a st split_beta)
  qed
qed simp

lemma attempts_length [simp]: "length (fst (attempts as it)) = length as"
  by (induction as arbitrary: it) (auto simp: split_beta Let_def)

end
