(* ===== verification/AuthProps.thy ===== *)
theory AuthProps
  imports PolicyWrite
begin

text \<open>
  Properties of the peer signatures, of the middleware that asks for them, and of the endpoint that
  writes the intake policy.
\<close>

section \<open>Definitions\<close>

definition demo_sender :: peer_auth where
  "demo_sender = \<lparr>pa_local_node_id = ''a'', pa_local_token = ''k'', pa_peer_tokens = [], pa_replay_window = 60\<rparr>"

definition demo_receiver :: peer_auth where
  "demo_receiver = \<lparr>pa_local_node_id = ''b'', pa_local_token = ''j'', pa_peer_tokens = [(''a'', ''k'')], pa_replay_window = 60\<rparr>"

abbreviation plain_digest :: "string \<Rightarrow> string" where
  "plain_digest \<equiv> map (\<lambda>c. if c = CHR '':'' then CHR ''.'' else c)"

abbreviation plain_mac :: "string \<Rightarrow> string \<Rightarrow> string" where
  "plain_mac \<equiv> (\<lambda>k m. m @ ''x'')"

text \<open>A surface on which nothing has happened yet, a fresh node without credentials, and one with a
  policy secret; a URL reader that knows one host.\<close>

definition demo_surface :: policy_surface where
  "demo_surface =
     \<lparr>ps_intake = \<lparr>it_store = init_state 0 (\<lambda>i. replicate i CHR ''0''), it_dedup = [], it_attempts = [], it_last_poll = None,
        it_last_poll_ok = False, it_issues_seen = 0, it_tasks_created = 0, it_last_errors = [], it_error_history = [],
        it_error_counts = [], it_seen_keys = []\<rparr>, ps_stored = None, ps_audit = []\<rparr>"

definition demo_urlsplit :: "string \<Rightarrow> url_parts option" where
  "demo_urlsplit v =
     (if v = DEFAULT_GITLAB_ENDPOINT
      then Some \<lparr>up_scheme = ''https'', up_netloc = ''gitlab.bdaya-dev.com'', up_hostname = Some ''gitlab.bdaya-dev.com'', up_port = Some None\<rparr>
      else None)"

definition demo_env :: env where
  "demo_env = \<lparr>env_endpoint = [], env_allowed = None\<rparr>"



text \<open>GitLab with one issue of the legacy project, and the settings at start-up.\<close>

definition one_issue_gitlab :: gitlab where
  "one_issue_gitlab =
     \<lparr>gl_issues = \<lambda>_ _ _. Inr [\<lparr>is_iid = 7, is_title = ''t'', is_description = [], is_labels = [], is_created_at = None,
        is_full_ref = [], is_author_id = None, is_intake_band = None\<rparr>],
      gl_merge_requests = \<lambda>_ _. Some [], gl_links = \<lambda>_ _. Some []\<rparr>"

definition demo_boot :: boot where
  "demo_boot = \<lparr>bo_endpoint = DEFAULT_GITLAB_ENDPOINT, bo_project = ''5'', bo_label = [], bo_interval = 30, bo_requires = [''tooling'']\<rparr>"

text \<open>A reader that also knows a foreign host, and a stored section that lists that host itself.\<close>

definition foreign_urlsplit :: "string \<Rightarrow> url_parts option" where
  "foreign_urlsplit v =
     (if v = ''https://evil.example''
      then Some \<lparr>up_scheme = ''https'', up_netloc = ''evil.example'', up_hostname = Some ''evil.example'', up_port = Some None\<rparr>
      else demo_urlsplit v)"

definition foreign_row :: policy where
  "foreign_row = default_policy\<lparr>po_endpoint := ''https://evil.example'', po_allowed_endpoints := [''evil.example'']\<rparr>"

text \<open>Where an endpoint may point.\<close>

definition endpoint_allowed :: "(string \<Rightarrow> url_parts option) \<Rightarrow> env \<Rightarrow> string \<Rightarrow> string \<Rightarrow> bool" where
  "endpoint_allowed urlsplit env boot_default endpoint \<longleftrightarrow>
     (\<exists>host allowed. endpoint_host urlsplit endpoint = Inr host \<and> host \<noteq> [] \<and>
        allowed_endpoint_hosts urlsplit env boot_default = Inr allowed \<and> host \<in> set allowed)"

section \<open>Signatures\<close>

text \<open>C27: A request signed by a known peer is accepted by the receiver for exactly as long as its
  timestamp is within the replay window, as often as it is presented.\<close>

theorem signed_request_accepted:
  assumes "sign_request sha256 hmac t a method path body timestamp = Some h"
    and "dict_get (pa_peer_tokens b) (pa_local_node_id a) = Some (pa_local_token a)" "\<forall>k m. hmac k m \<noteq> []"
  shows "\<exists>ts. py_int (ph_timestamp h) = Some ts \<and> ts = (case timestamp of None \<Rightarrow> t | Some u \<Rightarrow> if u = 0 then t else u) \<and>
    (\<forall>now. verify_request sha256 hmac now b method path body h \<longleftrightarrow> \<bar>now - ts\<bar> \<le> pa_replay_window b)"
proof -
  define ts where "ts = (case timestamp of None \<Rightarrow> t | Some u \<Rightarrow> if u = 0 then t else u)"
  have conf: "is_configured a" using assms(1) by (auto simp: sign_request_def split: if_splits)
  then have h: "h = \<lparr>ph_node = pa_local_node_id a, ph_timestamp = show_int ts,
      ph_signature = hmac (pa_local_token a) (peer_message sha256 (pa_local_node_id a) ts method path body)\<rparr>"
    using assms(1) by (simp add: sign_request_def Let_def ts_def)
  have "verify_request sha256 hmac now b method path body h \<longleftrightarrow> \<bar>now - ts\<bar> \<le> pa_replay_window b" for now
    using conf assms(2,3) by (auto simp: verify_request_def h py_int_show is_configured_def)
  then show ?thesis using h py_int_show by (intro exI [of _ ts]) (simp add: ts_def)
qed

theorem signed_request_accepted_witness:
  "\<exists>h. sign_request plain_digest plain_mac 1000 demo_sender ''POST'' ''/api/v1/sync'' ''{}'' None = Some h \<and>
    verify_request plain_digest plain_mac 1060 demo_receiver ''POST'' ''/api/v1/sync'' ''{}'' h \<and>
    \<not> verify_request plain_digest plain_mac 1061 demo_receiver ''POST'' ''/api/v1/sync'' ''{}'' h"
proof -
  obtain h where h: "sign_request plain_digest plain_mac 1000 demo_sender ''POST'' ''/api/v1/sync'' ''{}'' None = Some h"
    by (simp add: sign_request_def demo_sender_def is_configured_def)
  have "\<exists>ts. py_int (ph_timestamp h) = Some ts \<and> ts = (case None of None \<Rightarrow> 1000 | Some u \<Rightarrow> if u = 0 then 1000 else u) \<and>
    (\<forall>now. verify_request plain_digest plain_mac now demo_receiver ''POST'' ''/api/v1/sync'' ''{}'' h \<longleftrightarrow>
       \<bar>now - ts\<bar> \<le> pa_replay_window demo_receiver)"
    by (rule signed_request_accepted [OF h]) (simp_all add: demo_receiver_def demo_sender_def)
  with h show ?thesis by (auto simp: demo_receiver_def)
qed

text \<open>C13: A signature is good for one request. When a receiver takes a request that carries the
  signature of a signed one, whatever its other headers are, then either it has the node, timestamp,
  method, path with query and body digest the signature was made for, or the two signed texts are a
  collision of the HMAC: different, with the same digest under the keys of sender and receiver. The
  fields of a text are joined by colons without quoting, so node names and methods are taken to have no
  colon; digests are hexadecimal.\<close>

theorem signature_binds_request:
  assumes "sign_request sha256 hmac t a method path body timestamp = Some h"
    and "verify_request sha256 hmac now b method' path' body' h'" "ph_signature h' = ph_signature h"
    and "\<forall>x. CHR '':'' \<notin> set (sha256 x)" "CHR '':'' \<notin> set (pa_local_node_id a)" "CHR '':'' \<notin> set (ph_node h')"
    and "CHR '':'' \<notin> set method" "CHR '':'' \<notin> set method'"
  shows "\<exists>ts ts' key.
    py_int (ph_timestamp h) = Some ts \<and> py_int (ph_timestamp h') = Some ts' \<and> \<bar>now - ts'\<bar> \<le> pa_replay_window b \<and>
    dict_get (pa_peer_tokens b) (ph_node h') = Some key \<and>
    (ph_node h' = pa_local_node_id a \<and> ts' = ts \<and> method' = method \<and> path' = path \<and> sha256 body' = sha256 body \<or>
     peer_message sha256 (ph_node h') ts' method' path' body' \<noteq> peer_message sha256 (pa_local_node_id a) ts method path body \<and>
     hmac key (peer_message sha256 (ph_node h') ts' method' path' body') =
       hmac (pa_local_token a) (peer_message sha256 (pa_local_node_id a) ts method path body))"
proof -
  define ts where "ts = (case timestamp of None \<Rightarrow> t | Some u \<Rightarrow> if u = 0 then t else u)"
  have h: "h = \<lparr>ph_node = pa_local_node_id a, ph_timestamp = show_int ts,
      ph_signature = hmac (pa_local_token a) (peer_message sha256 (pa_local_node_id a) ts method path body)\<rparr>"
    using assms(1) by (auto simp: sign_request_def Let_def ts_def split: if_splits)
  from assms(2) obtain key ts' where v: "py_int (ph_timestamp h') = Some ts'" "\<bar>now - ts'\<bar> \<le> pa_replay_window b"
    "hmac key (peer_message sha256 (ph_node h') ts' method' path' body') = ph_signature h'"
    "dict_get (pa_peer_tokens b) (ph_node h') = Some key"
    by (auto simp: verify_request_def split: if_splits option.splits)
  have same: "ph_node h' = pa_local_node_id a \<and> ts' = ts \<and> method' = method \<and> path' = path \<and> sha256 body' = sha256 body"
    if "peer_message sha256 (ph_node h') ts' method' path' body' = peer_message sha256 (pa_local_node_id a) ts method path body"
    using peer_message_inj [OF that assms(6,5,8,7)] assms(4) by blast
  have "py_int (ph_timestamp h) = Some ts" by (simp add: h py_int_show)
  moreover have "hmac key (peer_message sha256 (ph_node h') ts' method' path' body') =
      hmac (pa_local_token a) (peer_message sha256 (pa_local_node_id a) ts method path body)"
    using v(3) assms(3) by (simp add: h)
  ultimately show ?thesis using v(1,2,4) same by blast
qed

theorem signature_binds_request_witness:
  "\<exists>h. sign_request plain_digest plain_mac 1000 demo_sender ''POST'' ''/api/v1/sync'' ''{}'' None = Some h \<and>
    (\<forall>path'. verify_request plain_digest plain_mac 1010 demo_receiver ''POST'' path' ''{}'' h \<longrightarrow> path' = ''/api/v1/sync'')"
proof -
  obtain h where h: "sign_request plain_digest plain_mac 1000 demo_sender ''POST'' ''/api/v1/sync'' ''{}'' None = Some h"
    by (simp add: sign_request_def demo_sender_def is_configured_def)
  then have n: "ph_node h = ''a''" by (auto simp: sign_request_def demo_sender_def is_configured_def)
  have "path' = ''/api/v1/sync''" if "verify_request plain_digest plain_mac 1010 demo_receiver ''POST'' path' ''{}'' h" for path'
    using signature_binds_request [OF h that refl] by (auto simp: n demo_sender_def image_iff)
  with h show ?thesis by blast
qed

text \<open>With authentication on, a request that is not public reaches its handler only if it names a
  peer with a token, is fresh, and carries the digest of this very request under that token; without
  known peers nothing but the public paths is reachable.\<close>

theorem dispatch_gate:
  assumes "dispatch sha256 hmac now True own module_state r" "\<not> is_public (rq_path r)"
  shows "\<exists>token ts. let pa = (case own of None \<Rightarrow> module_state | Some s \<Rightarrow> s) in
    dict_get (pa_peer_tokens pa) (ph_node (rq_peer r)) = Some token \<and> token \<noteq> [] \<and>
    py_int (ph_timestamp (rq_peer r)) = Some ts \<and> \<bar>now - ts\<bar> \<le> pa_replay_window pa \<and>
    ph_signature (rq_peer r) = hmac token (peer_message sha256 (ph_node (rq_peer r)) ts (rq_method r) (signed_path r) (rq_body r))"
  using assms by (auto simp: dispatch_def verify_request_def Let_def split: if_splits option.splits)

theorem dispatch_gate_witness:
  "\<exists>r :: request. dispatch plain_digest plain_mac 1000 True (Some demo_receiver) demo_sender r \<and>
     (\<exists>token. dict_get (pa_peer_tokens demo_receiver) (ph_node (rq_peer r)) = Some token)"
proof -
  obtain h where h: "sign_request plain_digest plain_mac 1000 demo_sender ''POST'' ''/x'' [] None = Some h"
    by (simp add: sign_request_def demo_sender_def is_configured_def)
  let ?r = "\<lparr>rq_method = ''POST'', rq_path = ''/x'', rq_query = [], rq_body = [], rq_peer = h\<rparr>"
  have np: "\<not> is_public (rq_path ?r)" by code_simp
  have "verify_request plain_digest plain_mac 1000 demo_receiver ''POST'' ''/x'' [] h"
    using h by (auto simp: sign_request_def demo_sender_def demo_receiver_def is_configured_def verify_request_def py_int_show)
  then have d: "dispatch plain_digest plain_mac 1000 True (Some demo_receiver) demo_sender ?r"
    by (simp add: dispatch_def signed_path_def)
  from dispatch_gate [OF d np] d show ?thesis by (auto simp: Let_def)
qed

section \<open>Policies\<close>

lemma add_hosts_nonempty: "add_hosts urlsplit parts hosts = Inr allowed \<Longrightarrow> [] \<notin> set hosts \<Longrightarrow> [] \<notin> set allowed"
  by (induction parts arbitrary: hosts) (auto simp: Let_def split: if_splits sum.splits)

lemma allowed_hosts_nonempty: "allowed_endpoint_hosts urlsplit env d = Inr allowed \<Longrightarrow> [] \<notin> set allowed"
  unfolding allowed_endpoint_hosts_def Let_def using add_hosts_nonempty [where hosts = "[]"] by fastforce









text \<open>An operator who sends an endpoint that is a number gets a server error, and the audit trail
  says nothing of the attempt.\<close>

theorem put_policy_unaudited:
  assumes "parse_json (rq_body r) = JsonObject obj" "rq_body r \<noteq> []" "gitlab_section obj = Some (IllTyped EndpointOther)"
    and "policy_token_matches sec r" "policy_write_rate_limited (client_ip r) tick (ps_intake ps) = (False, it)"
  shows "\<exists>ps'. put_policy parse_json urlsplit sha256 hmac now tick env sec pa r ps = (Inl WriteCrash, ps') \<and>
    ps_audit ps' = ps_audit ps \<and> ps_stored ps' = ps_stored ps"
  using assms by (simp add: put_policy_def validate_section_def Let_def)

text \<open>C28: The limiter of policy writes, over every sequence of attempts with a monotonic clock: an
  attempt is refused exactly when its address has made more than 20 in the 60 seconds up to it, so no
  address gets more than 20 writes through in any 60 seconds.\<close>

theorem write_rate_bounded:
  assumes "sorted (map snd as)" "it_attempts it = []"
  shows "(\<forall>i < length as. fst (attempts as it) ! i = (fst (as ! i), snd (as ! i),
       20 < length (filter (\<lambda>t. snd (as ! i) - t \<le> 60) (times_of (fst (as ! i)) (take (Suc i) as))))) \<and>
    length (filter (\<lambda>(a, t, limited). a = ip \<and> \<not> limited \<and> T - 60 \<le> t \<and> t \<le> T) (fst (attempts as it))) \<le> 20"
proof -
  have "tracks [] it" using assms(2) by (simp add: tracks_def dict_get_or_def)
  from attempts_exact [OF this] assms(1)
  have exact: "\<forall>i < length as. fst (attempts as it) ! i = (fst (as ! i), snd (as ! i),
       20 < length (filter (\<lambda>t. snd (as ! i) - t \<le> 60) (times_of (fst (as ! i)) (take (Suc i) as))))"
    by (simp add: RATE_LIMIT_COUNT_def RATE_LIMIT_WINDOW_def)
  define ok where "ok = (\<lambda>(a, t, limited). a = ip \<and> \<not> limited \<and> T - 60 \<le> t \<and> t \<le> (T :: rat))"
  let ?out = "fst (attempts as it)"
  define I where "I = {i. i < length as \<and> ok (?out ! i)}"
  have card: "length (filter ok ?out) = card I" by (simp add: I_def length_filter_conv_card)
  have "card I \<le> 20"
  proof (cases "I = {}")
    case False
    have fin: "finite I" by (simp add: I_def)
    define m where "m = Max I"
    have m: "m \<in> I" "\<And>i. i \<in> I \<Longrightarrow> i \<le> m" using False fin by (auto simp: m_def)
    let ?a = "take (Suc m) as"
    have now: "fst (as ! m) = ip" "T - 60 \<le> snd (as ! m)" "snd (as ! m) \<le> T"
      and lim: "length (filter (\<lambda>t. snd (as ! m) - t \<le> 60) (times_of ip ?a)) \<le> 20"
      using m(1) exact by (auto simp: I_def ok_def)
    have "I \<subseteq> {i. i < length ?a \<and> fst (?a ! i) = ip \<and> snd (as ! m) - snd (?a ! i) \<le> 60}"
    proof
      fix i
      assume i: "i \<in> I"
      then have "fst (as ! i) = ip" "T - 60 \<le> snd (as ! i)" using exact by (auto simp: I_def ok_def)
      with i m(2) [OF i] m(1) now(3) show "i \<in> {i. i < length ?a \<and> fst (?a ! i) = ip \<and> snd (as ! m) - snd (?a ! i) \<le> 60}"
        by (auto simp: I_def)
    qed
    then have "card I \<le> card {i. i < length ?a \<and> fst (?a ! i) = ip \<and> snd (as ! m) - snd (?a ! i) \<le> 60}" by (intro card_mono) simp_all
    also have "\<dots> = length (filter (\<lambda>x. fst x = ip \<and> snd (as ! m) - snd x \<le> 60) ?a)" by (simp only: length_filter_conv_card)
    also have "\<dots> = length (filter (\<lambda>t. snd (as ! m) - t \<le> 60) (times_of ip ?a))"
      by (simp add: filter_map filter_filter comp_def conj_commute)
    finally show ?thesis using lim by linarith
  qed simp
  with card exact show ?thesis by (simp add: ok_def)
qed

theorem write_rate_bounded_witness:
  "length (filter (\<lambda>(a, t, limited). a = ''x'' \<and> \<not> limited \<and> 40 - 60 \<le> t \<and> t \<le> 40)
     (fst (attempts (map (\<lambda>i. (''x'', rat_of_nat i)) [0..<40]) (ps_intake demo_surface)))) \<le> 20"
proof -
  have "sorted (map snd (map (\<lambda>i. (''x'', rat_of_nat i)) [0..<40]))"
    unfolding map_map comp_def snd_conv by (rule sorted_map_mono) (auto simp: mono_on_def)
  moreover have "it_attempts (ps_intake demo_surface) = []" by (simp add: demo_surface_def)
  ultimately show ?thesis using write_rate_bounded [where ip = "''x''" and T = 40] by blast
qed

text \<open>A poll creates tasks only when the policy loads, is not switched off, and its endpoint is on
  the list of allowed hosts; otherwise the store is as it was.\<close>

theorem poll_needs_allowed_endpoint:
  assumes "poll_once fromiso urlsplit now gl bo stored env it = Inr (created, interval, env', it')"
    and "it_store it' \<noteq> it_store it \<or> created \<noteq> []"
  shows "\<exists>po. load_policy urlsplit env (bo_endpoint bo) (bo_interval bo) stored = (Inr po, env') \<and> po_enabled po \<noteq> Some False \<and>
    endpoint_allowed urlsplit env' (bo_endpoint bo) (if po_endpoint po = [] then bo_endpoint bo else po_endpoint po)"
proof -
  obtain loaded env1 where l: "load_policy urlsplit env (bo_endpoint bo) (bo_interval bo) stored = (loaded, env1)"
    by (cases "load_policy urlsplit env (bo_endpoint bo) (bo_interval bo) stored")
  from assms(1) l obtain po where po: "loaded = Inr po" by (cases loaded) (auto simp: poll_once_def)
  note run = assms(1) [unfolded poll_once_def l Let_def prod.case po sum.case]
  have on: "po_enabled po \<noteq> Some False" using run assms(2) by (auto simp: finish_poll_def)
  let ?e = "if po_endpoint po = [] then bo_endpoint bo else po_endpoint po"
  from run on obtain host allowed where h: "endpoint_host urlsplit ?e = Inr host"
    "allowed_endpoint_hosts urlsplit env1 (bo_endpoint bo) = Inr allowed" by (auto split: sum.splits)
  have "env' = env1" using run on h by (auto split: if_splits prod.splits)
  moreover have "host \<in> set allowed"
    using run on h assms(2) by (auto simp: finish_poll_def alarm_history_def split: if_splits)
  moreover have "host \<noteq> []" using \<open>host \<in> set allowed\<close> allowed_hosts_nonempty [OF h(2)] by auto
  ultimately show ?thesis using l po on h by (auto simp: endpoint_allowed_def)
qed

theorem poll_needs_allowed_endpoint_witness:
  "endpoint_allowed demo_urlsplit demo_env DEFAULT_GITLAB_ENDPOINT DEFAULT_GITLAB_ENDPOINT"
proof -
  let ?run = "poll_once (\<lambda>_. None) demo_urlsplit 5 one_issue_gitlab demo_boot None demo_env (ps_intake demo_surface)"
  have "(case ?run of Inr (created, interval, env', it') \<Rightarrow> length created = 1 \<and> env_endpoint env' = [] \<and> env_allowed env' = None | Inl _ \<Rightarrow> False)"
    by code_simp
  then obtain created interval env' it' where run: "?run = Inr (created, interval, env', it')" "length created = 1"
    "env_endpoint env' = []" "env_allowed env' = None" by (cases ?run) auto
  then have r: "?run = Inr (created, interval, env', it')" "created \<noteq> []" by auto
  have e: "env' = demo_env" using run(3,4) by (cases env') (simp add: demo_env_def)
  have bo: "bo_endpoint demo_boot = DEFAULT_GITLAB_ENDPOINT" by (simp add: demo_boot_def)
  have ld: "po_endpoint po = DEFAULT_GITLAB_ENDPOINT \<or> po_endpoint po = []"
    if "load_policy demo_urlsplit demo_env (bo_endpoint demo_boot) (bo_interval demo_boot) None = (Inr po, env'')" for po env''
    using that unfolding bo by (auto simp: load_policy_def sanitize_endpoint_def split: sum.splits if_splits)
  from poll_needs_allowed_endpoint [OF r(1)] r(2) obtain po where
    "load_policy demo_urlsplit demo_env (bo_endpoint demo_boot) (bo_interval demo_boot) None = (Inr po, env')"
    "endpoint_allowed demo_urlsplit env' (bo_endpoint demo_boot) (if po_endpoint po = [] then bo_endpoint demo_boot else po_endpoint po)"
    by blast
  with ld e bo show ?thesis by (auto split: if_splits)
qed

text \<open>A section written to the store by another route can widen the list of allowed hosts: with the
  environment variable unset, loading it puts its own list there, and the poller takes its endpoint.\<close>

theorem stored_row_widens_hosts:
  "case load_policy foreign_urlsplit demo_env DEFAULT_GITLAB_ENDPOINT 30 (Some foreign_row) of
     (loaded, env1) \<Rightarrow> (case loaded of Inl e \<Rightarrow> False | Inr po \<Rightarrow> po_endpoint po = ''https://evil.example'') \<and>
       (case allowed_endpoint_hosts foreign_urlsplit env1 DEFAULT_GITLAB_ENDPOINT of
          Inl e \<Rightarrow> False | Inr hosts \<Rightarrow> ''evil.example'' \<in> set hosts)"
  by code_simp

end
