(* ===== verification/SqlStore.thy ===== *)
theory SqlStore
  imports ClusterInv
begin

text \<open>
  The persistent store, class \<open>ClusterStore\<close> of \<^verbatim>\<open>hermes_cluster/state/cluster_store.py\<close>. A table
  with a primary key is a dictionary from the key to the row, in row-id order, which is the order
  a scan without \<open>ORDER BY\<close> returns rows in: \<open>INSERT\<close> appends, \<open>UPDATE\<close> keeps the position,
  \<open>INSERT OR REPLACE\<close> deletes the old row and appends a new one. A table with an
  autoincrement key is a list. Columns hold decoded values: a JSON text the list it encodes, an ISO
  text the time it encodes (its lexical order is the order of times). The status column of a task
  stays text, because synchronisation writes unchecked text there and reading it back as a
  \<open>TaskStatus\<close> raises. An operation returns its value or the exception, with the state after it: a
  transaction that raises is rolled back, the Python attributes of the object are not.
\<close>

section \<open>Rows and tables\<close>

record task_row =
  tr_id :: string
  tr_title :: string
  tr_requires :: "string list"
  tr_depends_on :: "string list"
  tr_priority :: int
  tr_status :: string
  tr_assigned_to :: "string option"
  tr_created_at :: time
  tr_updated_at :: time
  tr_version :: int
  tr_fail_reason :: "string option"
  tr_attempts :: int
  tr_result :: "string option"
  tr_description :: string
  tr_issues :: "string list"
  tr_ballot :: "ballot option"
  tr_cancel_requeue :: "bool option"
  tr_lane_key :: string
  tr_role :: string

record delivery_row =
  dr_id :: string
  dr_hook_id :: string
  dr_event_type :: string
  dr_payload :: string
  dr_status :: delivery_status
  dr_created_at :: time

record sql_store =
  q_nodes :: "(string, node) dict"
  q_tasks :: "(string, task_row) dict"
  q_lanes :: "(string, lane) dict"
  q_leases :: "(string, lease) dict"
  q_sync_log :: "sync_message list"
  q_recovery_events :: "(string, recovery_event) dict"
  q_decisions :: "scheduling_decision list"
  q_clusters :: "(string, remote_cluster) dict"
  q_hooks :: "(string, hook) dict"
  q_deliveries :: "(string, delivery_row) dict"
  q_config_row :: "(string, string) dict option"
  q_task_spawns :: "(string, spawn) dict"
  q_on_node_online :: bool
  q_on_capability_change :: bool
  q_lease_callback :: bool
  q_config :: "(string, string) dict option"
  q_config_path :: string
  q_started_at :: time
  q_cluster_id :: string
  q_node_id :: string
  q_node_role :: string
  q_max_decisions :: nat
  q_max_deliveries :: nat
  q_fair_scheduler :: fair
  q_cb_log :: "callback list"
  q_rng :: "nat \<Rightarrow> string"
  q_draws :: nat

datatype sql_error = ValueErr | IntegrityErr

type_synonym 'a sql_result = "(sql_error + 'a) \<times> sql_store"

definition sql_init :: "time \<Rightarrow> (nat \<Rightarrow> string) \<Rightarrow> sql_store" where
  "sql_init now rng =
     \<lparr>q_nodes = [], q_tasks = [], q_lanes = [], q_leases = [], q_sync_log = [],
      q_recovery_events = [], q_decisions = [], q_clusters = [], q_hooks = [], q_deliveries = [],
      q_config_row = None, q_task_spawns = [], q_on_node_online = False,
      q_on_capability_change = False, q_lease_callback = False, q_config = None,
      q_config_path = [], q_started_at = now, q_cluster_id = ''cluster_default'',
      q_node_id = ''node_main'', q_node_role = ''main'', q_max_decisions = 200,
      q_max_deliveries = 1000, q_fair_scheduler = init_fair, q_cb_log = [], q_rng = rng,
      q_draws = 0\<rparr>"

text \<open>The statements the methods are made of.\<close>

definition insert_or_ignore :: "'k \<Rightarrow> 'r \<Rightarrow> ('k, 'r) dict \<Rightarrow> ('k, 'r) dict" where
  "insert_or_ignore k r d = (if dict_get d k = None then d @ [(k, r)] else d)"

definition insert_or_replace :: "'k \<Rightarrow> 'r \<Rightarrow> ('k, 'r) dict \<Rightarrow> ('k, 'r) dict" where
  "insert_or_replace k r d = dict_del k d @ [(k, r)]"

text \<open>A plain \<open>INSERT\<close> raises on a key that is present.\<close>

definition insert_row :: "'k \<Rightarrow> 'r \<Rightarrow> ('k, 'r) dict \<Rightarrow> sql_error + ('k, 'r) dict" where
  "insert_row k r d = (if dict_get d k = None then Inr (d @ [(k, r)]) else Inl IntegrityErr)"

text \<open>\<open>UPDATE t SET f WHERE p\<close>, and the number of rows it changed.\<close>

definition update_where :: "('r \<Rightarrow> bool) \<Rightarrow> ('r \<Rightarrow> 'r) \<Rightarrow> ('k, 'r) dict \<Rightarrow> ('k, 'r) dict" where
  "update_where p f d = map (\<lambda>(k, r). (k, if p r then f r else r)) d"

definition row_count :: "('r \<Rightarrow> bool) \<Rightarrow> ('k, 'r) dict \<Rightarrow> nat" where
  "row_count p d = length (filter p (dict_values d))"

text \<open>\<open>UPDATE tasks SET f WHERE id = ? AND p\<close>; the value is \<open>rowcount > 0\<close>.\<close>

definition update_task ::
  "string \<Rightarrow> (task_row \<Rightarrow> bool) \<Rightarrow> (task_row \<Rightarrow> task_row) \<Rightarrow> sql_store \<Rightarrow> bool \<times> sql_store" where
  "update_task task_id p f q =
     (case dict_get (q_tasks q) task_id of
        None \<Rightarrow> (False, q)
      | Some r \<Rightarrow> if p r then (True, q\<lparr>q_tasks := dict_set task_id (f r) (q_tasks q)\<rparr>) else (False, q))"

definition update_node :: "string \<Rightarrow> (node \<Rightarrow> node) \<Rightarrow> sql_store \<Rightarrow> sql_store" where
  "update_node node_id f q =
     (case dict_get (q_nodes q) node_id of
        None \<Rightarrow> q
      | Some n \<Rightarrow> q\<lparr>q_nodes := dict_set node_id (f n) (q_nodes q)\<rparr>)"

text \<open>\<open>_tx\<close> on an exception: the tables go back, the attributes of the object stay.\<close>

definition rollback :: "sql_store \<Rightarrow> sql_store \<Rightarrow> sql_store" where
  "rollback before after =
     before\<lparr>q_fair_scheduler := q_fair_scheduler after, q_cb_log := q_cb_log after,
            q_draws := q_draws after, q_config := q_config after\<rparr>"

definition sql_generate_id :: "string \<Rightarrow> sql_store \<Rightarrow> string \<times> sql_store" where
  "sql_generate_id prefix q = (gen_id prefix (q_rng q) (q_draws q), q\<lparr>q_draws := Suc (q_draws q)\<rparr>)"

definition sql_callback :: "bool \<Rightarrow> callback \<Rightarrow> sql_store \<Rightarrow> sql_store" where
  "sql_callback registered c q = (if registered then q\<lparr>q_cb_log := q_cb_log q @ [c]\<rparr> else q)"

section \<open>Node registry\<close>

text \<open>The \<open>INSERT\<close> names every column but \<open>drained\<close>, whose default is 0; the conflict clause sets
  the same columns on the row that exists.\<close>

definition sql_register_node :: "node \<Rightarrow> sql_store \<Rightarrow> sql_store" where
  "sql_register_node n q =
     (let row = (case dict_get (q_nodes q) (n_id n) of
                   None \<Rightarrow> n\<lparr>n_drained := False\<rparr>
                 | Some existing \<Rightarrow> n\<lparr>n_drained := n_drained existing\<rparr>)
      in sql_callback (q_on_node_online q) (NodeOnline (n_id n))
           (q\<lparr>q_nodes := dict_set (n_id n) row (q_nodes q)\<rparr>))"

definition sql_get_node :: "sql_store \<Rightarrow> string \<Rightarrow> node option" where
  "sql_get_node q node_id = dict_get (q_nodes q) node_id"

definition sql_get_all_nodes :: "sql_store \<Rightarrow> node list" where
  "sql_get_all_nodes q = dict_values (q_nodes q)"

definition sql_update_heartbeat ::
  "time \<Rightarrow> string \<Rightarrow> rat \<Rightarrow> rat option \<Rightarrow> string \<Rightarrow> rat option \<Rightarrow> int option \<Rightarrow> bool option \<Rightarrow>
   sql_store \<Rightarrow> sql_store" where
  "sql_update_heartbeat now node_id load disk_free_gb status_reason cpu_load_pct lane_count
     duplicate_executor =
     (let status = (if status_reason \<noteq> [] then Degraded else Online);
          sets = (\<lambda>n. n\<lparr>n_last_heartbeat := now, n_status := status, n_load := load,
                        n_status_reason := status_reason\<rparr>);
          sets1 = (case disk_free_gb of None \<Rightarrow> sets
                   | Some d \<Rightarrow> n_disk_free_gb_update (\<lambda>_. Some d) \<circ> sets);
          sets2 = (case cpu_load_pct of None \<Rightarrow> sets1
                   | Some c \<Rightarrow> n_cpu_load_pct_update (\<lambda>_. Some c) \<circ> sets1);
          sets3 = (case lane_count of None \<Rightarrow> sets2
                   | Some l \<Rightarrow> n_lane_count_update (\<lambda>_. Some l) \<circ> sets2);
          sets4 = (case duplicate_executor of None \<Rightarrow> sets3
                   | Some b \<Rightarrow> n_duplicate_executor_update (\<lambda>_. Some b) \<circ> sets3)
      in update_node node_id sets4)"

text \<open>The callback is called whether or not the node exists.\<close>

definition sql_update_capabilities :: "string \<Rightarrow> string list \<Rightarrow> sql_store \<Rightarrow> sql_store" where
  "sql_update_capabilities node_id caps q =
     (let old_caps = (case dict_get (q_nodes q) node_id of Some n \<Rightarrow> n_capabilities n | None \<Rightarrow> [])
      in sql_callback (q_on_capability_change q) (CapabilityChange node_id old_caps caps)
           (update_node node_id (n_capabilities_update (\<lambda>_. caps)) q))"

definition sql_set_drained :: "string \<Rightarrow> bool \<Rightarrow> sql_store \<Rightarrow> sql_store" where
  "sql_set_drained node_id drained = update_node node_id (n_drained_update (\<lambda>_. drained))"

definition sql_update_max_concurrent :: "string \<Rightarrow> int \<Rightarrow> sql_store \<Rightarrow> sql_store" where
  "sql_update_max_concurrent node_id max_concurrent =
     update_node node_id (n_max_concurrent_update (\<lambda>_. max 0 max_concurrent))"

definition sql_update_instance_token :: "string \<Rightarrow> string \<Rightarrow> sql_store \<Rightarrow> sql_store" where
  "sql_update_instance_token node_id instance_token =
     update_node node_id (n_instance_token_update (\<lambda>_. instance_token))"

definition sql_node_count :: "sql_store \<Rightarrow> nat" where
  "sql_node_count q = length (q_nodes q)"

definition sql_online_count :: "sql_store \<Rightarrow> nat" where
  "sql_online_count q = row_count (\<lambda>n. n_status n = Online) (q_nodes q)"

definition sql_set_on_node_online :: "sql_store \<Rightarrow> sql_store" where
  "sql_set_on_node_online q = q\<lparr>q_on_node_online := True\<rparr>"

definition sql_set_on_capability_change :: "sql_store \<Rightarrow> sql_store" where
  "sql_set_on_capability_change q = q\<lparr>q_on_capability_change := True\<rparr>"

definition sql_set_node_status :: "string \<Rightarrow> node_status \<Rightarrow> string \<Rightarrow> sql_store \<Rightarrow> sql_store" where
  "sql_set_node_status node_id status reason =
     update_node node_id (\<lambda>n. n\<lparr>n_status := status,
       n_status_reason := (if status \<noteq> Online then reason else [])\<rparr>)"

definition sql_append_timeline :: "'e \<Rightarrow> sql_store \<Rightarrow> sql_store" where
  "sql_append_timeline event q = q"

end
