(* ===== verification/SqlTasks.thy ===== *)
theory SqlTasks
  imports SqlStore
begin

text \<open>
  The task table of the persistent store (\<^verbatim>\<open>state/cluster_store.py\<close>): reading rows back as
  tasks, creation, the single-statement updates, dependencies and the read-only views.
\<close>

section \<open>Rows and tasks\<close>

text \<open>\<open>TaskStatus(row[\"status\"])\<close> raises \<open>ValueError\<close> on a text that is no status.\<close>

definition row_to_task :: "task_row \<Rightarrow> task option" where
  "row_to_task r =
     (case parse_task_status (tr_status r) of
        None \<Rightarrow> None
      | Some st \<Rightarrow> Some
          \<lparr>t_id = tr_id r, t_title = tr_title r, t_requires = tr_requires r,
           t_depends_on = tr_depends_on r, t_priority = tr_priority r, t_status = st,
           t_assigned_to = tr_assigned_to r, t_created_at = tr_created_at r,
           t_updated_at = tr_updated_at r, t_version = tr_version r,
           t_fail_reason = tr_fail_reason r, t_attempts = tr_attempts r,
           t_lane_key = tr_lane_key r, t_role = tr_role r, t_result = tr_result r,
           t_description = tr_description r, t_issues = tr_issues r, t_ballot = tr_ballot r,
           t_cancel_requeue = tr_cancel_requeue r\<rparr>)"

text \<open>The columns an \<open>INSERT\<close> leaves out take their defaults.\<close>

definition default_row :: "string \<Rightarrow> string \<Rightarrow> string \<Rightarrow> time \<Rightarrow> task_row" where
  "default_row tid title status now =
     \<lparr>tr_id = tid, tr_title = title, tr_requires = [], tr_depends_on = [], tr_priority = 3,
      tr_status = status, tr_assigned_to = None, tr_created_at = now, tr_updated_at = now,
      tr_version = 0, tr_fail_reason = None, tr_attempts = 0, tr_result = None,
      tr_description = [], tr_issues = [], tr_ballot = None, tr_cancel_requeue = None,
      tr_lane_key = [], tr_role = ''author''\<rparr>"

text \<open>\<open>status = ?, updated_at = ?\<close> and \<open>updated_at = ?, version = version + 1\<close>.\<close>

abbreviation row_status :: "task_status \<Rightarrow> task_row \<Rightarrow> task_row" where
  "row_status st r \<equiv> r\<lparr>tr_status := task_status_value st\<rparr>"

definition row_touch :: "time \<Rightarrow> task_row \<Rightarrow> task_row" where
  "row_touch now r = r\<lparr>tr_updated_at := now, tr_version := tr_version r + 1\<rparr>"

abbreviation has_status :: "task_status \<Rightarrow> task_row \<Rightarrow> bool" where
  "has_status st r \<equiv> tr_status r = task_status_value st"

definition row_terminal :: "task_row \<Rightarrow> bool" where
  "row_terminal r \<longleftrightarrow>
     tr_status r \<in> set (map task_status_value [Completed, Failed, Cancelled, CancelRequested])"

section \<open>Reading\<close>

definition sql_get_task :: "sql_store \<Rightarrow> string \<Rightarrow> sql_error + task option" where
  "sql_get_task q task_id =
     (case dict_get (q_tasks q) task_id of
        None \<Rightarrow> Inr None
      | Some r \<Rightarrow> (case row_to_task r of None \<Rightarrow> Inl ValueErr | Some t \<Rightarrow> Inr (Some t)))"

definition rows_to_tasks :: "task_row list \<Rightarrow> sql_error + task list" where
  "rows_to_tasks rs = (case those (map row_to_task rs) of None \<Rightarrow> Inl ValueErr | Some ts \<Rightarrow> Inr ts)"

definition sql_get_all_tasks :: "sql_store \<Rightarrow> sql_error + task list" where
  "sql_get_all_tasks q = rows_to_tasks (dict_values (q_tasks q))"

definition sql_leased_ids :: "time \<Rightarrow> sql_store \<Rightarrow> string set" where
  "sql_leased_ids now q =
     set (map l_task_id (filter (\<lambda>l. l_status l = Active \<and> now < l_expires_at l)
       (dict_values (q_leases q))))"

definition sql_unleased_running_tasks :: "time \<Rightarrow> sql_store \<Rightarrow> sql_error + unleased_row list" where
  "sql_unleased_running_tasks now q =
     (case sql_get_all_tasks q of
        Inl e \<Rightarrow> Inl e
      | Inr ts \<Rightarrow> Inr (unleased_running_rows ts (sql_leased_ids now q) now))"

section \<open>Creation\<close>

definition plan_row :: "time \<Rightarrow> task_plan \<Rightarrow> task_row" where
  "plan_row now p =
     (default_row (pl_task_id p) (pl_title p) (task_status_value Pending) now)
       \<lparr>tr_requires := pl_requires p, tr_depends_on := pl_depends_on p,
        tr_priority := pl_priority p, tr_version := 1, tr_lane_key := pl_lane_key p,
        tr_role := pl_role p, tr_description := pl_description p, tr_issues := pl_issues p\<rparr>"

text \<open>The promotion of a row that is pending; the version stays.\<close>

definition promote_row :: "time \<Rightarrow> string \<Rightarrow> sql_store \<Rightarrow> sql_store" where
  "promote_row now task_id q =
     snd (update_task task_id (has_status Pending)
            (\<lambda>r. (row_status Ready r)\<lparr>tr_updated_at := now\<rparr>) q)"

text \<open>The fallback \<open>Task(...)\<close> of the last line is for a row that is gone again.\<close>

definition sql_create_task :: "time \<Rightarrow> task_plan \<Rightarrow> sql_store \<Rightarrow> task sql_result" where
  "sql_create_task now p q =
     (let q1 = q\<lparr>q_tasks := insert_or_ignore (pl_task_id p) (plan_row now p) (q_tasks q)\<rparr>;
          q2 = (if pl_depends_on p = [] then promote_row now (pl_task_id p) q1 else q1)
      in (case sql_get_task q2 (pl_task_id p) of
            Inl e \<Rightarrow> (Inl e, q2)
          | Inr (Some t) \<Rightarrow> (Inr t, q2)
          | Inr None \<Rightarrow> (Inr (build_task now Pending p), q2)))"

fun sql_read_batch :: "sql_store \<Rightarrow> task_plan list \<Rightarrow> sql_error + task list" where
  "sql_read_batch q [] = Inr []"
| "sql_read_batch q (p # ps) =
     (case sql_get_task q (pl_task_id p) of
        Inl e \<Rightarrow> Inl e
      | Inr None \<Rightarrow> sql_read_batch q ps
      | Inr (Some t) \<Rightarrow> (case sql_read_batch q ps of Inl e \<Rightarrow> Inl e | Inr ts \<Rightarrow> Inr (t # ts)))"

definition sql_create_tasks_batch :: "time \<Rightarrow> task_plan list \<Rightarrow> sql_store \<Rightarrow> task list sql_result" where
  "sql_create_tasks_batch now plans q =
     (let rows = fold (\<lambda>p. insert_or_ignore (pl_task_id p) (plan_row now p)) plans (q_tasks q);
          ids = map pl_task_id (filter (\<lambda>p. pl_depends_on p = []) plans);
          rows1 = (if ids \<noteq> []
                   then map (\<lambda>(k, r). (k, if k \<in> set ids \<and> has_status Pending r
                                          then (row_status Ready r)\<lparr>tr_updated_at := now\<rparr> else r)) rows
                   else rows);
          q1 = q\<lparr>q_tasks := rows1\<rparr>
      in (sql_read_batch q1 plans, q1))"

section \<open>Updates\<close>

definition sql_set_task_result :: "time \<Rightarrow> string \<Rightarrow> string option \<Rightarrow> sql_store \<Rightarrow> bool \<times> sql_store" where
  "sql_set_task_result now task_id result q =
     (case result of
        None \<Rightarrow> (False, q)
      | Some r \<Rightarrow>
          if strip r = [] then (False, q)
          else update_task task_id (\<lambda>_. True) (\<lambda>row. row_touch now (row\<lparr>tr_result := Some r\<rparr>)) q)"

definition sql_set_task_status ::
  "time \<Rightarrow> string \<Rightarrow> task_status \<Rightarrow> string \<Rightarrow> sql_store \<Rightarrow> bool \<times> sql_store" where
  "sql_set_task_status now task_id status fail_reason q =
     (if fail_reason \<noteq> []
      then update_task task_id (\<lambda>_. True)
             (\<lambda>r. row_touch now ((row_status status r)\<lparr>tr_fail_reason := Some fail_reason\<rparr>)) q
      else update_task task_id (\<lambda>_. True) (\<lambda>r. row_touch now (row_status status r)) q)"

definition sql_unassign_task :: "time \<Rightarrow> string \<Rightarrow> sql_store \<Rightarrow> bool \<times> sql_store" where
  "sql_unassign_task now task_id q =
     update_task task_id (\<lambda>r. \<not> row_terminal r \<and> task_id \<notin> sql_leased_ids now q)
       (\<lambda>r. row_touch now ((row_status Ready r)\<lparr>tr_assigned_to := None\<rparr>)) q"

definition sql_unblock_task :: "time \<Rightarrow> string \<Rightarrow> sql_store \<Rightarrow> bool \<times> sql_store" where
  "sql_unblock_task now task_id =
     update_task task_id (has_status Blocked) (\<lambda>r. row_touch now (row_status Pending r))"

definition sql_set_task_ballot :: "time \<Rightarrow> string \<Rightarrow> ballot option \<Rightarrow> sql_store \<Rightarrow> bool \<times> sql_store" where
  "sql_set_task_ballot now task_id b =
     update_task task_id (\<lambda>_. True) (\<lambda>r. row_touch now (r\<lparr>tr_ballot := b\<rparr>))"

definition sql_set_task_cancel_requeue :: "time \<Rightarrow> string \<Rightarrow> bool \<Rightarrow> sql_store \<Rightarrow> bool \<times> sql_store" where
  "sql_set_task_cancel_requeue now task_id requeue =
     update_task task_id (\<lambda>_. True) (\<lambda>r. row_touch now (r\<lparr>tr_cancel_requeue := Some requeue\<rparr>))"

definition sql_unblock_to_ready :: "time \<Rightarrow> string \<Rightarrow> sql_store \<Rightarrow> bool \<times> sql_store" where
  "sql_unblock_to_ready now task_id =
     update_task task_id (has_status Blocked) (\<lambda>r. row_touch now (row_status Ready r))"

text \<open>The live leases of the task are revoked before the guarded update is tried.\<close>

definition revoke_live :: "time \<Rightarrow> string \<Rightarrow> (string, lease) dict \<Rightarrow> (string, lease) dict" where
  "revoke_live now task_id =
     update_where (\<lambda>l. l_task_id l = task_id \<and> l_status l = Active \<and> now < l_expires_at l)
       (\<lambda>l. l\<lparr>l_status := Revoked\<rparr>)"

definition sql_requeue_task :: "time \<Rightarrow> string \<Rightarrow> string \<Rightarrow> sql_store \<Rightarrow> bool \<times> sql_store" where
  "sql_requeue_task now task_id reason q =
     update_task task_id (\<lambda>r. \<not> row_terminal r \<and> tr_attempts r < task_retry_limit)
       (\<lambda>r. row_touch now ((row_status Ready r)
              \<lparr>tr_assigned_to := None, tr_attempts := tr_attempts r + 1,
               tr_fail_reason := (if reason \<noteq> [] then Some reason else tr_fail_reason r)\<rparr>))
       (q\<lparr>q_leases := revoke_live now task_id (q_leases q)\<rparr>)"

definition sql_set_dependencies :: "time \<Rightarrow> string \<Rightarrow> string list \<Rightarrow> sql_store \<Rightarrow> bool \<times> sql_store" where
  "sql_set_dependencies now task_id depends_on q =
     (let (found, q1) = update_task task_id (\<lambda>_. True)
            (\<lambda>r. row_touch now (r\<lparr>tr_depends_on := depends_on\<rparr>)) q
      in (found, if depends_on \<noteq> [] \<and> found
                 then snd (update_task task_id (has_status Ready) (row_status Pending) q1) else q1))"

section \<open>Views\<close>

definition sql_get_dependents :: "sql_store \<Rightarrow> string \<Rightarrow> string list" where
  "sql_get_dependents q task_id =
     map tr_id (filter (\<lambda>r. task_id \<in> set (tr_depends_on r)) (dict_values (q_tasks q)))"

definition sql_get_trigger_chain :: "sql_store \<Rightarrow> string \<Rightarrow> nat \<Rightarrow> string list" where
  "sql_get_trigger_chain q task_id max_depth =
     fst (traverse max_depth (sql_get_dependents q) task_id ([], []))"

definition sql_get_workflow_graph :: "sql_store \<Rightarrow> graph_node list \<times> (string \<times> string) list" where
  "sql_get_workflow_graph q =
     (map (\<lambda>r. \<lparr>gn_id = tr_id r, gn_title = tr_title r, gn_status = tr_status r,
                gn_priority = tr_priority r\<rparr>) (dict_values (q_tasks q)),
      concat (map (\<lambda>r. map (\<lambda>dep_id. (dep_id, tr_id r)) (tr_depends_on r)) (dict_values (q_tasks q))))"

text \<open>The keys are fewer than those of the in-memory counts.\<close>

definition sql_zero_counts :: "(string, int) dict" where
  "sql_zero_counts = map (\<lambda>k. (k, 0))
     [''total'', ''ready'', ''running'', ''completed'', ''failed'', ''pending'']"

text \<open>One row of \<open>SELECT status, COUNT(*) ... GROUP BY status\<close>.\<close>

definition add_group :: "string \<times> int \<Rightarrow> (string, int) dict \<Rightarrow> (string, int) dict" where
  "add_group g counts =
     (let counts1 = dict_set ''total'' (dict_get_or counts ''total'' 0 + snd g) counts
      in if dict_get counts1 (fst g) \<noteq> None
         then dict_set (fst g) (dict_get_or counts1 (fst g) 0 + snd g) counts1 else counts1)"

definition group_count :: "'a list \<Rightarrow> ('a \<times> int) list" where
  "group_count xs = map (\<lambda>x. (x, int (length (filter (\<lambda>y. y = x) xs)))) (remdups xs)"

definition sql_task_counts :: "sql_store \<Rightarrow> (string, int) dict" where
  "sql_task_counts q =
     fold add_group (group_count (map tr_status (dict_values (q_tasks q)))) sql_zero_counts"

end
