(* ===== verification/SqlOps.thy ===== *)
theory SqlOps
  imports SqlTasks
begin

text \<open>
  The other operations of the persistent store (\<^verbatim>\<open>state/cluster_store.py\<close>): leases,
  synchronisation, the recovery and decision logs, the promotion and scheduling passes, and the
  registries.
\<close>

section \<open>Leases\<close>

definition sql_create_lease ::
  "time \<Rightarrow> string \<Rightarrow> string \<Rightarrow> duration \<Rightarrow> sql_store \<Rightarrow> lease sql_result" where
  "sql_create_lease now task_id node_id ttl q =
     (let (lease_id, q1) = sql_generate_id ''lease'' q;
          l = \<lparr>l_id = lease_id, l_task_id = task_id, l_node_id = node_id, l_created_at = now,
               l_expires_at = now + ttl, l_status = Active\<rparr>
      in case insert_row lease_id l (q_leases q1) of
           Inl e \<Rightarrow> (Inl e, q1)
         | Inr ls \<Rightarrow> (Inr l, q1\<lparr>q_leases := ls\<rparr>))"

definition sql_revoke_lease :: "string \<Rightarrow> sql_store \<Rightarrow> bool \<times> sql_store" where
  "sql_revoke_lease lease_id q =
     (case dict_get (q_leases q) lease_id of
        None \<Rightarrow> (False, q)
      | Some l \<Rightarrow> (True, q\<lparr>q_leases := dict_set lease_id (l\<lparr>l_status := Revoked\<rparr>) (q_leases q)\<rparr>))"

definition sql_get_active_leases :: "time \<Rightarrow> sql_store \<Rightarrow> lease list \<times> sql_store" where
  "sql_get_active_leases now q =
     (let rows = filter (\<lambda>l. l_status l = Active) (dict_values (q_leases q));
          active = filter (\<lambda>l. now < l_expires_at l) rows;
          expired = filter (\<lambda>l. \<not> now < l_expires_at l) rows;
          expired_ids = map l_id expired;
          fired = map (\<lambda>l. LeaseExpired (l_task_id l) (l_node_id l)) expired;
          q1 = (if q_lease_callback q then q\<lparr>q_cb_log := q_cb_log q @ fired\<rparr> else q)
      in (active,
          if expired_ids \<noteq> []
          then q1\<lparr>q_leases := update_where (\<lambda>l. l_id l \<in> set expired_ids)
                                 (\<lambda>l. l\<lparr>l_status := Expired\<rparr>) (q_leases q1)\<rparr>
          else q1))"

definition sql_set_lease_callback :: "sql_store \<Rightarrow> sql_store" where
  "sql_set_lease_callback q = q\<lparr>q_lease_callback := True\<rparr>"

definition sql_get_lease_by_task :: "sql_store \<Rightarrow> string \<Rightarrow> lease option" where
  "sql_get_lease_by_task q task_id =
     (if task_id = [] then None
      else find (\<lambda>l. l_task_id l = task_id \<and> l_status l = Active) (dict_values (q_leases q)))"

definition sql_get_expired_leases :: "sql_store \<Rightarrow> lease list" where
  "sql_get_expired_leases q = filter (\<lambda>l. l_status l = Expired) (dict_values (q_leases q))"

section \<open>Synchronisation\<close>

text \<open>\<open>MAX(version)\<close> of an empty log is \<open>NULL\<close>, read as 0.\<close>

definition sql_sync_version :: "sql_store \<Rightarrow> int" where
  "sql_sync_version q =
     (case map sm_version (q_sync_log q) of [] \<Rightarrow> 0 | v # vs \<Rightarrow> fold max vs v)"

definition sql_handle_sync_message :: "time \<Rightarrow> sync_message \<Rightarrow> sql_store \<Rightarrow> bool \<times> sql_store" where
  "sql_handle_sync_message now msg q =
     (if sm_version msg \<le> sql_sync_version q then (False, q)
      else
        let q1 = q\<lparr>q_sync_log := q_sync_log q @ [msg]\<rparr>
        in case sm_task_state msg of
             None \<Rightarrow> (True, q1)
           | Some ts \<Rightarrow>
               if dict_get (q_tasks q1) (ts_task_id ts) \<noteq> None
               then (True, snd (update_task (ts_task_id ts) (\<lambda>_. True)
                      (\<lambda>r. r\<lparr>tr_status := ts_status ts, tr_assigned_to := ts_assigned_to ts,
                             tr_version := ts_version ts, tr_updated_at := now\<rparr>) q1))
               else (True, q1\<lparr>q_tasks := q_tasks q1 @
                      [(ts_task_id ts,
                        (default_row (ts_task_id ts) (ts_title ts) (ts_status ts) now)
                          \<lparr>tr_assigned_to := ts_assigned_to ts, tr_version := ts_version ts\<rparr>)]\<rparr>))"

fun sql_handle_batch_sync :: "time \<Rightarrow> sync_message list \<Rightarrow> sql_store \<Rightarrow> nat \<times> sql_store" where
  "sql_handle_batch_sync now [] q = (0, q)"
| "sql_handle_batch_sync now (m # ms) q =
     (let (applied, q1) = sql_handle_sync_message now m q;
          (n, q2) = sql_handle_batch_sync now ms q1
      in ((if applied then n + 1 else n), q2))"

section \<open>Recovery log\<close>

definition sql_append_recovery_event :: "time \<Rightarrow> recovery_event \<Rightarrow> sql_store \<Rightarrow> unit sql_result" where
  "sql_append_recovery_event now e q =
     (let (e1, q1) = (if re_id e = []
                      then (let (i, q') = sql_generate_id ''recovery'' q in (e\<lparr>re_id := i\<rparr>, q'))
                      else (e, q));
          e2 = e1\<lparr>re_timestamp := now\<rparr>
      in case insert_row (re_id e2) e2 (q_recovery_events q1) of
           Inl err \<Rightarrow> (Inl err, q1)
         | Inr evs \<Rightarrow> (Inr (), q1\<lparr>q_recovery_events := evs\<rparr>))"

definition sql_get_recovery_events :: "sql_store \<Rightarrow> recovery_event list" where
  "sql_get_recovery_events q = sort_key re_timestamp (dict_values (q_recovery_events q))"

definition sql_recovery_stats :: "sql_store \<Rightarrow> int \<times> (string, int) dict" where
  "sql_recovery_stats q =
     (let by_action = group_count (map re_action (dict_values (q_recovery_events q)))
      in (sum_list (map snd by_action), by_action))"

definition sql_trigger_recovery :: "time \<Rightarrow> string \<Rightarrow> sql_store \<Rightarrow> unit sql_result" where
  "sql_trigger_recovery now node_id q =
     (let (i, q1) = sql_generate_id ''recovery'' q
      in sql_append_recovery_event now
           \<lparr>re_id = i, re_task_id = [], re_node_id = node_id, re_action = ''reschedule'',
            re_status = ''completed'',
            re_message = Some (''Node '' @ node_id @ '' went offline, rescheduling tasks''),
            re_timestamp = now\<rparr> q1)"

section \<open>Scheduling decisions\<close>

text \<open>The delete keeps the rows with the greatest ids, which are the last of the list.\<close>

definition sql_record_decision :: "scheduling_decision \<Rightarrow> sql_store \<Rightarrow> sql_store" where
  "sql_record_decision d q =
     (let ds = q_decisions q @ [d]
      in q\<lparr>q_decisions := (if q_max_decisions q < length ds then last_n (q_max_decisions q) ds else ds)\<rparr>)"

definition sql_get_decisions :: "sql_store \<Rightarrow> scheduling_decision list" where
  "sql_get_decisions q = q_decisions q"

definition sql_get_schedule_stats :: "sql_store \<Rightarrow> scheduling_stats" where
  "sql_get_schedule_stats q =
     \<lparr>ss_total_decisions = length (q_decisions q),
      ss_decisions_by_priority = fold (\<lambda>d. bump (sd_priority d)) (q_decisions q) [],
      ss_last_decisions = (if q_decisions q \<noteq> [] then last_n 10 (q_decisions q) else [])\<rparr>"

section \<open>Promotion of pending tasks\<close>

fun sql_deps_met :: "sql_store \<Rightarrow> string list \<Rightarrow> bool" where
  "sql_deps_met q [] = True"
| "sql_deps_met q (dep_id # deps) =
     (case dict_get (q_tasks q) dep_id of
        None \<Rightarrow> False
      | Some r \<Rightarrow> if has_status Completed r then sql_deps_met q deps else False)"

text \<open>
  The body of the loop over the rows selected at the start: the promotion, or the hold recorded,
  or the exception of a row that cannot be read.
\<close>

definition sql_trigger_one :: "time \<Rightarrow> task_row \<Rightarrow> sql_store \<Rightarrow> bool sql_result" where
  "sql_trigger_one now row q =
     (let tid = tr_id row;
          promote = (\<lambda>_::unit. (Inr True, snd (update_task tid (has_status Pending)
                       (\<lambda>r. (row_status Ready r)\<lparr>tr_updated_at := now\<rparr>) q)))
      in if \<not> sql_deps_met q (tr_depends_on row) then (Inr False, q)
         else case dict_get (q_tasks q) tid of
           None \<Rightarrow> promote ()
         | Some full \<Rightarrow>
             case row_to_task full of
               None \<Rightarrow> (Inl ValueErr, q)
             | Some candidate \<Rightarrow>
                 if landing_artifact candidate = None then promote ()
                 else case sql_get_all_tasks q of
                        Inl e \<Rightarrow> (Inl e, q)
                      | Inr ts \<Rightarrow>
                          case hold_reason ts candidate of
                            None \<Rightarrow> promote ()
                          | Some reason \<Rightarrow>
                              (Inr False,
                               if (case tr_fail_reason full of None \<Rightarrow> [] | Some r \<Rightarrow> r) \<noteq> reason
                               then snd (update_task tid (has_status Pending)
                                      (\<lambda>r. r\<lparr>tr_fail_reason := Some reason, tr_updated_at := now\<rparr>) q)
                               else q))"

fun sql_trigger_loop :: "time \<Rightarrow> task_row list \<Rightarrow> sql_store \<Rightarrow> nat sql_result" where
  "sql_trigger_loop now [] q = (Inr 0, q)"
| "sql_trigger_loop now (row # rows) q =
     (case sql_trigger_one now row q of
        (Inl e, q1) \<Rightarrow> (Inl e, q1)
      | (Inr p, q1) \<Rightarrow>
          (case sql_trigger_loop now rows q1 of
             (Inl e, q2) \<Rightarrow> (Inl e, q2)
           | (Inr n, q2) \<Rightarrow> (Inr (if p then n + 1 else n), q2)))"

text \<open>One transaction: an exception rolls every promotion back.\<close>

definition sql_trigger_pending_tasks :: "time \<Rightarrow> sql_store \<Rightarrow> nat sql_result" where
  "sql_trigger_pending_tasks now q =
     (case sql_trigger_loop now (filter (has_status Pending) (dict_values (q_tasks q))) q of
        (Inl e, q1) \<Rightarrow> (Inl e, rollback q q1)
      | (Inr n, q1) \<Rightarrow> (Inr n, q1))"

section \<open>The scheduling pass\<close>

definition row_active :: "task_row \<Rightarrow> bool" where
  "row_active r \<longleftrightarrow> tr_status r \<in> set (map task_status_value [Running, Assigned])"

text \<open>\<open>GROUP BY assigned_to\<close> over the active rows; an empty text counts for nobody.\<close>

definition sql_active_counts :: "task_row list \<Rightarrow> counts" where
  "sql_active_counts rows =
     filter (\<lambda>(a, _). a \<noteq> [])
       (group_count (map (\<lambda>r. the (tr_assigned_to r))
          (filter (\<lambda>r. row_active r \<and> tr_assigned_to r \<noteq> None) rows)))"

definition sql_ready_tasks :: "time \<Rightarrow> sql_store \<Rightarrow> task list \<Rightarrow> task list" where
  "sql_ready_tasks now q all_tasks =
     (let lane_blocked = lane_blocked_ready_ids all_tasks; leased = sql_leased_ids now q
      in filter (\<lambda>t. t_id t \<notin> leased \<and> t_id t \<notin> set lane_blocked)
           (sort_key (\<lambda>t. (t_priority t, - t_created_at t))
              (filter (\<lambda>t. t_status t = Ready) all_tasks)))"

definition sql_lane_nodes :: "sql_store \<Rightarrow> (string, string) dict" where
  "sql_lane_nodes q = map (\<lambda>(k, r). (k, ln_node r)) (q_lanes q)"

text \<open>The statements one choice makes.\<close>

definition sql_assign_task :: "time \<Rightarrow> task \<Rightarrow> node \<Rightarrow> bool \<Rightarrow> sql_store \<Rightarrow> unit sql_result" where
  "sql_assign_task now t n pinned q =
     (let q1 = snd (update_task (t_id t) (\<lambda>_. True)
                      (\<lambda>r. row_touch now ((row_status Running r)\<lparr>tr_assigned_to := Some (n_id n)\<rparr>)) q);
          q2 = q1\<lparr>q_fair_scheduler := mark_picked (n_id n) (q_fair_scheduler q1)\<rparr>
      in case sql_create_lease now (t_id t) (n_id n) SCHEDULER_ASSIGNED_TTL q2 of
           (Inl e, q3) \<Rightarrow> (Inl e, q3)
         | (Inr _, q3) \<Rightarrow> (Inr (), sql_record_decision
             \<lparr>sd_task_id = t_id t, sd_task_title = t_title t, sd_priority = t_priority t,
              sd_node_id = n_id n, sd_score = 1,
              sd_reason = (if pinned then ''lane_affinity_pinned'' else ''least_loaded_capability_match''),
              sd_timestamp = now\<rparr> q3))"

fun sql_schedule_loop ::
  "time \<Rightarrow> node list \<Rightarrow> (string, string) dict \<Rightarrow> task list \<Rightarrow> counts \<Rightarrow> sql_store \<Rightarrow>
   assignment list sql_result" where
  "sql_schedule_loop now online lns [] cnt q = (Inr [], q)"
| "sql_schedule_loop now online lns (t # ts) cnt q =
     (case choose_pinned (q_fair_scheduler q) (t_requires t) online cnt (lane_pin lns t) of
        (None, _) \<Rightarrow> sql_schedule_loop now online lns ts cnt q
      | (Some n, pinned) \<Rightarrow>
          (case sql_assign_task now t n pinned q of
             (Inl e, q1) \<Rightarrow> (Inl e, q1)
           | (Inr _, q1) \<Rightarrow>
               (case sql_schedule_loop now online lns ts (bump (n_id n) cnt) q1 of
                  (Inl e, q2) \<Rightarrow> (Inl e, q2)
                | (Inr rest, q2) \<Rightarrow>
                    (Inr (\<lparr>as_task_id = t_id t, as_task_title = t_title t, as_node_id = n_id n,
                           as_priority = t_priority t\<rparr> # rest), q2))))"

definition sql_schedule_pending_detailed :: "time \<Rightarrow> sql_store \<Rightarrow> assignment list sql_result" where
  "sql_schedule_pending_detailed now q =
     (let online = filter (\<lambda>n. n_status n = Online) (dict_values (q_nodes q))
      in if online = [] then (Inr [], q)
         else case sql_get_all_tasks q of
                Inl e \<Rightarrow> (Inl e, q)
              | Inr ts \<Rightarrow>
                  (case sql_schedule_loop now online (sql_lane_nodes q) (sql_ready_tasks now q ts)
                          (sql_active_counts (dict_values (q_tasks q))) q of
                     (Inl e, q1) \<Rightarrow> (Inl e, rollback q q1)
                   | (Inr asgs, q1) \<Rightarrow> (Inr asgs, q1)))"

definition sql_schedule_pending :: "time \<Rightarrow> sql_store \<Rightarrow> nat sql_result" where
  "sql_schedule_pending now q =
     (case sql_schedule_pending_detailed now q of
        (Inl e, q1) \<Rightarrow> (Inl e, q1)
      | (Inr asgs, q1) \<Rightarrow> (Inr (length asgs), q1))"

section \<open>Federation registry\<close>

definition sql_register_federation_cluster ::
  "time \<Rightarrow> string \<Rightarrow> string \<Rightarrow> string \<Rightarrow> sql_store \<Rightarrow> remote_cluster \<times> sql_store" where
  "sql_register_federation_cluster now cid name endpoint q =
     (let c = \<lparr>rc_id = cid, rc_name = name, rc_endpoint = endpoint, rc_status = Available,
               rc_registered_at = now, rc_last_ping = now, rc_ping_latency = 0\<rparr>
      in (c, q\<lparr>q_clusters := insert_or_replace cid c (q_clusters q)\<rparr>))"

definition sql_remove_federation_cluster :: "string \<Rightarrow> sql_store \<Rightarrow> bool \<times> sql_store" where
  "sql_remove_federation_cluster cid q =
     (dict_get (q_clusters q) cid \<noteq> None, q\<lparr>q_clusters := dict_del cid (q_clusters q)\<rparr>)"

definition sql_get_federation_clusters :: "sql_store \<Rightarrow> remote_cluster list" where
  "sql_get_federation_clusters q = dict_values (q_clusters q)"

definition sql_get_federation_cluster :: "sql_store \<Rightarrow> string \<Rightarrow> remote_cluster option" where
  "sql_get_federation_cluster q cid = dict_get (q_clusters q) cid"

section \<open>Webhooks\<close>

definition sql_register_hook ::
  "time \<Rightarrow> string \<Rightarrow> event_type list \<Rightarrow> string \<Rightarrow> sql_store \<Rightarrow> hook sql_result" where
  "sql_register_hook now url events secret q =
     (let (hook_id, q1) = sql_generate_id ''hook'' q;
          h = \<lparr>h_id = hook_id, h_url = url, h_events = events,
               h_secret = (if secret = [] then None else Some secret), h_active = True,
               h_created_at = now, h_updated_at = now\<rparr>
      in case insert_row hook_id h (q_hooks q1) of
           Inl e \<Rightarrow> (Inl e, q1)
         | Inr hs \<Rightarrow> (Inr h, q1\<lparr>q_hooks := hs\<rparr>))"

definition sql_deregister_hook :: "string \<Rightarrow> sql_store \<Rightarrow> bool \<times> sql_store" where
  "sql_deregister_hook hook_id q =
     (dict_get (q_hooks q) hook_id \<noteq> None, q\<lparr>q_hooks := dict_del hook_id (q_hooks q)\<rparr>)"

definition sql_list_hooks :: "sql_store \<Rightarrow> hook list" where
  "sql_list_hooks q = map (\<lambda>h. h\<lparr>h_secret := None\<rparr>) (dict_values (q_hooks q))"

text \<open>The columns a delivery row lacks take the defaults of the \<open>Delivery\<close> model when it is read.\<close>

definition delivery_to_row :: "delivery \<Rightarrow> delivery_row" where
  "delivery_to_row d =
     \<lparr>dr_id = d_id d, dr_hook_id = d_hook_id d, dr_event_type = d_event_type d,
      dr_payload = d_payload d, dr_status = d_status d, dr_created_at = d_created_at d\<rparr>"

definition row_to_delivery :: "time \<Rightarrow> delivery_row \<Rightarrow> delivery" where
  "row_to_delivery now r =
     \<lparr>d_id = dr_id r, d_hook_id = dr_hook_id r, d_event_type = dr_event_type r, d_url = [],
      d_payload = dr_payload r, d_status = dr_status r, d_status_code = 0, d_error = [],
      d_attempts = 0, d_max_attempts = 3, d_created_at = dr_created_at r, d_updated_at = now\<rparr>"

definition sql_get_hook_deliveries :: "time \<Rightarrow> sql_store \<Rightarrow> string \<Rightarrow> delivery list" where
  "sql_get_hook_deliveries now q hook_id =
     map (row_to_delivery now) (filter (\<lambda>r. dr_hook_id r = hook_id) (dict_values (q_deliveries q)))"

text \<open>The trim keeps the newest rows by \<open>created_at\<close>; a tie keeps the lower row id.\<close>

definition sql_add_delivery :: "delivery \<Rightarrow> sql_store \<Rightarrow> sql_store" where
  "sql_add_delivery d q =
     (let rows = insert_or_replace (d_id d) (delivery_to_row d) (q_deliveries q);
          keep = set (map fst (take (q_max_deliveries q) (sort_key (\<lambda>(_, r). - dr_created_at r) rows)))
      in q\<lparr>q_deliveries := (if q_max_deliveries q < length rows
                              then filter (\<lambda>(k, _). k \<in> keep) rows else rows)\<rparr>)"

section \<open>Spawn records and lanes\<close>

definition sql_record_task_spawn :: "spawn \<Rightarrow> sql_store \<Rightarrow> sql_store" where
  "sql_record_task_spawn r q = q\<lparr>q_task_spawns := insert_or_replace (sp_task_id r) r (q_task_spawns q)\<rparr>"

definition sql_get_task_spawn :: "sql_store \<Rightarrow> string \<Rightarrow> spawn option" where
  "sql_get_task_spawn q task_id = dict_get (q_task_spawns q) task_id"

definition sql_get_all_task_spawns :: "sql_store \<Rightarrow> spawn list" where
  "sql_get_all_task_spawns q = dict_values (q_task_spawns q)"

definition sql_delete_task_spawn :: "string \<Rightarrow> sql_store \<Rightarrow> bool \<times> sql_store" where
  "sql_delete_task_spawn task_id q =
     (dict_get (q_task_spawns q) task_id \<noteq> None,
      q\<lparr>q_task_spawns := dict_del task_id (q_task_spawns q)\<rparr>)"

definition sql_record_lane ::
  "rat \<Rightarrow> string \<Rightarrow> string \<Rightarrow> string \<Rightarrow> string \<Rightarrow> string \<Rightarrow> rat option \<Rightarrow> rat option \<Rightarrow> string \<Rightarrow>
   sql_store \<Rightarrow> sql_store" where
  "sql_record_lane wall lane_key session_id profile role nd created_at last_active_at last_task_id q =
     (let effective_created =
            (case dict_get (q_lanes q) lane_key of
               Some row \<Rightarrow> ln_created_at row
             | None \<Rightarrow> (case created_at of Some c \<Rightarrow> c | None \<Rightarrow> wall));
          effective_active = (case last_active_at of Some a \<Rightarrow> a | None \<Rightarrow> wall)
      in q\<lparr>q_lanes := insert_or_replace lane_key
             \<lparr>ln_lane_key = lane_key, ln_session_id = session_id, ln_profile = profile, ln_role = role,
              ln_node = nd, ln_created_at = effective_created, ln_last_active_at = effective_active,
              ln_last_task_id = last_task_id\<rparr> (q_lanes q)\<rparr>)"

definition sql_get_lane :: "sql_store \<Rightarrow> string \<Rightarrow> lane option" where
  "sql_get_lane q lane_key = dict_get (q_lanes q) lane_key"

definition sql_get_all_lanes :: "sql_store \<Rightarrow> lane list" where
  "sql_get_all_lanes q = dict_values (q_lanes q)"

definition sql_touch_lane_last_task :: "string \<Rightarrow> string \<Rightarrow> sql_store \<Rightarrow> sql_store" where
  "sql_touch_lane_last_task lane_key task_id q =
     (if lane_key = [] then q
      else case dict_get (q_lanes q) lane_key of
             None \<Rightarrow> q
           | Some r \<Rightarrow> q\<lparr>q_lanes := dict_set lane_key (r\<lparr>ln_last_task_id := task_id\<rparr>) (q_lanes q)\<rparr>)"

definition sql_delete_lane :: "string \<Rightarrow> sql_store \<Rightarrow> bool \<times> sql_store" where
  "sql_delete_lane lane_key q =
     (dict_get (q_lanes q) lane_key \<noteq> None, q\<lparr>q_lanes := dict_del lane_key (q_lanes q)\<rparr>)"

section \<open>Configuration and summary\<close>

definition sql_get_config :: "sql_store \<Rightarrow> (string, string) dict option \<times> sql_store" where
  "sql_get_config q =
     (case q_config_row q of
        None \<Rightarrow> (q_config q, q)
      | Some c \<Rightarrow> (Some c, q\<lparr>q_config := Some c\<rparr>))"

definition sql_set_config :: "(string, string) dict \<Rightarrow> sql_store \<Rightarrow> sql_store" where
  "sql_set_config config q = q\<lparr>q_config := Some config, q_config_row := Some config\<rparr>"

definition sql_get_config_path :: "sql_store \<Rightarrow> string" where
  "sql_get_config_path q = q_config_path q"

definition sql_set_config_path :: "string \<Rightarrow> sql_store \<Rightarrow> sql_store" where
  "sql_set_config_path path q = q\<lparr>q_config_path := path\<rparr>"

definition sql_get_summary :: "time \<Rightarrow> sql_store \<Rightarrow> summary \<times> sql_store" where
  "sql_get_summary now q =
     (let (active, q1) = sql_get_active_leases now q
      in (\<lparr>su_cluster_id = q_cluster_id q, su_node_id = q_node_id q, su_role = q_node_role q,
           su_nodes_total = sql_node_count q, su_nodes_online = sql_online_count q,
           su_tasks = sql_task_counts q, su_leases_active = length active,
           su_sync_version = sql_sync_version q1,
           su_uptime_seconds = int_seconds (now - q_started_at q)\<rparr>, q1))"

end
