(* ===== verification/SqlRefine.thy ===== *)
theory SqlRefine
  imports SqlOps LeaseTable Promotion
begin

text \<open>
  The persistent store against the in-memory one. \<open>encodes q c\<close> says that the tables of \<open>q\<close> hold
  the state \<open>c\<close>; the order of rows is the same for the tables whose order a caller can observe
  through the scheduler, the others agree as maps. For each operation: when the two stores give
  the same answer and stay related. The locale \<open>forward_simulation\<close> lifts this from one operation
  to a run.
\<close>

section \<open>The encoding\<close>

definition row_of :: "task \<Rightarrow> task_row" where
  "row_of t =
     \<lparr>tr_id = t_id t, tr_title = t_title t, tr_requires = t_requires t,
      tr_depends_on = t_depends_on t, tr_priority = t_priority t,
      tr_status = task_status_value (t_status t), tr_assigned_to = t_assigned_to t,
      tr_created_at = t_created_at t, tr_updated_at = t_updated_at t, tr_version = t_version t,
      tr_fail_reason = t_fail_reason t, tr_attempts = t_attempts t, tr_result = t_result t,
      tr_description = t_description t, tr_issues = t_issues t, tr_ballot = t_ballot t,
      tr_cancel_requeue = t_cancel_requeue t, tr_lane_key = t_lane_key t, tr_role = t_role t\<rparr>"

definition rows_of :: "(string, task) dict \<Rightarrow> (string, task_row) dict" where
  "rows_of d = map (\<lambda>(k, t). (k, row_of t)) d"

text \<open>The configuration a read returns.\<close>

definition config_of :: "sql_store \<Rightarrow> (string, string) dict option" where
  "config_of q = fst (sql_get_config q)"

definition encodes :: "sql_store \<Rightarrow> cluster_state \<Rightarrow> bool" where
  "encodes q c \<longleftrightarrow>
     q_nodes q = cs_nodes c \<and> q_tasks q = rows_of (cs_tasks c) \<and> q_leases q = cs_leases c \<and>
     map_of (q_lanes q) = map_of (cs_lanes c) \<and> sql_sync_version q = cs_sync_version c \<and>
     q_recovery_events q = map (\<lambda>e. (re_id e, e)) (cs_recovery_events c) \<and>
     q_decisions q = cs_decisions c \<and> map_of (q_clusters q) = map_of (cs_clusters c) \<and>
     q_hooks q = cs_hooks c \<and> map_of (q_task_spawns q) = map_of (cs_task_spawns c) \<and>
     config_of q = cs_config c \<and>
     q_config_path q = cs_config_path c \<and> q_on_node_online q = cs_on_node_online c \<and>
     q_on_capability_change q = cs_on_capability_change c \<and>
     q_lease_callback q = cs_lease_callback c \<and> q_max_decisions q = cs_max_decisions c \<and>
     q_fair_scheduler q = cs_fair_scheduler c \<and> q_cb_log q = cs_cb_log c \<and>
     q_rng q = cs_rng c \<and> q_draws q = cs_draws c \<and> q_started_at q = cs_started_at c \<and>
     q_cluster_id q = cs_cluster_id c \<and> q_node_id q = cs_node_id c \<and> q_node_role q = cs_node_role c"

lemma sql_frame [simp, frame]:
  "config_of (q\<lparr>q_nodes := v_nodes\<rparr>) = config_of q"
  "sql_sync_version (q\<lparr>q_nodes := v_nodes\<rparr>) = sql_sync_version q"
  "config_of (q\<lparr>q_tasks := v_tasks\<rparr>) = config_of q"
  "sql_sync_version (q\<lparr>q_tasks := v_tasks\<rparr>) = sql_sync_version q"
  "config_of (q\<lparr>q_lanes := v_lanes\<rparr>) = config_of q"
  "sql_sync_version (q\<lparr>q_lanes := v_lanes\<rparr>) = sql_sync_version q"
  "config_of (q\<lparr>q_leases := v_leases\<rparr>) = config_of q"
  "sql_sync_version (q\<lparr>q_leases := v_leases\<rparr>) = sql_sync_version q"
  "config_of (q\<lparr>q_recovery_events := v_recovery_events\<rparr>) = config_of q"
  "sql_sync_version (q\<lparr>q_recovery_events := v_recovery_events\<rparr>) = sql_sync_version q"
  "config_of (q\<lparr>q_decisions := v_decisions\<rparr>) = config_of q"
  "sql_sync_version (q\<lparr>q_decisions := v_decisions\<rparr>) = sql_sync_version q"
  "config_of (q\<lparr>q_clusters := v_clusters\<rparr>) = config_of q"
  "sql_sync_version (q\<lparr>q_clusters := v_clusters\<rparr>) = sql_sync_version q"
  "config_of (q\<lparr>q_hooks := v_hooks\<rparr>) = config_of q"
  "sql_sync_version (q\<lparr>q_hooks := v_hooks\<rparr>) = sql_sync_version q"
  "config_of (q\<lparr>q_deliveries := v_deliveries\<rparr>) = config_of q"
  "sql_sync_version (q\<lparr>q_deliveries := v_deliveries\<rparr>) = sql_sync_version q"
  "config_of (q\<lparr>q_task_spawns := v_task_spawns\<rparr>) = config_of q"
  "sql_sync_version (q\<lparr>q_task_spawns := v_task_spawns\<rparr>) = sql_sync_version q"
  "config_of (q\<lparr>q_on_node_online := v_on_node_online\<rparr>) = config_of q"
  "sql_sync_version (q\<lparr>q_on_node_online := v_on_node_online\<rparr>) = sql_sync_version q"
  "config_of (q\<lparr>q_on_capability_change := v_on_capability_change\<rparr>) = config_of q"
  "sql_sync_version (q\<lparr>q_on_capability_change := v_on_capability_change\<rparr>) = sql_sync_version q"
  "config_of (q\<lparr>q_lease_callback := v_lease_callback\<rparr>) = config_of q"
  "sql_sync_version (q\<lparr>q_lease_callback := v_lease_callback\<rparr>) = sql_sync_version q"
  "config_of (q\<lparr>q_config_path := v_config_path\<rparr>) = config_of q"
  "sql_sync_version (q\<lparr>q_config_path := v_config_path\<rparr>) = sql_sync_version q"
  "config_of (q\<lparr>q_fair_scheduler := v_fair_scheduler\<rparr>) = config_of q"
  "sql_sync_version (q\<lparr>q_fair_scheduler := v_fair_scheduler\<rparr>) = sql_sync_version q"
  "config_of (q\<lparr>q_cb_log := v_cb_log\<rparr>) = config_of q"
  "sql_sync_version (q\<lparr>q_cb_log := v_cb_log\<rparr>) = sql_sync_version q"
  "config_of (q\<lparr>q_draws := n\<rparr>) = config_of q"
  "sql_sync_version (q\<lparr>q_draws := n\<rparr>) = sql_sync_version q"
  "config_of (q\<lparr>q_sync_log := v_log\<rparr>) = config_of q"
  by (simp_all add: config_of_def sql_get_config_def sql_sync_version_def split: option.split)

lemma encodes_init: "encodes (sql_init now rng) (init_state now rng)"
  by (simp add: encodes_def sql_init_def init_state_def rows_of_def sql_sync_version_def config_of_def
      sql_get_config_def)

lemma encodesD:
  assumes "encodes q c"
  shows "q_nodes q = cs_nodes c" "q_tasks q = rows_of (cs_tasks c)" "q_leases q = cs_leases c"
    "map_of (q_lanes q) = map_of (cs_lanes c)" "sql_sync_version q = cs_sync_version c"
    "q_decisions q = cs_decisions c" "q_max_decisions q = cs_max_decisions c"
    "q_fair_scheduler q = cs_fair_scheduler c" "q_rng q = cs_rng c" "q_draws q = cs_draws c"
    "q_recovery_events q = map (\<lambda>e. (re_id e, e)) (cs_recovery_events c)"
    "q_hooks q = cs_hooks c" "q_cb_log q = cs_cb_log c" "q_lease_callback q = cs_lease_callback c"
    "q_on_node_online q = cs_on_node_online c" "q_on_capability_change q = cs_on_capability_change c"
    "map_of (q_clusters q) = map_of (cs_clusters c)" "map_of (q_task_spawns q) = map_of (cs_task_spawns c)"
  using assms unfolding encodes_def by simp_all

section \<open>Rows\<close>

lemma row_of_simps [simp]:
  "tr_id (row_of t) = t_id t" "tr_title (row_of t) = t_title t"
  "tr_depends_on (row_of t) = t_depends_on t"
  "tr_status (row_of t) = task_status_value (t_status t)"
  "tr_assigned_to (row_of t) = t_assigned_to t" "tr_priority (row_of t) = t_priority t"
  "tr_fail_reason (row_of t) = t_fail_reason t" "tr_attempts (row_of t) = t_attempts t"
  by (simp_all add: row_of_def)

lemma row_to_task_row_of [simp]: "row_to_task (row_of t) = Some t"
  by (simp add: row_to_task_def row_of_def)

lemma row_to_task_SomeD: "row_to_task r = Some t \<Longrightarrow> r = row_of t"
  by (auto simp: row_to_task_def row_of_def dest!: parse_task_status_SomeD split: option.splits)

lemma map_of_rows_of [simp]: "map_of (rows_of d) k = map_option row_of (map_of d k)"
  by (simp add: rows_of_def map_of_mark_due)

lemma dict_set_rows_of: "dict_set k (row_of t) (rows_of d) = rows_of (dict_set k t d)"
  by (induction d) (auto simp: rows_of_def)

lemma rows_of_values [simp]: "dict_values (rows_of d) = map row_of (dict_values d)"
  by (simp add: rows_of_def split_def)

lemma rows_of_keys [simp]: "dict_keys (rows_of d) = dict_keys d"
  by (simp add: rows_of_def split_def)

lemma rows_of_append: "rows_of d @ [(k, row_of t)] = rows_of (d @ [(k, t)])"
  by (simp add: rows_of_def)

lemma dict_set_new: "dict_get d k = None \<Longrightarrow> dict_set k v d = d @ [(k, v)]"
  by (induction d) (auto split: if_splits)

lemma has_status_row_of [simp]: "task_status_value (t_status t) = task_status_value st \<longleftrightarrow> t_status t = st"
  by (rule task_status_value_inj)

lemma row_terminal_row_of [simp]: "row_terminal (row_of t) \<longleftrightarrow> t_status t \<in> TERMINAL_TASK_STATUSES"
  by (cases "t_status t") (simp_all add: row_terminal_def)

lemma row_active_row_of [simp]: "row_active (row_of t) \<longleftrightarrow> t_active t"
  by (cases "t_status t") (simp_all add: row_active_def)

lemma row_touch_row_of: "row_touch now (row_of t) = row_of (touch now t)"
  by (simp add: row_touch_def row_of_def touch_def)

lemma those_map_Some: "those (map (\<lambda>x. Some (f x)) xs) = Some (map f xs)"
  by (induction xs) auto

lemma rows_to_tasks_row_of [simp]: "rows_to_tasks (map row_of ts) = Inr ts"
  using those_map_Some [of "\<lambda>x. x" ts] by (simp add: rows_to_tasks_def comp_def)

text \<open>A guarded update of one row, read as a guarded update of the task it encodes.\<close>

lemma update_task_encodes:
  assumes e: "encodes q c"
    and p: "\<And>t. get_task c tid = Some t \<Longrightarrow> p (row_of t) \<longleftrightarrow> g t"
    and f: "\<And>t. get_task c tid = Some t \<Longrightarrow> g t \<Longrightarrow> f (row_of t) = row_of (h t)"
  shows "fst (update_task tid p f q) = (case get_task c tid of None \<Rightarrow> False | Some t \<Rightarrow> g t) \<and>
         encodes (snd (update_task tid p f q))
           (case get_task c tid of None \<Rightarrow> c | Some t \<Rightarrow> if g t then put_task tid (h t) c else c)"
proof (cases "get_task c tid")
  case None
  with e show ?thesis by (simp add: update_task_def encodesD get_task_def)
next
  case (Some t)
  have "encodes (q\<lparr>q_tasks := rows_of (dict_set tid (h t) (cs_tasks c))\<rparr>) (put_task tid (h t) c)"
    using e by (simp add: encodes_def put_task_def)
  with Some e p [OF Some] f [OF Some] show ?thesis
    by (auto simp: update_task_def encodesD get_task_def dict_set_rows_of)
qed

text \<open>The same answer, and states related again.\<close>

definition sim :: "'a \<times> sql_store \<Rightarrow> 'a \<times> cluster_state \<Rightarrow> bool" where
  "sim x y \<longleftrightarrow> fst x = fst y \<and> encodes (snd x) (snd y)"

definition sim_ok :: "'a sql_result \<Rightarrow> 'a \<times> cluster_state \<Rightarrow> bool" where
  "sim_ok x y \<longleftrightarrow> fst x = Inr (fst y) \<and> encodes (snd x) (snd y)"

lemma update_task_sim:
  assumes "encodes q c"
    and "\<And>t. get_task c tid = Some t \<Longrightarrow> p (row_of t) \<longleftrightarrow> g t"
    and "\<And>t. get_task c tid = Some t \<Longrightarrow> g t \<Longrightarrow> f (row_of t) = row_of (h t)"
    and "r = (case get_task c tid of None \<Rightarrow> (False, c)
              | Some t \<Rightarrow> if g t then (True, put_task tid (h t) c) else (False, c))"
  shows "sim (update_task tid p f q) r"
proof -
  have "fst (update_task tid p f q) = (case get_task c tid of None \<Rightarrow> False | Some t \<Rightarrow> g t) \<and>
         encodes (snd (update_task tid p f q))
           (case get_task c tid of None \<Rightarrow> c | Some t \<Rightarrow> if g t then put_task tid (h t) c else c)"
    by (rule update_task_encodes [OF assms(1)]) (rule assms(2,3); assumption)+
  then show ?thesis unfolding assms(4) sim_def by (auto split: option.splits)
qed

section \<open>Reads\<close>

lemma sql_get_task_encodes: "encodes q c \<Longrightarrow> sql_get_task q k = Inr (get_task c k)"
  by (simp add: sql_get_task_def get_task_def encodesD split: option.split)

lemma sql_get_all_tasks_encodes: "encodes q c \<Longrightarrow> sql_get_all_tasks q = Inr (get_all_tasks c)"
  by (simp add: sql_get_all_tasks_def get_all_tasks_def encodesD del: map_map)

lemma sql_leased_ids_encodes: "encodes q c \<Longrightarrow> sql_leased_ids now q = active_leased_task_ids now c"
  by (simp add: sql_leased_ids_def active_leased_task_ids_def encodesD)

lemma sql_unleased_encodes:
  "encodes q c \<Longrightarrow> sql_unleased_running_tasks now q = Inr (unleased_running_tasks now c)"
  by (simp add: sql_unleased_running_tasks_def unleased_running_tasks_def sql_get_all_tasks_encodes
      sql_leased_ids_encodes get_all_tasks_def)

text \<open>An in-memory state whose ids are their keys.\<close>

lemma keyed_dependents:
  assumes "encodes q c" "tasks_wf c"
  shows "sql_get_dependents q k = get_dependents c k"
proof -
  have "\<forall>(k, t) \<in> set (cs_tasks c). t_id t = k"
    using assms(2) by (auto simp: tasks_wf_def)
  then have "map tr_id (filter (\<lambda>r. k \<in> set (tr_depends_on r)) (map row_of (dict_values (cs_tasks c)))) =
    map fst (filter (\<lambda>(_, t). k \<in> set (t_depends_on t)) (cs_tasks c))"
    by (induction "cs_tasks c") (auto simp: filter_map comp_def split_def intro!: map_cong)
  then show ?thesis using assms(1) by (simp add: sql_get_dependents_def get_dependents_def encodesD)
qed

section \<open>Nodes\<close>

lemma update_node_encodes:
  "encodes q c \<Longrightarrow> (\<And>n. f n = g n) \<Longrightarrow> encodes (update_node nid f q) (modify_node nid g c)"
  by (auto simp: update_node_def modify_node_def encodes_def split: option.split)

lemma sql_callback_encodes:
  "encodes q c \<Longrightarrow> r = r' \<Longrightarrow> encodes (sql_callback r cb q) (log_callback r' cb c)"
  by (simp add: sql_callback_def log_callback_def encodes_def)

lemma sql_register_node_encodes:
  assumes "encodes q c"
    and "n_drained n \<Longrightarrow> \<exists>m. get_node c (n_id n) = Some m \<and> n_drained m"
  shows "encodes (sql_register_node n q) (register_node n c)"
proof -
  have row: "(case dict_get (q_nodes q) (n_id n) of None \<Rightarrow> n\<lparr>n_drained := False\<rparr>
                 | Some existing \<Rightarrow> n\<lparr>n_drained := n_drained existing\<rparr>) =
        (case dict_get (cs_nodes c) (n_id n) of None \<Rightarrow> n
                | Some existing \<Rightarrow> if n_drained existing then n\<lparr>n_drained := True\<rparr> else n)"
    using assms by (cases n) (auto simp: encodesD get_node_def split: option.split)
  show ?thesis unfolding sql_register_node_def register_node_def row Let_def
    by (rule sql_callback_encodes) (use assms(1) in \<open>simp_all add: encodes_def\<close>)
qed

lemma sql_update_heartbeat_encodes:
  "encodes q c \<Longrightarrow>
   encodes (sql_update_heartbeat now nid ld df sr cpu lc de q) (update_heartbeat now nid ld df sr cpu lc de c)"
  unfolding sql_update_heartbeat_def update_heartbeat_def Let_def
  by (rule update_node_encodes) (auto simp: keep_or_def split: option.split)

lemma sql_update_capabilities_encodes:
  "encodes q c \<Longrightarrow> get_node c nid \<noteq> None \<Longrightarrow>
   encodes (sql_update_capabilities nid caps q) (update_capabilities nid caps c)"
  unfolding sql_update_capabilities_def update_capabilities_def Let_def get_node_def
  by (auto simp: encodesD intro!: sql_callback_encodes update_node_encodes)

lemma sql_node_setters_encode:
  assumes "encodes q c"
  shows "encodes (sql_set_drained nid b q) (set_drained nid b c)"
    "encodes (sql_update_max_concurrent nid m q) (update_max_concurrent nid m c)"
    "encodes (sql_update_instance_token nid tok q) (update_instance_token nid tok c)"
    "encodes (sql_set_node_status nid st r q) (set_node_status nid st r c)"
    "encodes (sql_set_on_node_online q) (set_on_node_online c)"
    "encodes (sql_set_on_capability_change q) (set_on_capability_change c)"
    "encodes (sql_set_lease_callback q) (set_lease_callback c)"
  using assms
  by (simp_all add: sql_set_drained_def set_drained_def sql_update_max_concurrent_def
      update_max_concurrent_def sql_update_instance_token_def update_instance_token_def
      sql_set_node_status_def set_node_status_def update_node_encodes)
    (simp_all add: encodes_def sql_set_on_node_online_def set_on_node_online_def
      sql_set_on_capability_change_def set_on_capability_change_def sql_set_lease_callback_def
      set_lease_callback_def)

section \<open>Tasks\<close>

lemma sql_set_task_result_sim:
  assumes e: "encodes q c"
  shows "sim (sql_set_task_result now tid res q) (set_task_result now tid res c)"
proof (cases "\<exists>r. res = Some r \<and> strip r \<noteq> []")
  case False
  then have "sql_set_task_result now tid res q = (False, q)" "set_task_result now tid res c = (False, c)"
    by (auto simp: sql_set_task_result_def set_task_result_def split: option.split)
  with e show ?thesis by (simp add: sim_def)
next
  case True
  then obtain r where "res = Some r" "strip r \<noteq> []" by auto
  then show ?thesis
    by (simp add: sql_set_task_result_def set_task_result_def)
      (rule update_task_sim [OF e, where g = "\<lambda>_. True" and h = "\<lambda>t. touch now (t\<lparr>t_result := Some r\<rparr>)"];
        simp add: row_of_def row_touch_def touch_def split: option.split)
qed

text \<open>The persistent store has no terminality guard: the answers agree where the guard passes.\<close>

lemma sql_set_task_status_sim:
  assumes e: "encodes q c"
    and g: "\<And>t. get_task c tid = Some t \<Longrightarrow>
      t_status t \<in> TERMINAL_TASK_STATUSES \<Longrightarrow> t_status t = CancelRequested \<and> st = Cancelled"
  shows "sim (sql_set_task_status now tid st fr q) (set_task_status now tid st fr c)"
proof -
  let ?h = "\<lambda>t. let t1 = touch now (t\<lparr>t_status := st\<rparr>) in if fr \<noteq> [] then t1\<lparr>t_fail_reason := Some fr\<rparr> else t1"
  have m: "set_task_status now tid st fr c =
      (case get_task c tid of None \<Rightarrow> (False, c)
       | Some t \<Rightarrow> if True then (True, put_task tid (?h t) c) else (False, c))"
    using g by (auto simp: set_task_status_def Let_def split: option.split)
  show ?thesis
  proof (cases "fr = []")
    case True
    then show ?thesis unfolding m sql_set_task_status_def
      by simp (rule update_task_sim [OF e, where g = "\<lambda>_. True" and h = ?h];
        simp add: row_of_def row_touch_def touch_def split: option.split)
  next
    case False
    then show ?thesis unfolding m sql_set_task_status_def
      by simp (rule update_task_sim [OF e, where g = "\<lambda>_. True" and h = ?h];
        simp add: row_of_def row_touch_def touch_def split: option.split)
  qed
qed

lemma sql_unblock_sim:
  assumes e: "encodes q c"
  shows "sim (sql_unblock_task now tid q) (unblock_task now tid c)"
    and "sim (sql_unblock_to_ready now tid q) (unblock_to_ready now tid c)"
proof -
  show "sim (sql_unblock_task now tid q) (unblock_task now tid c)"
    unfolding sql_unblock_task_def unblock_task_def
    by (rule update_task_sim [OF e, where g = "\<lambda>t. t_status t = Blocked"
        and h = "\<lambda>t. touch now (t\<lparr>t_status := Pending\<rparr>)"])
      (simp_all add: row_touch_def touch_def row_of_def task_status_value_inj del: task_status_value.simps split: option.split)
  show "sim (sql_unblock_to_ready now tid q) (unblock_to_ready now tid c)"
    unfolding sql_unblock_to_ready_def unblock_to_ready_def
    by (rule update_task_sim [OF e, where g = "\<lambda>t. t_status t = Blocked"
        and h = "\<lambda>t. touch now (t\<lparr>t_status := Ready\<rparr>)"])
      (simp_all add: row_touch_def touch_def row_of_def task_status_value_inj del: task_status_value.simps split: option.split)
qed

lemma sql_task_setters_sim:
  assumes e: "encodes q c"
  shows "sim (sql_set_task_ballot now tid b q) (set_task_ballot now tid b c)"
    and "sim (sql_set_task_cancel_requeue now tid rq q) (set_task_cancel_requeue now tid rq c)"
proof -
  show "sim (sql_set_task_ballot now tid b q) (set_task_ballot now tid b c)"
    unfolding sql_set_task_ballot_def set_task_ballot_def
    by (rule update_task_sim [OF e, where g = "\<lambda>_. True" and h = "\<lambda>t. touch now (t\<lparr>t_ballot := b\<rparr>)"])
      (simp_all add: row_touch_def touch_def row_of_def split: option.split)
  show "sim (sql_set_task_cancel_requeue now tid rq q) (set_task_cancel_requeue now tid rq c)"
    unfolding sql_set_task_cancel_requeue_def set_task_cancel_requeue_def
    by (rule update_task_sim [OF e, where g = "\<lambda>_. True" and h = "\<lambda>t. touch now (t\<lparr>t_cancel_requeue := Some rq\<rparr>)"])
      (simp_all add: row_touch_def touch_def row_of_def split: option.split)
qed

text \<open>
  The lease tests differ when a lease is active but due: the in-memory store still counts it, the
  persistent one does not.
\<close>

definition no_due_lease :: "time \<Rightarrow> string \<Rightarrow> cluster_state \<Rightarrow> bool" where
  "no_due_lease now tid c \<longleftrightarrow>
     list_all (\<lambda>l. l_task_id l = tid \<longrightarrow> \<not> lease_due now l) (dict_values (cs_leases c))"

definition one_active_lease :: "string \<Rightarrow> cluster_state \<Rightarrow> bool" where
  "one_active_lease tid c \<longleftrightarrow>
     length (filter (\<lambda>l. l_task_id l = tid \<and> l_status l = Active) (dict_values (cs_leases c))) \<le> 1"

lemma no_due_leaseD: "no_due_lease now tid c \<Longrightarrow> get_lease c k = Some l \<Longrightarrow> l_task_id l = tid \<Longrightarrow> \<not> lease_due now l"
  using dict_get_value [of "cs_leases c" k l] by (auto simp: no_due_lease_def get_lease_def list_all_iff)

lemma one_active_leaseD:
  assumes "one_active_lease tid c" "leases_wf c"
    and l: "get_lease c k = Some l" "l_task_id l = tid" "l_status l = Active"
    and m: "get_lease c k' = Some m" "l_task_id m = tid" "l_status m = Active"
  shows "k = k'"
proof -
  have "l \<in> set (dict_values (cs_leases c))"
    using l(1) unfolding get_lease_def by (rule dict_get_value)
  moreover have "m \<in> set (dict_values (cs_leases c))"
    using m(1) unfolding get_lease_def by (rule dict_get_value)
  ultimately have "l = m" using assms(1) l(2,3) m(2,3) unfolding one_active_lease_def
    by (intro length_filter_unique [where P = "\<lambda>l. l_task_id l = tid \<and> l_status l = Active"
          and xs = "dict_values (cs_leases c)"]) simp_all
  with leases_wfD(4) [OF assms(2)] l(1) m(1) show ?thesis unfolding get_lease_def by (metis (full_types))
qed

lemma leased_iff:
  assumes wf: "leases_wf c"
  shows "tid \<in> active_leased_task_ids now c \<longleftrightarrow>
         (\<exists>k l. get_lease c k = Some l \<and> l_task_id l = tid \<and> lease_live now l)"
proof -
  have "l \<in> set (dict_values (cs_leases c)) \<longleftrightarrow> (\<exists>k. get_lease c k = Some l)" for l
    using dict_get_value [of "cs_leases c"] dict_value_get [OF leases_wfD(1) [OF wf]]
    unfolding get_lease_def by blast
  then show ?thesis unfolding active_leased_task_ids_def lease_live_def by fastforce
qed

lemma lookup_live:
  assumes wf: "leases_wf c" and tid: "tid \<noteq> []" and nd: "no_due_lease now tid c"
  shows "get_lease_by_task c tid \<noteq> None \<longleftrightarrow> tid \<in> active_leased_task_ids now c"
proof
  assume "get_lease_by_task c tid \<noteq> None"
  then obtain l where "get_lease c (l_id l) = Some l" "l_task_id l = tid" "l_status l = Active"
    using get_lease_by_task_Some [OF wf] by blast
  with no_due_leaseD [OF nd] have "lease_live now l" by (force simp: lease_live_def lease_due_def)
  with \<open>get_lease c (l_id l) = Some l\<close> \<open>l_task_id l = tid\<close>
  show "tid \<in> active_leased_task_ids now c" unfolding leased_iff [OF wf] by blast
next
  assume "tid \<in> active_leased_task_ids now c"
  then show "get_lease_by_task c tid \<noteq> None"
    unfolding leased_iff [OF wf] using get_lease_by_task_None [OF tid] by (auto simp: lease_live_def)
qed

lemma sql_unassign_task_sim:
  assumes e: "encodes q c" and wf: "leases_wf c" and tid: "tid \<noteq> []" and nd: "no_due_lease now tid c"
  shows "sim (sql_unassign_task now tid q) (unassign_task now tid c)"
  unfolding sql_unassign_task_def unassign_task_def
  by (rule update_task_sim [OF e, where
        g = "\<lambda>t. t_status t \<notin> TERMINAL_TASK_STATUSES \<and> get_lease_by_task c tid = None"
        and h = "\<lambda>t. touch now (t\<lparr>t_assigned_to := None, t_status := Ready\<rparr>)"])
    (use lookup_live [OF wf tid nd] in \<open>auto simp: sql_leased_ids_encodes [OF e] row_touch_def touch_def
      row_of_def row_terminal_row_of [unfolded row_of_def] split: option.split\<close>)

lemma sql_set_dependencies_sim:
  assumes e: "encodes q c"
    and r: "\<And>t. get_task c tid = Some t \<Longrightarrow> deps \<noteq> [] \<Longrightarrow> t_status t \<noteq> Ready"
  shows "sim (sql_set_dependencies now tid deps q) (set_dependencies now tid deps c)"
proof -
  let ?u = "update_task tid (\<lambda>_. True) (\<lambda>r. row_touch now (r\<lparr>tr_depends_on := deps\<rparr>)) q"
  have s1: "sim ?u (set_dependencies now tid deps c)"
    unfolding set_dependencies_def
    by (rule update_task_sim [OF e, where g = "\<lambda>_. True" and h = "\<lambda>t. touch now (t\<lparr>t_depends_on := deps\<rparr>)"])
      (simp_all add: row_touch_def touch_def row_of_def split: option.split)
  have "update_task tid (has_status Ready) (row_status Pending) (snd ?u) = (False, snd ?u)"
    if "deps \<noteq> []" "fst ?u"
  proof -
    from that(2) obtain t where t: "get_task c tid = Some t"
      using e by (auto simp: update_task_def encodesD get_task_def split: option.splits)
    with r [OF t that(1)] e show ?thesis
      by (simp add: update_task_def encodesD get_task_def row_touch_def task_status_value_inj
          del: task_status_value.simps)
  qed
  then have "sql_set_dependencies now tid deps q = ?u"
    by (auto simp: sql_set_dependencies_def Let_def split: prod.split)
  with s1 show ?thesis by simp
qed

section \<open>Leases\<close>

lemma sql_create_lease_sim:
  assumes e: "encodes q c" and wf: "leases_wf c"
  shows "sim_ok (sql_create_lease now tid nid ttl q) (create_lease now tid nid ttl c)"
proof -
  have "dict_get (cs_leases c) (gen_id ''lease'' (cs_rng c) (cs_draws c)) = None"
    by (rule new_lease_id_fresh [OF wf])
  then show ?thesis
    using e by (simp add: sim_ok_def sql_create_lease_def sql_generate_id_def create_lease_eq Let_def
        insert_row_def encodesD dict_set_new) (simp add: encodes_def)
qed

lemma sql_revoke_lease_sim: "encodes q c \<Longrightarrow> sim (sql_revoke_lease k q) (revoke_lease k c)"
  by (auto simp: sim_def sql_revoke_lease_def revoke_lease_def encodes_def split: option.split)

lemma keyed_values:
  "leases_wf c \<Longrightarrow> (k, l) \<in> set (cs_leases c) \<Longrightarrow> l_id l = k \<and> get_lease c k = Some l"
  using leases_wfD(1,4) [of c] by (simp add: get_lease_def map_of_is_SomeI)

lemma update_where_cong:
  "(\<And>k r. (k, r) \<in> set d \<Longrightarrow> (if p r then f r else r) = g r) \<Longrightarrow>
   update_where p f d = map (\<lambda>(k, r). (k, g r)) d"
  by (auto simp: update_where_def)

text \<open>Marking by id is marking the due rows, the ids being the keys.\<close>

lemma mark_by_id:
  assumes wf: "leases_wf c"
  shows "update_where (\<lambda>l. l_id l \<in> set (map l_id (filter (lease_due now) (dict_values (cs_leases c)))))
           (\<lambda>l. l\<lparr>l_status := Expired\<rparr>) (cs_leases c) =
         map (\<lambda>(k, l). (k, mark_due now l)) (cs_leases c)"
proof -
  have eq: "l_id l \<in> l_id ` set (filter (lease_due now) (dict_values (cs_leases c))) \<longleftrightarrow> lease_due now l"
    if kl: "(k, l) \<in> set (cs_leases c)" for k l
  proof
    assume "l_id l \<in> l_id ` set (filter (lease_due now) (dict_values (cs_leases c)))"
    then obtain k' l' where l': "(k', l') \<in> set (cs_leases c)" "lease_due now l'" "l_id l' = l_id l" by auto
    with keyed_values [OF wf kl] keyed_values [OF wf l'(1)] show "lease_due now l" by simp
  next
    assume "lease_due now l"
    with kl show "l_id l \<in> l_id ` set (filter (lease_due now) (dict_values (cs_leases c)))" by force
  qed
  show ?thesis by (rule update_where_cong) (simp only: list.set_map eq mark_due_def)
qed

lemma sql_get_active_leases_sim:
  assumes e: "encodes q c" and wf: "leases_wf c"
  shows "sim (sql_get_active_leases now q) (get_active_leases now c)"
proof -
  let ?due = "filter (lease_due now) (dict_values (cs_leases c))"
  have f: "filter (\<lambda>l. l_status l = Active \<and> now < l_expires_at l) xs = filter (lease_live now) xs"
    "filter (\<lambda>l. l_status l = Active \<and> \<not> now < l_expires_at l) xs = filter (lease_due now) xs" for xs
    by (induction xs) (auto simp: lease_live_def lease_due_def)
  have same: "map (\<lambda>(k, l). (k, mark_due now l)) (cs_leases c) = cs_leases c" if "?due = []"
  proof -
    have "\<not> lease_due now l" if "(k, l) \<in> set (cs_leases c)" for k l
      using that \<open>?due = []\<close> by (force simp: filter_empty_iff)
    then show ?thesis by (intro map_idI) (auto simp: mark_due_def)
  qed
  show ?thesis
  proof (cases "?due = []")
    case True
    then show ?thesis using e same [OF True]
      by (simp add: sim_def sql_get_active_leases_def Let_def f get_active_leases_eq encodesD
          del: set_map set_filter) (simp add: encodes_def)
  next
    case False
    then show ?thesis using e mark_by_id [OF wf, of now]
      by (simp add: sim_def sql_get_active_leases_def Let_def f get_active_leases_eq encodesD
          del: set_map set_filter) (simp add: encodes_def)
  qed
qed

lemma one_active_find:
  assumes wf: "leases_wf c" and one: "one_active_lease tid c" and l: "get_lease c k = Some l"
    "l_task_id l = tid" "l_status l = Active"
  shows "find (\<lambda>l. l_task_id l = tid \<and> l_status l = Active) (dict_values (cs_leases c)) = Some l"
proof -
  have "l \<in> set (dict_values (cs_leases c))" using l(1) unfolding get_lease_def by (rule dict_get_value)
  then obtain m where m: "find (\<lambda>l. l_task_id l = tid \<and> l_status l = Active) (dict_values (cs_leases c)) = Some m"
    using l by (cases "find (\<lambda>l. l_task_id l = tid \<and> l_status l = Active) (dict_values (cs_leases c))")
      (auto simp: find_None_iff)
  then have "m \<in> set (dict_values (cs_leases c))" "l_task_id m = tid" "l_status m = Active"
    by (auto simp: find_Some_iff)
  moreover then obtain k' where "get_lease c k' = Some m"
    using dict_value_get [OF leases_wfD(1) [OF wf]] by (auto simp: get_lease_def)
  ultimately have "m = l" using one_active_leaseD [OF one wf l] l(1) by (metis option.inject)
  with m show ?thesis by simp
qed

lemma sql_get_lease_by_task_encodes:
  assumes e: "encodes q c" and wf: "leases_wf c" and one: "one_active_lease tid c"
  shows "sql_get_lease_by_task q tid = get_lease_by_task c tid"
proof (cases "tid = []")
  case True
  then show ?thesis by (simp add: sql_get_lease_by_task_def get_lease_by_task_def)
next
  case tid: False
  show ?thesis
  proof (cases "get_lease_by_task c tid")
    case None
    then have "\<not> (l_task_id l = tid \<and> l_status l = Active)" if "l \<in> set (dict_values (cs_leases c))" for l
      using get_lease_by_task_None [OF tid] dict_value_get [OF leases_wfD(1) [OF wf] that]
      by (auto simp: get_lease_def)
    then show ?thesis using None tid e by (auto simp: sql_get_lease_by_task_def find_None_iff encodesD)
  next
    case (Some l)
    then show ?thesis
      using get_lease_by_task_Some [OF wf Some] one_active_find [OF wf one, of "l_id l" l] tid e
      by (simp add: sql_get_lease_by_task_def encodesD)
  qed
qed

section \<open>The requeue path\<close>

lemma revoke_live_none:
  assumes "leases_wf c" "tid \<notin> active_leased_task_ids now c"
  shows "revoke_live now tid (cs_leases c) = cs_leases c"
proof -
  have "\<not> (l_task_id l = tid \<and> l_status l = Active \<and> now < l_expires_at l)" if "(k, l) \<in> set (cs_leases c)" for k l
    using that assms by (force simp: active_leased_task_ids_def)
  then show ?thesis unfolding revoke_live_def update_where_def by (intro map_idI) auto
qed

lemma revoke_live_one:
  assumes wf: "leases_wf c" and one: "one_active_lease tid c" and l: "get_lease c k = Some l"
    "l_task_id l = tid" "lease_live now l"
  shows "revoke_live now tid (cs_leases c) = dict_set k (l\<lparr>l_status := Revoked\<rparr>) (cs_leases c)"
proof -
  have "revoke_live now tid (cs_leases c) = map (\<lambda>(k', v). (k', if k' = k then l\<lparr>l_status := Revoked\<rparr> else v)) (cs_leases c)"
  proof -
    have "l_task_id l' = tid \<and> l_status l' = Active \<and> now < l_expires_at l' \<longleftrightarrow> k' = k"
      if "(k', l') \<in> set (cs_leases c)" for k' l'
    proof
      assume "l_task_id l' = tid \<and> l_status l' = Active \<and> now < l_expires_at l'"
      moreover have "get_lease c k' = Some l'" "l_status l = Active"
        using keyed_values [OF wf that] l(3) by (simp_all add: lease_live_def)
      ultimately show "k' = k" using one_active_leaseD [OF one wf _ _ _ l(1,2)] by blast
    next
      assume "k' = k"
      with l keyed_values [OF wf that] show "l_task_id l' = tid \<and> l_status l' = Active \<and> now < l_expires_at l'"
        by (simp add: lease_live_def)
    qed
    moreover have "l' = l" if "(k, l') \<in> set (cs_leases c)" for l'
      using l(1) keyed_values [OF wf that] by simp
    ultimately show ?thesis unfolding revoke_live_def update_where_def
      by (intro map_cong [OF refl]) (auto split: prod.split)
  qed
  also have "\<dots> = dict_set k (l\<lparr>l_status := Revoked\<rparr>) (cs_leases c)"
    using dict_set_map_keyed [OF leases_wfD(1) [OF wf] l(1) [unfolded get_lease_def],
        of "l\<lparr>l_status := Revoked\<rparr>" "\<lambda>_ v. v"] by simp
  finally show ?thesis .
qed

end
