(* ===== verification/SqlSim.thy ===== *)
theory SqlSim
  imports SqlRefine
begin

text \<open>
  The persistent store simulates the in-memory one: the compound operations (requeue, batch
  creation, synchronisation, the promotion and scheduling passes, the registries), then every
  operation of the interface as one step, and runs of them.
\<close>

section \<open>Requeue\<close>

lemma encodes_leases:
  "encodes q c \<Longrightarrow> encodes (q\<lparr>q_leases := ls\<rparr>) (c\<lparr>cs_leases := ls, cs_task_lease_index := ix\<rparr>)"
  by (simp add: encodes_def)

lemma sql_requeue_task_sim:
  assumes e: "encodes q c" and wf: "leases_wf c" and tid: "tid \<noteq> []"
    and nd: "no_due_lease now tid c" and one: "one_active_lease tid c"
    and ok: "tid \<in> active_leased_task_ids now c \<Longrightarrow>
      \<exists>t. get_task c tid = Some t \<and> t_status t \<notin> TERMINAL_TASK_STATUSES \<and> t_attempts t < task_retry_limit"
  shows "sim (sql_requeue_task now tid reason q) (requeue_task now tid reason c)"
proof -
  let ?g = "\<lambda>t. t_status t \<notin> TERMINAL_TASK_STATUSES \<and> t_attempts t < task_retry_limit"
  let ?h = "\<lambda>t. let t1 = touch now (t\<lparr>t_attempts := t_attempts t + 1, t_assigned_to := None, t_status := Ready\<rparr>)
     in if reason \<noteq> [] then t1\<lparr>t_fail_reason := Some reason\<rparr> else t1"
  let ?upd = "update_task tid (\<lambda>r. \<not> row_terminal r \<and> tr_attempts r < task_retry_limit)
       (\<lambda>r. row_touch now ((row_status Ready r)
              \<lparr>tr_assigned_to := None, tr_attempts := tr_attempts r + 1,
               tr_fail_reason := (if reason \<noteq> [] then Some reason else tr_fail_reason r)\<rparr>))"
  have upd: "sim (?upd q') (case get_task c' tid of None \<Rightarrow> (False, c')
              | Some t \<Rightarrow> if ?g t then (True, put_task tid (?h t) c') else (False, c'))" if "encodes q' c'" for q' c'
    by (rule update_task_sim [OF that, where g = ?g and h = ?h])
      (auto simp: row_touch_def touch_def row_of_def row_terminal_row_of [unfolded row_of_def] Let_def split: option.split)
  have put_get: "get_lease_by_task (put_task tid u c) tid = get_lease_by_task c tid" for u
    by (simp add: get_lease_by_task_def split: option.split)
  show ?thesis
  proof (cases "tid \<in> active_leased_task_ids now c")
    case False
    then have none: "get_lease_by_task c tid = None" using lookup_live [OF wf tid nd] by blast
    have "requeue_task now tid reason c = (case get_task c tid of None \<Rightarrow> (False, c)
              | Some t \<Rightarrow> if ?g t then (True, put_task tid (?h t) c) else (False, c))"
      using none by (auto simp: requeue_task_def Let_def put_get split: option.split)
    moreover have enc: "encodes (q\<lparr>q_leases := revoke_live now tid (q_leases q)\<rparr>) c"
      using e revoke_live_none [OF wf False] by (simp add: encodes_def)
    ultimately show ?thesis unfolding sql_requeue_task_def by (simp only: upd [OF enc])
  next
    case True
    then obtain l where l: "get_lease_by_task c tid = Some l"
      using lookup_live [OF wf tid nd] by blast
    from get_lease_by_task_Some [OF wf l] have ls: "get_lease c (l_id l) = Some l" "l_task_id l = tid" "l_status l = Active"
      by blast+
    with no_due_leaseD [OF nd] have live: "lease_live now l" by (force simp: lease_live_def lease_due_def)
    obtain t where t: "get_task c tid = Some t" "?g t" using ok [OF True] by blast
    let ?c' = "c\<lparr>cs_leases := dict_set (l_id l) (l\<lparr>l_status := Revoked\<rparr>) (cs_leases c),
                 cs_task_lease_index := dict_del tid (cs_task_lease_index c)\<rparr>"
    have rv: "snd (revoke_lease (l_id l) (put_task tid u c)) = put_task tid u ?c'" for u
      using ls by (simp add: revoke_lease_def get_lease_def put_task_def)
    have "requeue_task now tid reason c = (True, put_task tid (?h t) ?c')"
      using t l by (auto simp: requeue_task_def Let_def put_get rv)
    moreover have "encodes (q\<lparr>q_leases := revoke_live now tid (q_leases q)\<rparr>) ?c'"
      using encodes_leases [OF e] revoke_live_one [OF wf one ls(1,2) live] e by (simp add: encodesD)
    from upd [OF this] have "sim (sql_requeue_task now tid reason q) (True, put_task tid (?h t) ?c')"
      using t by (simp add: sql_requeue_task_def get_task_def)
    ultimately show ?thesis by simp
  qed
qed

section \<open>Creation\<close>

lemma plan_row_eq: "plan_row now p = row_of (build_task now Pending p)"
  by (simp add: plan_row_def default_row_def row_of_def build_task_def default_task_def DEFAULT_PRIORITY_def)

lemma promoted_row_eq:
  "(row_status Ready (row_of (build_task now Pending p)))\<lparr>tr_updated_at := now\<rparr> = row_of (build_task now Ready p)"
  by (simp add: row_of_def build_task_def default_task_def)

lemma encodes_tasks:
  "encodes q c \<Longrightarrow> encodes (q\<lparr>q_tasks := rows_of d\<rparr>) (c\<lparr>cs_tasks := d\<rparr>)"
  by (simp add: encodes_def)

text \<open>With dependencies the creation paths agree; without, the persistent store promotes at once.\<close>

lemma sql_create_held_sim:
  assumes e: "encodes q c" and new: "get_task c (pl_task_id p) = None" and deps: "pl_depends_on p \<noteq> []"
  shows "sim_ok (sql_create_task now p q) (create_task now p c)"
proof -
  let ?d = "cs_tasks c @ [(pl_task_id p, build_task now Pending p)]"
  have put: "put_task (pl_task_id p) (build_task now Pending p) c = c\<lparr>cs_tasks := ?d\<rparr>"
    using new by (simp add: put_task_def get_task_def dict_set_new)
  have q1: "q\<lparr>q_tasks := insert_or_ignore (pl_task_id p) (plan_row now p) (q_tasks q)\<rparr> = q\<lparr>q_tasks := rows_of ?d\<rparr>"
    using e new by (simp add: insert_or_ignore_def encodesD get_task_def plan_row_eq rows_of_append)
  have enc: "encodes (q\<lparr>q_tasks := rows_of ?d\<rparr>) (c\<lparr>cs_tasks := ?d\<rparr>)" by (rule encodes_tasks [OF e])
  have get: "sql_get_task (q\<lparr>q_tasks := rows_of ?d\<rparr>) (pl_task_id p) = Inr (Some (build_task now Pending p))"
    using sql_get_task_encodes [OF enc] new by (simp add: get_task_def map_add_def)
  show ?thesis
    using deps enc get by (simp add: sql_create_task_def create_task_def Let_def q1 put sim_ok_def)
qed

lemma put_fresh:
  "distinct (map t_id ts) \<Longrightarrow> (\<forall>t \<in> set ts. get_task c (t_id t) = None) \<Longrightarrow>
   fold (\<lambda>t. put_task (t_id t) t) ts c = c\<lparr>cs_tasks := cs_tasks c @ map (\<lambda>t. (t_id t, t)) ts\<rparr>"
proof (induction ts arbitrary: c)
  case (Cons t ts)
  have "put_task (t_id t) t c = c\<lparr>cs_tasks := cs_tasks c @ [(t_id t, t)]\<rparr>"
    using Cons.prems by (simp add: put_task_def get_task_def dict_set_new)
  moreover have "\<forall>u \<in> set ts. get_task (put_task (t_id t) t c) (t_id u) = None"
    using Cons.prems by (auto simp: rev_image_eqI)
  ultimately show ?case using Cons by simp
qed simp

lemma insert_fresh:
  "distinct (map f ps) \<Longrightarrow> (\<forall>p \<in> set ps. dict_get d (f p) = None) \<Longrightarrow>
   fold (\<lambda>p. insert_or_ignore (f p) (g p)) ps d = d @ map (\<lambda>p. (f p, g p)) ps"
proof (induction ps arbitrary: d)
  case (Cons p ps)
  have "insert_or_ignore (f p) (g p) d = d @ [(f p, g p)]"
    using Cons.prems by (simp add: insert_or_ignore_def)
  moreover have "\<forall>u \<in> set ps. dict_get (d @ [(f p, g p)]) (f u) = None"
    using Cons.prems by (auto simp: map_add_def rev_image_eqI)
  ultimately show ?case using Cons by simp
qed simp

definition batch_task :: "time \<Rightarrow> task_plan \<Rightarrow> task" where
  "batch_task now p = build_task now (if pl_depends_on p = [] then Ready else Pending) p"

lemma t_id_batch_task [simp]: "t_id (batch_task now p) = pl_task_id p"
  by (simp add: batch_task_def)

lemma sql_read_batch_encodes:
  "encodes q c \<Longrightarrow> (\<forall>p \<in> set ps. get_task c (pl_task_id p) = Some (batch_task now p)) \<Longrightarrow>
   sql_read_batch q ps = Inr (map (batch_task now) ps)"
  by (induction ps) (simp_all add: sql_get_task_encodes)

lemma sql_create_tasks_batch_sim:
  assumes e: "encodes q c" and d: "distinct (map pl_task_id ps)"
    and new: "\<forall>p \<in> set ps. get_task c (pl_task_id p) = None"
  shows "sim_ok (sql_create_tasks_batch now ps q) (create_tasks_batch now ps c)"
proof -
  let ?D = "cs_tasks c @ map (\<lambda>p. (pl_task_id p, batch_task now p)) ps"
  let ?ids = "map pl_task_id (filter (\<lambda>p. pl_depends_on p = []) ps)"
  let ?pr = "\<lambda>(k, r). (k, if k \<in> set ?ids \<and> has_status Pending r
                          then (row_status Ready r)\<lparr>tr_updated_at := now\<rparr> else r)"
  have mem: "create_tasks_batch now ps c = (map (batch_task now) ps, c\<lparr>cs_tasks := ?D\<rparr>)"
    using put_fresh [of "map (batch_task now) ps" c] d new
    by (simp add: create_tasks_batch_def batch_task_def [symmetric] comp_def)
  have rows: "fold (\<lambda>p. insert_or_ignore (pl_task_id p) (plan_row now p)) ps (q_tasks q) =
      rows_of (cs_tasks c) @ map (\<lambda>p. (pl_task_id p, plan_row now p)) ps"
    using insert_fresh [of pl_task_id ps "q_tasks q" "plan_row now"] d new e by (simp add: encodesD get_task_def)
  have old: "map ?pr (rows_of (cs_tasks c)) = rows_of (cs_tasks c)"
  proof (rule map_idI)
    fix x assume "x \<in> set (rows_of (cs_tasks c))"
    then have "fst x \<in> set (dict_keys (cs_tasks c))" by (force simp: rows_of_def)
    then have "dict_get (cs_tasks c) (fst x) \<noteq> None" by (simp add: map_of_eq_None_iff)
    then have "fst x \<notin> set ?ids" using new by (auto simp: get_task_def)
    then show "?pr x = x" by (simp add: split_def)
  qed
  have ids: "pl_task_id p \<in> set ?ids \<longleftrightarrow> pl_depends_on p = []" if "p \<in> set ps" for p
    using d that by (auto simp: distinct_map dest: inj_onD)
  have row: "?pr (pl_task_id p, plan_row now p) = (pl_task_id p, row_of (batch_task now p))" if "p \<in> set ps" for p
    using ids [OF that] promoted_row_eq [of now p]
    by (simp add: plan_row_eq batch_task_def del: set_map set_filter)
  have fresh: "map ?pr (map (\<lambda>p. (pl_task_id p, plan_row now p)) ps) =
      map (\<lambda>p. (pl_task_id p, row_of (batch_task now p))) ps"
    unfolding map_map comp_def by (rule map_cong [OF refl]) (rule row)
  have "map ?pr (rows_of (cs_tasks c) @ map (\<lambda>p. (pl_task_id p, plan_row now p)) ps) = rows_of ?D"
    unfolding map_append old fresh by (simp add: rows_of_def comp_def)
  moreover have "rows_of (cs_tasks c) @ map (\<lambda>p. (pl_task_id p, plan_row now p)) ps = rows_of ?D" if "?ids = []"
  proof -
    from that have id: "?pr = (\<lambda>x. x)" by auto
    from calculation show ?thesis unfolding id list.map_ident .
  qed
  ultimately have q1: "snd (sql_create_tasks_batch now ps q) = q\<lparr>q_tasks := rows_of ?D\<rparr>"
    "fst (sql_create_tasks_batch now ps q) = sql_read_batch (q\<lparr>q_tasks := rows_of ?D\<rparr>) ps"
    unfolding sql_create_tasks_batch_def Let_def rows by (simp_all del: map_append set_map set_filter)
  have enc: "encodes (q\<lparr>q_tasks := rows_of ?D\<rparr>) (c\<lparr>cs_tasks := ?D\<rparr>)" by (rule encodes_tasks [OF e])
  have got: "get_task (c\<lparr>cs_tasks := ?D\<rparr>) (pl_task_id p) = Some (batch_task now p)" if "p \<in> set ps" for p
  proof -
    have "dict_ok (map (\<lambda>p. (pl_task_id p, batch_task now p)) ps)" using d by (simp add: comp_def)
    then have "dict_get (map (\<lambda>p. (pl_task_id p, batch_task now p)) ps) (pl_task_id p) = Some (batch_task now p)"
      using that by (intro map_of_is_SomeI) auto
    then show ?thesis using new that by (simp add: get_task_def map_add_def)
  qed
  then have "sql_read_batch (q\<lparr>q_tasks := rows_of ?D\<rparr>) ps = Inr (map (batch_task now) ps)"
    by (intro sql_read_batch_encodes [OF enc]) blast
  with q1 enc show ?thesis by (simp add: sim_ok_def mem)
qed

section \<open>Synchronisation\<close>

lemma sql_sync_version_append:
  assumes "sql_sync_version q < sm_version m"
  shows "sql_sync_version (q\<lparr>q_sync_log := q_sync_log q @ [m]\<rparr>) = sm_version m"
proof (cases "map sm_version (q_sync_log q)")
  case Nil
  then show ?thesis by (simp add: sql_sync_version_def)
next
  case (Cons v vs)
  then show ?thesis using assms by (simp add: sql_sync_version_def max_def)
qed

text \<open>
  The in-memory store refuses a message for a task that is as new, finished or given no valid
  status; the persistent one writes what the message says.
\<close>

definition sync_plain :: "sync_message \<Rightarrow> cluster_state \<Rightarrow> bool" where
  "sync_plain m c \<longleftrightarrow>
     (case sm_task_state m of
        None \<Rightarrow> True
      | Some ts \<Rightarrow>
          parse_task_status (ts_status ts) \<noteq> None \<and>
          (case get_task c (ts_task_id ts) of
             None \<Rightarrow> True
           | Some t \<Rightarrow> t_version t < ts_version ts \<and>
               (t_status t \<in> TERMINAL_TASK_STATUSES \<longrightarrow>
                  t_status t = CancelRequested \<and> parse_task_status (ts_status ts) = Some Cancelled) \<and>
               (ts_assigned_to ts = None \<or> ts_assigned_to ts = Some [] \<longrightarrow>
                  ts_assigned_to ts = t_assigned_to t)))"

lemma encodes_sync:
  "encodes q c \<Longrightarrow> sql_sync_version q < sm_version m \<Longrightarrow>
   encodes (q\<lparr>q_sync_log := q_sync_log q @ [m]\<rparr>) (c\<lparr>cs_sync_version := sm_version m\<rparr>)"
  using sql_sync_version_append [of q m] by (simp add: encodes_def)

lemma sync_row_eq:
  assumes "parse_task_status (ts_status ts) = Some st" and "t_version t < ts_version ts"
    and "ts_assigned_to ts = None \<or> ts_assigned_to ts = Some [] \<longrightarrow> ts_assigned_to ts = t_assigned_to t"
  shows "(row_of t)\<lparr>tr_status := ts_status ts, tr_assigned_to := ts_assigned_to ts,
            tr_version := ts_version ts, tr_updated_at := now\<rparr> =
         row_of (sync_update now ts st (t_fail_reason t) t)"
  using assms parse_task_status_SomeD [OF assms(1)]
  by (auto simp: row_of_def sync_update_def max_def)

lemma sync_new_row_eq:
  assumes "parse_task_status (ts_status ts) = Some st"
  shows "(default_row (ts_task_id ts) (ts_title ts) (ts_status ts) now)
           \<lparr>tr_assigned_to := ts_assigned_to ts, tr_version := ts_version ts\<rparr> =
         row_of (sync_new_task now ts)"
  using assms parse_task_status_SomeD [OF assms]
  by (simp add: default_row_def row_of_def sync_new_task_def default_task_def DEFAULT_PRIORITY_def)

lemma sql_handle_sync_message_sim:
  assumes e: "encodes q c" and plain: "sync_plain m c"
  shows "sim (sql_handle_sync_message now m q) (handle_sync_message now m c)"
proof (cases "sm_version m \<le> cs_sync_version c")
  case True
  with e show ?thesis by (simp add: sim_def sql_handle_sync_message_def handle_sync_message_def encodesD)
next
  case new: False
  let ?q1 = "q\<lparr>q_sync_log := q_sync_log q @ [m]\<rparr>" and ?c1 = "c\<lparr>cs_sync_version := sm_version m\<rparr>"
  have e1: "encodes ?q1 ?c1" using encodes_sync [OF e] new e by (simp add: encodesD)
  show ?thesis
  proof (cases "sm_task_state m")
    case None
    with new e e1 show ?thesis
      by (simp add: sim_def sql_handle_sync_message_def handle_sync_message_def encodesD Let_def)
  next
    case ts: (Some ts)
    with plain obtain st where st: "parse_task_status (ts_status ts) = Some st" by (auto simp: sync_plain_def)
    show ?thesis
    proof (cases "get_task c (ts_task_id ts)")
      case None
      have "encodes (?q1\<lparr>q_tasks := q_tasks ?q1 @ [(ts_task_id ts, row_of (sync_new_task now ts))]\<rparr>)
          (put_task (ts_task_id ts) (sync_new_task now ts) ?c1)"
        using encodes_tasks [OF e1, of "cs_tasks c @ [(ts_task_id ts, sync_new_task now ts)]"] None e
        by (simp add: put_task_def dict_set_new get_task_def rows_of_append encodesD)
      moreover have "handle_sync_message now m c = (True, put_task (ts_task_id ts) (sync_new_task now ts) ?c1)"
        using new ts None by (simp add: handle_sync_message_def Let_def get_task_def sync_new_task_def)
      ultimately show ?thesis using new ts None e sync_new_row_eq [OF st, of now]
        by (simp add: sim_def sql_handle_sync_message_def encodesD get_task_def)
    next
      case t: (Some t)
      with plain ts st have p: "t_version t < ts_version ts"
        "t_status t \<in> TERMINAL_TASK_STATUSES \<Longrightarrow> t_status t = CancelRequested \<and> st = Cancelled"
        "ts_assigned_to ts = None \<or> ts_assigned_to ts = Some [] \<longrightarrow> ts_assigned_to ts = t_assigned_to t"
        by (auto simp: sync_plain_def)
      have t1: "get_task ?c1 (ts_task_id ts) = Some t" using t by (simp add: get_task_def)
      have u: "set_task_status now (ts_task_id ts) st [] ?c1 =
          (True, put_task (ts_task_id ts) (touch now (t\<lparr>t_status := st, t_fail_reason := t_fail_reason t\<rparr>)) ?c1)"
        using t1 p(2) by (auto simp: set_task_status_def Let_def)
      have m: "handle_sync_message now m c =
          (True, put_task (ts_task_id ts) (sync_update now ts st (t_fail_reason t) t) ?c1)"
        using new ts t1 st p(1) u by (simp add: handle_sync_message_def Let_def sync_update_eq)
      have "sim (update_task (ts_task_id ts) (\<lambda>_. True)
          (\<lambda>r. r\<lparr>tr_status := ts_status ts, tr_assigned_to := ts_assigned_to ts,
                 tr_version := ts_version ts, tr_updated_at := now\<rparr>) ?q1) (handle_sync_message now m c)"
        unfolding m
        by (rule update_task_sim [OF e1, where g = "\<lambda>_. True"
              and h = "\<lambda>_. sync_update now ts st (t_fail_reason t) t"])
          (use t1 sync_row_eq [OF st p(1,3), of now] in simp_all)
      then show ?thesis using new ts t e m
        by (simp add: sim_def sql_handle_sync_message_def encodesD get_task_def Let_def)
    qed
  qed
qed

section \<open>Logs and registries\<close>

lemma sql_append_recovery_event_sim:
  assumes e: "encodes q c"
    and new: "(if re_id ev = [] then gen_id ''recovery'' (cs_rng c) (cs_draws c) else re_id ev)
      \<notin> re_id ` set (cs_recovery_events c)"
  shows "sim_ok (sql_append_recovery_event now ev q) ((), append_recovery_event now ev c)"
proof -
  have none: "dict_get (map (\<lambda>e. (re_id e, e)) (cs_recovery_events c)) k = None"
    if "k \<notin> re_id ` set (cs_recovery_events c)" for k
    using that by (auto simp: map_of_eq_None_iff)
  show ?thesis
  proof (cases "re_id ev = []")
    case True
    with new none have "dict_get (map (\<lambda>e. (re_id e, e)) (cs_recovery_events c))
        (gen_id ''recovery'' (cs_rng c) (cs_draws c)) = None" by simp
    with True e show ?thesis
      by (simp add: sim_ok_def sql_append_recovery_event_def append_recovery_event_def sql_generate_id_def
          generate_id_def insert_row_def encodesD) (simp add: encodes_def)
  next
    case False
    with new none have "dict_get (map (\<lambda>e. (re_id e, e)) (cs_recovery_events c)) (re_id ev) = None" by simp
    with False e show ?thesis
      by (simp add: sim_ok_def sql_append_recovery_event_def append_recovery_event_def insert_row_def encodesD)
        (simp add: encodes_def)
  qed
qed

lemma sql_trigger_recovery_sim:
  assumes e: "encodes q c"
    and new: "gen_id ''recovery'' (cs_rng c) (cs_draws c) \<notin> re_id ` set (cs_recovery_events c)"
  shows "sim_ok (sql_trigger_recovery now nid q) ((), trigger_recovery_log now nid c)"
  using e new
  by (simp add: sql_trigger_recovery_def trigger_recovery_log_def sql_generate_id_def generate_id_def encodesD)
    (rule sql_append_recovery_event_sim, simp_all add: encodes_def)

lemma sql_record_decision_encodes: "encodes q c \<Longrightarrow> encodes (sql_record_decision d q) (record_decision d c)"
  by (simp add: sql_record_decision_def record_decision_def Let_def encodes_def)

lemma map_of_replace [simp]:
  "map_of (insert_or_replace k r d) = (map_of d)(k \<mapsto> r)"
  by (rule ext) (auto simp: insert_or_replace_def map_add_def split: option.split)

lemma map_of_AList_upd: "map_of (AList.update k v d) = (map_of d)(k \<mapsto> v)"
  by (rule ext) simp

lemma map_of_AList_del: "map_of (AList.delete k d) = (map_of d)(k := None)"
  by (rule ext) simp

lemma sql_federation_sim:
  assumes "encodes q c"
  shows "sim (sql_register_federation_cluster now cid nm ep q) (register_federation_cluster now cid nm ep c)"
    and "sim (sql_remove_federation_cluster cid q) (remove_federation_cluster cid c)"
  using assms
  by (auto simp: sim_def sql_register_federation_cluster_def register_federation_cluster_def Let_def
      sql_remove_federation_cluster_def remove_federation_cluster_def encodes_def map_of_AList_upd
      map_of_AList_del fun_upd_idem_iff)

lemma dict_del_absent: "dict_get d k = None \<Longrightarrow> dict_del k d = d"
  by (simp add: map_of_eq_None_iff)

lemma sql_hooks_sim:
  assumes e: "encodes q c"
  shows "gen_id ''hook'' (cs_rng c) (cs_draws c) \<notin> set (dict_keys (cs_hooks c)) \<Longrightarrow>
      sim_ok (sql_register_hook now url evs sec q) (register_hook now url evs sec c)"
    and "sim (sql_deregister_hook hid q) (deregister_hook hid c)"
    and "sql_list_hooks q = list_hooks c"
proof -
  assume "gen_id ''hook'' (cs_rng c) (cs_draws c) \<notin> set (dict_keys (cs_hooks c))"
  then have "dict_get (cs_hooks c) (gen_id ''hook'' (cs_rng c) (cs_draws c)) = None"
    by (simp add: map_of_eq_None_iff)
  then show "sim_ok (sql_register_hook now url evs sec q) (register_hook now url evs sec c)"
    using e by (simp add: sim_ok_def sql_register_hook_def register_hook_def sql_generate_id_def
        generate_id_def Let_def insert_row_def dict_set_new encodesD) (simp add: encodes_def)
next
  show "sim (sql_deregister_hook hid q) (deregister_hook hid c)"
    using e dict_del_absent [of "cs_hooks c" hid]
    by (auto simp: sim_def sql_deregister_hook_def deregister_hook_def encodes_def)
  show "sql_list_hooks q = list_hooks c" using e by (simp add: sql_list_hooks_def list_hooks_def encodesD)
qed

lemma sql_spawns_sim:
  assumes "encodes q c"
  shows "encodes (sql_record_task_spawn r q) (record_task_spawn r c)"
    and "sim (sql_delete_task_spawn tid q) (delete_task_spawn tid c)"
    and "sql_get_task_spawn q tid = get_task_spawn c tid"
  using assms
  by (simp_all add: sim_def sql_record_task_spawn_def record_task_spawn_def sql_delete_task_spawn_def
      delete_task_spawn_def sql_get_task_spawn_def get_task_spawn_def encodes_def map_of_AList_upd map_of_AList_del)

lemma sql_lanes_sim:
  assumes "encodes q c"
  shows "encodes (sql_record_lane w lk sid pf ro nd ca la lt q) (record_lane w lk sid pf ro nd ca la lt c)"
    and "encodes (sql_touch_lane_last_task lk tid q) (touch_lane_last_task lk tid c)"
    and "sim (sql_delete_lane lk q) (delete_lane lk c)"
    and "sql_get_lane q lk = get_lane c lk"
  using assms
  by (auto simp: sim_def sql_record_lane_def record_lane_def Let_def sql_touch_lane_last_task_def
      touch_lane_last_task_def sql_delete_lane_def delete_lane_def sql_get_lane_def get_lane_def
      encodes_def map_of_AList_upd map_of_AList_del split: option.split)

lemma sql_config_sim:
  assumes "encodes q c"
  shows "encodes (sql_set_config cf q) (set_config cf c)"
    and "fst (sql_get_config q) = get_config c" and "encodes (snd (sql_get_config q)) c"
    and "encodes (sql_set_config_path pa q) (set_config_path pa c)"
  using assms
  by (auto simp: sql_set_config_def set_config_def sql_get_config_def get_config_def sql_set_config_path_def
      set_config_path_def encodes_def config_of_def sql_sync_version_def split: option.splits)

end
