(* ===== verification/SqlPasses.thy ===== *)
theory SqlPasses
  imports SqlSim
begin

text \<open>
  The two passes of the persistent store compute what the in-memory passes compute, and every
  operation of the interface as one simulation step.
\<close>

section \<open>Promotion\<close>

lemma hold_reason_nonempty: "hold_reason ts t = Some r \<Longrightarrow> r \<noteq> []"
  by (auto simp: hold_reason_def Let_def split: option.splits if_splits prod.splits)

lemma hold_reason_not_landing: "landing_artifact t = None \<Longrightarrow> hold_reason ts t = None"
  by (simp add: hold_reason_def)

lemma sql_deps_met_encodes:
  "encodes q c \<Longrightarrow> sql_deps_met q deps = list_all (dep_completed c) deps"
  by (induction deps)
    (auto simp: dep_completed_def get_task_def encodesD task_status_value_inj
      simp del: task_status_value.simps split: option.split)

lemma deps_met_list: "deps_met c t = list_all (dep_completed c) (t_depends_on t)"
  by (simp add: deps_met_def)

lemma sql_trigger_one_sim:
  assumes e: "encodes q c" and t: "get_task c (t_id t) = Some t" and p: "t_status t = Pending"
  shows "sim_ok (sql_trigger_one now (row_of t) q) (trigger_one now (t_id t) c)"
proof -
  let ?tid = "t_id t"
  have row: "dict_get (q_tasks q) ?tid = Some (row_of t)" using e t by (simp add: encodesD get_task_def)
  have pend: "has_status Pending (row_of t)" using p by simp
  have upd: "update_task ?tid (has_status Pending) f q = (True, q\<lparr>q_tasks := dict_set ?tid (f (row_of t)) (q_tasks q)\<rparr>)" for f
    using row pend by (simp add: update_task_def del: row_of_simps)
  have enc: "encodes (q\<lparr>q_tasks := dict_set ?tid (row_of u) (q_tasks q)\<rparr>) (put_task ?tid u c)" for u
    using encodes_tasks [OF e] e by (simp add: put_task_def encodesD dict_set_rows_of)
  have ready: "(row_status Ready (row_of t))\<lparr>tr_updated_at := now\<rparr> = row_of (t\<lparr>t_status := Ready, t_updated_at := now\<rparr>)"
    and held: "\<And>r. (row_of t)\<lparr>tr_fail_reason := Some r, tr_updated_at := now\<rparr> = row_of (t\<lparr>t_fail_reason := Some r, t_updated_at := now\<rparr>)"
    by (simp_all add: row_of_def)
  have all: "sql_get_all_tasks q = Inr (dict_values (cs_tasks c))"
    using sql_get_all_tasks_encodes [OF e] by (simp add: get_all_tasks_def)
  show ?thesis
  proof (cases "deps_met c t")
    case False
    then show ?thesis using e t p
      by (simp add: sim_ok_def sql_trigger_one_def trigger_one_def sql_deps_met_encodes deps_met_list)
  next
    case deps: True
    show ?thesis
    proof (cases "hold_reason (dict_values (cs_tasks c)) t")
      case None
      have "sql_trigger_one now (row_of t) q =
          (Inr True, q\<lparr>q_tasks := dict_set ?tid (row_of (t\<lparr>t_status := Ready, t_updated_at := now\<rparr>)) (q_tasks q)\<rparr>)"
        using deps e row None all ready
        by (simp add: sql_trigger_one_def sql_deps_met_encodes deps_met_list upd Let_def
            del: task_status_value.simps)
      then show ?thesis using None deps t p enc by (simp add: sim_ok_def trigger_one_def)
    next
      case (Some r)
      then have l: "landing_artifact t \<noteq> None" using hold_reason_not_landing by fastforce
      have fr: "(case t_fail_reason t of None \<Rightarrow> [] | Some x \<Rightarrow> x) = r \<longleftrightarrow> t_fail_reason t = Some r"
        using hold_reason_nonempty [OF Some] by (auto split: option.split)
      have "sql_trigger_one now (row_of t) q = (Inr False,
          if t_fail_reason t \<noteq> Some r
          then q\<lparr>q_tasks := dict_set ?tid (row_of (t\<lparr>t_fail_reason := Some r, t_updated_at := now\<rparr>)) (q_tasks q)\<rparr>
          else q)"
        using deps e row Some all l fr held
        by (auto simp: sql_trigger_one_def sql_deps_met_encodes deps_met_list upd Let_def
            simp del: task_status_value.simps)
      then show ?thesis using Some deps t p enc e by (simp add: sim_ok_def trigger_one_def)
    qed
  qed
qed

lemma trigger_one_other: "k \<noteq> tid \<Longrightarrow> get_task (snd (trigger_one now tid c)) k = get_task c k"
  by (simp add: trigger_one_def split: option.split)

text \<open>
  The persistent pass goes through the rows that were pending when it began, the in-memory one
  through all tasks; the others it leaves alone.
\<close>

lemma sql_trigger_loop_sim:
  assumes "encodes q c" and "dict_ok ds" and "\<forall>(k, t) \<in> set ds. t_id t = k \<and> get_task c k = Some t"
  shows "sim_ok (sql_trigger_loop now (map row_of (filter (\<lambda>t. t_status t = Pending) (dict_values ds))) q)
           (trigger_loop now (dict_keys ds) c)"
  using assms
proof (induction ds arbitrary: q c)
  case Nil
  then show ?case by (simp add: sim_ok_def)
next
  case (Cons x ds)
  obtain k t where x: "x = (k, t)" by (cases x)
  with Cons.prems have k: "t_id t = k" "get_task c k = Some t" and ds: "dict_ok ds" by auto
  let ?m = "trigger_one now k c"
  have rest: "\<forall>(j, u) \<in> set ds. t_id u = j \<and> get_task (snd ?m) j = Some u"
  proof clarify
    fix j u assume "(j, u) \<in> set ds"
    then have "j \<noteq> k" using Cons.prems(2) x by force
    then show "t_id u = j \<and> get_task (snd ?m) j = Some u"
      using Cons.prems(3) \<open>(j, u) \<in> set ds\<close> by (auto simp: trigger_one_other)
  qed
  show ?case
  proof (cases "t_status t = Pending")
    case False
    then have "?m = (False, c)" using k by (simp add: trigger_one_def)
    with Cons.IH [OF Cons.prems(1) ds] rest False x show ?thesis by (simp add: Let_def split_def)
  next
    case True
    have s1: "sim_ok (sql_trigger_one now (row_of t) q) ?m"
      using sql_trigger_one_sim [OF Cons.prems(1), of t now] k True by simp
    obtain p q1 where q1: "sql_trigger_one now (row_of t) q = (p, q1)" by (cases "sql_trigger_one now (row_of t) q")
    with s1 have p: "p = Inr (fst ?m)" and e1: "encodes q1 (snd ?m)" by (simp_all add: sim_ok_def)
    let ?r = "sql_trigger_loop now (map row_of (filter (\<lambda>t. t_status t = Pending) (dict_values ds))) q1"
    have "sim_ok ?r (trigger_loop now (dict_keys ds) (snd ?m))" by (rule Cons.IH [OF e1 ds rest])
    then show ?thesis using x True q1 p
      by (cases ?r) (simp add: sim_ok_def Let_def split_def)
  qed
qed

lemma sql_trigger_pending_sim:
  assumes e: "encodes q c" and wf: "tasks_wf c"
  shows "sim_ok (sql_trigger_pending_tasks now q) (trigger_pending_tasks now c)"
proof -
  have keyed: "\<forall>(k, t) \<in> set (cs_tasks c). t_id t = k \<and> get_task c k = Some t"
    using wf by (auto simp: tasks_wf_def get_task_def)
  have rows: "filter (has_status Pending) (dict_values (q_tasks q)) =
      map row_of (filter (\<lambda>t. t_status t = Pending) (dict_values (cs_tasks c)))"
    using e by (simp add: encodesD filter_map comp_def task_status_value_inj del: task_status_value.simps map_map)
  have "sim_ok (sql_trigger_loop now (filter (has_status Pending) (dict_values (q_tasks q))) q)
      (trigger_pending_tasks now c)"
    unfolding rows trigger_pending_tasks_def
    by (rule sql_trigger_loop_sim [OF e _ keyed]) (use wf in \<open>simp add: tasks_wf_def\<close>)
  then show ?thesis unfolding sql_trigger_pending_tasks_def sim_ok_def by (auto split: prod.splits sum.splits)
qed

section \<open>Scheduling\<close>

lemma map_of_group_count:
  "map_of (group_count xs) k = (if k \<in> set xs then Some (int (length (filter (\<lambda>y. y = k) xs))) else None)"
proof -
  have "map_of (map (\<lambda>x. (x, f x)) ys) k = (if k \<in> set ys then Some (f k) else None)" for ys and f :: "'a \<Rightarrow> int"
    by (induction ys) auto
  then show ?thesis by (simp add: group_count_def)
qed

lemma map_of_filter_key: "map_of (filter (\<lambda>(a, _). P a) d) k = (if P k then map_of d k else None)"
  by (induction d) auto

lemma sql_active_counts_eq:
  "dict_get_or (sql_active_counts (map row_of ts)) k 0 = dict_get_or (active_counts ts) k 0"
proof -
  let ?P = "\<lambda>t. t_active t \<and> t_assigned_to t \<noteq> None"
  let ?xs = "map (\<lambda>t. the (t_assigned_to t)) (filter ?P ts)"
  have rows: "map (\<lambda>r. the (tr_assigned_to r)) (filter (\<lambda>r. row_active r \<and> tr_assigned_to r \<noteq> None) (map row_of ts)) = ?xs"
    by (simp add: filter_map comp_def)
  have len: "length (filter (\<lambda>y. y = k) ?xs) =
      length (filter (\<lambda>t. (t_active t \<and> t_assigned_to t \<noteq> None \<and> t_assigned_to t \<noteq> Some []) \<and> the (t_assigned_to t) = k) ts)"
    if "k \<noteq> []"
    using that by (induction ts) auto
  have mem: "dict_get_or (active_counts ts) k 0 = int (length (filter (\<lambda>t. (t_active t \<and> t_assigned_to t \<noteq> None \<and>
      t_assigned_to t \<noteq> Some []) \<and> the (t_assigned_to t) = k) ts))"
    unfolding active_counts_def
    by (subst dict_get_or_fold_bump [where P = "\<lambda>t. t_active t \<and> t_assigned_to t \<noteq> None \<and> t_assigned_to t \<noteq> Some []"
          and f = "\<lambda>t. the (t_assigned_to t)"]) (simp add: dict_get_or_def)
  have sql: "dict_get_or (sql_active_counts (map row_of ts)) k 0 =
      (if k \<noteq> [] then int (length (filter (\<lambda>y. y = k) ?xs)) else 0)"
    unfolding sql_active_counts_def rows dict_get_or_def map_of_filter_key map_of_group_count
    by (auto simp: filter_empty_iff)
  show ?thesis
  proof (cases "k = []")
    case True
    then have "filter (\<lambda>t. (t_active t \<and> t_assigned_to t \<noteq> None \<and> t_assigned_to t \<noteq> Some []) \<and> the (t_assigned_to t) = k) ts = []"
      by (auto simp: filter_empty_iff)
    then show ?thesis unfolding mem sql using True by (simp del: filter_empty_iff)
  next
    case False
    then show ?thesis unfolding mem sql len [OF False] by simp
  qed
qed

definition same_counts :: "counts \<Rightarrow> counts \<Rightarrow> bool" where
  "same_counts a b \<longleftrightarrow> (\<forall>k. dict_get_or a k 0 = dict_get_or b k 0)"

lemma same_counts_bump: "same_counts a b \<Longrightarrow> same_counts (bump k a) (bump k b)"
  by (simp add: same_counts_def bump_get)

lemma choose_loop_cong: "same_counts a b \<Longrightarrow> choose_loop f r a ns best = choose_loop f r b ns best"
  by (induction ns arbitrary: best) (simp_all add: same_counts_def Let_def split: option.split)

lemma choose_pinned_loop_cong: "same_counts a b \<Longrightarrow> choose_pinned_loop r a p ns = choose_pinned_loop r b p ns"
  by (induction ns) (simp_all add: same_counts_def)

lemma choose_pinned_cong: "same_counts a b \<Longrightarrow> choose_pinned f r ns a p = choose_pinned f r ns b p"
  by (simp add: choose_pinned_def fair_choose_def choose_loop_cong choose_pinned_loop_cong Let_def)

lemma lane_pin_encodes:
  assumes "encodes q c"
  shows "lane_pin (sql_lane_nodes q) t = lane_pin (lane_nodes c) t"
  using encodesD(4) [OF assms]
  by (simp add: lane_pin_def sql_lane_nodes_def lane_nodes_def dict_get_or_def map_of_mark_due)

lemma sql_ready_tasks_encodes:
  "encodes q c \<Longrightarrow> sql_ready_tasks now q (dict_values (cs_tasks c)) = ready_tasks now c"
  by (simp add: sql_ready_tasks_def ready_tasks_def Let_def sql_leased_ids_encodes filter_sort conj_ac)

lemma sql_assign_task_sim:
  assumes e: "encodes q c" and wf: "leases_wf c" and t: "get_task c (t_id t) = Some t"
  shows "sim_ok (sql_assign_task now t n p q) ((), assign_task now t n p c)"
proof -
  let ?u = "touch now (t\<lparr>t_status := Running, t_assigned_to := Some (n_id n)\<rparr>)"
  let ?q1 = "snd (update_task (t_id t) (\<lambda>_. True)
      (\<lambda>r. row_touch now ((row_status Running r)\<lparr>tr_assigned_to := Some (n_id n)\<rparr>)) q)"
  let ?q2 = "?q1\<lparr>q_fair_scheduler := mark_picked (n_id n) (q_fair_scheduler ?q1)\<rparr>"
  let ?c2 = "(put_task (t_id t) ?u c)\<lparr>cs_fair_scheduler := mark_picked (n_id n) (cs_fair_scheduler (put_task (t_id t) ?u c))\<rparr>"
  have "sim (update_task (t_id t) (\<lambda>_. True)
      (\<lambda>r. row_touch now ((row_status Running r)\<lparr>tr_assigned_to := Some (n_id n)\<rparr>)) q) (True, put_task (t_id t) ?u c)"
    by (rule update_task_sim [OF e, where g = "\<lambda>_. True"
          and h = "\<lambda>t. touch now (t\<lparr>t_status := Running, t_assigned_to := Some (n_id n)\<rparr>)"])
      (use t in \<open>simp_all add: row_touch_def touch_def row_of_def\<close>)
  then have "encodes ?q1 (put_task (t_id t) ?u c)" by (simp add: sim_def)
  then have e2: "encodes ?q2 ?c2" by (simp add: encodes_def)
  have "leases_wf ?c2" using wf by (simp add: leases_wf_def)
  from sql_create_lease_sim [OF e2 this]
  have s3: "sim_ok (sql_create_lease now (t_id t) (n_id n) SCHEDULER_ASSIGNED_TTL ?q2)
      (create_lease now (t_id t) (n_id n) SCHEDULER_ASSIGNED_TTL ?c2)" .
  then show ?thesis
    by (cases "sql_create_lease now (t_id t) (n_id n) SCHEDULER_ASSIGNED_TTL ?q2")
      (auto simp: sim_ok_def sql_assign_task_def assign_task_def Let_def intro: sql_record_decision_encodes)
qed

lemma sql_schedule_loop_sim:
  assumes "encodes q c" "cs_wf c" "loop_tasks ts c" "same_counts a b" "\<And>t. lane_pin l t = lane_pin l' t"
  shows "sim_ok (sql_schedule_loop now ns l ts a q) (schedule_loop now ns l' ts b c)"
  using assms(1-4)
proof (induction ts arbitrary: a b q c)
  case Nil
  then show ?case by (simp add: sim_ok_def)
next
  case (Cons t ts)
  have f: "q_fair_scheduler q = cs_fair_scheduler c" using Cons.prems(1) by (rule encodesD(8))
  obtain ch p where ch: "choose_pinned (cs_fair_scheduler c) (t_requires t) ns b (lane_pin l' t) = (ch, p)"
    by (cases "choose_pinned (cs_fair_scheduler c) (t_requires t) ns b (lane_pin l' t)")
  then have ch': "choose_pinned (q_fair_scheduler q) (t_requires t) ns a (lane_pin l t) = (ch, p)"
    using choose_pinned_cong [OF Cons.prems(4)] assms(5) f by simp
  show ?case
  proof (cases ch)
    case None
    have "loop_tasks ts c" using Cons.prems(3) by (rule loop_tasks_parked)
    from Cons.IH [OF Cons.prems(1,2) this Cons.prems(4)] None ch ch' show ?thesis by simp
  next
    case (Some n)
    have t: "get_task c (t_id t) = Some t" using Cons.prems(3) by (rule loop_tasks_head)
    have s1: "sim_ok (sql_assign_task now t n p q) ((), assign_task now t n p c)"
      by (rule sql_assign_task_sim [OF Cons.prems(1) cs_wfD(3) [OF Cons.prems(2)] t])
    obtain q1 where q1: "sql_assign_task now t n p q = (Inr (), q1)" and e1: "encodes q1 (assign_task now t n p c)"
      using s1 by (cases "sql_assign_task now t n p q") (auto simp: sim_ok_def)
    have "sim_ok (sql_schedule_loop now ns l ts (bump (n_id n) a) q1)
        (schedule_loop now ns l' ts (bump (n_id n) b) (assign_task now t n p c))"
      by (rule Cons.IH [OF e1 assign_task_wf [OF Cons.prems(2) t] loop_tasks_placed [OF Cons.prems(3)]
            same_counts_bump [OF Cons.prems(4)]])
    then show ?thesis using ch ch' Some q1
      by (cases "sql_schedule_loop now ns l ts (bump (n_id n) a) q1") (auto simp: sim_ok_def Let_def split_def)
  qed
qed

lemma sql_schedule_sim:
  assumes e: "encodes q c" and wf: "cs_wf c"
  shows "sim_ok (sql_schedule_pending_detailed now q) (schedule_pending_detailed now c)"
proof -
  have counts: "same_counts (sql_active_counts (dict_values (q_tasks q))) (active_counts (dict_values (cs_tasks c)))"
    using sql_active_counts_eq e by (simp add: same_counts_def encodesD del: map_map)
  have online: "filter (\<lambda>n. n_status n = Online) (dict_values (q_nodes q)) = online_nodes c"
    using e by (simp add: online_nodes_def encodesD)
  have all: "sql_get_all_tasks q = Inr (dict_values (cs_tasks c))"
    using sql_get_all_tasks_encodes [OF e] by (simp add: get_all_tasks_def)
  have "sim_ok (sql_schedule_loop now (online_nodes c) (sql_lane_nodes q) (ready_tasks now c)
          (sql_active_counts (dict_values (q_tasks q))) q)
      (schedule_loop now (online_nodes c) (lane_nodes c) (ready_tasks now c) (active_counts (dict_values (cs_tasks c))) c)"
    by (rule sql_schedule_loop_sim [OF e wf loop_tasks_ready [OF wf] counts lane_pin_encodes [OF e]])
  then show ?thesis using e
    by (auto simp: sql_schedule_pending_detailed_def schedule_pending_detailed_def Let_def online all
        sql_ready_tasks_encodes [OF e] sim_ok_def split: prod.splits sum.splits)
qed

section \<open>The interface as one step\<close>

datatype store_op =
  RegisterNode node
| Heartbeat string rat "rat option" string "rat option" "int option" "bool option"
| Capabilities string "string list"
| Drain string bool
| MaxConcurrent string int
| InstanceToken string string
| NodeStatus string node_status string
| CreateTask task_plan
| CreateBatch "task_plan list"
| GetTask string
| AllTasks
| SetResult string "string option"
| SetStatus string task_status string
| Unassign string
| Unblock string
| SetBallot string "ballot option"
| CancelRequeue string bool
| UnblockReady string
| Requeue string string
| SetDependencies string "string list"
| CreateLease string string duration
| RevokeLease string
| ActiveLeases
| LeaseByTask string
| SyncMessage sync_message
| RecoveryEvent recovery_event
| TriggerRecovery string
| RecordDecision scheduling_decision
| TriggerPending
| SchedulePending
| FederationRegister string string string
| FederationRemove string
| HookRegister string "event_type list" string
| HookDeregister string
| ListHooks
| RecordSpawn spawn
| DeleteSpawn string
| GetSpawn string
| RecordLane rat string string string string string "rat option" "rat option" string
| TouchLane string string
| DeleteLane string
| GetLane string
| GetConfig
| SetConfig "(string, string) dict"

datatype reply =
  Done
| Answer bool
| TaskIs "task option"
| TasksAre "task list"
| LeaseIs "lease option"
| LeasesAre "lease list"
| Count nat
| Placed "assignment list"
| ClusterIs remote_cluster
| HooksAre "hook list"
| SpawnIs "spawn option"
| LaneIs "lane option"
| ConfigIs "(string, string) dict option"
| Raised sql_error

abbreviation reply_with :: "('a \<Rightarrow> reply) \<Rightarrow> 'a \<times> 's \<Rightarrow> reply \<times> 's" where
  "reply_with f x \<equiv> (f (fst x), snd x)"

definition reply_or_raise :: "('a \<Rightarrow> reply) \<Rightarrow> (sql_error + 'a) \<times> 's \<Rightarrow> reply \<times> 's" where
  "reply_or_raise f x = (case fst x of Inl e \<Rightarrow> Raised e | Inr v \<Rightarrow> f v, snd x)"

fun mem_do :: "time \<Rightarrow> store_op \<Rightarrow> cluster_state \<Rightarrow> reply \<times> cluster_state" where
  "mem_do now (RegisterNode n) c = (Done, register_node n c)"
| "mem_do now (Heartbeat nid ld df sr cpu lc de) c = (Done, update_heartbeat now nid ld df sr cpu lc de c)"
| "mem_do now (Capabilities nid caps) c = (Done, update_capabilities nid caps c)"
| "mem_do now (Drain nid b) c = (Done, set_drained nid b c)"
| "mem_do now (MaxConcurrent nid m) c = (Done, update_max_concurrent nid m c)"
| "mem_do now (InstanceToken nid tok) c = (Done, update_instance_token nid tok c)"
| "mem_do now (NodeStatus nid st r) c = (Done, set_node_status nid st r c)"
| "mem_do now (CreateTask p) c = reply_with (TaskIs \<circ> Some) (create_task now p c)"
| "mem_do now (CreateBatch ps) c = reply_with TasksAre (create_tasks_batch now ps c)"
| "mem_do now (GetTask tid) c = (TaskIs (get_task c tid), c)"
| "mem_do now AllTasks c = (TasksAre (get_all_tasks c), c)"
| "mem_do now (SetResult tid r) c = reply_with Answer (set_task_result now tid r c)"
| "mem_do now (SetStatus tid st fr) c = reply_with Answer (set_task_status now tid st fr c)"
| "mem_do now (Unassign tid) c = reply_with Answer (unassign_task now tid c)"
| "mem_do now (Unblock tid) c = reply_with Answer (unblock_task now tid c)"
| "mem_do now (SetBallot tid b) c = reply_with Answer (set_task_ballot now tid b c)"
| "mem_do now (CancelRequeue tid b) c = reply_with Answer (set_task_cancel_requeue now tid b c)"
| "mem_do now (UnblockReady tid) c = reply_with Answer (unblock_to_ready now tid c)"
| "mem_do now (Requeue tid r) c = reply_with Answer (requeue_task now tid r c)"
| "mem_do now (SetDependencies tid ds) c = reply_with Answer (set_dependencies now tid ds c)"
| "mem_do now (CreateLease tid nid ttl) c = reply_with (LeaseIs \<circ> Some) (create_lease now tid nid ttl c)"
| "mem_do now (RevokeLease k) c = reply_with Answer (revoke_lease k c)"
| "mem_do now ActiveLeases c = reply_with LeasesAre (get_active_leases now c)"
| "mem_do now (LeaseByTask tid) c = (LeaseIs (get_lease_by_task c tid), c)"
| "mem_do now (SyncMessage m) c = reply_with Answer (handle_sync_message now m c)"
| "mem_do now (RecoveryEvent e) c = (Done, append_recovery_event now e c)"
| "mem_do now (TriggerRecovery nid) c = (Done, trigger_recovery_log now nid c)"
| "mem_do now (RecordDecision d) c = (Done, record_decision d c)"
| "mem_do now TriggerPending c = reply_with Count (trigger_pending_tasks now c)"
| "mem_do now SchedulePending c = reply_with Placed (schedule_pending_detailed now c)"
| "mem_do now (FederationRegister cid nm ep) c = reply_with ClusterIs (register_federation_cluster now cid nm ep c)"
| "mem_do now (FederationRemove cid) c = reply_with Answer (remove_federation_cluster cid c)"
| "mem_do now (HookRegister u evs sec) c = reply_with (\<lambda>h. HooksAre [h]) (register_hook now u evs sec c)"
| "mem_do now (HookDeregister h) c = reply_with Answer (deregister_hook h c)"
| "mem_do now ListHooks c = (HooksAre (list_hooks c), c)"
| "mem_do now (RecordSpawn r) c = (Done, record_task_spawn r c)"
| "mem_do now (DeleteSpawn tid) c = reply_with Answer (delete_task_spawn tid c)"
| "mem_do now (GetSpawn tid) c = (SpawnIs (get_task_spawn c tid), c)"
| "mem_do now (RecordLane w lk sid pf ro nd ca la lt) c = (Done, record_lane w lk sid pf ro nd ca la lt c)"
| "mem_do now (TouchLane lk tid) c = (Done, touch_lane_last_task lk tid c)"
| "mem_do now (DeleteLane lk) c = reply_with Answer (delete_lane lk c)"
| "mem_do now (GetLane lk) c = (LaneIs (get_lane c lk), c)"
| "mem_do now GetConfig c = (ConfigIs (get_config c), c)"
| "mem_do now (SetConfig cf) c = (Done, set_config cf c)"

fun sql_do :: "time \<Rightarrow> store_op \<Rightarrow> sql_store \<Rightarrow> reply \<times> sql_store" where
  "sql_do now (RegisterNode n) q = (Done, sql_register_node n q)"
| "sql_do now (Heartbeat nid ld df sr cpu lc de) q = (Done, sql_update_heartbeat now nid ld df sr cpu lc de q)"
| "sql_do now (Capabilities nid caps) q = (Done, sql_update_capabilities nid caps q)"
| "sql_do now (Drain nid b) q = (Done, sql_set_drained nid b q)"
| "sql_do now (MaxConcurrent nid m) q = (Done, sql_update_max_concurrent nid m q)"
| "sql_do now (InstanceToken nid tok) q = (Done, sql_update_instance_token nid tok q)"
| "sql_do now (NodeStatus nid st r) q = (Done, sql_set_node_status nid st r q)"
| "sql_do now (CreateTask p) q = reply_or_raise (TaskIs \<circ> Some) (sql_create_task now p q)"
| "sql_do now (CreateBatch ps) q = reply_or_raise TasksAre (sql_create_tasks_batch now ps q)"
| "sql_do now (GetTask tid) q = reply_or_raise TaskIs (sql_get_task q tid, q)"
| "sql_do now AllTasks q = reply_or_raise TasksAre (sql_get_all_tasks q, q)"
| "sql_do now (SetResult tid r) q = reply_with Answer (sql_set_task_result now tid r q)"
| "sql_do now (SetStatus tid st fr) q = reply_with Answer (sql_set_task_status now tid st fr q)"
| "sql_do now (Unassign tid) q = reply_with Answer (sql_unassign_task now tid q)"
| "sql_do now (Unblock tid) q = reply_with Answer (sql_unblock_task now tid q)"
| "sql_do now (SetBallot tid b) q = reply_with Answer (sql_set_task_ballot now tid b q)"
| "sql_do now (CancelRequeue tid b) q = reply_with Answer (sql_set_task_cancel_requeue now tid b q)"
| "sql_do now (UnblockReady tid) q = reply_with Answer (sql_unblock_to_ready now tid q)"
| "sql_do now (Requeue tid r) q = reply_with Answer (sql_requeue_task now tid r q)"
| "sql_do now (SetDependencies tid ds) q = reply_with Answer (sql_set_dependencies now tid ds q)"
| "sql_do now (CreateLease tid nid ttl) q = reply_or_raise (LeaseIs \<circ> Some) (sql_create_lease now tid nid ttl q)"
| "sql_do now (RevokeLease k) q = reply_with Answer (sql_revoke_lease k q)"
| "sql_do now ActiveLeases q = reply_with LeasesAre (sql_get_active_leases now q)"
| "sql_do now (LeaseByTask tid) q = (LeaseIs (sql_get_lease_by_task q tid), q)"
| "sql_do now (SyncMessage m) q = reply_with Answer (sql_handle_sync_message now m q)"
| "sql_do now (RecoveryEvent e) q = reply_or_raise (\<lambda>_. Done) (sql_append_recovery_event now e q)"
| "sql_do now (TriggerRecovery nid) q = reply_or_raise (\<lambda>_. Done) (sql_trigger_recovery now nid q)"
| "sql_do now (RecordDecision d) q = (Done, sql_record_decision d q)"
| "sql_do now TriggerPending q = reply_or_raise Count (sql_trigger_pending_tasks now q)"
| "sql_do now SchedulePending q = reply_or_raise Placed (sql_schedule_pending_detailed now q)"
| "sql_do now (FederationRegister cid nm ep) q = reply_with ClusterIs (sql_register_federation_cluster now cid nm ep q)"
| "sql_do now (FederationRemove cid) q = reply_with Answer (sql_remove_federation_cluster cid q)"
| "sql_do now (HookRegister u evs sec) q = reply_or_raise (\<lambda>h. HooksAre [h]) (sql_register_hook now u evs sec q)"
| "sql_do now (HookDeregister h) q = reply_with Answer (sql_deregister_hook h q)"
| "sql_do now ListHooks q = (HooksAre (sql_list_hooks q), q)"
| "sql_do now (RecordSpawn r) q = (Done, sql_record_task_spawn r q)"
| "sql_do now (DeleteSpawn tid) q = reply_with Answer (sql_delete_task_spawn tid q)"
| "sql_do now (GetSpawn tid) q = (SpawnIs (sql_get_task_spawn q tid), q)"
| "sql_do now (RecordLane w lk sid pf ro nd ca la lt) q = (Done, sql_record_lane w lk sid pf ro nd ca la lt q)"
| "sql_do now (TouchLane lk tid) q = (Done, sql_touch_lane_last_task lk tid q)"
| "sql_do now (DeleteLane lk) q = reply_with Answer (sql_delete_lane lk q)"
| "sql_do now (GetLane lk) q = (LaneIs (sql_get_lane q lk), q)"
| "sql_do now GetConfig q = reply_with ConfigIs (sql_get_config q)"
| "sql_do now (SetConfig cf) q = (Done, sql_set_config cf q)"

text \<open>Where the two stores are meant to agree, and do: every other operation has no condition.\<close>

fun plain_use :: "time \<Rightarrow> store_op \<Rightarrow> cluster_state \<Rightarrow> bool" where
  "plain_use now (RegisterNode n) c =
     (n_drained n \<longrightarrow> (case get_node c (n_id n) of None \<Rightarrow> False | Some m \<Rightarrow> n_drained m))"
| "plain_use now (Capabilities nid caps) c = (get_node c nid \<noteq> None)"
| "plain_use now (CreateTask p) c = (get_task c (pl_task_id p) = None \<and> pl_depends_on p \<noteq> [])"
| "plain_use now (CreateBatch ps) c =
     (distinct (map pl_task_id ps) \<and> list_all (\<lambda>p. get_task c (pl_task_id p) = None) ps)"
| "plain_use now (SetStatus tid st fr) c =
     (case get_task c tid of None \<Rightarrow> True
      | Some t \<Rightarrow> t_status t \<in> TERMINAL_TASK_STATUSES \<longrightarrow> t_status t = CancelRequested \<and> st = Cancelled)"
| "plain_use now (Unassign tid) c = (tid \<noteq> [] \<and> no_due_lease now tid c)"
| "plain_use now (Requeue tid r) c =
     (tid \<noteq> [] \<and> no_due_lease now tid c \<and> one_active_lease tid c \<and>
      (tid \<in> active_leased_task_ids now c \<longrightarrow>
         (case get_task c tid of None \<Rightarrow> False
          | Some t \<Rightarrow> t_status t \<notin> TERMINAL_TASK_STATUSES \<and> t_attempts t < task_retry_limit)))"
| "plain_use now (SetDependencies tid ds) c =
     (case get_task c tid of None \<Rightarrow> True | Some t \<Rightarrow> ds \<noteq> [] \<longrightarrow> t_status t \<noteq> Ready)"
| "plain_use now (LeaseByTask tid) c = one_active_lease tid c"
| "plain_use now (SyncMessage m) c = sync_plain m c"
| "plain_use now (RecoveryEvent e) c =
     ((if re_id e = [] then gen_id ''recovery'' (cs_rng c) (cs_draws c) else re_id e)
        \<notin> re_id ` set (cs_recovery_events c))"
| "plain_use now (TriggerRecovery nid) c =
     (gen_id ''recovery'' (cs_rng c) (cs_draws c) \<notin> re_id ` set (cs_recovery_events c))"
| "plain_use now (HookRegister u evs sec) c =
     (gen_id ''hook'' (cs_rng c) (cs_draws c) \<notin> set (dict_keys (cs_hooks c)))"
| "plain_use now _ c = True"

lemma sim_reply: "sim x y \<Longrightarrow> sim (reply_with f x) (reply_with f y)"
  by (simp add: sim_def)

lemma sim_ok_reply: "sim_ok x y \<Longrightarrow> sim (reply_or_raise f x) (reply_with f y)"
  by (simp add: sim_ok_def sim_def reply_or_raise_def)

lemma sim_done: "encodes q c \<Longrightarrow> sim (r, q) (r, c)"
  by (simp add: sim_def)

lemma sim_ok_done: "sim_ok x ((), c) \<Longrightarrow> sim (reply_or_raise (\<lambda>_. Done) x) (Done, c)"
  by (simp add: sim_ok_def sim_def reply_or_raise_def)

lemma sim_read: "encodes q c \<Longrightarrow> r = Inr v \<Longrightarrow> sim (reply_or_raise f (r, q)) (f v, c)"
  by (simp add: sim_def reply_or_raise_def)

lemmas sim_encodes = sql_update_heartbeat_encodes sql_node_setters_encode sql_record_decision_encodes
  sql_spawns_sim(1) sql_lanes_sim(1,2) sql_config_sim(1)

lemma sql_do_sim:
  assumes e: "encodes q c" and wf: "cs_wf c" and ok: "plain_use now op c"
  shows "sim (sql_do now op q) (mem_do now op c)"
proof (cases op)
  case (RegisterNode n)
  then show ?thesis using ok
    by (auto intro!: sim_done sql_register_node_encodes [OF e] split: option.splits)
next
  case (Capabilities nid caps)
  then show ?thesis using ok by (simp add: sim_done sql_update_capabilities_encodes [OF e])
next
  case (CreateTask p)
  have "sim_ok (sql_create_task now p q) (create_task now p c)"
    by (rule sql_create_held_sim [OF e]) (use ok CreateTask in simp_all)
  then show ?thesis using CreateTask by (simp only: sql_do.simps mem_do.simps sim_ok_reply)
next
  case (CreateBatch ps)
  have "sim_ok (sql_create_tasks_batch now ps q) (create_tasks_batch now ps c)"
    by (rule sql_create_tasks_batch_sim [OF e]) (use ok CreateBatch in \<open>simp_all add: list_all_iff\<close>)
  then show ?thesis using CreateBatch by (simp only: sql_do.simps mem_do.simps sim_ok_reply)
next
  case (SetStatus tid st fr)
  have "sim (sql_set_task_status now tid st fr q) (set_task_status now tid st fr c)"
    by (rule sql_set_task_status_sim [OF e]) (use ok SetStatus in simp)
  then show ?thesis using SetStatus by (simp only: sql_do.simps mem_do.simps sim_reply)
next
  case (Unassign tid)
  have "sim (sql_unassign_task now tid q) (unassign_task now tid c)"
    by (rule sql_unassign_task_sim [OF e cs_wfD(3) [OF wf]]) (use ok Unassign in \<open>simp_all add: list_all_iff\<close>)
  then show ?thesis using Unassign by (simp only: sql_do.simps mem_do.simps sim_reply)
next
  case (Requeue tid r)
  have "sim (sql_requeue_task now tid r q) (requeue_task now tid r c)"
    by (rule sql_requeue_task_sim [OF e cs_wfD(3) [OF wf]]) (use ok Requeue in \<open>auto split: option.splits\<close>)
  then show ?thesis using Requeue by (simp only: sql_do.simps mem_do.simps sim_reply)
next
  case (SetDependencies tid ds)
  have "sim (sql_set_dependencies now tid ds q) (set_dependencies now tid ds c)"
    by (rule sql_set_dependencies_sim [OF e]) (use ok SetDependencies in simp)
  then show ?thesis using SetDependencies by (simp only: sql_do.simps mem_do.simps sim_reply)
next
  case (LeaseByTask tid)
  then show ?thesis using ok e sql_get_lease_by_task_encodes [OF e cs_wfD(3) [OF wf]] by (simp add: sim_def)
next
  case (SyncMessage m)
  have "sim (sql_handle_sync_message now m q) (handle_sync_message now m c)"
    by (rule sql_handle_sync_message_sim [OF e]) (use ok SyncMessage in \<open>simp_all add: list_all_iff\<close>)
  then show ?thesis using SyncMessage by (simp only: sql_do.simps mem_do.simps sim_reply)
next
  case (RecoveryEvent ev)
  have "sim_ok (sql_append_recovery_event now ev q) ((), append_recovery_event now ev c)"
    by (rule sql_append_recovery_event_sim [OF e]) (use ok RecoveryEvent in \<open>simp_all add: list_all_iff\<close>)
  then show ?thesis using RecoveryEvent by (simp only: sql_do.simps mem_do.simps sim_ok_done)
next
  case (TriggerRecovery nid)
  have "sim_ok (sql_trigger_recovery now nid q) ((), trigger_recovery_log now nid c)"
    by (rule sql_trigger_recovery_sim [OF e]) (use ok TriggerRecovery in \<open>simp_all add: list_all_iff\<close>)
  then show ?thesis using TriggerRecovery by (simp only: sql_do.simps mem_do.simps sim_ok_done)
next
  case (CreateLease tid nid ttl)
  from sim_ok_reply [OF sql_create_lease_sim [OF e cs_wfD(3) [OF wf]], of "LeaseIs \<circ> Some"]
  show ?thesis using CreateLease by simp
next
  case (HookRegister u evs sec)
  have "sim_ok (sql_register_hook now u evs sec q) (register_hook now u evs sec c)"
    by (rule sql_hooks_sim(1) [OF e]) (use ok HookRegister in \<open>simp_all add: list_all_iff\<close>)
  from sim_ok_reply [OF this, of "\<lambda>h. HooksAre [h]"] show ?thesis using HookRegister by simp
qed (use e wf in \<open>auto simp: sim_encodes sql_get_task_encodes sql_get_all_tasks_encodes
      sql_hooks_sim(3) sql_spawns_sim(3) sql_lanes_sim(4) sql_config_sim(2,3)
    intro!: sim_done sim_read sim_reply sim_ok_reply
    intro: sql_set_task_result_sim sql_unblock_sim sql_task_setters_sim sql_create_lease_sim sql_revoke_lease_sim
      sql_get_active_leases_sim sql_trigger_pending_sim sql_schedule_sim sql_federation_sim sql_hooks_sim(2)
      sql_spawns_sim(2) sql_lanes_sim(3) cs_wfD\<close>)

section \<open>Runs\<close>

text \<open>The replies of a sequence of operations, and whether each is used plainly when its turn comes.\<close>

fun run_ops :: "('op \<Rightarrow> 's \<Rightarrow> 'r \<times> 's) \<Rightarrow> 'op list \<Rightarrow> 's \<Rightarrow> 'r list \<times> 's" where
  "run_ops f [] s = ([], s)"
| "run_ops f (p # ps) s = (fst (f p s) # fst (run_ops f ps (snd (f p s))), snd (run_ops f ps (snd (f p s))))"

fun used_ops :: "('op \<Rightarrow> 's \<Rightarrow> bool) \<Rightarrow> ('op \<Rightarrow> 's \<Rightarrow> 'r \<times> 's) \<Rightarrow> 'op list \<Rightarrow> 's \<Rightarrow> bool" where
  "used_ops use f [] s = True"
| "used_ops use f (p # ps) s = (use p s \<and> used_ops use f ps (snd (f p s)))"

text \<open>A forward simulation of one machine by another, under a use condition and an invariant.\<close>

locale forward_simulation =
  fixes rel :: "'q \<Rightarrow> 'c \<Rightarrow> bool"
    and inv :: "'c \<Rightarrow> bool"
    and use :: "'op \<Rightarrow> 'c \<Rightarrow> bool"
    and conc :: "'op \<Rightarrow> 'q \<Rightarrow> 'r \<times> 'q"
    and abst :: "'op \<Rightarrow> 'c \<Rightarrow> 'r \<times> 'c"
  assumes step: "rel q c \<Longrightarrow> inv c \<Longrightarrow> use p c \<Longrightarrow>
      fst (conc p q) = fst (abst p c) \<and> rel (snd (conc p q)) (snd (abst p c))"
    and keep: "inv c \<Longrightarrow> inv (snd (abst p c))"
begin

lemma run_sim:
  "rel q c \<Longrightarrow> inv c \<Longrightarrow> used_ops use abst ps c \<Longrightarrow>
   fst (run_ops conc ps q) = fst (run_ops abst ps c) \<and>
   rel (snd (run_ops conc ps q)) (snd (run_ops abst ps c)) \<and> inv (snd (run_ops abst ps c))"
proof (induction ps arbitrary: q c)
  case (Cons p ps)
  from Cons.prems have use: "use p c" and rest: "used_ops use abst ps (snd (abst p c))" by simp_all
  from step [OF Cons.prems(1,2) use] have s: "fst (conc p q) = fst (abst p c)"
    "rel (snd (conc p q)) (snd (abst p c))" by blast+
  from Cons.IH [OF s(2) keep [OF Cons.prems(2)] rest] s(1) show ?case by simp
qed simp

text \<open>A prefix of a plain run is plain, so a run may be cut where it stops being one.\<close>

lemma used_append:
  "used_ops use abst (ps @ rs) c \<longleftrightarrow> used_ops use abst ps c \<and> used_ops use abst rs (snd (run_ops abst ps c))"
  by (induction ps arbitrary: c) simp_all

end

lemma mem_do_wf: "cs_wf c \<Longrightarrow> cs_wf (snd (mem_do now op c))"
  by (cases op) (simp_all add: wf_keep)

interpretation sqlsim: forward_simulation encodes cs_wf "\<lambda>(now, op). plain_use now op"
  "\<lambda>(now, op). sql_do now op" "\<lambda>(now, op). mem_do now op"
proof
  fix q c and p :: "time \<times> store_op"
  obtain now op where p: "p = (now, op)" by (cases p)
  show "encodes q c \<Longrightarrow> cs_wf c \<Longrightarrow> (case p of (now, op) \<Rightarrow> plain_use now op) c \<Longrightarrow>
      fst ((case p of (now, op) \<Rightarrow> sql_do now op) q) = fst ((case p of (now, op) \<Rightarrow> mem_do now op) c) \<and>
      encodes (snd ((case p of (now, op) \<Rightarrow> sql_do now op) q)) (snd ((case p of (now, op) \<Rightarrow> mem_do now op) c))"
    using sql_do_sim [of q c now op] by (simp add: p sim_def)
  show "cs_wf c \<Longrightarrow> cs_wf (snd ((case p of (now, op) \<Rightarrow> mem_do now op) c))"
    by (simp add: p mem_do_wf)
qed

end
