(* ===== verification/SqlSchema.thy ===== *)
theory SqlSchema
  imports SqlStore
begin

text \<open>
  The schema of the database file of \<^verbatim>\<open>state/cluster_store.py\<close>: what opening a file does to its
  tables and indexes (\<open>_SCHEMA_SQL\<close>, \<open>_migrate_schema\<close>, \<open>_init_db\<close>), and which files open. A schema is
  a dictionary from table names to column names; column types and defaults are not modelled.
\<close>

section \<open>Opening a file\<close>

type_synonym schema = "(string, string list) dict"

record db_file =
  db_tables :: schema
  db_indexes :: "string list"

datatype open_error = NoSuchColumn string string

definition has_column :: "schema \<Rightarrow> string \<Rightarrow> string \<Rightarrow> bool" where
  "has_column db t col \<longleftrightarrow> (case dict_get db t of None \<Rightarrow> False | Some cols \<Rightarrow> col \<in> set cols)"

definition SCHEMA_TABLES :: schema where
  "SCHEMA_TABLES =
     [(''nodes'', [''id'', ''name'', ''capabilities'', ''status'', ''last_heartbeat'', ''load'',
        ''max_concurrent'', ''disk_free_gb'', ''status_reason'', ''instance_token'', ''drained'',
        ''cpu_load_pct'', ''lane_count'', ''duplicate_executor'']),
      (''tasks'', [''id'', ''title'', ''requires'', ''depends_on'', ''priority'', ''status'',
        ''assigned_to'', ''created_at'', ''updated_at'', ''version'', ''fail_reason'', ''attempts'',
        ''result'', ''description'', ''issues'', ''ballot'', ''cancel_requeue'']),
      (''lanes'', [''lane_key'', ''session_id'', ''profile'', ''role'', ''node'', ''created_at'',
        ''last_active_at'', ''last_task_id'']),
      (''leases'', [''id'', ''task_id'', ''node_id'', ''created_at'', ''expires_at'', ''status'']),
      (''sync_log'', [''id'', ''version'', ''sender_node'', ''task_state'', ''event_type'', ''timestamp'']),
      (''recovery_events'', [''id'', ''task_id'', ''node_id'', ''action'', ''status'', ''message'',
        ''timestamp'']),
      (''scheduling_decisions'', [''id'', ''task_id'', ''task_title'', ''priority'', ''node_id'',
        ''score'', ''reason'', ''timestamp'']),
      (''federation_clusters'', [''id'', ''name'', ''endpoint'', ''status'', ''registered_at'',
        ''last_ping'', ''ping_latency'']),
      (''hooks'', [''id'', ''url'', ''events'', ''secret'', ''active'', ''created_at'', ''updated_at'']),
      (''deliveries'', [''id'', ''hook_id'', ''event_type'', ''payload'', ''status'', ''created_at'']),
      (''kv_store'', [''key'', ''value'']),
      (''task_spawns'', [''task_id'', ''mode'', ''job_id'', ''pid'', ''started_at'', ''lease_id'',
        ''lane_name'', ''result_path'', ''lane_key'', ''role'', ''session_id'', ''attempt''])]"

text \<open>The indexes, which \<open>_SCHEMA_SQL\<close> makes after the tables: name, table and column.\<close>

definition SCHEMA_INDEXES :: "(string \<times> string \<times> string) list" where
  "SCHEMA_INDEXES =
     [(''idx_tasks_status'', ''tasks'', ''status''), (''idx_tasks_priority'', ''tasks'', ''priority''),
      (''idx_tasks_assigned'', ''tasks'', ''assigned_to''), (''idx_leases_task'', ''leases'', ''task_id''),
      (''idx_leases_status'', ''leases'', ''status''), (''idx_leases_expires'', ''leases'', ''expires_at''),
      (''idx_deliveries_hook'', ''deliveries'', ''hook_id''),
      (''idx_recovery_node'', ''recovery_events'', ''node_id''),
      (''idx_task_spawns_started'', ''task_spawns'', ''started_at'')]"

text \<open>\<open>CREATE INDEX IF NOT EXISTS\<close> raises on a column that is not there; \<open>executescript\<close> stops at
  the statement, and what was created before it stays.\<close>

fun create_indexes :: "(string \<times> string \<times> string) list \<Rightarrow> db_file \<Rightarrow> open_error option \<times> db_file" where
  "create_indexes [] db = (None, db)"
| "create_indexes ((name, t, col) # ix) db =
     (if name \<in> set (db_indexes db) then create_indexes ix db
      else if has_column (db_tables db) t col
      then create_indexes ix (db\<lparr>db_indexes := db_indexes db @ [name]\<rparr>)
      else (Some (NoSuchColumn t col), db))"

text \<open>The migration's additions, in the order the source makes them.\<close>

definition MIGRATIONS :: "(string \<times> string) list" where
  "MIGRATIONS =
     [(''tasks'', ''lane_key''), (''tasks'', ''role''), (''tasks'', ''result''),
      (''task_spawns'', ''lane_key''), (''task_spawns'', ''role''), (''task_spawns'', ''session_id''),
      (''tasks'', ''attempts''), (''task_spawns'', ''attempt''), (''tasks'', ''description''),
      (''tasks'', ''issues''), (''tasks'', ''ballot''), (''tasks'', ''cancel_requeue''),
      (''nodes'', ''max_concurrent''), (''nodes'', ''disk_free_gb''), (''nodes'', ''status_reason''),
      (''nodes'', ''instance_token''), (''nodes'', ''drained''), (''nodes'', ''cpu_load_pct''),
      (''nodes'', ''lane_count''), (''nodes'', ''duplicate_executor''), (''lanes'', ''last_active_at'')]"

definition create_missing :: "schema \<Rightarrow> schema" where
  "create_missing db = fold (\<lambda>(t, cols). insert_or_ignore t cols) SCHEMA_TABLES db"

text \<open>\<open>ALTER TABLE ... ADD COLUMN\<close> after the check of \<open>PRAGMA table_info\<close>; it fails on a table that
  does not exist, and the failure is only logged.\<close>

definition add_column :: "string \<times> string \<Rightarrow> schema \<Rightarrow> schema" where
  "add_column tc db =
     (case dict_get db (fst tc) of
        None \<Rightarrow> db
      | Some cols \<Rightarrow> if snd tc \<in> set cols then db else dict_set (fst tc) (cols @ [snd tc]) db)"

definition migrate_schema :: "schema \<Rightarrow> schema" where
  "migrate_schema db = fold add_column MIGRATIONS db"

text \<open>\<open>_init_db\<close>: the tables, the indexes, then the migration. The first component is the error it
  raises.\<close>

definition init_db :: "db_file \<Rightarrow> open_error option \<times> db_file" where
  "init_db db =
     (case create_indexes SCHEMA_INDEXES (db\<lparr>db_tables := create_missing (db_tables db)\<rparr>) of
        (Some e, db1) \<Rightarrow> (Some e, db1)
      | (None, db1) \<Rightarrow> (None, db1\<lparr>db_tables := migrate_schema (db_tables db1)\<rparr>))"

section \<open>What a file must bring and what the store uses\<close>

text \<open>The columns of the first schema, before the additions that the comments of the migration name
  (stateful lanes, results, the retry counter, grouped intake, ballots, the cancel intent; fairness, free
  disk, instance tokens, drain and health reports on nodes; the activity clock of lanes).\<close>

definition FIRST_SCHEMA :: schema where
  "FIRST_SCHEMA =
     [(''nodes'', [''id'', ''name'', ''capabilities'', ''status'', ''last_heartbeat'', ''load'']),
      (''tasks'', [''id'', ''title'', ''requires'', ''depends_on'', ''priority'', ''status'',
        ''assigned_to'', ''created_at'', ''updated_at'', ''version'', ''fail_reason'']),
      (''lanes'', [''lane_key'', ''session_id'', ''profile'', ''role'', ''node'', ''created_at'', ''last_task_id'']),
      (''leases'', [''id'', ''task_id'', ''node_id'', ''created_at'', ''expires_at'', ''status'']),
      (''sync_log'', [''id'', ''version'', ''sender_node'', ''task_state'', ''event_type'', ''timestamp'']),
      (''recovery_events'', [''id'', ''task_id'', ''node_id'', ''action'', ''status'', ''message'', ''timestamp'']),
      (''scheduling_decisions'', [''id'', ''task_id'', ''task_title'', ''priority'', ''node_id'', ''score'',
        ''reason'', ''timestamp'']),
      (''federation_clusters'', [''id'', ''name'', ''endpoint'', ''status'', ''registered_at'', ''last_ping'',
        ''ping_latency'']),
      (''hooks'', [''id'', ''url'', ''events'', ''secret'', ''active'', ''created_at'', ''updated_at'']),
      (''deliveries'', [''id'', ''hook_id'', ''event_type'', ''payload'', ''status'', ''created_at'']),
      (''kv_store'', [''key'', ''value'']),
      (''task_spawns'', [''task_id'', ''mode'', ''job_id'', ''pid'', ''started_at'', ''lease_id'', ''lane_name'',
        ''result_path''])]"

text \<open>The columns that the \<open>INSERT\<close> and \<open>UPDATE\<close> statements of the class name, table by table. It is
  written down from those statements, not from the schema.\<close>

definition WRITTEN_COLUMNS :: schema where
  "WRITTEN_COLUMNS =
     [(''nodes'', [''id'', ''name'', ''capabilities'', ''status'', ''last_heartbeat'', ''load'', ''max_concurrent'',
        ''disk_free_gb'', ''status_reason'', ''instance_token'', ''cpu_load_pct'', ''lane_count'',
        ''duplicate_executor'', ''drained'']),
      (''tasks'', [''id'', ''title'', ''requires'', ''depends_on'', ''priority'', ''status'', ''created_at'',
        ''updated_at'', ''version'', ''lane_key'', ''role'', ''description'', ''issues'', ''result'', ''fail_reason'',
        ''assigned_to'', ''ballot'', ''cancel_requeue'', ''attempts'']),
      (''leases'', [''id'', ''task_id'', ''node_id'', ''created_at'', ''expires_at'', ''status'']),
      (''sync_log'', [''version'', ''sender_node'', ''task_state'', ''event_type'', ''timestamp'']),
      (''recovery_events'', [''id'', ''task_id'', ''node_id'', ''action'', ''status'', ''message'', ''timestamp'']),
      (''scheduling_decisions'', [''task_id'', ''task_title'', ''priority'', ''node_id'', ''score'', ''reason'',
        ''timestamp'']),
      (''federation_clusters'', [''id'', ''name'', ''endpoint'', ''status'', ''registered_at'', ''last_ping'',
        ''ping_latency'']),
      (''hooks'', [''id'', ''url'', ''events'', ''secret'', ''active'', ''created_at'', ''updated_at'']),
      (''deliveries'', [''id'', ''hook_id'', ''event_type'', ''payload'', ''status'', ''created_at'']),
      (''task_spawns'', [''task_id'', ''mode'', ''job_id'', ''pid'', ''started_at'', ''lease_id'', ''lane_name'',
        ''result_path'', ''lane_key'', ''role'', ''session_id'', ''attempt'']),
      (''lanes'', [''lane_key'', ''session_id'', ''profile'', ''role'', ''node'', ''created_at'', ''last_active_at'',
        ''last_task_id'']),
      (''kv_store'', [''key'', ''value''])]"

text \<open>Every table the file has brings the columns of the first schema.\<close>

definition brings_first :: "schema \<Rightarrow> bool" where
  "brings_first db \<longleftrightarrow>
     list_all (\<lambda>(t, cols). dict_get db t = None \<or> list_all (has_column db t) cols) FIRST_SCHEMA"

section \<open>Facts\<close>

lemma has_column_add: "has_column (add_column tc db) t col \<longleftrightarrow>
   has_column db t col \<or> (t = fst tc \<and> col = snd tc \<and> dict_get db t \<noteq> None)"
  by (auto simp: add_column_def has_column_def split: option.split)

lemma has_table_add: "dict_get (add_column tc db) t = None \<longleftrightarrow> dict_get db t = None"
  by (auto simp: add_column_def split: option.split)

lemma has_table_fold: "dict_get (fold add_column ms db) t = None \<longleftrightarrow> dict_get db t = None"
  by (induction ms arbitrary: db) (simp_all add: has_table_add)

lemma has_column_fold:
  "has_column (fold add_column ms db) t col \<longleftrightarrow>
   has_column db t col \<or> ((t, col) \<in> set ms \<and> dict_get db t \<noteq> None)"
proof (induction ms arbitrary: db)
  case (Cons m ms)
  obtain a b where m: "m = (a, b)" by (cases m)
  show ?case using Cons.IH [of "add_column m db"] unfolding has_column_add has_table_add m by fastforce
qed simp

lemma fold_add_present: "(\<forall>(t, col) \<in> set ms. has_column db t col) \<Longrightarrow> fold add_column ms db = db"
proof (induction ms)
  case (Cons m ms)
  then have "add_column m db = db" by (cases m) (auto simp: add_column_def has_column_def split: option.splits)
  with Cons show ?case by simp
qed simp

lemma get_insert_or_ignore:
  "dict_get (insert_or_ignore k r d) k' = (case dict_get d k' of None \<Rightarrow> if k' = k then Some r else None | Some x \<Rightarrow> Some x)"
  by (auto simp: insert_or_ignore_def map_add_def split: option.split)

lemma get_fold_ignore:
  "dict_get (fold (\<lambda>(t, cols). insert_or_ignore t cols) ts db) t =
   (case dict_get db t of None \<Rightarrow> dict_get ts t | Some x \<Rightarrow> Some x)"
  by (induction ts arbitrary: db) (auto simp: get_insert_or_ignore split: option.split)

lemma create_missing_present:
  assumes "\<And>t. dict_get SCHEMA_TABLES t \<noteq> None \<Longrightarrow> dict_get db t \<noteq> None"
  shows "create_missing db = db"
proof -
  have "fold (\<lambda>(t, cols). insert_or_ignore t cols) ts db = db" if "\<forall>t \<in> fst ` set ts. dict_get db t \<noteq> None" for ts
    using that by (induction ts) (auto simp: insert_or_ignore_def)
  moreover have "\<forall>t \<in> fst ` set SCHEMA_TABLES. dict_get db t \<noteq> None"
    using assms by (metis map_of_eq_None_iff)
  ultimately show ?thesis unfolding create_missing_def by blast
qed

lemma get_create_missing:
  "dict_get (create_missing db) t = (case dict_get db t of None \<Rightarrow> dict_get SCHEMA_TABLES t | Some x \<Rightarrow> Some x)"
  unfolding create_missing_def by (rule get_fold_ignore)

text \<open>The tables of the code, checked against each other once.\<close>

lemma first_in_schema: "list_all (\<lambda>(t, cols). list_all (has_column SCHEMA_TABLES t) cols) FIRST_SCHEMA"
  by code_simp

lemma indexed_in_first: "list_all (\<lambda>(name, t, col). has_column FIRST_SCHEMA t col) SCHEMA_INDEXES"
  by code_simp

lemma written_in_first:
  "list_all (\<lambda>(t, cols). list_all (\<lambda>col. has_column FIRST_SCHEMA t col \<or>
     (t, col) \<in> set MIGRATIONS \<and> dict_get SCHEMA_TABLES t \<noteq> None) cols) WRITTEN_COLUMNS"
  by code_simp

lemma migrated_tables: "list_all (\<lambda>(t, col). dict_get SCHEMA_TABLES t \<noteq> None) MIGRATIONS"
  by code_simp

lemma first_distinct: "dict_ok FIRST_SCHEMA"
  by code_simp

lemma create_missing_first:
  assumes "brings_first db" "has_column FIRST_SCHEMA t col"
  shows "has_column (create_missing db) t col"
proof -
  from assms(2) obtain cols where c: "dict_get FIRST_SCHEMA t = Some cols" "col \<in> set cols"
    by (auto simp: has_column_def split: option.splits)
  then have m: "(t, cols) \<in> set FIRST_SCHEMA" by (simp add: map_of_SomeD)
  show ?thesis
  proof (cases "dict_get db t")
    case None
    have "has_column SCHEMA_TABLES t col" using first_in_schema m c(2) by (fastforce simp: list_all_iff)
    with None show ?thesis by (simp add: has_column_def get_create_missing)
  next
    case (Some x)
    then have "has_column db t col" using assms(1) m c(2) by (fastforce simp: brings_first_def list_all_iff)
    with Some show ?thesis by (simp add: has_column_def get_create_missing)
  qed
qed

lemma create_indexes_tables: "db_tables (snd (create_indexes ix db)) = db_tables db"
  by (induction ix db rule: create_indexes.induct) simp_all

lemma create_indexes_ok:
  "list_all (\<lambda>(name, t, col). has_column (db_tables db) t col) ix \<Longrightarrow> fst (create_indexes ix db) = None"
  by (induction ix db rule: create_indexes.induct) simp_all

lemma create_indexes_names:
  "set (db_indexes db) \<subseteq> set (db_indexes (snd (create_indexes ix db))) \<and>
   (fst (create_indexes ix db) = None \<longrightarrow> fst ` set ix \<subseteq> set (db_indexes (snd (create_indexes ix db))))"
  by (induction ix db rule: create_indexes.induct) auto

lemma create_indexes_present:
  "fst ` set ix \<subseteq> set (db_indexes db) \<Longrightarrow> create_indexes ix db = (None, db)"
  by (induction ix db rule: create_indexes.induct) auto

lemma create_indexes_refused:
  "(name, t, col) \<in> set ix \<Longrightarrow> \<not> has_column (db_tables db) t col \<Longrightarrow> name \<notin> set (db_indexes db) \<Longrightarrow>
   distinct (map fst ix) \<Longrightarrow> fst (create_indexes ix db) \<noteq> None"
  by (induction ix db rule: create_indexes.induct) (force split: if_splits)+

end
