(* ===== verification/SqlProps.thy ===== *)
theory SqlProps
  imports SqlPasses SqlSchema Demo
begin

text \<open>
  Properties of the persistent store: where it is the drop-in replacement of the in-memory store
  its documentation promises, what its schema migration guarantees, and where the two differ.
\<close>

section \<open>Definitions\<close>

definition demo_ops :: "(time \<times> store_op) list" where
  "demo_ops =
     [(0, RegisterNode (demo_node ''n1'' 1)),
      (10, CreateBatch [demo_plan ''t1'' [] [], demo_plan ''t2'' [] []]),
      (20, SchedulePending), (30, SetStatus ''t1'' Completed []), (40, AllTasks)]"


definition older_file :: db_file where
  "older_file = \<lparr>db_tables = [(''tasks'', [''id'', ''title'', ''status'']), (''nodes'', [''id'', ''name''])], db_indexes = []\<rparr>"

definition demo_poison :: sync_message where
  "demo_poison =
     \<lparr>sm_version = 7, sm_sender_node = ''n2'',
      sm_task_state = Some \<lparr>ts_task_id = ''t9'', ts_title = ''t9'', ts_status = ''done'',
        ts_assigned_to = None, ts_version = 1\<rparr>,
      sm_event_type = SyncTaskCompleted, sm_timestamp = 0\<rparr>"

definition demo_sql :: sql_store where
  "demo_sql = sql_register_node (demo_node ''n1'' 1) (sql_init 0 demo_rng)"

section \<open>Helpers\<close>

lemma mem_never_raises: "fst (mem_do now op c) \<noteq> Raised e"
  by (cases op) simp_all

lemma mem_run_never_raises: "Raised e \<notin> set (fst (run_ops (\<lambda>(now, op). mem_do now op) ops c))"
proof (induction ops arbitrary: c)
  case (Cons p ops)
  then show ?case using mem_never_raises [of "fst p" "snd p" c e] by (cases p) auto
qed simp

lemma those_None_iff: "those xs = None \<longleftrightarrow> None \<in> set xs"
  by (induction xs) (auto split: option.splits)

lemma row_to_task_None_iff: "row_to_task r = None \<longleftrightarrow> parse_task_status (tr_status r) = None"
  by (simp add: row_to_task_def split: option.split)

lemma rows_unreadable_iff:
  "sql_get_all_tasks q = Inl ValueErr \<longleftrightarrow>
   (\<exists>r \<in> set (dict_values (q_tasks q)). parse_task_status (tr_status r) = None)"
proof -
  have "None \<in> set (map row_to_task rs) \<longleftrightarrow> (\<exists>r \<in> set rs. parse_task_status (tr_status r) = None)" for rs
    by (induction rs) (simp_all add: row_to_task_None_iff [symmetric] eq_commute [of None "row_to_task _"])
  then have "those (map row_to_task (dict_values (q_tasks q))) = None \<longleftrightarrow>
      (\<exists>r \<in> set (dict_values (q_tasks q)). parse_task_status (tr_status r) = None)"
    unfolding those_None_iff by blast
  then show ?thesis unfolding sql_get_all_tasks_def rows_to_tasks_def
    by (cases "those (map row_to_task (dict_values (q_tasks q)))") (simp_all only: option.case sum.simps simp_thms, simp_all)
qed

lemma schedule_unreadable:
  assumes "sql_get_all_tasks q = Inl ValueErr" "sql_online_count q \<noteq> 0"
  shows "sql_schedule_pending_detailed now q = (Inl ValueErr, q)"
  using assms by (simp add: sql_schedule_pending_detailed_def sql_online_count_def row_count_def Let_def filter_map)

section \<open>The two stores\<close>

text \<open>C4: Started together and given the same operations, each used plainly when its turn comes, the
  persistent store answers every one of them as the in-memory store does, raises nothing, and ends
  with tables that hold the in-memory state.\<close>

theorem sqlite_runs_like_memory:
  assumes "inj rng"
    and "used_ops (\<lambda>(now, op). plain_use now op) (\<lambda>(now, op). mem_do now op) ops (init_state t0 rng)"
  shows "fst (run_ops (\<lambda>(now, op). sql_do now op) ops (sql_init t0 rng)) =
         fst (run_ops (\<lambda>(now, op). mem_do now op) ops (init_state t0 rng)) \<and>
         (\<forall>e. Raised e \<notin> set (fst (run_ops (\<lambda>(now, op). sql_do now op) ops (sql_init t0 rng)))) \<and>
         encodes (snd (run_ops (\<lambda>(now, op). sql_do now op) ops (sql_init t0 rng)))
           (snd (run_ops (\<lambda>(now, op). mem_do now op) ops (init_state t0 rng)))"
  using sqlsim.run_sim [OF encodes_init cs_wf_init [OF assms(1)] assms(2)] mem_run_never_raises
  by metis

theorem sqlite_runs_like_memory_witness:
  "used_ops (\<lambda>(now, op). plain_use now op) (\<lambda>(now, op). mem_do now op) demo_ops (init_state 0 demo_rng) \<and>
   fst (run_ops (\<lambda>(now, op). sql_do now op) demo_ops (sql_init 0 demo_rng)) =
   fst (run_ops (\<lambda>(now, op). mem_do now op) demo_ops (init_state 0 demo_rng))"
proof -
  have u: "used_ops (\<lambda>(now, op). plain_use now op) (\<lambda>(now, op). mem_do now op) demo_ops (init_state 0 demo_rng)"
    by code_simp
  with sqlite_runs_like_memory [OF inj_demo_rng u] show ?thesis by blast
qed

lemma sql_views:
  assumes "encodes q c" "cs_wf c"
  shows "sql_get_task q k = Inr (get_task c k)" and "sql_get_all_tasks q = Inr (get_all_tasks c)"
    and "sql_unleased_running_tasks now q = Inr (unleased_running_tasks now c)"
    and "sql_get_dependents q k = get_dependents c k"
    and "sql_get_trigger_chain q k d = get_trigger_chain c k d"
    and "sql_get_workflow_graph q = get_workflow_graph c"
    and "sql_get_decisions q = get_decisions c" and "sql_get_schedule_stats q = get_schedule_stats c"
    and "sql_get_expired_leases q = get_expired_leases c"
    and "sql_node_count q = node_count c" and "sql_online_count q = online_count c"
proof -
  have dep: "sql_get_dependents q = get_dependents c"
    by (rule ext) (rule keyed_dependents [OF assms(1) cs_wfD(2) [OF assms(2)]])
  have keyed: "(tid, t) \<in> set (cs_tasks c) \<Longrightarrow> t_id t = tid" for tid t
    using cs_wfD(2) [OF assms(2)] by (auto simp: tasks_wf_def)
  show "sql_get_dependents q k = get_dependents c k" by (simp add: dep)
  show "sql_get_trigger_chain q k d = get_trigger_chain c k d"
    by (simp add: sql_get_trigger_chain_def get_trigger_chain_def dep)
  have "map (\<lambda>r. \<lparr>gn_id = tr_id r, gn_title = tr_title r, gn_status = tr_status r, gn_priority = tr_priority r\<rparr>)
      (map row_of (dict_values (cs_tasks c))) =
    map (\<lambda>(tid, t). \<lparr>gn_id = tid, gn_title = t_title t, gn_status = task_status_value (t_status t),
      gn_priority = t_priority t\<rparr>) (cs_tasks c)"
    using keyed by (auto intro!: map_cong)
  moreover have "map (\<lambda>r. map (\<lambda>dep_id. (dep_id, tr_id r)) (tr_depends_on r)) (map row_of (dict_values (cs_tasks c))) =
    map (\<lambda>(tid, t). map (\<lambda>dep_id. (dep_id, tid)) (t_depends_on t)) (cs_tasks c)"
    using keyed by (auto intro!: map_cong)
  ultimately show "sql_get_workflow_graph q = get_workflow_graph c"
    unfolding sql_get_workflow_graph_def get_workflow_graph_def encodesD(2) [OF assms(1)] rows_of_values
    by (simp del: map_map)
qed (use assms in \<open>simp_all add: sql_get_task_encodes sql_get_all_tasks_encodes sql_unleased_encodes
    sql_get_decisions_def get_decisions_def sql_get_schedule_stats_def get_schedule_stats_def
    sql_get_expired_leases_def get_expired_leases_def sql_node_count_def node_count_def
    sql_online_count_def online_count_def row_count_def encodesD\<close>)

text \<open>The read-only views agree on related stores: tasks one by one and all together, running
  tasks without a lease, dependents and trigger chains, decisions and their statistics, expired
  leases, and the counts of the statuses both report.\<close>

theorem sql_views_agree:
  assumes "encodes q c" "cs_wf c"
  shows "sql_get_task q k = Inr (get_task c k) \<and> sql_get_all_tasks q = Inr (get_all_tasks c) \<and>
    sql_unleased_running_tasks now q = Inr (unleased_running_tasks now c) \<and>
    sql_get_dependents q k = get_dependents c k \<and> sql_get_trigger_chain q k d = get_trigger_chain c k d \<and>
    sql_get_workflow_graph q = get_workflow_graph c \<and> sql_get_decisions q = get_decisions c \<and>
    sql_get_schedule_stats q = get_schedule_stats c \<and> sql_get_expired_leases q = get_expired_leases c \<and>
    sql_node_count q = node_count c \<and> sql_online_count q = online_count c"
  by (intro conjI sql_views [OF assms])

theorem sql_views_agree_witness:
  "\<exists>q c. encodes q c \<and> cs_wf c \<and> sql_get_all_tasks q = Inr (get_all_tasks c) \<and> length (get_all_tasks c) = 2"
proof -
  let ?q = "snd (run_ops (\<lambda>(now, op). sql_do now op) demo_ops (sql_init 0 demo_rng))"
  let ?c = "snd (run_ops (\<lambda>(now, op). mem_do now op) demo_ops (init_state 0 demo_rng))"
  have u: "used_ops (\<lambda>(now, op). plain_use now op) (\<lambda>(now, op). mem_do now op) demo_ops (init_state 0 demo_rng)"
    by code_simp
  have e: "encodes ?q ?c" "cs_wf ?c"
    using sqlsim.run_sim [OF encodes_init cs_wf_init [OF inj_demo_rng] u] by blast+
  have "length (get_all_tasks ?c) = 2" by code_simp
  with e sql_views_agree [OF e] show ?thesis by blast
qed

section \<open>Schema\<close>



text \<open>The indexes are made before the migration: a file with a table that lacks an indexed column does
  not open, though the migration is documented never to fail the opening.\<close>

theorem init_db_refuses:
  assumes "(name, t, col) \<in> set SCHEMA_INDEXES" "name \<notin> set (db_indexes db)"
    and "dict_get (db_tables db) t \<noteq> None" "\<not> has_column (db_tables db) t col"
  shows "fst (init_db db) \<noteq> None"
proof -
  have "\<not> has_column (create_missing (db_tables db)) t col"
    using assms(3,4) by (auto simp: has_column_def get_create_missing)
  moreover have "distinct (map fst SCHEMA_INDEXES)" by code_simp
  ultimately have "fst (create_indexes SCHEMA_INDEXES (db\<lparr>db_tables := create_missing (db_tables db)\<rparr>)) \<noteq> None"
    using assms(1,2) by (intro create_indexes_refused) simp_all
  then show ?thesis by (auto simp: init_db_def split: prod.split option.split)
qed

theorem init_db_refuses_witness: "fst (init_db older_file) \<noteq> None"
proof (rule init_db_refuses)
  show "(''idx_tasks_priority'', ''tasks'', ''priority'') \<in> set SCHEMA_INDEXES" by code_simp
qed (simp_all add: older_file_def has_column_def)

section \<open>Where the stores differ\<close>

lemma poison_facts:
  assumes "sql_sync_version q < sm_version m" and "sm_task_state m = Some ts"
    and "parse_task_status (ts_status ts) = None"
    and "sql_handle_sync_message now m q = (ok, q')"
  shows "ok" and "sql_get_task q' (ts_task_id ts) = Inl ValueErr" and "sql_get_all_tasks q' = Inl ValueErr"
    and "sql_online_count q \<noteq> 0 \<Longrightarrow> sql_schedule_pending_detailed later q' = (Inl ValueErr, q')"
proof -
  have r: "ok \<and> q_nodes q' = q_nodes q \<and>
      (\<exists>r. dict_get (q_tasks q') (ts_task_id ts) = Some r \<and> tr_status r = ts_status ts)"
  proof (cases "dict_get (q_tasks q) (ts_task_id ts)")
    case None
    with assms show ?thesis
      by (auto simp: sql_handle_sync_message_def default_row_def map_add_def)
  next
    case (Some r)
    with assms show ?thesis by (auto simp: sql_handle_sync_message_def update_task_def)
  qed
  then show "ok" by blast
  from r obtain row where row: "dict_get (q_tasks q') (ts_task_id ts) = Some row" "tr_status row = ts_status ts" by blast
  then have "row_to_task row = None" using assms(3) by (simp add: row_to_task_None_iff)
  with row show "sql_get_task q' (ts_task_id ts) = Inl ValueErr" by (simp add: sql_get_task_def)
  from row assms(3) dict_get_value [OF row(1)] show all: "sql_get_all_tasks q' = Inl ValueErr"
    unfolding rows_unreadable_iff by metis
  assume "sql_online_count q \<noteq> 0"
  with r have "sql_online_count q' \<noteq> 0" by (simp add: sql_online_count_def)
  with all show "sql_schedule_pending_detailed later q' = (Inl ValueErr, q')" by (rule schedule_unreadable)
qed

text \<open>A newer synchronisation message whose status is no status is accepted and makes the task
  table unreadable: reading that task, reading all tasks and, while a node is online, every
  scheduling pass raise. The in-memory store takes such a message as a pending task.\<close>

theorem sync_poisons_sqlite:
  assumes "sql_sync_version q < sm_version m" and "sm_task_state m = Some ts"
    and "parse_task_status (ts_status ts) = None"
    and "sql_handle_sync_message now m q = (ok, q')"
  shows "ok \<and> sql_get_task q' (ts_task_id ts) = Inl ValueErr \<and> sql_get_all_tasks q' = Inl ValueErr \<and>
    (sql_online_count q \<noteq> 0 \<longrightarrow> sql_schedule_pending_detailed later q' = (Inl ValueErr, q'))"
  using poison_facts [OF assms] by blast

theorem sync_poisons_sqlite_witness:
  "\<exists>q'. sql_handle_sync_message 5 demo_poison demo_sql = (True, q') \<and> sql_get_all_tasks q' = Inl ValueErr \<and>
     sql_schedule_pending_detailed 6 q' = (Inl ValueErr, q')"
proof -
  obtain ok q' where s: "sql_handle_sync_message 5 demo_poison demo_sql = (ok, q')" by force
  have h: "sql_sync_version demo_sql < sm_version demo_poison"
    "map_option (\<lambda>ts. parse_task_status (ts_status ts)) (sm_task_state demo_poison) = Some None"
    "sql_online_count demo_sql \<noteq> 0" by code_simp+
  then obtain ts where ts: "sm_task_state demo_poison = Some ts" "parse_task_status (ts_status ts) = None" by auto
  from sync_poisons_sqlite [OF h(1) ts s, of 6] h(3) s show ?thesis by auto
qed

text \<open>Setting a status: the persistent store lets a finished task go back to any status, where the
  in-memory store refuses.\<close>

theorem sqlite_revives_terminal:
  assumes "encodes q c" and "get_task c tid = Some t" and "t_status t \<in> {Completed, Failed, Cancelled}"
  shows "fst (sql_set_task_status now tid st [] q)"
    and "sql_get_task (snd (sql_set_task_status now tid st [] q)) tid = Inr (Some (touch now (t\<lparr>t_status := st\<rparr>)))"
    and "set_task_status now tid st [] c = (False, c)"
proof -
  have row: "dict_get (q_tasks q) tid = Some (row_of t)" using assms by (simp add: encodesD get_task_def)
  have eq: "row_touch now (row_status st (row_of t)) = row_of (touch now (t\<lparr>t_status := st\<rparr>))"
    by (simp add: row_touch_def touch_def row_of_def)
  show "fst (sql_set_task_status now tid st [] q)"
    and "sql_get_task (snd (sql_set_task_status now tid st [] q)) tid = Inr (Some (touch now (t\<lparr>t_status := st\<rparr>)))"
    using row eq by (simp_all add: sql_set_task_status_def update_task_def sql_get_task_def)
  show "set_task_status now tid st [] c = (False, c)"
    using assms(2,3) by (auto simp: set_task_status_def)
qed

lemma revoke_live_not:
  assumes "l \<in> set (dict_values (revoke_live now tid ls))" "l_task_id l = tid"
  shows "\<not> (l_status l = Active \<and> now < l_expires_at l)"
proof -
  let ?c = "\<lambda>l. l_task_id l = tid \<and> l_status l = Active \<and> now < l_expires_at l"
  have "dict_values (revoke_live now tid ls) = map (\<lambda>l. if ?c l then l\<lparr>l_status := Revoked\<rparr> else l) (dict_values ls)"
    by (simp add: revoke_live_def update_where_def split_def)
  with assms(1) have "l \<in> (\<lambda>l. if ?c l then l\<lparr>l_status := Revoked\<rparr> else l) ` set (dict_values ls)"
    by (simp only: list.set_map)
  then obtain l0 where l: "l = (if ?c l0 then l0\<lparr>l_status := Revoked\<rparr> else l0)" by (rule imageE)
  show ?thesis
  proof (cases "?c l0")
    case True
    then show ?thesis unfolding l by simp
  next
    case False
    then have "l = l0" unfolding l by simp
    with False assms(2) show ?thesis by blast
  qed
qed

text \<open>A requeue that is refused has already revoked the task's live leases.\<close>

theorem refused_requeue_revokes:
  assumes "encodes q c" and "get_task c tid = Some t" and "task_retry_limit \<le> t_attempts t"
  shows "fst (sql_requeue_task now tid r q) = False"
    and "tid \<notin> sql_leased_ids now (snd (sql_requeue_task now tid r q))"
    and "requeue_task now tid r c = (False, c)"
proof -
  have row: "dict_get (q_tasks q) tid = Some (row_of t)" using assms by (simp add: encodesD get_task_def)
  have eq: "sql_requeue_task now tid r q = (False, q\<lparr>q_leases := revoke_live now tid (q_leases q)\<rparr>)"
    using row assms(3) by (simp add: sql_requeue_task_def update_task_def)
  show "fst (sql_requeue_task now tid r q) = False" by (simp add: eq)
  show "tid \<notin> sql_leased_ids now (snd (sql_requeue_task now tid r q))"
  proof
    assume "tid \<in> sql_leased_ids now (snd (sql_requeue_task now tid r q))"
    then obtain l where "l \<in> set (dict_values (revoke_live now tid (q_leases q)))" "l_task_id l = tid"
      "l_status l = Active \<and> now < l_expires_at l" by (auto simp: eq sql_leased_ids_def)
    with revoke_live_not [of l now tid "q_leases q"] show False by blast
  qed
  show "requeue_task now tid r c = (False, c)" using assms(2,3) by (simp add: requeue_task_def)
qed

text \<open>Creating a task under an id that exists keeps the row, and promotes it when it is pending, even
  if the row waits for dependencies.\<close>

theorem create_collision_promotes:
  assumes "encodes q c" and "get_task c (pl_task_id p) = Some t" and "t_status t = Pending" and "pl_depends_on p = []"
  shows "sql_create_task now p q =
     (Inr (t\<lparr>t_status := Ready, t_updated_at := now\<rparr>),
      q\<lparr>q_tasks := dict_set (pl_task_id p) (row_of (t\<lparr>t_status := Ready, t_updated_at := now\<rparr>)) (q_tasks q)\<rparr>)"
proof -
  have row: "dict_get (q_tasks q) (pl_task_id p) = Some (row_of t)" using assms by (simp add: encodesD get_task_def)
  have ready: "(row_status Ready (row_of t))\<lparr>tr_updated_at := now\<rparr> = row_of (t\<lparr>t_status := Ready, t_updated_at := now\<rparr>)"
    by (simp add: row_of_def)
  show ?thesis using row assms(3,4) ready
    by (simp add: sql_create_task_def insert_or_ignore_def promote_row_def update_task_def sql_get_task_def Let_def)
qed

end
