(* ===== verification/ClusterCore.thy ===== *)
theory ClusterCore
  imports SqlOps ReviewerGate NodeManager
begin

text \<open>
  The orchestration class \<open>ClusterCore\<close> of \<^verbatim>\<open>core/cluster_core.py\<close> with its scheduler and workflow
  resolver, and the recovery subsystem it uses, \<^verbatim>\<open>core/recovery.py\<close>. The core runs on the persistent
  store, its default: a task it reads is a copy of the row, so an assignment to an attribute of the
  copy changes nothing stored. The callbacks the core registers with the store are dispatched after
  the operation that fires them; an exception in a callback is swallowed by the store.
\<close>

section \<open>State\<close>

record cluster_core =
  co_store :: sql_store
  co_event_queue :: "string list"
  co_watchdog :: watchdog
  co_detector_running :: bool
  co_detector_alive :: bool
  co_stop_event :: bool
  co_scanner_running :: bool
  co_lease_ttl :: duration

datatype core_error = TypeErr | SqlErr sql_error

type_synonym 'a core_result = "(sql_error + 'a) \<times> cluster_core"

abbreviation set_store :: "sql_store \<Rightarrow> cluster_core \<Rightarrow> cluster_core" where
  "set_store q co \<equiv> co\<lparr>co_store := q\<rparr>"

section \<open>Callbacks\<close>

definition core_notify_offline :: "string \<Rightarrow> cluster_core \<Rightarrow> cluster_core" where
  "core_notify_offline node_id co = co\<lparr>co_event_queue := co_event_queue co @ [node_id]\<rparr>"

text \<open>
  Both callbacks of the node registry: the promotion pass returns a number, and \<open>len(promoted)\<close> in
  the arguments of the log call raises on it, before the scheduling pass is reached.
\<close>

definition promote_and_schedule :: "time \<Rightarrow> cluster_core \<Rightarrow> (core_error + unit) \<times> cluster_core" where
  "promote_and_schedule now co =
     (case sql_trigger_pending_tasks now (co_store co) of
        (Inl e, q) \<Rightarrow> (Inl (SqlErr e), set_store q co)
      | (Inr promoted, q) \<Rightarrow> if promoted \<noteq> 0 then (Inl TypeErr, set_store q co) else (Inr (), set_store q co))"

fun core_dispatch :: "time \<Rightarrow> callback \<Rightarrow> cluster_core \<Rightarrow> cluster_core" where
  "core_dispatch now (NodeOnline node_id) co = snd (promote_and_schedule now co)"
| "core_dispatch now (CapabilityChange node_id old_caps new_caps) co = snd (promote_and_schedule now co)"
| "core_dispatch now (LeaseExpired task_id node_id) co = core_notify_offline node_id co"

definition with_callbacks ::
  "time \<Rightarrow> (sql_store \<Rightarrow> 'a \<times> sql_store) \<Rightarrow> cluster_core \<Rightarrow> 'a \<times> cluster_core" where
  "with_callbacks now f co =
     (let (v, q) = f (co_store co);
          fired = drop (length (q_cb_log (co_store co))) (q_cb_log q)
      in (v, fold (core_dispatch now) fired (set_store q co)))"

definition core_active_leases :: "time \<Rightarrow> cluster_core \<Rightarrow> lease list \<times> cluster_core" where
  "core_active_leases now = with_callbacks now (sql_get_active_leases now)"

definition core_register_node :: "time \<Rightarrow> node \<Rightarrow> cluster_core \<Rightarrow> cluster_core" where
  "core_register_node now n co = snd (with_callbacks now (\<lambda>q. ((), sql_register_node n q)) co)"

section \<open>Construction and lifecycle\<close>

definition wire_callbacks :: "sql_store \<Rightarrow> sql_store" where
  "wire_callbacks q = sql_set_lease_callback (sql_set_on_capability_change (sql_set_on_node_online q))"

definition self_node :: "time \<Rightarrow> string \<Rightarrow> string \<Rightarrow> string list \<Rightarrow> int \<Rightarrow> node" where
  "self_node now node_id node_name capabilities max_concurrent =
     \<lparr>n_id = node_id, n_name = node_name, n_capabilities = capabilities, n_status = Online,
      n_last_heartbeat = now, n_load = 0, n_max_concurrent = max_concurrent, n_drained = False,
      n_disk_free_gb = None, n_status_reason = [], n_instance_token = [], n_cpu_load_pct = None,
      n_lane_count = None, n_duplicate_executor = None\<rparr>"

definition core_init ::
  "time \<Rightarrow> sql_store \<Rightarrow> string \<Rightarrow> string \<Rightarrow> string \<Rightarrow> string \<Rightarrow> string list \<Rightarrow> string \<Rightarrow> int \<Rightarrow> watchdog \<Rightarrow> int \<Rightarrow>
   cluster_core" where
  "core_init now q cluster_id node_id node_name node_role capabilities config_path max_concurrent w
     lease_ttl_seconds =
     (let caps = (if capabilities = [] then [''planning'', ''reviewing'', ''scheduling''] else capabilities);
          q1 = q\<lparr>q_cluster_id := cluster_id, q_node_id := node_id, q_node_role := node_role\<rparr>;
          q2 = (if config_path \<noteq> [] then sql_set_config_path config_path q1 else q1);
          co = \<lparr>co_store = wire_callbacks q2, co_event_queue = [], co_watchdog = w,
                co_detector_running = False, co_detector_alive = False, co_stop_event = False, co_scanner_running = False,
                co_lease_ttl = seconds lease_ttl_seconds\<rparr>
      in core_register_node now (self_node now node_id node_name caps (max 0 max_concurrent)) co)"

definition core_start :: "cluster_core \<Rightarrow> cluster_core" where
  "core_start co =
     co\<lparr>co_stop_event := False, co_watchdog := wd_start (co_watchdog co),
        co_detector_alive := (co_detector_running co \<longrightarrow> co_detector_alive co),
        co_detector_running := True, co_scanner_running := True\<rparr>"

definition core_stop :: "cluster_core \<Rightarrow> cluster_core" where
  "core_stop co =
     co\<lparr>co_stop_event := True, co_watchdog := wd_stop (co_watchdog co),
        co_detector_running := False, co_detector_alive := False, co_scanner_running := False\<rparr>"

text \<open>One turn of the scanner thread.\<close>

definition lease_scanner_turn :: "time \<Rightarrow> cluster_core \<Rightarrow> cluster_core" where
  "lease_scanner_turn now co = (if co_stop_event co then co else snd (core_active_leases now co))"

section \<open>The watchdog of the core\<close>

definition core_hb_nodes :: "cluster_core \<Rightarrow> hb_node list" where
  "core_hb_nodes co = map hb_of (sql_get_all_nodes (co_store co))"

definition core_update_status :: "string \<Rightarrow> string \<Rightarrow> string \<Rightarrow> cluster_core \<Rightarrow> cluster_core" where
  "core_update_status node_id status reason co =
     (case parse_node_status status of
        None \<Rightarrow> co
      | Some st \<Rightarrow> set_store (sql_set_node_status node_id st reason (co_store co)) co)"

text \<open>A check, then the callback for each event: an offline node is handed to the detector.\<close>

definition core_watchdog_turn :: "time \<Rightarrow> cluster_core \<Rightarrow> (string \<times> string) list \<times> cluster_core" where
  "core_watchdog_turn now co =
     (let (evs, co1) = wd_check core_hb_nodes core_update_status (co_watchdog co) now co
      in (evs, fold (\<lambda>(nid, st). if st = ''offline'' then core_notify_offline nid else id) evs co1))"

section \<open>Scheduler\<close>

definition reschedule_task :: "time \<Rightarrow> string \<Rightarrow> cluster_core \<Rightarrow> string option core_result" where
  "reschedule_task now task_id co =
     (case sql_get_task (co_store co) task_id of
        Inl e \<Rightarrow> (Inl e, co)
      | Inr None \<Rightarrow> (Inr None, co)
      | Inr (Some t) \<Rightarrow>
          (let co1 = (if truthy (t_assigned_to t)
                      then (let (active, c1) = core_active_leases now co
                            in case find (\<lambda>l. l_task_id l = task_id) active of
                                 None \<Rightarrow> c1
                               | Some l \<Rightarrow> set_store (snd (sql_revoke_lease (l_id l) (co_store c1))) c1)
                      else co);
               q2 = snd (sql_set_task_status now task_id Pending [] (co_store co1))
           in case sql_schedule_pending now q2 of
                (Inl e, q3) \<Rightarrow> (Inl e, set_store q3 co1)
              | (Inr _, q3) \<Rightarrow>
                  (case sql_get_task q3 task_id of
                     Inl e \<Rightarrow> (Inl e, set_store q3 co1)
                   | Inr None \<Rightarrow> (Inr None, set_store q3 co1)
                   | Inr (Some u) \<Rightarrow>
                       (Inr (if truthy (t_assigned_to u) then t_assigned_to u else None), set_store q3 co1))))"

section \<open>Workflow resolver\<close>

definition MAX_TRIGGER_CHAIN_DEPTH :: nat where
  "MAX_TRIGGER_CHAIN_DEPTH = 10"

text \<open>The loop over the dependencies: whether all are done, and whether one has failed.\<close>

fun scan_deps :: "sql_store \<Rightarrow> string list \<Rightarrow> bool \<Rightarrow> sql_error + bool \<times> bool" where
  "scan_deps q [] all_done = Inr (all_done, False)"
| "scan_deps q (dep_id # deps) all_done =
     (case sql_get_task q dep_id of
        Inl e \<Rightarrow> Inl e
      | Inr None \<Rightarrow> scan_deps q deps False
      | Inr (Some d) \<Rightarrow>
          if t_status d = Failed then Inr (all_done, True)
          else scan_deps q deps (if t_status d \<noteq> Completed then False else all_done))"

definition resolve_dependencies :: "time \<Rightarrow> string \<Rightarrow> sql_store \<Rightarrow> bool sql_result" where
  "resolve_dependencies now task_id q =
     (case sql_get_task q task_id of
        Inl e \<Rightarrow> (Inl e, q)
      | Inr None \<Rightarrow> (Inr False, q)
      | Inr (Some t) \<Rightarrow>
          if t_status t \<noteq> Pending then (Inr False, q)
          else if t_depends_on t = [] then (Inr True, snd (sql_set_task_status now task_id Ready [] q))
          else case scan_deps q (t_depends_on t) True of
                 Inl e \<Rightarrow> (Inl e, q)
               | Inr (all_done, any_failed) \<Rightarrow>
                   if any_failed
                   then (Inr False, snd (sql_set_task_status now task_id Blocked ''dependency failed'' q))
                   else if all_done then (Inr True, snd (sql_set_task_status now task_id Ready [] q))
                   else (Inr False, q))"

fun block_dependents :: "time \<Rightarrow> string \<Rightarrow> task list \<Rightarrow> sql_store \<Rightarrow> string list \<times> sql_store" where
  "block_dependents now failed [] q = ([], q)"
| "block_dependents now failed (t # ts) q =
     (if t_status t = Pending \<and> failed \<in> set (t_depends_on t)
      then (let (blocked, q') = block_dependents now failed ts
                  (snd (sql_set_task_status now (t_id t) Blocked (''dependency '' @ failed @ '' failed'') q))
            in (t_id t # blocked, q'))
      else block_dependents now failed ts q)"

definition on_dependency_failed :: "time \<Rightarrow> string \<Rightarrow> sql_store \<Rightarrow> string list sql_result" where
  "on_dependency_failed now failed q =
     (case sql_get_all_tasks q of
        Inl e \<Rightarrow> (Inl e, q)
      | Inr ts \<Rightarrow> (let (blocked, q') = block_dependents now failed ts q in (Inr blocked, q')))"

text \<open>The tasks of the snapshot with status \<open>st\<close> that depend on the completed one.\<close>

fun promote_dependents :: "time \<Rightarrow> string \<Rightarrow> task_status \<Rightarrow> task list \<Rightarrow> sql_store \<Rightarrow> string list sql_result" where
  "promote_dependents now completed st [] q = (Inr [], q)"
| "promote_dependents now completed st (t # ts) q =
     (if t_status t \<noteq> st \<or> completed \<notin> set (t_depends_on t) then promote_dependents now completed st ts q
      else case resolve_dependencies now (t_id t) q of
             (Inl e, q1) \<Rightarrow> (Inl e, q1)
           | (Inr ok, q1) \<Rightarrow>
               (case promote_dependents now completed st ts q1 of
                  (Inl e, q2) \<Rightarrow> (Inl e, q2)
                | (Inr ids, q2) \<Rightarrow> (Inr (if ok then t_id t # ids else ids), q2)))"

text \<open>
  The cascade appends to the list it iterates over. The first argument bounds the number of turns;
  \<open>None\<close> says that they were not enough.
\<close>

fun cascade ::
  "nat \<Rightarrow> (string \<Rightarrow> sql_store \<Rightarrow> string list sql_result option) \<Rightarrow> string list \<Rightarrow> sql_store \<Rightarrow>
   string list sql_result option" where
  "cascade n prop [] q = Some (Inr [], q)"
| "cascade 0 prop (tid # tids) q = None"
| "cascade (Suc n) prop (tid # tids) q =
     (case prop tid q of
        None \<Rightarrow> None
      | Some (Inl e, q1) \<Rightarrow> Some (Inl e, q1)
      | Some (Inr inner, q1) \<Rightarrow>
          (case cascade n prop (tids @ inner) q1 of
             None \<Rightarrow> None
           | Some (Inl e, q2) \<Rightarrow> Some (Inl e, q2)
           | Some (Inr rest, q2) \<Rightarrow> Some (Inr (inner @ rest), q2)))"

text \<open>\<open>depth\<close> is what is left of \<open>MAX_TRIGGER_CHAIN_DEPTH\<close>, \<open>n\<close> the bound of each cascade.\<close>

fun propagate :: "nat \<Rightarrow> nat \<Rightarrow> time \<Rightarrow> string \<Rightarrow> sql_store \<Rightarrow> string list sql_result option" where
  "propagate n 0 now completed q = Some (Inr [], q)"
| "propagate n (Suc depth) now completed q =
     (case sql_get_all_tasks q of
        Inl e \<Rightarrow> Some (Inl e, q)
      | Inr ts \<Rightarrow>
          (case promote_dependents now completed Pending ts q of
             (Inl e, q1) \<Rightarrow> Some (Inl e, q1)
           | (Inr ids, q1) \<Rightarrow>
               (case promote_dependents now completed Blocked ts q1 of
                  (Inl e, q2) \<Rightarrow> Some (Inl e, q2)
                | (Inr ids', q2) \<Rightarrow>
                    (case cascade n (propagate n depth now) (ids @ ids') q2 of
                       None \<Rightarrow> None
                     | Some (Inl e, q3) \<Rightarrow> Some (Inl e, q3)
                     | Some (Inr rest, q3) \<Rightarrow> Some (Inr (ids @ ids' @ rest), q3)))))"

text \<open>The bound is the number of rows: every turn of a cascade belongs to a task promoted before it.\<close>

definition on_dependency_complete :: "time \<Rightarrow> string \<Rightarrow> sql_store \<Rightarrow> string list sql_result option" where
  "on_dependency_complete now completed q =
     propagate (2 * length (q_tasks q)) MAX_TRIGGER_CHAIN_DEPTH now completed q"

section \<open>Convenience methods\<close>

definition core_submit_task ::
  "time \<Rightarrow> string \<Rightarrow> string list \<Rightarrow> int \<Rightarrow> cluster_core \<Rightarrow> task core_result" where
  "core_submit_task now title requires priority co =
     (let (task_id, q0) = sql_generate_id ''task'' (co_store co);
          p = \<lparr>pl_task_id = task_id, pl_title = title, pl_requires = requires, pl_priority = priority,
               pl_lane_key = [], pl_role = ''author'', pl_description = [], pl_issues = [],
               pl_depends_on = []\<rparr>
      in case sql_create_task now p q0 of
           (Inl e, q1) \<Rightarrow> (Inl e, set_store q1 co)
         | (Inr t, q1) \<Rightarrow>
             (case sql_trigger_pending_tasks now q1 of
                (Inl e, q2) \<Rightarrow> (Inl e, set_store q2 co)
              | (Inr _, q2) \<Rightarrow> (Inr t, set_store q2 co)))"

definition core_complete_task :: "time \<Rightarrow> string \<Rightarrow> cluster_core \<Rightarrow> bool core_result option" where
  "core_complete_task now task_id co =
     (case sql_get_task (co_store co) task_id of
        Inl e \<Rightarrow> Some (Inl e, co)
      | Inr None \<Rightarrow> Some (Inr False, co)
      | Inr (Some t) \<Rightarrow>
          (case reviewer_completion_veto t (t_result t) of
             Some veto \<Rightarrow>
               (let (requeued, q1) = sql_requeue_task now task_id veto (co_store co)
                in Some (Inr False,
                     set_store (if requeued then q1 else snd (sql_set_task_status now task_id Failed veto q1)) co))
           | None \<Rightarrow>
               (let q1 = snd (sql_set_task_status now task_id Completed [] (co_store co))
                in case on_dependency_complete now task_id q1 of
                     None \<Rightarrow> None
                   | Some (Inl e, q2) \<Rightarrow> Some (Inl e, set_store q2 co)
                   | Some (Inr _, q2) \<Rightarrow>
                       (case sql_schedule_pending now q2 of
                          (Inl e, q3) \<Rightarrow> Some (Inl e, set_store q3 co)
                        | (Inr _, q3) \<Rightarrow> Some (Inr True, set_store q3 co)))))"

definition core_fail_task :: "time \<Rightarrow> string \<Rightarrow> string \<Rightarrow> cluster_core \<Rightarrow> bool core_result" where
  "core_fail_task now task_id reason co =
     (case sql_get_task (co_store co) task_id of
        Inl e \<Rightarrow> (Inl e, co)
      | Inr None \<Rightarrow> (Inr False, co)
      | Inr (Some _) \<Rightarrow>
          (let q1 = snd (sql_set_task_status now task_id Failed reason (co_store co))
           in case on_dependency_failed now task_id q1 of
                (Inl e, q2) \<Rightarrow> (Inl e, set_store q2 co)
              | (Inr _, q2) \<Rightarrow> (Inr True, set_store q2 co)))"

record core_summary = summary +
  cu_watchdog_running :: bool
  cu_recovery_detector_running :: bool
  cu_lease_scanner_running :: bool

definition core_get_summary :: "time \<Rightarrow> cluster_core \<Rightarrow> core_summary \<times> cluster_core" where
  "core_get_summary now co =
     (let (su, co1) = with_callbacks now (sql_get_summary now) co
      in (summary.extend su \<lparr>cu_watchdog_running = wd_running (co_watchdog co1),
            cu_recovery_detector_running = co_detector_running co1,
            cu_lease_scanner_running = co_scanner_running co1\<rparr>, co1))"

section \<open>The recovery subsystem of the core\<close>

definition core_event ::
  "time \<Rightarrow> string \<Rightarrow> string \<Rightarrow> string \<Rightarrow> string \<Rightarrow> string \<Rightarrow> sql_store \<Rightarrow> unit sql_result" where
  "core_event now task_id node_id action status message q =
     (let (i, q1) = sql_generate_id ''recovery'' q
      in sql_append_recovery_event now
           \<lparr>re_id = i, re_task_id = task_id, re_node_id = node_id, re_action = action,
            re_status = status, re_message = Some message, re_timestamp = now\<rparr> q1)"

fun core_revoke_loop :: "time \<Rightarrow> string \<Rightarrow> lease list \<Rightarrow> sql_store \<Rightarrow> string list sql_result" where
  "core_revoke_loop now node_id [] q = (Inr [], q)"
| "core_revoke_loop now node_id (l # ls) q =
     (if l_node_id l \<noteq> node_id then core_revoke_loop now node_id ls q
      else case core_event now (l_task_id l) node_id ''revoke_lease'' ''completed''
                  (''Revoked lease for task '' @ l_task_id l @ '' on failed node '' @ node_id)
                  (snd (sql_revoke_lease (l_id l) q)) of
             (Inl e, q1) \<Rightarrow> (Inl e, q1)
           | (Inr _, q1) \<Rightarrow>
               (case core_revoke_loop now node_id ls q1 of
                  (Inl e, q2) \<Rightarrow> (Inl e, q2)
                | (Inr tids, q2) \<Rightarrow> (Inr (l_task_id l # tids), q2)))"

definition core_revoke_all_for_node :: "time \<Rightarrow> string \<Rightarrow> cluster_core \<Rightarrow> string list core_result" where
  "core_revoke_all_for_node now node_id co =
     (let (active, co1) = core_active_leases now co
      in case core_revoke_loop now node_id active (co_store co1) of
           (r, q) \<Rightarrow> (r, set_store q co1))"

definition core_can_run :: "task \<Rightarrow> node \<Rightarrow> bool" where
  "core_can_run t n \<longleftrightarrow> t_requires t = [] \<or> list_all (\<lambda>cap. cap \<in> set (n_capabilities n)) (t_requires t)"

text \<open>The assignment to \<open>task.assigned_to\<close> is made on the copy.\<close>

fun core_reschedule_orphaned :: "time \<Rightarrow> string list \<Rightarrow> sql_store \<Rightarrow> nat sql_result" where
  "core_reschedule_orphaned now [] q = (Inr 0, q)"
| "core_reschedule_orphaned now (tid # tids) q =
     (case sql_get_task q tid of
        Inl e \<Rightarrow> (Inl e, q)
      | Inr None \<Rightarrow> core_reschedule_orphaned now tids q
      | Inr (Some t) \<Rightarrow>
          (case find (core_can_run t) (filter (\<lambda>n. n_status n = Online) (sql_get_all_nodes q)) of
             Some n \<Rightarrow>
               (case core_event now tid (n_id n) ''reschedule'' ''completed''
                       (''Rescheduled to node '' @ n_id n) (snd (sql_set_task_status now tid Running [] q)) of
                  (Inl e, q1) \<Rightarrow> (Inl e, q1)
                | (Inr _, q1) \<Rightarrow>
                    (case core_reschedule_orphaned now tids q1 of
                       (Inl e, q2) \<Rightarrow> (Inl e, q2)
                     | (Inr k, q2) \<Rightarrow> (Inr (k + 1), q2)))
           | None \<Rightarrow>
               (case core_event now tid [] ''mark_failed'' ''completed'' ''No available node for reschedule''
                       (snd (sql_set_task_status now tid Failed ''no available node for reschedule'' q)) of
                  (Inl e, q1) \<Rightarrow> (Inl e, q1)
                | (Inr _, q1) \<Rightarrow> core_reschedule_orphaned now tids q1)))"

definition core_recover_node :: "time \<Rightarrow> string \<Rightarrow> cluster_core \<Rightarrow> unit core_result" where
  "core_recover_node now node_id co =
     (case core_revoke_all_for_node now node_id co of
        (Inl e, co1) \<Rightarrow> (Inl e, co1)
      | (Inr tids, co1) \<Rightarrow>
          if tids = [] then (Inr (), co1)
          else case core_reschedule_orphaned now tids (co_store co1) of
                 (Inl e, q) \<Rightarrow> (Inl e, set_store q co1)
               | (Inr k, q) \<Rightarrow>
                   (case core_event now [] node_id ''full_recovery''
                           (if k = length tids then ''completed'' else ''partial'')
                           (''Revoked '' @ show_nat (length tids) @ '' leases, rescheduled '' @ show_nat k @ '' tasks'') q of
                      (r, q1) \<Rightarrow> (r, set_store q1 co1)))"

text \<open>One turn of the detector thread: the oldest event is taken and its node recovered. The loop
  catches nothing, so an exception ends the thread while \<open>_running\<close> stays set.\<close>

definition core_detector_turn :: "time \<Rightarrow> cluster_core \<Rightarrow> cluster_core" where
  "core_detector_turn now co =
     (if \<not> co_detector_running co \<or> \<not> co_detector_alive co then co
      else case co_event_queue co of
             [] \<Rightarrow> co
           | node_id # rest \<Rightarrow>
               (let co1 = co\<lparr>co_event_queue := rest\<rparr>
                in if node_id = [] then co1
                   else case core_recover_node now node_id co1 of
                          (Inl e, co2) \<Rightarrow> co2\<lparr>co_detector_alive := False\<rparr>
                        | (Inr _, co2) \<Rightarrow> co2))"

end
