(* ===== verification/CoreFacts.thy ===== *)
theory CoreFacts
  imports ClusterCore SqlPasses Scheduling Promotion
begin

text \<open>
  What the operations of the cluster core do to the in-memory state a store encodes: the unguarded
  status write, the dependency resolver as one parallel step, the blocking of dependents and the
  recovery of a node.
\<close>

section \<open>The unguarded status write\<close>

definition forced :: "time \<Rightarrow> task_status \<Rightarrow> string \<Rightarrow> task \<Rightarrow> task" where
  "forced now st fr t =
     (let t1 = touch now (t\<lparr>t_status := st\<rparr>) in if fr \<noteq> [] then t1\<lparr>t_fail_reason := Some fr\<rparr> else t1)"

definition force_status :: "time \<Rightarrow> string \<Rightarrow> task_status \<Rightarrow> string \<Rightarrow> cluster_state \<Rightarrow> cluster_state" where
  "force_status now tid st fr c =
     (case get_task c tid of None \<Rightarrow> c | Some t \<Rightarrow> put_task tid (forced now st fr t) c)"

lemma forced_simps [simp]:
  "t_status (forced now st fr t) = st" "t_id (forced now st fr t) = t_id t"
  "t_attempts (forced now st fr t) = t_attempts t" "t_depends_on (forced now st fr t) = t_depends_on t"
  "t_assigned_to (forced now st fr t) = t_assigned_to t" "t_requires (forced now st fr t) = t_requires t"
  "t_lane_key (forced now st fr t) = t_lane_key t" "t_result (forced now st fr t) = t_result t"
  by (simp_all add: forced_def Let_def touch_def)

lemma force_status_encodes:
  assumes e: "encodes q c"
  shows "encodes (snd (sql_set_task_status now tid st fr q)) (force_status now tid st fr c)"
proof -
  have m: "force_status now tid st fr c = snd (case get_task c tid of None \<Rightarrow> (False, c)
       | Some t \<Rightarrow> if True then (True, put_task tid (forced now st fr t) c) else (False, c))"
    by (simp add: force_status_def split: option.split)
  have "sim (sql_set_task_status now tid st fr q) (case get_task c tid of None \<Rightarrow> (False, c)
       | Some t \<Rightarrow> if True then (True, put_task tid (forced now st fr t) c) else (False, c))"
    unfolding sql_set_task_status_def
    by (cases "fr = []"; simp only: if_True if_False not_True_eq_False not_False_eq_True simp_thms)
      (rule update_task_sim [OF e, where g = "\<lambda>_. True" and h = "forced now st fr"];
        simp add: forced_def row_of_def row_touch_def touch_def split: option.split)+
  then show ?thesis unfolding m by (simp add: sim_def)
qed

lemma force_status_wf [wf_keep]: "cs_wf c \<Longrightarrow> cs_wf (force_status now tid st fr c)"
  by (auto simp: force_status_def split: option.split intro: put_task_wf_same)

lemma get_task_force [simp]:
  "get_task (force_status now tid st fr c) k =
   (if k = tid then map_option (forced now st fr) (get_task c k) else get_task c k)"
  by (simp add: force_status_def split: option.split)

lemma force_status_frame [simp, frame]:
  "cs_nodes (force_status now tid st fr c) = cs_nodes c" "cs_leases (force_status now tid st fr c) = cs_leases c"
  "cs_rng (force_status now tid st fr c) = cs_rng c" "cs_draws (force_status now tid st fr c) = cs_draws c"
  "cs_recovery_events (force_status now tid st fr c) = cs_recovery_events c"
  by (simp_all add: force_status_def put_task_def split: option.split)

section \<open>The dependency resolver\<close>

definition dep_failed :: "cluster_state \<Rightarrow> string \<Rightarrow> bool" where
  "dep_failed c d = (case get_task c d of None \<Rightarrow> False | Some u \<Rightarrow> t_status u = Failed)"

text \<open>What becomes of a pending task: a failed dependency blocks it, else the last completed one readies it.\<close>

definition resolution :: "time \<Rightarrow> cluster_state \<Rightarrow> task \<Rightarrow> task" where
  "resolution now c t =
     (if t_status t \<noteq> Pending then t
      else if list_ex (dep_failed c) (t_depends_on t) then forced now Blocked ''dependency failed'' t
      else if list_all (dep_completed c) (t_depends_on t) then forced now Ready [] t
      else t)"

definition readies :: "cluster_state \<Rightarrow> string \<Rightarrow> bool" where
  "readies c k =
     (case get_task c k of
        None \<Rightarrow> False
      | Some t \<Rightarrow> t_status t = Pending \<and> \<not> list_ex (dep_failed c) (t_depends_on t) \<and>
                  list_all (dep_completed c) (t_depends_on t))"

text \<open>The state in which the tasks of \<open>K\<close> have been resolved.\<close>

definition settle :: "time \<Rightarrow> string set \<Rightarrow> cluster_state \<Rightarrow> cluster_state" where
  "settle now K c = c\<lparr>cs_tasks := map (\<lambda>(k, t). (k, if k \<in> K then resolution now c t else t)) (cs_tasks c)\<rparr>"

lemma scan_deps_encodes:
  assumes "encodes q c"
  shows "\<exists>b'. scan_deps q deps b =
     Inr (if list_ex (dep_failed c) deps then (b', True) else (b \<and> list_all (dep_completed c) deps, False))"
proof (induction deps arbitrary: b)
  case (Cons d deps)
  then show ?case
    using Cons [of False] Cons [of b]
    by (cases "get_task c d") (auto simp: sql_get_task_encodes [OF assms] dep_failed_def dep_completed_def)
qed simp

lemma resolution_keeps [simp]:
  "t_id (resolution now c t) = t_id t" "t_attempts (resolution now c t) = t_attempts t"
  "t_depends_on (resolution now c t) = t_depends_on t"
  "t_status (resolution now c t) = Completed \<longleftrightarrow> t_status t = Completed"
  "t_status (resolution now c t) = Failed \<longleftrightarrow> t_status t = Failed"
  "t_status t \<noteq> Pending \<Longrightarrow> resolution now c t = t"
  by (auto simp: resolution_def)

lemma get_task_settle [simp]:
  "get_task (settle now K c) k = map_option (\<lambda>t. if k \<in> K then resolution now c t else t) (get_task c k)"
  by (simp add: settle_def get_task_def map_of_map_keyed)

lemma settle_tests [simp]:
  "dep_failed (settle now K c) = dep_failed c" "dep_completed (settle now K c) = dep_completed c"
  by (auto simp: fun_eq_iff dep_failed_def dep_completed_def split: option.split)

lemma settle_resolution: "resolution now (settle now K c) t = resolution now c t"
  by (simp add: resolution_def)

lemma resolution_idem: "resolution now c (resolution now c t) = resolution now c t"
  by (simp add: resolution_def)

lemma settle_settle: "settle now J (settle now K c) = settle now (J \<union> K) c"
  by (auto simp: settle_def resolution_idem settle_resolution [unfolded settle_def] intro!: arg_cong [where f = "\<lambda>d. c\<lparr>cs_tasks := d\<rparr>"])

lemma settle_idle:
  assumes "\<And>k t. k \<in> K \<Longrightarrow> (k, t) \<in> set (cs_tasks c) \<Longrightarrow> resolution now c t = t"
  shows "settle now K c = c"
proof -
  have "map (\<lambda>(k, t). (k, if k \<in> K then resolution now c t else t)) (cs_tasks c) = cs_tasks c"
    by (rule map_idI) (use assms in auto)
  then show ?thesis by (simp add: settle_def)
qed

lemma settle_wf [wf_keep]: "cs_wf c \<Longrightarrow> cs_wf (settle now K c)"
  unfolding settle_def
  by (rule wf_tasks_only) (auto simp: map_of_map_keyed wf_defs comp_def split_def)

lemma put_resolution:
  assumes "dict_ok (cs_tasks c)" "get_task c tid = Some t"
  shows "put_task tid (resolution now c t) c = settle now {tid} c"
proof -
  have "dict_set tid (resolution now c t) (map (\<lambda>(k, v). (k, v)) (cs_tasks c)) =
      map (\<lambda>(k, v). (k, if k = tid then resolution now c t else v)) (cs_tasks c)"
    using assms by (intro dict_set_map_keyed) (simp_all add: get_task_def)
  moreover have "map (\<lambda>(k, v). (k, if k = tid then resolution now c t else v)) (cs_tasks c) =
      map (\<lambda>(k, v). (k, if k \<in> {tid} then resolution now c v else v)) (cs_tasks c)"
    using assms by (auto simp: get_task_def intro!: map_cong dest: eq_key_imp_eq_value)
  ultimately show ?thesis by (simp add: put_task_def settle_def)
qed

lemma resolve_dependencies_sim:
  assumes e: "encodes q c" and wf: "cs_wf c"
  shows "sim_ok (resolve_dependencies now tid q) (readies c tid, settle now {tid} c)"
proof (cases "get_task c tid")
  case None
  have "settle now {tid} c = c"
    by (rule settle_idle) (use None in \<open>auto simp: get_task_def map_of_eq_None_iff image_iff\<close>)
  then show ?thesis
    using None e by (simp add: sim_ok_def resolve_dependencies_def sql_get_task_encodes readies_def)
next
  case (Some t)
  have dok: "dict_ok (cs_tasks c)" using wf by (simp add: wf_defs)
  note s = put_resolution [OF dok Some, of now, symmetric]
  have same: "put_task tid t c = c" using dok Some by (simp add: put_task_def get_task_def dict_set_same)
  obtain b where scan: "scan_deps q (t_depends_on t) True = Inr (if list_ex (dep_failed c) (t_depends_on t)
      then (b, True) else (list_all (dep_completed c) (t_depends_on t), False))"
    using scan_deps_encodes [OF e, of "t_depends_on t" True] unfolding simp_thms by blast
  note f = force_status_encodes [OF e, of now tid]
  show ?thesis
    unfolding sim_ok_def resolve_dependencies_def sql_get_task_encodes [OF e] s
    using Some scan same e f [of Ready "[]"] f [of Blocked "''dependency failed''"]
    by (cases "t_depends_on t") (auto simp: readies_def resolution_def force_status_def)
qed

text \<open>
  A pass over several tasks. No test of the resolver can see what the pass did to an earlier task:
  the write turns a pending task into a ready or a blocked one, and the tests look for completed and
  failed ones.
\<close>

lemma readies_settle: "k \<notin> K \<Longrightarrow> readies (settle now K c) k = readies c k"
  by (simp add: readies_def split: option.split)

lemma promote_dependents_sim:
  assumes "encodes q c" "cs_wf c" "distinct (map t_id ts)"
  shows "sim_ok (promote_dependents now x st ts q)
     (let ks = map t_id (filter (\<lambda>t. t_status t = st \<and> x \<in> set (t_depends_on t)) ts)
      in (filter (readies c) ks, settle now (set ks) c))"
  using assms
proof (induction ts arbitrary: q c)
  case Nil
  have "settle now {} c = c" by (rule settle_idle) simp
  with Nil show ?case by (simp add: sim_ok_def)
next
  case (Cons t ts)
  let ?ks = "map t_id (filter (\<lambda>t. t_status t = st \<and> x \<in> set (t_depends_on t)) ts)"
  show ?case
  proof (cases "t_status t = st \<and> x \<in> set (t_depends_on t)")
    case False
    with Cons show ?thesis by (auto simp: Let_def)
  next
    case True
    let ?c = "settle now {t_id t} c"
    obtain q1 where r: "resolve_dependencies now (t_id t) q = (Inr (readies c (t_id t)), q1)" and e: "encodes q1 ?c"
      using resolve_dependencies_sim [OF Cons.prems(1,2), of now "t_id t"]
      by (cases "resolve_dependencies now (t_id t) q") (auto simp: sim_ok_def)
    have "sim_ok (promote_dependents now x st ts q1) (filter (readies ?c) ?ks, settle now (set ?ks) ?c)"
      using Cons.IH [OF e settle_wf [OF Cons.prems(2)]] Cons.prems(3) by (simp add: Let_def)
    moreover have "filter (readies ?c) ?ks = filter (readies c) ?ks"
      by (rule filter_cong [OF refl], rule readies_settle) (use Cons.prems(3) in force)
    ultimately show ?thesis
      using True r by (auto simp: sim_ok_def settle_settle Let_def split: prod.splits sum.splits)
  qed
qed

text \<open>The tasks that depend on \<open>x\<close>.\<close>

definition dependents_on :: "cluster_state \<Rightarrow> string \<Rightarrow> string set" where
  "dependents_on c x = {k. \<exists>t. get_task c k = Some t \<and> x \<in> set (t_depends_on t)}"

lemma dependents_settle [simp]: "dependents_on (settle now K c) x = dependents_on c x"
proof -
  have "(\<exists>t. get_task (settle now K c) k = Some t \<and> x \<in> set (t_depends_on t)) \<longleftrightarrow>
        (\<exists>t. get_task c k = Some t \<and> x \<in> set (t_depends_on t))" for k
    by (cases "get_task c k") auto
  then show ?thesis by (simp add: dependents_on_def)
qed

definition readied :: "cluster_state \<Rightarrow> string \<Rightarrow> string list" where
  "readied c x = filter (readies c) (map t_id (filter (\<lambda>t. t_status t = Pending \<and> x \<in> set (t_depends_on t)) (get_all_tasks c)))"

text \<open>Only the pending dependents count: the others are not touched by the resolver.\<close>

lemma settle_relevant:
  assumes wf: "cs_wf c"
    and K: "\<And>k t. get_task c k = Some t \<Longrightarrow> t_status t = Pending \<Longrightarrow> k \<in> J \<longleftrightarrow> k \<in> K"
  shows "settle now J c = settle now K c"
proof -
  have "(if k \<in> J then resolution now c t else t) = (if k \<in> K then resolution now c t else t)"
    if "(k, t) \<in> set (cs_tasks c)" for k t
  proof (cases "t_status t = Pending")
    case True
    have "get_task c k = Some t" using that wf by (simp add: get_task_def wf_defs)
    with K [of k t] True show ?thesis by simp
  qed simp
  then show ?thesis by (auto simp: settle_def intro!: map_cong arg_cong [where f = "\<lambda>d. c\<lparr>cs_tasks := d\<rparr>"])
qed

lemma tasks_keyed:
  assumes "cs_wf c"
  shows "t \<in> set (get_all_tasks c) \<longleftrightarrow> get_task c (t_id t) = Some t" and "distinct (map t_id (get_all_tasks c))"
proof -
  have k: "\<forall>(k, t) \<in> set (cs_tasks c). t_id t = k" "dict_ok (cs_tasks c)" using assms by (auto simp: wf_defs)
  then have "map t_id (map snd (cs_tasks c)) = map fst (cs_tasks c)" by auto
  with k show "distinct (map t_id (get_all_tasks c))" by (simp add: get_all_tasks_def del: map_map)
  show "t \<in> set (get_all_tasks c) \<longleftrightarrow> get_task c (t_id t) = Some t"
    using k by (force simp: get_all_tasks_def get_task_def)
qed

text \<open>Both loops of \<open>_propagate\<close>: the second one goes over blocked tasks, which the resolver never changes.\<close>

lemma propagate_passes:
  assumes e: "encodes q c" and wf: "cs_wf c"
  obtains q1 q2 where "promote_dependents now x Pending (get_all_tasks c) q = (Inr (readied c x), q1)"
    and "promote_dependents now x Blocked (get_all_tasks c) q1 = (Inr [], q2)"
    and "encodes q2 (settle now (dependents_on c x) c)"
proof -
  let ?ks = "\<lambda>st. map t_id (filter (\<lambda>t. t_status t = st \<and> x \<in> set (t_depends_on t)) (get_all_tasks c))"
  let ?c1 = "settle now (dependents_on c x) c"
  have mem: "k \<in> set (?ks st) \<longleftrightarrow> (\<exists>t. get_task c k = Some t \<and> t_status t = st \<and> x \<in> set (t_depends_on t))" for k st
  proof
    assume "k \<in> set (?ks st)"
    then obtain t where "t \<in> set (get_all_tasks c)" "t_status t = st" "x \<in> set (t_depends_on t)" "k = t_id t" by auto
    then show "\<exists>t. get_task c k = Some t \<and> t_status t = st \<and> x \<in> set (t_depends_on t)"
      using tasks_keyed(1) [OF wf, of t] by blast
  next
    assume "\<exists>t. get_task c k = Some t \<and> t_status t = st \<and> x \<in> set (t_depends_on t)"
    then obtain t where t: "get_task c k = Some t" "t_status t = st" "x \<in> set (t_depends_on t)" by blast
    then have "t_id t = k" "t \<in> set (get_all_tasks c)" using tasks_keyed(1) [OF wf, of t] cs_wf_taskD [OF wf t(1)] by auto
    with t show "k \<in> set (?ks st)" by force
  qed
  have c1: "settle now (set (?ks Pending)) c = ?c1"
    using mem by (intro settle_relevant [OF wf]) (auto simp: dependents_on_def)
  obtain q1 where q1: "promote_dependents now x Pending (get_all_tasks c) q = (Inr (readied c x), q1)" "encodes q1 ?c1"
    using promote_dependents_sim [OF e wf tasks_keyed(2) [OF wf], of now x Pending] c1
    by (cases "promote_dependents now x Pending (get_all_tasks c) q")
      (auto simp: sim_ok_def Let_def readied_def simp del: set_map)
  have "filter (readies ?c1) (?ks Blocked) = []"
    using mem [of _ Blocked] by (auto simp: filter_empty_conv readies_def split: if_splits simp del: set_map)
  moreover have "settle now (set (?ks Blocked)) ?c1 = settle now {} ?c1"
    using mem [of _ Blocked] by (intro settle_relevant settle_wf [OF wf]) (auto split: if_splits simp del: set_map)
  moreover have "settle now {} ?c1 = ?c1" by (rule settle_idle) simp
  ultimately obtain q2 where "promote_dependents now x Blocked (get_all_tasks c) q1 = (Inr [], q2)" "encodes q2 ?c1"
    using promote_dependents_sim [OF q1(2) settle_wf [OF wf] tasks_keyed(2) [OF wf], of now x Blocked]
    by (cases "promote_dependents now x Blocked (get_all_tasks c) q1") (auto simp: sim_ok_def Let_def)
  with q1 show thesis by (intro that)
qed

text \<open>The cascade starts from tasks that have just become ready. None of them is completed, so it readies nothing more.\<close>

lemma readied_none:
  assumes wf: "cs_wf c" and x: "\<not> dep_completed c x"
  shows "readied c x = []"
proof -
  have "\<not> readies c (t_id t)" if "t \<in> set (get_all_tasks c)" "x \<in> set (t_depends_on t)" for t
    using that x tasks_keyed(1) [OF wf, of t] by (auto simp: readies_def list_all_iff)
  then show ?thesis by (auto simp: readied_def filter_empty_conv)
qed

lemma propagate_unready:
  assumes e: "encodes q c" and wf: "cs_wf c" and x: "\<not> dep_completed c x"
  obtains r where "propagate n (Suc d) now x q = Some r" "sim_ok r ([], settle now (dependents_on c x) c)"
proof -
  obtain q1 q2 where "promote_dependents now x Pending (get_all_tasks c) q = (Inr [], q1)"
    "promote_dependents now x Blocked (get_all_tasks c) q1 = (Inr [], q2)"
    "encodes q2 (settle now (dependents_on c x) c)"
    using propagate_passes [OF e wf, of now x] readied_none [OF wf x] by metis
  then show thesis
    using that [of "(Inr [], q2)"] by (simp add: sql_get_all_tasks_encodes [OF e] sim_ok_def)
qed

lemma cascade_unready:
  assumes "encodes q c" "cs_wf c" "\<forall>x \<in> set xs. \<not> dep_completed c x" "length xs \<le> n"
  shows "\<exists>r. cascade n (propagate m (Suc d) now) xs q = Some r \<and>
             sim_ok r ([], settle now (\<Union>x \<in> set xs. dependents_on c x) c)"
  using assms
proof (induction xs arbitrary: n q c)
  case Nil
  have "settle now {} c = c" by (rule settle_idle) simp
  with Nil show ?case by (simp add: sim_ok_def)
next
  case (Cons x xs)
  obtain n' where n: "n = Suc n'" using Cons.prems(4) by (cases n) auto
  let ?c = "settle now (dependents_on c x) c"
  obtain q1 where p: "propagate m (Suc d) now x q = Some (Inr [], q1)" and e: "encodes q1 ?c"
    using propagate_unready [OF Cons.prems(1,2), of x m d now] Cons.prems(3)
    by (force simp: sim_ok_def)
  obtain r where r: "cascade n' (propagate m (Suc d) now) xs q1 = Some r"
      "sim_ok r ([], settle now (\<Union>x \<in> set xs. dependents_on ?c x) ?c)"
    using Cons.IH [OF e settle_wf [OF Cons.prems(2)], of n'] Cons.prems(3,4) n by (auto simp del: propagate.simps)
  obtain q2 where "r = (Inr [], q2)" using r(2) by (cases r) (simp add: sim_ok_def)
  with p r n show ?case by (simp add: settle_settle Un_commute del: propagate.simps)
qed

text \<open>All that a completion settles: its dependents, and the dependents of those it readies.\<close>

definition wake :: "cluster_state \<Rightarrow> string \<Rightarrow> string set" where
  "wake c x = dependents_on c x \<union> (\<Union>y \<in> set (readied c x). dependents_on c y)"

lemma on_dependency_complete_sim:
  assumes e: "encodes q c" and wf: "cs_wf c"
  shows "\<exists>r. on_dependency_complete now x q = Some r \<and> sim_ok r (readied c x, settle now (wake c x) c)"
proof -
  let ?c1 = "settle now (dependents_on c x) c" and ?n = "2 * length (q_tasks q)"
  obtain q1 q2 where p: "promote_dependents now x Pending (get_all_tasks c) q = (Inr (readied c x), q1)"
    "promote_dependents now x Blocked (get_all_tasks c) q1 = (Inr [], q2)" and e2: "encodes q2 ?c1"
    by (rule propagate_passes [OF e wf])
  have "\<forall>y \<in> set (readied c x). \<not> dep_completed ?c1 y"
    by (auto simp: readied_def readies_def dep_completed_def split: option.splits)
  moreover have "length (readied c x) \<le> ?n"
  proof -
    have "length (readied c x) \<le> length (get_all_tasks c)"
      unfolding readied_def by (rule order_trans [OF length_filter_le]) simp
    then show ?thesis using encodesD(2) [OF e] by (simp add: get_all_tasks_def rows_of_def)
  qed
  ultimately obtain r where r: "cascade ?n (propagate ?n (Suc 8) now) (readied c x) q2 = Some r"
      "sim_ok r ([], settle now (\<Union>y \<in> set (readied c x). dependents_on ?c1 y) ?c1)"
    using cascade_unready [OF e2 settle_wf [OF wf], of "readied c x" ?n ?n 8 now] by blast
  obtain q3 where q3: "r = (Inr [], q3)" using r(2) by (cases r) (simp add: sim_ok_def)
  have ten: "MAX_TRIGGER_CHAIN_DEPTH = Suc (Suc 8)" by (simp add: MAX_TRIGGER_CHAIN_DEPTH_def)
  have "on_dependency_complete now x q = Some (Inr (readied c x), q3)"
    unfolding on_dependency_complete_def ten propagate.simps(2) [of _ "Suc 8"]
    using p r(1) q3 by (simp add: sql_get_all_tasks_encodes [OF e] del: propagate.simps)
  with r(2) q3 show ?thesis by (simp add: sim_ok_def settle_settle wake_def Un_commute)
qed

end
