(* ===== verification/CoreRecovery.thy ===== *)
theory CoreRecovery
  imports CoreFacts
begin

text \<open>
  The passes of the cluster core over several rows, read on the in-memory state: the expiry pass with
  its callbacks, the blocking of dependents, and the two loops of a recovery with the events they log.
\<close>

section \<open>The expiry pass\<close>

lemma notify_fold:
  "fold (core_dispatch now) (map (\<lambda>l. LeaseExpired (l_task_id l) (l_node_id l)) ls) co =
   co\<lparr>co_event_queue := co_event_queue co @ map l_node_id ls\<rparr>"
  by (induction ls arbitrary: co) (simp_all add: core_notify_offline_def)

lemma core_active_leases_encodes:
  assumes e: "encodes (co_store co) c" and wf: "cs_wf c"
  obtains q where "core_active_leases now co =
      (filter (lease_live now) (dict_values (cs_leases c)),
       co\<lparr>co_store := q, co_event_queue := co_event_queue co @
         (if cs_lease_callback c then map l_node_id (filter (lease_due now) (dict_values (cs_leases c))) else [])\<rparr>)"
    and "encodes q (snd (get_active_leases now c))"
proof -
  have lwf: "leases_wf c" using wf by (simp add: cs_wf_def)
  obtain v q where vq: "sql_get_active_leases now (co_store co) = (v, q)" by (cases "sql_get_active_leases now (co_store co)")
  with sql_get_active_leases_sim [OF e lwf, of now]
  have v: "v = filter (lease_live now) (dict_values (cs_leases c))" and q: "encodes q (snd (get_active_leases now c))"
    by (auto simp: sim_def get_active_leases_eq)
  let ?due = "filter (lease_due now) (dict_values (cs_leases c))"
  have "drop (length (q_cb_log (co_store co))) (q_cb_log q) =
      (if cs_lease_callback c then map (\<lambda>l. LeaseExpired (l_task_id l) (l_node_id l)) ?due else [])"
    using encodesD(13) [OF q] encodesD(13) [OF e] by (simp add: get_active_leases_eq)
  then have "core_active_leases now co = (v, co\<lparr>co_store := q, co_event_queue := co_event_queue co @
      (if cs_lease_callback c then map l_node_id ?due else [])\<rparr>)"
    by (simp add: core_active_leases_def with_callbacks_def vq notify_fold)
  with v q show thesis by (intro that) auto
qed

lemma mark_due_live: "lease_live now l \<Longrightarrow> mark_due now l = l"
  by (simp add: mark_due_def lease_due_def lease_live_def)

section \<open>Blocking the dependents\<close>

definition blocks :: "string \<Rightarrow> task \<Rightarrow> bool" where
  "blocks x t \<longleftrightarrow> t_status t = Pending \<and> x \<in> set (t_depends_on t)"

definition block_reason :: "string \<Rightarrow> string" where
  "block_reason x = ''dependency '' @ x @ '' failed''"

lemma block_dependents_encodes:
  "encodes q c \<Longrightarrow>
   block_dependents now x ts q = (ids, q') \<Longrightarrow>
   ids = map t_id (filter (blocks x) ts) \<and>
   encodes q' (fold (\<lambda>k. force_status now k Blocked (block_reason x)) ids c)"
proof (induction ts arbitrary: q c ids)
  case (Cons t ts)
  let ?q = "snd (sql_set_task_status now (t_id t) Blocked (block_reason x) q)"
  show ?case
  proof (cases "blocks x t")
    case True
    obtain ids1 where "block_dependents now x ts ?q = (ids1, q')" "ids = t_id t # ids1"
      using True Cons.prems(2) by (auto simp: blocks_def Let_def block_reason_def split: prod.splits)
    with True Cons.IH [OF force_status_encodes [OF Cons.prems(1)]] show ?thesis by simp
  next
    case False
    with Cons show ?thesis by (auto simp: blocks_def)
  qed
qed simp

lemma get_task_fold_force:
  "distinct ks \<Longrightarrow> get_task (fold (\<lambda>k. force_status now k st fr) ks c) k =
     (if k \<in> set ks then map_option (forced now st fr) (get_task c k) else get_task c k)"
  by (induction ks arbitrary: c) auto

lemma fold_force_wf [wf_keep]: "cs_wf c \<Longrightarrow> cs_wf (fold (\<lambda>k. force_status now k st fr) ks c)"
  by (induction ks arbitrary: c) (simp_all add: wf_keep)

lemma on_dependency_failed_sim:
  assumes e: "encodes q c" and wf: "cs_wf c"
  obtains ids q' c' where "on_dependency_failed now x q = (Inr ids, q')" "encodes q' c'" "cs_wf c'"
    and "ids = map t_id (filter (blocks x) (get_all_tasks c))"
    and "\<forall>k. get_task c' k = map_option (\<lambda>t. if blocks x t then forced now Blocked (block_reason x) t else t) (get_task c k)"
proof -
  obtain ids q' where b: "block_dependents now x (get_all_tasks c) q = (ids, q')"
    by (cases "block_dependents now x (get_all_tasks c) q")
  let ?c = "fold (\<lambda>k. force_status now k Blocked (block_reason x)) ids c"
  have ids: "ids = map t_id (filter (blocks x) (get_all_tasks c))" and e': "encodes q' ?c"
    using block_dependents_encodes [OF e b] by auto
  have "distinct ids" using tasks_keyed(2) [OF wf] unfolding ids by (rule distinct_map_filter)
  moreover have "k \<in> set ids \<longleftrightarrow> blocks x t" if "get_task c k = Some t" for k t
  proof -
    have k: "t_id t = k" using cs_wf_taskD [OF wf that] by simp
    show ?thesis
    proof
      assume "k \<in> set ids"
      then obtain t' where t': "t' \<in> set (get_all_tasks c)" "blocks x t'" "t_id t' = k" unfolding ids by auto
      then have "get_task c k = Some t'" using tasks_keyed(1) [OF wf, of t'] by simp
      with that t' show "blocks x t" by simp
    next
      assume "blocks x t"
      then show "k \<in> set ids" using that k tasks_keyed(1) [OF wf, of t] unfolding ids by auto
    qed
  qed
  ultimately have "get_task ?c k =
      map_option (\<lambda>t. if blocks x t then forced now Blocked (block_reason x) t else t) (get_task c k)" for k
    by (cases "get_task c k") (simp_all add: get_task_fold_force)
  then have "\<forall>k. get_task ?c k =
      map_option (\<lambda>t. if blocks x t then forced now Blocked (block_reason x) t else t) (get_task c k)" by blast
  moreover have "on_dependency_failed now x q = (Inr ids, q')"
    by (simp add: on_dependency_failed_def sql_get_all_tasks_encodes [OF e] b)
  ultimately show thesis using e' ids fold_force_wf [OF wf] by (intro that)
qed

section \<open>The watchdog registry\<close>

text \<open>The adapter of the core provides the registry the watchdog relies on.\<close>

definition core_ok :: "cluster_core \<Rightarrow> bool" where
  "core_ok co \<longleftrightarrow> (\<exists>c. encodes (co_store co) c \<and> cs_wf c)"

interpretation core_registry: watchdog_registry core_hb_nodes core_update_status core_ok
proof
  fix s :: cluster_core and st nid r
  assume "core_ok s"
  then obtain c where e: "encodes (co_store s) c" and wf: "cs_wf c" by (auto simp: core_ok_def)
  have hb: "core_hb_nodes co = map hb_of (dict_values (cs_nodes c'))" if "encodes (co_store co) c'" for co c'
    using encodesD(1) [OF that] by (simp add: core_hb_nodes_def sql_get_all_nodes_def)
  show "distinct (map hb_id (core_hb_nodes s))"
    using nodes_wf_distinct [OF cs_wfD(1) [OF wf]] by (simp add: hb [OF e] get_all_nodes_def hb_of_def comp_def)
  have upd: "encodes (co_store (core_update_status nid st r s)) (set_node_status nid ns r c)"
    if "parse_node_status st = Some ns" for ns
    using that sql_node_setters_encode(4) [OF e] by (simp add: core_update_status_def)
  show "core_ok (core_update_status nid st r s)"
    using upd e wf node_setters_wf [OF wf] by (cases "parse_node_status st") (auto simp: core_ok_def core_update_status_def)
  assume "st \<in> {''online'', ''degraded'', ''offline''}"
  then obtain ns where ns: "parse_node_status st = Some ns" "node_status_value ns = st"
    by (auto simp: parse_node_status_def)
  show "core_hb_nodes (core_update_status nid st r s) =
      map (\<lambda>n. if hb_id n = nid then n\<lparr>hb_status := st\<rparr> else n) (core_hb_nodes s)"
    using ns(2) by (simp add: hb [OF e] hb [OF upd [OF ns(1)]] set_node_status_values [OF cs_wfD(1) [OF wf]] hb_of_status)
      (auto simp: hb_of_def)
qed

lemma core_update_status_frame [simp]:
  "co_event_queue (core_update_status nid st r co) = co_event_queue co"
  "co_watchdog (core_update_status nid st r co) = co_watchdog co"
  by (simp_all add: core_update_status_def split: option.split)

lemma wd_loop_queue: "co_event_queue (snd (wd_loop core_update_status w now ns co)) = co_event_queue co"
  by (induction ns arbitrary: co) (simp_all add: Let_def case_prod_beta)

lemma offline_events_queued:
  "co_event_queue (fold (\<lambda>(nid, st). if st = ''offline'' then core_notify_offline nid else id) evs co) =
     co_event_queue co @ map fst (filter (\<lambda>(_, st). st = ''offline'') evs) \<and>
   co_store (fold (\<lambda>(nid, st). if st = ''offline'' then core_notify_offline nid else id) evs co) = co_store co"
  by (induction evs arbitrary: co) (auto simp: core_notify_offline_def)

section \<open>Recovery events\<close>

text \<open>No id still to be drawn is taken.\<close>

definition fresh_events :: "cluster_state \<Rightarrow> bool" where
  "fresh_events c \<longleftrightarrow>
     inj (cs_rng c) \<and> (\<forall>i \<ge> cs_draws c. gen_id ''recovery'' (cs_rng c) i \<notin> re_id ` set (cs_recovery_events c))"

lemma fresh_init: "inj rng \<Longrightarrow> fresh_events (init_state now rng)"
  by (simp add: fresh_events_def init_state_def)

lemma fresh_cong:
  "fresh_events c \<Longrightarrow> cs_rng c' = cs_rng c \<Longrightarrow> cs_draws c' = cs_draws c \<Longrightarrow>
   cs_recovery_events c' = cs_recovery_events c \<Longrightarrow> fresh_events c'"
  by (simp add: fresh_events_def)

text \<open>Two states that differ in the recovery log and the ids drawn for it.\<close>

definition same_tables :: "cluster_state \<Rightarrow> cluster_state \<Rightarrow> bool" where
  "same_tables c c' \<longleftrightarrow> cs_tasks c' = cs_tasks c \<and> cs_nodes c' = cs_nodes c \<and> cs_leases c' = cs_leases c"

lemma core_event_sim:
  assumes e: "encodes q c" and wf: "cs_wf c" and f: "fresh_events c"
  obtains q' c' where "core_event now tid nid act st msg q = (Inr (), q')" "encodes q' c'" "cs_wf c'"
    "fresh_events c'" "same_tables c c'"
proof -
  define ev where "ev = \<lparr>re_id = gen_id ''recovery'' (cs_rng c) (cs_draws c), re_task_id = tid, re_node_id = nid,
     re_action = act, re_status = st, re_message = Some msg, re_timestamp = now\<rparr>"
  define c1 where "c1 = snd (generate_id ''recovery'' c)"
  define q1 where "q1 = q\<lparr>q_draws := Suc (q_draws q)\<rparr>"
  define c' where "c' = append_recovery_event now ev c1"
  have id: "re_id ev = gen_id ''recovery'' (cs_rng c) (cs_draws c)" by (simp add: ev_def)
  have c1: "cs_rng c1 = cs_rng c" "cs_draws c1 = Suc (cs_draws c)" "cs_recovery_events c1 = cs_recovery_events c"
    "same_tables c c1"
    by (simp_all add: c1_def generate_id_def same_tables_def)
  have "encodes q1 c1" using e by (simp add: c1_def q1_def generate_id_def encodes_def)
  moreover have "re_id ev \<notin> re_id ` set (cs_recovery_events c)" using f id by (simp add: fresh_events_def)
  ultimately have s: "sim_ok (sql_append_recovery_event now ev q1) ((), c')"
    unfolding c'_def by (intro sql_append_recovery_event_sim) (simp_all add: id c1)
  have "core_event now tid nid act st msg q = sql_append_recovery_event now ev q1"
    by (simp add: core_event_def sql_generate_id_def encodesD [OF e] ev_def q1_def)
  then have r: "core_event now tid nid act st msg q = (Inr (), snd (core_event now tid nid act st msg q))"
    and e': "encodes (snd (core_event now tid nid act st msg q)) c'"
    using s by (simp_all add: sim_ok_def prod_eq_iff)
  have c': "cs_rng c' = cs_rng c" "cs_draws c' = Suc (cs_draws c)" "same_tables c c'"
    "cs_recovery_events c' = cs_recovery_events c @ [ev\<lparr>re_timestamp := now\<rparr>]"
    using c1 by (simp_all add: c'_def append_recovery_event_def id same_tables_def)
  have "fresh_events c'"
    using f id by (auto simp: fresh_events_def c')
  moreover have "cs_wf c'" unfolding c'_def c1_def by (intro append_recovery_event_wf generate_id_wf wf)
  ultimately show thesis by (intro that [OF r e']) (simp_all add: c')
qed

section \<open>Revoking the leases of a node\<close>

lemma get_lease_revoke:
  "get_lease (snd (revoke_lease k c)) j =
     (if j = k then map_option (\<lambda>l. l\<lparr>l_status := Revoked\<rparr>) (get_lease c j) else get_lease c j)"
  by (simp add: revoke_lease_def get_lease_def split: option.split)

lemma fresh_revoke: "fresh_events c \<Longrightarrow> fresh_events (snd (revoke_lease k c))"
  by (erule fresh_cong) (simp_all add: revoke_lease_def split: option.split)

text \<open>Two states that agree on tasks and nodes, the leases of \<open>K\<close> being revoked in the second.\<close>

definition revoked_in :: "string set \<Rightarrow> cluster_state \<Rightarrow> cluster_state \<Rightarrow> bool" where
  "revoked_in K c c' \<longleftrightarrow> cs_tasks c' = cs_tasks c \<and> cs_nodes c' = cs_nodes c \<and>
     (\<forall>k. get_lease c' k = map_option (\<lambda>l. if k \<in> K then l\<lparr>l_status := Revoked\<rparr> else l) (get_lease c k))"

lemma core_revoke_loop_sim:
  assumes "encodes q c" "cs_wf c" "fresh_events c"
  shows "\<exists>q' c'. core_revoke_loop now nid ls q = (Inr (map l_task_id (filter (\<lambda>l. l_node_id l = nid) ls)), q') \<and>
     encodes q' c' \<and> cs_wf c' \<and> fresh_events c' \<and>
     revoked_in (l_id ` set (filter (\<lambda>l. l_node_id l = nid) ls)) c c'"
  using assms
proof (induction ls arbitrary: q c)
  case Nil
  then show ?case by (force simp: revoked_in_def option.map_ident)
next
  case (Cons l ls)
  show ?case
  proof (cases "l_node_id l = nid")
    case False
    with Cons show ?thesis by simp
  next
    case True
    let ?c = "snd (revoke_lease (l_id l) c)"
    have e: "encodes (snd (sql_revoke_lease (l_id l) q)) ?c"
      using sql_revoke_lease_sim [OF Cons.prems(1)] by (simp add: sim_def)
    obtain q1 c1 where ev: "core_event now (l_task_id l) nid ''revoke_lease'' ''completed''
        (''Revoked lease for task '' @ l_task_id l @ '' on failed node '' @ nid) (snd (sql_revoke_lease (l_id l) q)) = (Inr (), q1)"
      and c1: "encodes q1 c1" "cs_wf c1" "fresh_events c1" "same_tables ?c c1"
      by (rule core_event_sim [OF e revoke_lease_wf [OF Cons.prems(2)] fresh_revoke [OF Cons.prems(3)]])
    obtain q' c' where r: "core_revoke_loop now nid ls q1 = (Inr (map l_task_id (filter (\<lambda>l. l_node_id l = nid) ls)), q')"
      and c': "encodes q' c'" "cs_wf c'" "fresh_events c'"
        "revoked_in (l_id ` set (filter (\<lambda>l. l_node_id l = nid) ls)) c1 c'"
      using Cons.IH [OF c1(1-3)] by blast
    have "get_lease c1 k = get_lease ?c k" for k using c1(4) by (simp add: same_tables_def get_lease_def)
    with c1(4) c'(4) have "revoked_in (l_id ` set (filter (\<lambda>l. l_node_id l = nid) (l # ls))) c c'"
      using True by (auto simp: revoked_in_def same_tables_def get_lease_revoke option.map_comp comp_def
          intro!: option.map_cong)
    with True ev r c' show ?thesis by auto
  qed
qed

section \<open>Rescheduling the orphans\<close>

text \<open>What the rescheduling loop leaves of a task it visits.\<close>

definition orphan_status :: "cluster_state \<Rightarrow> task \<Rightarrow> task_status" where
  "orphan_status c t = (if list_ex (core_can_run t) (online_nodes c) then Running else Failed)"

definition orphaned :: "cluster_state \<Rightarrow> bool \<Rightarrow> task \<Rightarrow> task \<Rightarrow> bool" where
  "orphaned c visited t u \<longleftrightarrow>
     (if visited
      then t_status u = orphan_status c t \<and> t_assigned_to u = t_assigned_to t \<and> t_requires u = t_requires t
      else u = t)"

definition orphaned_in :: "string set \<Rightarrow> cluster_state \<Rightarrow> cluster_state \<Rightarrow> bool" where
  "orphaned_in K c c' \<longleftrightarrow> cs_nodes c' = cs_nodes c \<and> cs_leases c' = cs_leases c \<and>
     (\<forall>k. rel_option (orphaned c (k \<in> K)) (get_task c k) (get_task c' k))"

lemma orphaned_absent:
  assumes "get_task c tid = None" "orphaned_in K c c'"
  shows "orphaned_in (insert tid K) c c'"
proof -
  have "rel_option (orphaned c (k \<in> insert tid K)) (get_task c k) (get_task c' k)" for k
  proof (cases "k = tid")
    case True
    have "rel_option (orphaned c (tid \<in> K)) (get_task c tid) (get_task c' tid)"
      using assms(2) unfolding orphaned_in_def by blast
    with assms(1) True show ?thesis by simp
  next
    case False
    have "rel_option (orphaned c (k \<in> K)) (get_task c k) (get_task c' k)"
      using assms(2) unfolding orphaned_in_def by blast
    with False show ?thesis by simp
  qed
  with assms(2) show ?thesis by (simp add: orphaned_in_def)
qed

lemma find_Some_iff_ex: "(\<exists>x. find P xs = Some x) \<longleftrightarrow> list_ex P xs"
  by (induction xs) auto

lemma orphaned_step:
  assumes c1: "same_tables (force_status now tid st fr c) c1" and r: "orphaned_in K c1 c'"
    and t: "get_task c tid = Some t" "orphan_status c t = st"
  shows "orphaned_in (insert tid K) c c'"
proof -
  have g: "get_task c1 k = (if k = tid then map_option (forced now st fr) (get_task c k) else get_task c k)" for k
    using c1 get_task_force [of now tid st fr c k] unfolding same_tables_def get_task_def by simp
  have "online_nodes c1 = online_nodes c" using c1 by (simp add: same_tables_def online_nodes_def)
  then have os: "orphan_status c1 u = orphan_status c u" for u by (simp add: orphan_status_def)
  have can: "orphan_status c u = orphan_status c v" if "t_requires u = t_requires v" for u v
    using that by (simp add: orphan_status_def core_can_run_def [abs_def])
  have "orphaned c1 = orphaned c" by (simp add: fun_eq_iff orphaned_def os)
  with r have rk: "rel_option (orphaned c (k \<in> K)) (get_task c1 k) (get_task c' k)" for k
    unfolding orphaned_in_def by metis
  have "rel_option (orphaned c (k \<in> insert tid K)) (get_task c k) (get_task c' k)" for k
  proof (cases "k = tid")
    case True
    obtain u where u: "get_task c' tid = Some u" "orphaned c (tid \<in> K) (forced now st fr t) u"
      using rk [of tid] t(1) g [of tid] by (cases "get_task c' tid") auto
    have "orphan_status c (forced now st fr t) = orphan_status c t" by (rule can) simp
    with u True t show ?thesis by (cases "tid \<in> K") (auto simp: orphaned_def)
  qed (use rk [of k] g [of k] in simp)
  with c1 r show ?thesis by (simp add: orphaned_in_def same_tables_def)
qed

lemma core_reschedule_sim:
  assumes "encodes q c" "cs_wf c" "fresh_events c"
  shows "\<exists>n q' c'. core_reschedule_orphaned now tids q = (Inr n, q') \<and> encodes q' c' \<and> cs_wf c' \<and>
     fresh_events c' \<and> orphaned_in (set tids) c c'"
  using assms
proof (induction tids arbitrary: q c)
  case Nil
  have "orphaned_in (set []) c c" by (simp add: orphaned_in_def orphaned_def [abs_def] option.rel_eq [unfolded fun_eq_iff] eq_commute)
  with Nil show ?case by auto
next
  case (Cons tid tids)
  note e = Cons.prems(1) and wf = Cons.prems(2) and f = Cons.prems(3)
  show ?case
  proof (cases "get_task c tid")
    case None
    obtain n q' c' where "core_reschedule_orphaned now tids q = (Inr n, q')" and c': "encodes q' c'" "cs_wf c'"
       "fresh_events c'" "orphaned_in (set tids) c c'"
      using Cons.IH [OF e wf f] by blast
    moreover have "orphaned_in (set (tid # tids)) c c'" using orphaned_absent [OF None c'(4)] by simp
    ultimately show ?thesis using None by (auto simp: sql_get_task_encodes [OF e])
  next
    case (Some t)
    have nodes: "filter (\<lambda>n. n_status n = Online) (sql_get_all_nodes q) = online_nodes c"
      by (simp add: sql_get_all_nodes_def online_nodes_def encodesD [OF e])
    have step: "\<exists>k q' c'. core_reschedule_orphaned now tids q1 = (Inr k, q') \<and> encodes q' c' \<and> cs_wf c' \<and>
        fresh_events c' \<and> orphaned_in (set (tid # tids)) c c'"
      if "encodes q1 c1" "cs_wf c1" "fresh_events c1" "same_tables (force_status now tid st fr c) c1"
        "orphan_status c t = st" for q1 c1 st fr
    proof -
      note given = that
      obtain k q' c' where "core_reschedule_orphaned now tids q1 = (Inr k, q')" "encodes q' c'" "cs_wf c'"
        "fresh_events c'" "orphaned_in (set tids) c1 c'" using Cons.IH [OF given(1-3)] by blast
      moreover from orphaned_step [OF given(4) this(5) Some given(5)] have "orphaned_in (set (tid # tids)) c c'" by simp
      ultimately show ?thesis by blast
    qed
    note forced = force_status_encodes [OF e] force_status_wf [OF wf] fresh_cong [OF f]
    show ?thesis
    proof (cases "find (core_can_run t) (online_nodes c)")
      case (Some n)
      then have "list_ex (core_can_run t) (online_nodes c)" using find_Some_iff_ex [of "core_can_run t" "online_nodes c"] by simp
      then have st: "orphan_status c t = Running" by (simp add: orphan_status_def)
      obtain q1 c1 where ev: "core_event now tid (n_id n) ''reschedule'' ''completed'' (''Rescheduled to node '' @ n_id n)
           (snd (sql_set_task_status now tid Running [] q)) = (Inr (), q1)"
        and c1: "encodes q1 c1" "cs_wf c1" "fresh_events c1" "same_tables (force_status now tid Running [] c) c1"
        by (rule core_event_sim [OF forced]) simp_all
      obtain k q' c' where "core_reschedule_orphaned now tids q1 = (Inr k, q')"
        and c': "encodes q' c'" "cs_wf c'" "fresh_events c'" "orphaned_in (set (tid # tids)) c c'"
        using step [OF c1 st] by blast
      then have "core_reschedule_orphaned now (tid # tids) q = (Inr (k + 1), q')"
        using ev Some \<open>get_task c tid = Some t\<close> nodes by (simp add: sql_get_task_encodes [OF e])
      with c' show ?thesis by blast
    next
      case None
      then have "\<not> list_ex (core_can_run t) (online_nodes c)" using find_Some_iff_ex [of "core_can_run t" "online_nodes c"] by simp
      then have st: "orphan_status c t = Failed" by (simp add: orphan_status_def)
      obtain q1 c1 where ev: "core_event now tid [] ''mark_failed'' ''completed'' ''No available node for reschedule''
           (snd (sql_set_task_status now tid Failed ''no available node for reschedule'' q)) = (Inr (), q1)"
        and c1: "encodes q1 c1" "cs_wf c1" "fresh_events c1"
          "same_tables (force_status now tid Failed ''no available node for reschedule'' c) c1"
        by (rule core_event_sim [OF forced]) simp_all
      obtain k q' c' where "core_reschedule_orphaned now tids q1 = (Inr k, q')"
        and c': "encodes q' c'" "cs_wf c'" "fresh_events c'" "orphaned_in (set (tid # tids)) c c'"
        using step [OF c1 st] by blast
      then have "core_reschedule_orphaned now (tid # tids) q = (Inr k, q')"
        using ev None \<open>get_task c tid = Some t\<close> nodes by (simp add: sql_get_task_encodes [OF e])
      with c' show ?thesis by blast
    qed
  qed
qed

section \<open>Recovering a node\<close>

text \<open>The tasks whose live lease the recovery revokes.\<close>

definition held_by :: "time \<Rightarrow> string \<Rightarrow> cluster_state \<Rightarrow> string set" where
  "held_by now nid c = {l_task_id l |l. l \<in> set (dict_values (cs_leases c)) \<and> lease_live now l \<and> l_node_id l = nid}"

lemma live_revoked:
  assumes wf: "cs_wf c"
    and r: "revoked_in (l_id ` set (filter (\<lambda>l. l_node_id l = nid) (filter (lease_live now) (dict_values (cs_leases c)))))
      (snd (get_active_leases now c)) c'"
  shows "get_lease c' k = map_option (\<lambda>l. if lease_live now l \<and> l_node_id l = nid
      then l\<lparr>l_status := Revoked\<rparr> else mark_due now l) (get_lease c k)"
proof (cases "get_lease c k")
  case None
  with r show ?thesis by (simp add: revoked_in_def get_active_leases_at)
next
  case (Some l)
  let ?K = "l_id ` set (filter (\<lambda>l. l_node_id l = nid) (filter (lease_live now) (dict_values (cs_leases c))))"
  have lwf: "leases_wf c" using wf by (simp add: cs_wf_def)
  have "k \<in> ?K \<longleftrightarrow> lease_live now l \<and> l_node_id l = nid"
  proof
    assume "k \<in> ?K"
    then obtain m where "m \<in> set (dict_values (cs_leases c))" "lease_live now m" "l_node_id m = nid" "l_id m = k" by auto
    with dict_value_get [OF leases_wfD(1) [OF lwf]] keyed_values [OF lwf] Some show "lease_live now l \<and> l_node_id l = nid"
      by (force simp: get_lease_def)
  next
    assume "lease_live now l \<and> l_node_id l = nid"
    with Some dict_get_value [of "cs_leases c" k l] leases_wfD(4) [OF lwf, of k l] show "k \<in> ?K"
      by (force simp: get_lease_def)
  qed
  with r Some show ?thesis by (auto simp: revoked_in_def get_active_leases_at mark_due_live)
qed

lemma core_recover_sim:
  assumes e: "encodes (co_store co) c" and wf: "cs_wf c" and f: "fresh_events c"
  obtains co' c' where "core_recover_node now nid co = (Inr (), co')" "encodes (co_store co') c'" "cs_wf c'"
    and "cs_nodes c' = cs_nodes c"
    and "\<forall>k. get_lease c' k = map_option (\<lambda>l. if lease_live now l \<and> l_node_id l = nid
           then l\<lparr>l_status := Revoked\<rparr> else mark_due now l) (get_lease c k)"
    and "\<forall>k. rel_option (orphaned c (k \<in> held_by now nid c)) (get_task c k) (get_task c' k)"
proof -
  let ?ls = "filter (lease_live now) (dict_values (cs_leases c))"
  let ?own = "filter (\<lambda>l. l_node_id l = nid) ?ls" and ?c0 = "snd (get_active_leases now c)"
  obtain q0 co0 where act: "core_active_leases now co = (?ls, co0)" "co_store co0 = q0" and e0: "encodes q0 ?c0"
    by (rule core_active_leases_encodes [OF e wf, of now]) (auto intro: that)
  have "fresh_events ?c0" by (rule fresh_cong [OF f]) (simp_all add: get_active_leases_eq)
  then obtain q1 c1 where r1: "core_revoke_loop now nid ?ls q0 = (Inr (map l_task_id ?own), q1)"
    and c1: "encodes q1 c1" "cs_wf c1" "fresh_events c1" "revoked_in (l_id ` set ?own) ?c0 c1"
    using core_revoke_loop_sim [OF e0 get_active_leases_wf [OF wf], of now nid ?ls] by blast
  define tids where "tids = map l_task_id ?own"
  have rev: "core_revoke_all_for_node now nid co = (Inr tids, set_store q1 co0)"
    by (simp add: core_revoke_all_for_node_def act r1 tids_def)
  have held: "held_by now nid c = set tids" by (auto simp: held_by_def tids_def)
  have tasks1: "get_task c1 = get_task c" "cs_nodes c1 = cs_nodes c"
    using c1(4) by (simp_all add: revoked_in_def get_task_def [abs_def] get_active_leases_eq)
  have leases1: "get_lease c1 k = map_option (\<lambda>l. if lease_live now l \<and> l_node_id l = nid
      then l\<lparr>l_status := Revoked\<rparr> else mark_due now l) (get_lease c k)" for k
    by (rule live_revoked [OF wf c1(4)])
  show thesis
  proof (cases "tids = []")
    case True
    then have "core_recover_node now nid co = (Inr (), set_store q1 co0)"
      by (simp add: core_recover_node_def rev)
    moreover have "rel_option (orphaned c (k \<in> held_by now nid c)) (get_task c k) (get_task c1 k)" for k
      unfolding held True tasks1 by (cases "get_task c k") (simp_all add: orphaned_def)
    ultimately show thesis using c1(1,2) tasks1 leases1 by (intro that [of "set_store q1 co0" c1] allI) simp_all
  next
    case False
    obtain n q2 c2 where r2: "core_reschedule_orphaned now tids q1 = (Inr n, q2)"
      and c2: "encodes q2 c2" "cs_wf c2" "fresh_events c2" "orphaned_in (set tids) c1 c2"
      using core_reschedule_sim [OF c1(1-3), of now tids] by blast
    obtain q3 c3 where r3: "core_event now [] nid ''full_recovery''
         (if n = length tids then ''completed'' else ''partial'')
         (''Revoked '' @ show_nat (length tids) @ '' leases, rescheduled '' @ show_nat n @ '' tasks'') q2 = (Inr (), q3)"
      and c3: "encodes q3 c3" "cs_wf c3" "fresh_events c3" "same_tables c2 c3"
      by (rule core_event_sim [OF c2(1-3)])
    have "core_recover_node now nid co = (Inr (), set_store q3 co0)"
      using False r3 by (simp add: core_recover_node_def rev r2)
    moreover have "orphaned c1 = orphaned c"
      using tasks1 by (simp add: fun_eq_iff orphaned_def orphan_status_def online_nodes_def)
    then have "rel_option (orphaned c (k \<in> held_by now nid c)) (get_task c k) (get_task c3 k)" for k
      using c2(4) c3(4) unfolding held tasks1(1) [symmetric]
      by (simp add: orphaned_in_def same_tables_def get_task_def)
    moreover have "get_lease c3 = get_lease c1" "cs_nodes c3 = cs_nodes c"
      using c2(4) c3(4) tasks1 by (simp_all add: orphaned_in_def same_tables_def get_lease_def [abs_def])
    ultimately show thesis using c3(1,2) leases1 by (intro that [of "set_store q3 co0" c3] allI) simp_all
  qed
qed

end
