(* ===== verification/SqlDemo.thy ===== *)
theory SqlDemo
  imports CoreRecovery Demo
begin

text \<open>
  A small persistent store, made by operations, and the in-memory state it encodes: the instance on
  which the properties of its clients are applied.
\<close>

text \<open>Two nodes, \<open>t1\<close> running under a lease of the first, and \<open>t2\<close> waiting for it.\<close>

definition core_ops :: "(time \<times> store_op) list" where
  "core_ops =
     [(0, RegisterNode (demo_node ''n1'' 1)), (0, RegisterNode (demo_node ''n2'' 1)),
      (10, CreateBatch [demo_plan ''t1'' [] [], demo_plan ''t2'' [''t1''] []]), (20, SchedulePending)]"

definition core_demo_state :: cluster_state where
  "core_demo_state = snd (run_ops (\<lambda>(now, op). mem_do now op) core_ops (init_state 0 demo_rng))"

definition core_demo_store :: sql_store where
  "core_demo_store = snd (run_ops (\<lambda>(now, op). sql_do now op) core_ops (sql_init 0 demo_rng))"

lemma core_demo_facts:
  "encodes core_demo_store core_demo_state" "cs_wf core_demo_state" "fresh_events core_demo_state"
proof -
  have u: "used_ops (\<lambda>(now, op). plain_use now op) (\<lambda>(now, op). mem_do now op) core_ops (init_state 0 demo_rng)"
    by code_simp
  from sqlsim.run_sim [OF encodes_init cs_wf_init [OF inj_demo_rng] u]
  show "encodes core_demo_store core_demo_state" "cs_wf core_demo_state"
    by (simp_all add: core_demo_store_def core_demo_state_def)
  have "cs_recovery_events core_demo_state = []" by code_simp
  then show "fresh_events core_demo_state"
    using \<open>cs_wf core_demo_state\<close> leases_wfD(3) by (simp add: fresh_events_def cs_wf_def)
qed

lemma core_demo_tasks:
  "case get_task core_demo_state ''t1'' of None \<Rightarrow> False | Some t \<Rightarrow>
     reviewer_completion_veto t (t_result t) = None \<and> t_assigned_to t = Some ''n1''"
  "case get_task core_demo_state ''t2'' of None \<Rightarrow> False | Some u \<Rightarrow>
     t_status u = Pending \<and> t_depends_on u = [''t1'']"
  by code_simp+

end
