(* ===== verification/CoreProps.thy ===== *)
theory CoreProps
  imports SqlDemo
begin

text \<open>
  Properties of the cluster core on the persistent store: what completing, failing and rescheduling a
  task and recovering a node do to the state the store encodes, and where that is not what the
  methods are for.
\<close>

section \<open>Definitions\<close>

definition core_demo :: cluster_core where
  "core_demo =
     \<lparr>co_store = core_demo_store,
      co_event_queue = [], co_watchdog = wd_init 30 60 120 None None, co_detector_running = True, co_detector_alive = True,
      co_stop_event = False, co_scanner_running = True, co_lease_ttl = seconds 300\<rparr>"

section \<open>Helpers\<close>

lemma core_demo_encodes: "encodes (co_store core_demo) core_demo_state"
  using core_demo_facts(1) by (simp add: core_demo_def)

lemmas core_demo_ready = core_demo_encodes core_demo_facts(2,3)

text \<open>Scheduling starts ready tasks and leaves all others alone.\<close>

lemma schedule_pending_at:
  assumes wf: "cs_wf c" and u: "get_task c k = Some u"
  obtains v where "get_task (snd (schedule_pending_detailed now c)) k = Some v"
    and "v = u \<or> t_status u = Ready \<and> t_status v = Running"
proof (cases "online_nodes c = []")
  case True
  with u show thesis by (intro that [of u]) (simp_all add: schedule_pending_detailed_def)
next
  case False
  let ?s = "snd (schedule_loop now (online_nodes c) (lane_nodes c) (ready_tasks now c) (active_counts (dict_values (cs_tasks c))) c)"
  have s: "snd (schedule_pending_detailed now c) = ?s" using False by (simp add: schedule_pending_detailed_def)
  have R: "loop_tasks (ready_tasks now c) c" by (rule loop_tasks_ready [OF wf])
  have ready: "\<forall>t \<in> set (ready_tasks now c). t_status t = Ready" by (simp add: ready_tasks_def Let_def)
  show thesis
  proof (cases "get_task ?s k")
    case None
    have "k \<in> as_task_id ` set (fst (schedule_loop now (online_nodes c) (lane_nodes c) (ready_tasks now c)
        (active_counts (dict_values (cs_tasks c))) c))"
      using schedule_loop_unplaced [OF wf R, of now "online_nodes c" "lane_nodes c" "active_counts (dict_values (cs_tasks c))"]
        None u by (metis option.distinct(1))
    then obtain a where a: "as_task_id a = k" "placed_ok now (online_nodes c) (lane_nodes c) (ready_tasks now c) ?s a"
      using schedule_loop_placed_ok [OF wf R ready] by blast
    from a(2) obtain t n where "a = mk_assignment t n" "get_task ?s (t_id t) \<noteq> None"
      by (rule placed_okE) auto
    with a(1) None show thesis by (simp add: mk_assignment_def)
  next
    case (Some v)
    from schedule_loop_origin [OF wf R ready Some] u R have "v = u \<or> t_status u = Ready \<and> t_status v = Running"
      using ready by (auto simp: loop_tasks_def)
    with Some s show thesis by (intro that [of v]) simp_all
  qed
qed

lemma sql_schedule_pending_sim:
  assumes "encodes q c" "cs_wf c"
  obtains n q' where "sql_schedule_pending now q = (Inr n, q')"
    and "encodes q' (snd (schedule_pending_detailed now c))"
proof -
  have "sim_ok (sql_schedule_pending_detailed now q) (schedule_pending_detailed now c)"
    by (rule sql_schedule_sim [OF assms])
  then show thesis
    using that by (cases "sql_schedule_pending_detailed now q") (auto simp: sim_ok_def sql_schedule_pending_def)
qed

text \<open>A task whose result is not vetoed is completed, its dependents are settled, and a scheduling pass runs.\<close>

definition completed_state :: "time \<Rightarrow> string \<Rightarrow> cluster_state \<Rightarrow> cluster_state" where
  "completed_state now tid c =
     (let c1 = force_status now tid Completed [] c in settle now (wake c1 tid) c1)"

lemma core_complete_sim:
  assumes e: "encodes (co_store co) c" and wf: "cs_wf c" and t: "get_task c tid = Some t"
    and ok: "reviewer_completion_veto t (t_result t) = None"
  obtains q where "core_complete_task now tid co = Some (Inr True, co\<lparr>co_store := q\<rparr>)"
    and "encodes q (snd (schedule_pending_detailed now (completed_state now tid c)))"
    and "cs_wf (completed_state now tid c)"
proof -
  let ?c1 = "force_status now tid Completed [] c" and ?q1 = "snd (sql_set_task_status now tid Completed [] (co_store co))"
  have e1: "encodes ?q1 ?c1" by (rule force_status_encodes [OF e])
  have wf1: "cs_wf ?c1" by (rule force_status_wf [OF wf])
  have st: "completed_state now tid c = settle now (wake ?c1 tid) ?c1" by (simp add: completed_state_def Let_def)
  have wf2: "cs_wf (completed_state now tid c)" unfolding st by (rule settle_wf [OF wf1])
  obtain q2 where q2: "on_dependency_complete now tid ?q1 = Some (Inr (readied ?c1 tid), q2)"
    and e2: "encodes q2 (completed_state now tid c)"
    using on_dependency_complete_sim [OF e1 wf1, of now tid] by (auto simp: sim_ok_def st)
  obtain n q3 where q3: "sql_schedule_pending now q2 = (Inr n, q3)"
    and e3: "encodes q3 (snd (schedule_pending_detailed now (completed_state now tid c)))"
    by (rule sql_schedule_pending_sim [OF e2 wf2])
  have "core_complete_task now tid co = Some (Inr True, co\<lparr>co_store := q3\<rparr>)"
    using t ok q2 q3 by (simp add: core_complete_task_def sql_get_task_encodes [OF e] Let_def)
  with e3 wf2 show thesis by (intro that)
qed

lemma completed_at:
  assumes u: "get_task c k = Some u" and other: "k \<noteq> tid"
  shows "get_task (completed_state now tid c) k =
    Some (if k \<in> wake (force_status now tid Completed [] c) tid
          then resolution now (force_status now tid Completed [] c) u else u)"
  using assms by (simp add: completed_state_def Let_def)

lemma tests_after_completion:
  assumes "get_task c tid \<noteq> None"
  shows "dep_failed (force_status now tid Completed [] c) d \<longleftrightarrow> d \<noteq> tid \<and> dep_failed c d"
    and "dep_completed (force_status now tid Completed [] c) d \<longleftrightarrow> d = tid \<or> dep_completed c d"
  using assms by (auto simp: dep_failed_def dep_completed_def)

lemma resolution_after_completion:
  assumes "get_task c tid \<noteq> None" "t_status u = Pending"
  shows "resolution now (force_status now tid Completed [] c) u =
    (if \<exists>d \<in> set (t_depends_on u). d \<noteq> tid \<and> dep_failed c d then forced now Blocked ''dependency failed'' u
     else if \<forall>d \<in> set (t_depends_on u). d = tid \<or> dep_completed c d then forced now Ready [] u else u)"
proof -
  have "list_ex (dep_failed (force_status now tid Completed [] c)) (t_depends_on u) \<longleftrightarrow>
      (\<exists>d \<in> set (t_depends_on u). d \<noteq> tid \<and> dep_failed c d)"
    "list_all (dep_completed (force_status now tid Completed [] c)) (t_depends_on u) \<longleftrightarrow>
      (\<forall>d \<in> set (t_depends_on u). d = tid \<or> dep_completed c d)"
    by (simp_all add: list_ex_iff list_all_iff tests_after_completion [OF assms(1)])
  with assms(2) show ?thesis by (simp only: resolution_def not_True_eq_False if_False simp_thms)
qed

section \<open>Completing a task\<close>

text \<open>C16: On a store whose rows are readable (they encode a well-formed state), completing a stored task
  whose completion the verdict gate does not refuse returns (the cascade of the resolver ends within
  its bounds), and the task ends completed. Each pending task that waits for it is blocked if one of its
  other dependencies has failed; otherwise, once all its dependencies are completed, it is ready or,
  the scheduling pass permitting, running, a landing task included, since the resolver does not ask the
  landing gate; otherwise it is left as it was.\<close>

theorem core_completion_settles:
  assumes e: "encodes (co_store co) c" and wf: "cs_wf c" and t: "get_task c tid = Some t"
    and ok: "reviewer_completion_veto t (t_result t) = None"
    and u: "get_task c k = Some u" and other: "k \<noteq> tid" and waits: "t_status u = Pending" "tid \<in> set (t_depends_on u)"
  shows "\<exists>co' c' s v. core_complete_task now tid co = Some (Inr True, co') \<and> encodes (co_store co') c' \<and>
    get_task c' tid = Some s \<and> t_status s = Completed \<and> get_task c' k = Some v \<and>
    (if \<exists>d \<in> set (t_depends_on u). d \<noteq> tid \<and> dep_failed c d then t_status v = Blocked
     else if \<forall>d \<in> set (t_depends_on u). d = tid \<or> dep_completed c d then t_status v \<in> {Ready, Running}
     else v = u)"
proof -
  let ?c1 = "force_status now tid Completed [] c" and ?d = "completed_state now tid c"
  obtain q where r: "core_complete_task now tid co = Some (Inr True, co\<lparr>co_store := q\<rparr>)"
    and q: "encodes q (snd (schedule_pending_detailed now ?d))" and wfd: "cs_wf ?d"
    by (rule core_complete_sim [OF e wf t ok])
  have "get_task ?d tid = Some (forced now Completed [] t)"
    using t by (simp add: completed_state_def Let_def)
  from schedule_pending_at [OF wfd this]
  obtain s where s: "get_task (snd (schedule_pending_detailed now ?d)) tid = Some s" "t_status s = Completed"
    by (metis forced_simps(1) task_status.distinct)
  have some: "get_task c tid \<noteq> None" using t by simp
  have "k \<in> wake ?c1 tid" using u other waits by (simp add: wake_def dependents_on_def)
  then have "get_task ?d k = Some (resolution now ?c1 u)" using completed_at [OF u other] by simp
  from schedule_pending_at [OF wfd this]
  obtain v where v: "get_task (snd (schedule_pending_detailed now ?d)) k = Some v"
    "v = resolution now ?c1 u \<or> t_status (resolution now ?c1 u) = Ready \<and> t_status v = Running" by blast
  define A B where "A \<longleftrightarrow> (\<exists>d \<in> set (t_depends_on u). d \<noteq> tid \<and> dep_failed c d)"
    and "B \<longleftrightarrow> (\<forall>d \<in> set (t_depends_on u). d = tid \<or> dep_completed c d)"
  have "if A then t_status v = Blocked else if B then t_status v \<in> {Ready, Running} else v = u"
    using v(2) waits(1) unfolding resolution_after_completion [OF some waits(1)] A_def [symmetric] B_def [symmetric]
    by (cases A; cases B) auto
  note final = this [unfolded A_def B_def]
  have "encodes (co_store (co\<lparr>co_store := q\<rparr>)) (snd (schedule_pending_detailed now ?d))" using q by simp
  with r s v(1) final show ?thesis by blast
qed

theorem core_completion_settles_witness:
  "\<exists>co' c' s v. core_complete_task 30 ''t1'' core_demo = Some (Inr True, co') \<and> encodes (co_store co') c' \<and>
    get_task c' ''t1'' = Some s \<and> t_status s = Completed \<and> get_task c' ''t2'' = Some v \<and> t_status v \<in> {Ready, Running}"
proof -
  obtain t where t: "get_task core_demo_state ''t1'' = Some t" "reviewer_completion_veto t (t_result t) = None"
    using core_demo_tasks(1) by (auto split: option.splits)
  obtain u where u: "get_task core_demo_state ''t2'' = Some u" "t_status u = Pending" "t_depends_on u = [''t1'']"
    using core_demo_tasks(2) by (auto split: option.splits)
  have "''t2'' \<noteq> ''t1''" "''t1'' \<in> set (t_depends_on u)" using u(3) by simp_all
  from core_completion_settles [OF core_demo_ready(1,2) t u(1) this(1) u(2) this(2), of 30] u(3)
  show ?thesis by simp
qed

text \<open>A blocked dependent stays blocked, though the resolver has a loop that goes over the blocked ones.\<close>

theorem completion_leaves_blocked:
  assumes e: "encodes (co_store co) c" and wf: "cs_wf c" and t: "get_task c tid = Some t"
    and ok: "reviewer_completion_veto t (t_result t) = None"
    and u: "get_task c k = Some u" "t_status u = Blocked" and other: "k \<noteq> tid"
  shows "\<exists>co' c'. core_complete_task now tid co = Some (Inr True, co') \<and> encodes (co_store co') c' \<and>
    get_task c' k = Some u"
proof -
  let ?d = "completed_state now tid c"
  obtain q where r: "core_complete_task now tid co = Some (Inr True, co\<lparr>co_store := q\<rparr>)"
    and q: "encodes q (snd (schedule_pending_detailed now ?d))" and wfd: "cs_wf ?d"
    by (rule core_complete_sim [OF e wf t ok])
  have "get_task ?d k = Some u" using completed_at [OF u(1) other] u(2) by simp
  from schedule_pending_at [OF wfd this] u(2)
  have "get_task (snd (schedule_pending_detailed now ?d)) k = Some u" by (metis task_status.distinct)
  with r q show ?thesis by force
qed

section \<open>Failing a task\<close>

text \<open>C11: Failing a task that exists always succeeds: the task is failed with the reason given, the
  pending tasks that name it as a dependency are blocked with a reason that names it, and no other
  task changes.\<close>

theorem core_fail_blocks:
  assumes e: "encodes (co_store co) c" and wf: "cs_wf c" and t: "get_task c tid \<noteq> None"
  shows "\<exists>co' c'. core_fail_task now tid reason co = (Inr True, co') \<and> encodes (co_store co') c' \<and> cs_wf c' \<and>
    (\<forall>k. get_task c' k = map_option (\<lambda>u.
       if k = tid then forced now Failed reason u
       else if t_status u = Pending \<and> tid \<in> set (t_depends_on u)
       then forced now Blocked (''dependency '' @ tid @ '' failed'') u else u) (get_task c k))"
proof -
  let ?c1 = "force_status now tid Failed reason c" and ?q1 = "snd (sql_set_task_status now tid Failed reason (co_store co))"
  obtain ids q' c' where f: "on_dependency_failed now tid ?q1 = (Inr ids, q')" "encodes q' c'" "cs_wf c'"
    and ids: "ids = map t_id (filter (blocks tid) (get_all_tasks ?c1))"
    and k: "\<forall>k. get_task c' k = map_option (\<lambda>u. if blocks tid u then forced now Blocked (block_reason tid) u else u) (get_task ?c1 k)"
    by (rule on_dependency_failed_sim [OF force_status_encodes [OF e, of now tid Failed reason] force_status_wf [OF wf],
        where x = tid and now = now])
  have "get_task c' k = map_option (\<lambda>u. if k = tid then forced now Failed reason u
       else if t_status u = Pending \<and> tid \<in> set (t_depends_on u)
       then forced now Blocked (''dependency '' @ tid @ '' failed'') u else u) (get_task c k)" for k
    unfolding k [rule_format] get_task_force block_reason_def
    by (cases "get_task c k"; cases "k = tid") (simp_all add: blocks_def)
  moreover have "core_fail_task now tid reason co = (Inr True, co\<lparr>co_store := q'\<rparr>)"
    using t f(1) by (auto simp: core_fail_task_def sql_get_task_encodes [OF e] Let_def)
  ultimately show ?thesis using f(2,3)
    by (intro exI [of _ "co\<lparr>co_store := q'\<rparr>"] exI [of _ c'] conjI) simp_all
qed

theorem core_fail_blocks_witness:
  "\<exists>co' c'. core_fail_task 30 ''t1'' ''lost'' core_demo = (Inr True, co') \<and> encodes (co_store co') c' \<and>
     map_option t_status (get_task c' ''t2'') = Some Blocked"
proof -
  have "get_task core_demo_state ''t1'' \<noteq> None" using core_demo_tasks(1) by (auto split: option.splits)
  moreover obtain u where "get_task core_demo_state ''t2'' = Some u" "t_status u = Pending" "t_depends_on u = [''t1'']"
    using core_demo_tasks(2) by (auto split: option.splits)
  ultimately show ?thesis
    using core_fail_blocks [OF core_demo_ready(1,2), of "''t1''" 30 "''lost''"] by force
qed

section \<open>Recovering a node\<close>

text \<open>C17: On a store whose rows are readable (they encode a well-formed state) and with event ids drawn
  that the recovery log does not hold yet, recovering a node returns without an error. Every live lease of
  the node is revoked, due leases are expired, all others stay. A task such a lease was for is set
  running when an online node is capable of it and failed when none is; its \<open>assigned_to\<close> is left as it
  was, whatever node that is and whatever node the recovery log names. No other task changes.\<close>

theorem core_recovery_exact:
  assumes e: "encodes (co_store co) c" and wf: "cs_wf c" and f: "fresh_events c"
  shows "\<exists>co' c'. core_recover_node now nid co = (Inr (), co') \<and> encodes (co_store co') c' \<and> cs_wf c' \<and>
    (\<forall>k. get_lease c' k = map_option (\<lambda>l. if lease_live now l \<and> l_node_id l = nid
       then l\<lparr>l_status := Revoked\<rparr> else mark_due now l) (get_lease c k)) \<and>
    (\<forall>k. rel_option (\<lambda>t u. if k \<in> held_by now nid c
       then t_status u = (if \<exists>n \<in> set (online_nodes c). core_can_run t n then Running else Failed) \<and>
            t_assigned_to u = t_assigned_to t
       else u = t) (get_task c k) (get_task c' k))"
proof -
  obtain co' c' where r: "core_recover_node now nid co = (Inr (), co')" "encodes (co_store co') c'" "cs_wf c'"
    and n: "cs_nodes c' = cs_nodes c"
    and l: "\<forall>k. get_lease c' k = map_option (\<lambda>l. if lease_live now l \<and> l_node_id l = nid
           then l\<lparr>l_status := Revoked\<rparr> else mark_due now l) (get_lease c k)"
    and t: "\<forall>k. rel_option (orphaned c (k \<in> held_by now nid c)) (get_task c k) (get_task c' k)"
    by (rule core_recover_sim [OF e wf f, where now = now and nid = nid])
  have "rel_option (\<lambda>t u. if k \<in> held_by now nid c
       then t_status u = (if \<exists>n \<in> set (online_nodes c). core_can_run t n then Running else Failed) \<and>
            t_assigned_to u = t_assigned_to t
       else u = t) (get_task c k) (get_task c' k)" for k
    using t [rule_format, of k] by (rule option.rel_mono_strong) (simp add: orphaned_def orphan_status_def list_ex_iff split: if_splits)
  with r l show ?thesis by blast
qed

theorem core_recovery_exact_witness:
  "\<exists>co' c' u. core_recover_node 60 ''n1'' core_demo = (Inr (), co') \<and> encodes (co_store co') c' \<and>
     get_task c' ''t1'' = Some u \<and> t_status u = Running \<and> t_assigned_to u = Some ''n1''"
proof -
  obtain co' c' where r: "core_recover_node 60 ''n1'' core_demo = (Inr (), co')" "encodes (co_store co') c'"
    and t: "rel_option (\<lambda>t u. if ''t1'' \<in> held_by 60 ''n1'' core_demo_state
       then t_status u = (if \<exists>n \<in> set (online_nodes core_demo_state). core_can_run t n then Running else Failed) \<and>
            t_assigned_to u = t_assigned_to t
       else u = t) (get_task core_demo_state ''t1'') (get_task c' ''t1'')"
    using core_recovery_exact [OF core_demo_ready, of 60 "''n1''"] by (elim exE conjE) (rule that, assumption+, erule spec)
  obtain t where t1: "get_task core_demo_state ''t1'' = Some t" "t_assigned_to t = Some ''n1''"
    using core_demo_tasks(1) by (auto split: option.splits)
  have "list_ex (\<lambda>l. lease_live 60 l \<and> l_node_id l = ''n1'' \<and> l_task_id l = ''t1'') (dict_values (cs_leases core_demo_state))"
    by code_simp
  then have "''t1'' \<in> held_by 60 ''n1'' core_demo_state" by (force simp: held_by_def list_ex_iff)
  moreover have "case get_task core_demo_state ''t1'' of None \<Rightarrow> False
     | Some t \<Rightarrow> list_ex (core_can_run t) (online_nodes core_demo_state)" by code_simp
  then have "\<exists>n \<in> set (online_nodes core_demo_state). core_can_run t n" using t1 by (simp add: list_ex_iff)
  ultimately show ?thesis using t t1 r by (cases "get_task c' ''t1''") auto
qed

section \<open>Rescheduling a task\<close>

text \<open>Rescheduling a task that has a node returns that node and leaves the task pending on it.\<close>

theorem reschedule_keeps_node:
  assumes e: "encodes (co_store co) c" and wf: "cs_wf c"
    and t: "get_task c tid = Some t" "t_assigned_to t = Some n" "n \<noteq> []"
  shows "\<exists>co' c'. reschedule_task now tid co = (Inr (Some n), co') \<and> encodes (co_store co') c' \<and>
    get_task c' tid = Some (forced now Pending [] t)"
proof -
  let ?ls = "filter (lease_live now) (dict_values (cs_leases c))" and ?c0 = "snd (get_active_leases now c)"
  obtain q0 co0 where act: "core_active_leases now co = (?ls, co0)" "co_store co0 = q0" and e0: "encodes q0 ?c0"
    by (rule core_active_leases_encodes [OF e wf, of now]) (auto intro: that)
  have wf0: "cs_wf ?c0" by (rule get_active_leases_wf [OF wf])
  define pick where "pick = find (\<lambda>l. l_task_id l = tid) ?ls"
  define q1 where "q1 = (case pick of None \<Rightarrow> q0 | Some l \<Rightarrow> snd (sql_revoke_lease (l_id l) q0))"
  define c1 where "c1 = (case pick of None \<Rightarrow> ?c0 | Some l \<Rightarrow> snd (revoke_lease (l_id l) ?c0))"
  have e1: "encodes q1 c1" and wf1: "cs_wf c1" and g1: "get_task c1 tid = Some t"
    using e0 wf0 t(1) sql_revoke_lease_sim [OF e0]
    by (auto simp: q1_def c1_def sim_def get_task_def get_active_leases_eq intro: revoke_lease_wf split: option.split)
  let ?q2 = "snd (sql_set_task_status now tid Pending [] q1)" and ?c2 = "force_status now tid Pending [] c1"
  obtain k q3 where s: "sql_schedule_pending now ?q2 = (Inr k, q3)"
    and e3: "encodes q3 (snd (schedule_pending_detailed now ?c2))"
    by (rule sql_schedule_pending_sim [OF force_status_encodes [OF e1] force_status_wf [OF wf1]])
  have "get_task ?c2 tid = Some (forced now Pending [] t)" using g1 by simp
  from schedule_pending_at [OF force_status_wf [OF wf1] this]
  have g3: "get_task (snd (schedule_pending_detailed now ?c2)) tid = Some (forced now Pending [] t)"
    by (metis forced_simps(1) task_status.distinct)
  have "reschedule_task now tid co = (Inr (Some n), set_store q3 co0)"
  proof (cases pick)
    case None
    then show ?thesis using t s g3 act
      by (simp add: reschedule_task_def sql_get_task_encodes [OF e] sql_get_task_encodes [OF e3] truthy_def
          pick_def [symmetric] q1_def)
  next
    case (Some l)
    then show ?thesis using t s g3 act
      by (simp add: reschedule_task_def sql_get_task_encodes [OF e] sql_get_task_encodes [OF e3] truthy_def
          pick_def [symmetric] q1_def)
  qed
  with e3 g3 show ?thesis by force
qed

theorem reschedule_keeps_node_witness:
  "\<exists>co' c' u. reschedule_task 60 ''t1'' core_demo = (Inr (Some ''n1''), co') \<and> encodes (co_store co') c' \<and>
     get_task c' ''t1'' = Some u \<and> t_status u = Pending"
proof -
  obtain t where "get_task core_demo_state ''t1'' = Some t" "t_assigned_to t = Some ''n1''"
    using core_demo_tasks(1) by (auto split: option.splits)
  with reschedule_keeps_node [OF core_demo_ready(1,2), of "''t1''" t "''n1''" 60] show ?thesis by fastforce
qed

section \<open>A node comes online\<close>

text \<open>The callback promotes and, when it has promoted something, raises before it schedules.\<close>

theorem node_online_never_schedules:
  assumes e: "encodes (co_store co) c" and wf: "cs_wf c"
  shows "fst (promote_and_schedule now co) = (if fst (trigger_pending_tasks now c) = 0 then Inr () else Inl TypeErr) \<and>
    encodes (co_store (core_dispatch now (NodeOnline nid) co)) (snd (trigger_pending_tasks now c))"
  using sql_trigger_pending_sim [OF e cs_wfD(2) [OF wf], of now]
  by (cases "sql_trigger_pending_tasks now (co_store co)") (auto simp: sim_ok_def promote_and_schedule_def)

section \<open>The watchdog of the core\<close>

text \<open>A turn classifies every node and hands exactly the nodes that went offline to the detector.\<close>

theorem core_watchdog_turn_exact:
  assumes ok: "core_ok co"
  shows "core_hb_nodes (snd (core_watchdog_turn now co)) =
      map (\<lambda>n. n\<lparr>hb_status := fst (classify (co_watchdog co) now n)\<rparr>) (core_hb_nodes co) \<and>
    co_event_queue (snd (core_watchdog_turn now co)) = co_event_queue co @
      map hb_id (filter (\<lambda>n. fst (classify (co_watchdog co) now n) = ''offline'' \<and> hb_status n \<noteq> ''offline'') (core_hb_nodes co))"
proof -
  obtain evs co1 where w: "wd_check core_hb_nodes core_update_status (co_watchdog co) now co = (evs, co1)"
    by (cases "wd_check core_hb_nodes core_update_status (co_watchdog co) now co")
  let ?co2 = "fold (\<lambda>(nid, st). if st = ''offline'' then core_notify_offline nid else id) evs co1"
  have turn: "snd (core_watchdog_turn now co) = ?co2" by (simp add: core_watchdog_turn_def w)
  have evs: "evs = map (\<lambda>n. (hb_id n, fst (classify (co_watchdog co) now n)))
      (filter (\<lambda>n. fst (classify (co_watchdog co) now n) \<noteq> hb_status n) (core_hb_nodes co))"
    using w wd_loop_events [of core_update_status "co_watchdog co" now "core_hb_nodes co" co] by (simp add: wd_check_def)
  have queue: "co_event_queue co1 = co_event_queue co" using w wd_loop_queue [of "co_watchdog co" now "core_hb_nodes co" co] by (simp add: wd_check_def)
  have "core_hb_nodes co1 = map (\<lambda>n. n\<lparr>hb_status := fst (classify (co_watchdog co) now n)\<rparr>) (core_hb_nodes co)"
    using core_registry.check_nodes [OF ok, of "co_watchdog co" now] w by simp
  moreover have "core_hb_nodes ?co2 = core_hb_nodes co1"
    using offline_events_queued [of evs co1] by (simp add: core_hb_nodes_def)
  moreover have "map fst (filter (\<lambda>(_, st). st = ''offline'') evs) =
      map hb_id (filter (\<lambda>n. fst (classify (co_watchdog co) now n) = ''offline'' \<and> hb_status n \<noteq> ''offline'') (core_hb_nodes co))"
    unfolding evs by (auto simp: filter_map comp_def conj_commute intro!: arg_cong [where f = "map hb_id"] filter_cong)
  ultimately show ?thesis using offline_events_queued [of evs co1] queue turn by simp
qed

end
