(* ===== verification/TaskManager.thy ===== *)
theory TaskManager
  imports SqlOps "HOL-Library.List_Lexorder" "HOL-Library.Char_ord"
begin

text \<open>
  The class \<open>TaskManager\<close> of \<^verbatim>\<open>task_manager.py\<close> over the persistent store: creation, queries,
  updates, deletion, scheduling in one call, statistics and bulk operations. It writes to the tables
  directly where the store has no method. A float is the rational it stands for; an ISO text is the
  time it encodes.
\<close>

section \<open>Filters, results and errors\<close>

datatype sort_field = SortPriority | SortCreatedAt | SortUpdatedAt | SortStatus | SortTitle

datatype sort_order = Asc | Desc

record task_filter =
  tf_status :: "string option"
  tf_assigned_to :: "string option"
  tf_requires :: "string option"
  tf_priority_min :: "int option"
  tf_priority_max :: "int option"
  tf_search :: "string option"
  tf_sort_by :: sort_field
  tf_sort_order :: sort_order
  tf_offset :: int
  tf_limit :: int

definition default_filter :: task_filter where
  "default_filter =
     \<lparr>tf_status = None, tf_assigned_to = None, tf_requires = None, tf_priority_min = None,
      tf_priority_max = None, tf_search = None, tf_sort_by = SortCreatedAt, tf_sort_order = Desc,
      tf_offset = 0, tf_limit = 100\<rparr>"

record task_stats =
  st_total :: int
  st_by_status :: "(string, int) dict"
  st_by_priority :: "(int, int) dict"
  st_by_node :: "(string, int) dict"
  st_avg_priority :: rat
  st_completion_rate :: rat
  st_failure_rate :: rat
  st_oldest_pending_seconds :: "rat option"
  st_newest_task_seconds :: "rat option"
  st_active_tasks :: int
  st_blocked_tasks :: int
  st_total_leases_active :: nat

record throughput_stats =
  tp_completed_count :: nat
  tp_failed_count :: nat
  tp_created_count :: nat
  tp_window_seconds :: int
  tp_completions_per_minute :: rat
  tp_failures_per_minute :: rat

record schedule_result =
  sr_promoted :: nat
  sr_scheduled :: nat
  sr_total_ready :: nat
  sr_total_pending :: nat
  sr_task_ids_scheduled :: "string list"

datatype tm_error = EmptyTitle | BadPriority int | NodeNotFound string | StoreErr sql_error

type_synonym 'a tm_result = "(tm_error + 'a) \<times> sql_store"

definition store_err :: "sql_error + 'a \<Rightarrow> tm_error + 'a" where
  "store_err r = (case r of Inl e \<Rightarrow> Inl (StoreErr e) | Inr v \<Rightarrow> Inr v)"

section \<open>Creation\<close>

definition link_new :: "time \<Rightarrow> string \<Rightarrow> string list \<Rightarrow> sql_store \<Rightarrow> sql_store" where
  "link_new now task_id depends_on q =
     (if depends_on \<noteq> [] then snd (sql_set_dependencies now task_id depends_on q) else q)"

text \<open>The assignment on creation: the status by the store, the node by a statement of its own.\<close>

definition assign_new :: "time \<Rightarrow> string \<Rightarrow> string \<Rightarrow> sql_store \<Rightarrow> sql_store" where
  "assign_new now task_id node_id q =
     snd (update_task task_id (\<lambda>_. True) (\<lambda>r. r\<lparr>tr_assigned_to := Some node_id\<rparr>)
       (snd (sql_set_task_status now task_id Running [] q)))"

definition tm_create_task ::
  "time \<Rightarrow> string \<Rightarrow> string list \<Rightarrow> int \<Rightarrow> string list \<Rightarrow> string option \<Rightarrow> string \<Rightarrow> sql_store \<Rightarrow> task tm_result" where
  "tm_create_task now title requires priority depends_on assign_to description q =
     (if strip title = [] then (Inl EmptyTitle, q)
      else if priority < 1 \<or> 5 < priority then (Inl (BadPriority priority), q)
      else
        let (task_id, q0) = sql_generate_id ''task'' q;
            p = \<lparr>pl_task_id = task_id, pl_title = title, pl_requires = requires, pl_priority = priority,
                 pl_lane_key = [], pl_role = ''author'', pl_description = description, pl_issues = [],
                 pl_depends_on = []\<rparr>
        in case sql_create_task now p q0 of
             (Inl e, q1) \<Rightarrow> (Inl (StoreErr e), q1)
           | (Inr t, q1) \<Rightarrow>
               (let q2 = link_new now task_id depends_on q1
                in if truthy assign_to \<and> sql_get_node q2 (the assign_to) = None
                   then (Inl (NodeNotFound (the assign_to)), q2)
                   else let q3 = (if truthy assign_to then assign_new now task_id (the assign_to) q2 else q2)
                        in case sql_get_task q3 task_id of
                             Inl e \<Rightarrow> (Inl (StoreErr e), q3)
                           | Inr None \<Rightarrow> (Inr t, q3)
                           | Inr (Some u) \<Rightarrow> (Inr u, q3)))"

definition tm_duplicate_task :: "time \<Rightarrow> string \<Rightarrow> string \<Rightarrow> sql_store \<Rightarrow> task option tm_result" where
  "tm_duplicate_task now task_id title_suffix q =
     (case sql_get_task q task_id of
        Inl e \<Rightarrow> (Inl (StoreErr e), q)
      | Inr None \<Rightarrow> (Inr None, q)
      | Inr (Some t) \<Rightarrow>
          (case tm_create_task now (t_title t @ title_suffix) (t_requires t) (t_priority t) (t_depends_on t) None [] q of
             (Inl e, q1) \<Rightarrow> (Inl e, q1)
           | (Inr u, q1) \<Rightarrow> (Inr (Some u), q1)))"

section \<open>Queries\<close>

text \<open>\<open>xs[i:j]\<close>, and \<open>sorted(xs, key=k, reverse=r)\<close>, which keeps the order of equal elements.\<close>

definition py_index :: "nat \<Rightarrow> int \<Rightarrow> nat" where
  "py_index n i = nat (if i < 0 then max 0 (int n + i) else min i (int n))"

definition py_slice :: "'a list \<Rightarrow> int \<Rightarrow> int \<Rightarrow> 'a list" where
  "py_slice xs i j =
     take (py_index (length xs) j - py_index (length xs) i) (drop (py_index (length xs) i) xs)"

definition py_sorted :: "('a \<Rightarrow> 'k::linorder) \<Rightarrow> bool \<Rightarrow> 'a list \<Rightarrow> 'a list" where
  "py_sorted k r xs = (if r then rev (sort_key k (rev xs)) else sort_key k xs)"

definition apply_filters :: "task_filter \<Rightarrow> task list \<Rightarrow> task list" where
  "apply_filters f ts =
     (let r1 = (if truthy (tf_status f) then filter (\<lambda>t. Some (task_status_value (t_status t)) = tf_status f) ts else ts);
          r2 = (if truthy (tf_assigned_to f) then filter (\<lambda>t. t_assigned_to t = tf_assigned_to f) r1 else r1);
          r3 = (if truthy (tf_requires f) then filter (\<lambda>t. the (tf_requires f) \<in> set (t_requires t)) r2 else r2);
          r4 = (case tf_priority_min f of None \<Rightarrow> r3 | Some m \<Rightarrow> filter (\<lambda>t. m \<le> t_priority t) r3);
          r5 = (case tf_priority_max f of None \<Rightarrow> r4 | Some m \<Rightarrow> filter (\<lambda>t. t_priority t \<le> m) r4)
      in if truthy (tf_search f) then filter (\<lambda>t. contains (lower (the (tf_search f))) (lower (t_title t))) r5
         else r5)"

fun apply_sort :: "sort_field \<Rightarrow> sort_order \<Rightarrow> task list \<Rightarrow> task list" where
  "apply_sort SortPriority ord ts = py_sorted t_priority (ord = Desc) ts"
| "apply_sort SortCreatedAt ord ts = py_sorted t_created_at (ord = Desc) ts"
| "apply_sort SortUpdatedAt ord ts = py_sorted t_updated_at (ord = Desc) ts"
| "apply_sort SortStatus ord ts = py_sorted (\<lambda>t. task_status_value (t_status t)) (ord = Desc) ts"
| "apply_sort SortTitle ord ts = py_sorted (\<lambda>t. lower (t_title t)) (ord = Desc) ts"

definition tm_list_tasks :: "task_filter option \<Rightarrow> sql_store \<Rightarrow> sql_error + task list" where
  "tm_list_tasks task_filter q =
     (case sql_get_all_tasks q of
        Inl e \<Rightarrow> Inl e
      | Inr ts \<Rightarrow>
          (case task_filter of
             None \<Rightarrow> Inr ts
           | Some f \<Rightarrow> Inr (py_slice (apply_sort (tf_sort_by f) (tf_sort_order f) (apply_filters f ts))
                             (tf_offset f) (tf_offset f + tf_limit f))))"

definition tm_count_tasks :: "string option \<Rightarrow> sql_store \<Rightarrow> int" where
  "tm_count_tasks status q =
     (if truthy status then dict_get_or (sql_task_counts q) (the status) 0
      else dict_get_or (sql_task_counts q) ''total'' 0)"

section \<open>Updates\<close>

text \<open>The columns of the statement that is put together from the fields given.\<close>

definition set_columns ::
  "string option \<Rightarrow> int option \<Rightarrow> string list option \<Rightarrow> string list option \<Rightarrow> task_row \<Rightarrow> task_row" where
  "set_columns title priority requires depends_on r =
     (let r1 = (case title of None \<Rightarrow> r | Some x \<Rightarrow> r\<lparr>tr_title := x\<rparr>);
          r2 = (case priority of None \<Rightarrow> r1 | Some x \<Rightarrow> r1\<lparr>tr_priority := x\<rparr>);
          r3 = (case requires of None \<Rightarrow> r2 | Some x \<Rightarrow> r2\<lparr>tr_requires := x\<rparr>)
      in case depends_on of None \<Rightarrow> r3 | Some x \<Rightarrow> r3\<lparr>tr_depends_on := x\<rparr>)"

definition tm_update_task ::
  "time \<Rightarrow> string \<Rightarrow> string option \<Rightarrow> int option \<Rightarrow> string list option \<Rightarrow> string list option \<Rightarrow> sql_store \<Rightarrow>
   task option tm_result" where
  "tm_update_task now task_id title priority requires depends_on q =
     (case sql_get_task q task_id of
        Inl e \<Rightarrow> (Inl (StoreErr e), q)
      | Inr None \<Rightarrow> (Inr None, q)
      | Inr (Some _) \<Rightarrow>
          if (case title of None \<Rightarrow> False | Some x \<Rightarrow> strip x = []) then (Inl EmptyTitle, q)
          else if (case priority of None \<Rightarrow> False | Some x \<Rightarrow> x < 1 \<or> 5 < x) then (Inl (BadPriority (the priority)), q)
          else
            let q1 = (case depends_on of
                        None \<Rightarrow> q
                      | Some ds \<Rightarrow> snd (update_task task_id (\<lambda>r. has_status Ready r \<and> ds \<noteq> []) (row_status Pending) q));
                q2 = (if title \<noteq> None \<or> priority \<noteq> None \<or> requires \<noteq> None \<or> depends_on \<noteq> None
                      then snd (update_task task_id (\<lambda>_. True)
                                  (\<lambda>r. row_touch now (set_columns title priority requires depends_on r)) q1)
                      else q1)
            in (store_err (sql_get_task q2 task_id), q2))"

definition tm_cancel_task :: "time \<Rightarrow> string \<Rightarrow> sql_store \<Rightarrow> bool sql_result" where
  "tm_cancel_task now task_id q =
     (case sql_get_task q task_id of
        Inl e \<Rightarrow> (Inl e, q)
      | Inr None \<Rightarrow> (Inr False, q)
      | Inr (Some t) \<Rightarrow>
          if t_status t \<in> {Completed, Failed} then (Inr False, q)
          else (Inr True, snd (sql_set_task_status now task_id Failed ''cancelled'' q)))"

definition tm_retry_task :: "time \<Rightarrow> string \<Rightarrow> sql_store \<Rightarrow> task option sql_result" where
  "tm_retry_task now task_id q =
     (case sql_get_task q task_id of
        Inl e \<Rightarrow> (Inl e, q)
      | Inr None \<Rightarrow> (Inr None, q)
      | Inr (Some t) \<Rightarrow>
          if t_status t \<noteq> Failed then (Inr None, q)
          else case sql_trigger_pending_tasks now (snd (sql_set_task_status now task_id Pending [] q)) of
                 (Inl e, q1) \<Rightarrow> (Inl e, q1)
               | (Inr _, q1) \<Rightarrow> (sql_get_task q1 task_id, q1))"

section \<open>Deletion\<close>

text \<open>The three \<open>DELETE\<close> statements of one transaction.\<close>

definition drop_tasks :: "string set \<Rightarrow> sql_store \<Rightarrow> sql_store" where
  "drop_tasks ids q =
     q\<lparr>q_leases := filter (\<lambda>(_, l). l_task_id l \<notin> ids) (q_leases q),
       q_decisions := filter (\<lambda>d. sd_task_id d \<notin> ids) (q_decisions q),
       q_tasks := filter (\<lambda>(k, _). k \<notin> ids) (q_tasks q)\<rparr>"

definition tm_delete_task :: "string \<Rightarrow> sql_store \<Rightarrow> bool sql_result" where
  "tm_delete_task task_id q =
     (case sql_get_task q task_id of
        Inl e \<Rightarrow> (Inl e, q)
      | Inr None \<Rightarrow> (Inr False, q)
      | Inr (Some t) \<Rightarrow>
          if t_status t \<in> {Assigned, Running} then (Inr False, q)
          else (Inr True, drop_tasks {task_id} q))"

definition tm_purge_completed :: "time \<Rightarrow> int \<Rightarrow> sql_store \<Rightarrow> nat \<times> sql_store" where
  "tm_purge_completed now older_than_seconds q =
     (let cutoff = now - seconds older_than_seconds;
          task_ids = map tr_id (filter (\<lambda>r. (has_status Completed r \<or> has_status Failed r) \<and> tr_updated_at r < cutoff)
                       (dict_values (q_tasks q)))
      in if task_ids = [] then (0, q) else (length task_ids, drop_tasks (set task_ids) q))"

section \<open>Scheduling\<close>

definition tm_auto_schedule :: "time \<Rightarrow> sql_store \<Rightarrow> schedule_result sql_result" where
  "tm_auto_schedule now q =
     (case sql_trigger_pending_tasks now q of
        (Inl e, q1) \<Rightarrow> (Inl e, q1)
      | (Inr promoted, q1) \<Rightarrow>
          (case sql_schedule_pending now q1 of
             (Inl e, q2) \<Rightarrow> (Inl e, q2)
           | (Inr scheduled, q2) \<Rightarrow>
               (case sql_get_all_tasks q2 of
                  Inl e \<Rightarrow> (Inl e, q2)
                | Inr ts \<Rightarrow>
                    (Inr \<lparr>sr_promoted = promoted, sr_scheduled = scheduled,
                          sr_total_ready = length (filter (\<lambda>t. t_status t = Ready) ts),
                          sr_total_pending = length (filter (\<lambda>t. t_status t = Pending) ts),
                          sr_task_ids_scheduled =
                            map t_id (filter (\<lambda>t. t_status t = Running \<and> truthy (t_assigned_to t)) ts)\<rparr>, q2))))"

definition tm_schedule_task_to_node :: "time \<Rightarrow> string \<Rightarrow> string \<Rightarrow> sql_store \<Rightarrow> bool sql_result" where
  "tm_schedule_task_to_node now task_id node_id q =
     (case sql_get_task q task_id of
        Inl e \<Rightarrow> (Inl e, q)
      | Inr None \<Rightarrow> (Inr False, q)
      | Inr (Some t) \<Rightarrow>
          if t_status t \<notin> {Ready, Pending} then (Inr False, q)
          else case sql_get_node q node_id of
                 None \<Rightarrow> (Inr False, q)
               | Some n \<Rightarrow>
                   if n_status n \<noteq> Online then (Inr False, q)
                   else if t_requires t \<noteq> [] \<and> \<not> list_all (\<lambda>cap. cap \<in> set (n_capabilities n)) (t_requires t)
                   then (Inr False, q)
                   else (Inr True, snd (update_task task_id (\<lambda>_. True)
                           (\<lambda>r. row_touch now ((row_status Running r)\<lparr>tr_assigned_to := Some node_id\<rparr>)) q)))"

section \<open>Statistics\<close>

definition tally :: "'k list \<Rightarrow> ('k, int) dict" where
  "tally xs = fold bump xs []"

definition round_to :: "nat \<Rightarrow> rat \<Rightarrow> rat" where
  "round_to d x = of_int (round_half_even (x * 10 ^ d)) / 10 ^ d"

definition tm_get_stats :: "time \<Rightarrow> sql_store \<Rightarrow> task_stats sql_result" where
  "tm_get_stats now q =
     (case sql_get_all_tasks q of
        Inl e \<Rightarrow> (Inl e, q)
      | Inr ts \<Rightarrow>
          (let counts = sql_task_counts q;
               by_status = tally (map (\<lambda>t. task_status_value (t_status t)) ts);
               priorities = map t_priority ts;
               completed = dict_get_or counts ''completed'' 0;
               failed = dict_get_or counts ''failed'' 0;
               terminal = completed + failed;
               pending = map t_created_at (filter (\<lambda>t. t_status t = Pending) ts);
               (leases, q1) = sql_get_active_leases now q
           in (Inr \<lparr>st_total = dict_get_or counts ''total'' 0,
                    st_by_status = by_status,
                    st_by_priority = tally priorities,
                    st_by_node = tally (map (\<lambda>t. the (t_assigned_to t)) (filter (\<lambda>t. truthy (t_assigned_to t)) ts)),
                    st_avg_priority =
                      round_to 2 (if priorities \<noteq> [] then of_int (sum_list priorities) / of_nat (length priorities) else 0),
                    st_completion_rate = round_to 4 (if 0 < terminal then of_int completed / of_int terminal else 0),
                    st_failure_rate = round_to 4 (if 0 < terminal then of_int failed / of_int terminal else 0),
                    st_oldest_pending_seconds =
                      (case pending of [] \<Rightarrow> None | c # cs \<Rightarrow> Some (total_seconds (now - fold min cs c))),
                    st_newest_task_seconds =
                      (case map t_created_at ts of [] \<Rightarrow> None | c # cs \<Rightarrow> Some (total_seconds (now - fold max cs c))),
                    st_active_tasks = dict_get_or by_status ''running'' 0 + dict_get_or by_status ''assigned'' 0,
                    st_blocked_tasks = dict_get_or by_status ''blocked'' 0,
                    st_total_leases_active = length leases\<rparr>, q1)))"

definition tm_get_throughput :: "time \<Rightarrow> int \<Rightarrow> sql_store \<Rightarrow> sql_error + throughput_stats" where
  "tm_get_throughput now window_seconds q =
     (case sql_get_all_tasks q of
        Inl e \<Rightarrow> Inl e
      | Inr ts \<Rightarrow>
          (let cutoff = now - seconds window_seconds;
               completed = length (filter (\<lambda>t. cutoff \<le> t_updated_at t \<and> t_status t = Completed) ts);
               failed = length (filter (\<lambda>t. cutoff \<le> t_updated_at t \<and> t_status t = Failed) ts);
               minutes = of_int window_seconds / 60
           in Inr \<lparr>tp_completed_count = completed, tp_failed_count = failed,
                   tp_created_count = length (filter (\<lambda>t. cutoff \<le> t_created_at t) ts),
                   tp_window_seconds = window_seconds,
                   tp_completions_per_minute = (if 0 < minutes then round_to 2 (of_nat completed / minutes) else 0),
                   tp_failures_per_minute = (if 0 < minutes then round_to 2 (of_nat failed / minutes) else 0)\<rparr>))"

record node_load =
  nl_name :: string
  nl_status :: string
  nl_capabilities :: "string list"
  nl_load :: rat
  nl_active_tasks :: nat
  nl_task_ids :: "string list"

definition node_load_of :: "task list \<Rightarrow> node \<Rightarrow> node_load" where
  "node_load_of ts n =
     (let assigned = map t_id (filter (\<lambda>t. truthy (t_assigned_to t) \<and> t_status t \<in> {Assigned, Running} \<and>
                                           t_assigned_to t = Some (n_id n)) ts)
      in \<lparr>nl_name = n_name n, nl_status = node_status_value (n_status n), nl_capabilities = n_capabilities n,
          nl_load = n_load n, nl_active_tasks = length assigned, nl_task_ids = assigned\<rparr>)"

definition tm_get_node_load :: "sql_store \<Rightarrow> sql_error + (string, node_load) dict" where
  "tm_get_node_load q =
     (case sql_get_all_tasks q of
        Inl e \<Rightarrow> Inl e
      | Inr ts \<Rightarrow> Inr (fold (\<lambda>n. dict_set (n_id n) (node_load_of ts n)) (sql_get_all_nodes q) []))"

text \<open>An entry of the history has the fields of the decision.\<close>

definition tm_get_schedule_history :: "int \<Rightarrow> sql_store \<Rightarrow> scheduling_decision list" where
  "tm_get_schedule_history limit q =
     (let decisions = sql_get_decisions q
      in if limit < int (length decisions)
         then py_slice decisions (- limit) (int (length decisions)) else decisions)"

section \<open>Bulk operations\<close>

record task_spec =
  sp_title :: "string option"
  sp_requires :: "string list"
  sp_priority :: "int option"
  sp_depends_on :: "string list"
  sp_assign_to :: "string option"

fun tm_bulk_create :: "time \<Rightarrow> task_spec list \<Rightarrow> sql_store \<Rightarrow> task list tm_result" where
  "tm_bulk_create now [] q = (Inr [], q)"
| "tm_bulk_create now (s # ss) q =
     (if \<not> truthy (sp_title s) then tm_bulk_create now ss q
      else case tm_create_task now (the (sp_title s)) (sp_requires s)
                  (case sp_priority s of None \<Rightarrow> 3 | Some p \<Rightarrow> p) (sp_depends_on s) (sp_assign_to s) [] q of
             (Inl e, q1) \<Rightarrow> (Inl e, q1)
           | (Inr t, q1) \<Rightarrow>
               (case tm_bulk_create now ss q1 of
                  (Inl e, q2) \<Rightarrow> (Inl e, q2)
                | (Inr ts, q2) \<Rightarrow> (Inr (t # ts), q2)))"

fun tm_bulk :: "(string \<Rightarrow> sql_store \<Rightarrow> bool sql_result) \<Rightarrow> string list \<Rightarrow> sql_store \<Rightarrow> nat sql_result" where
  "tm_bulk f [] q = (Inr 0, q)"
| "tm_bulk f (tid # tids) q =
     (case f tid q of
        (Inl e, q1) \<Rightarrow> (Inl e, q1)
      | (Inr b, q1) \<Rightarrow>
          (case tm_bulk f tids q1 of
             (Inl e, q2) \<Rightarrow> (Inl e, q2)
           | (Inr n, q2) \<Rightarrow> (Inr (if b then n + 1 else n), q2)))"

definition tm_bulk_cancel :: "time \<Rightarrow> string list \<Rightarrow> sql_store \<Rightarrow> nat sql_result" where
  "tm_bulk_cancel now = tm_bulk (tm_cancel_task now)"

definition tm_bulk_delete :: "string list \<Rightarrow> sql_store \<Rightarrow> nat sql_result" where
  "tm_bulk_delete = tm_bulk tm_delete_task"

end
