(* ===== verification/ManagerFacts.thy ===== *)
theory ManagerFacts
  imports TaskManager CoreRecovery "HOL-Library.Multiset"
begin

text \<open>
  What the operations of the task manager do: the filters as one predicate, the sorts as stable
  orders, deletion and the direct updates read on the in-memory state.
\<close>

section \<open>Queries\<close>

definition matches :: "task_filter \<Rightarrow> task \<Rightarrow> bool" where
  "matches f t \<longleftrightarrow>
     (truthy (tf_status f) \<longrightarrow> tf_status f = Some (task_status_value (t_status t))) \<and>
     (truthy (tf_assigned_to f) \<longrightarrow> t_assigned_to t = tf_assigned_to f) \<and>
     (truthy (tf_requires f) \<longrightarrow> the (tf_requires f) \<in> set (t_requires t)) \<and>
     (\<forall>m. tf_priority_min f = Some m \<longrightarrow> m \<le> t_priority t) \<and>
     (\<forall>m. tf_priority_max f = Some m \<longrightarrow> t_priority t \<le> m) \<and>
     (truthy (tf_search f) \<longrightarrow> contains (lower (the (tf_search f))) (lower (t_title t)))"

lemma filter_if: "(if P then filter Q xs else xs) = filter (\<lambda>x. P \<longrightarrow> Q x) xs"
  by simp

lemma filter_opt: "(case b of None \<Rightarrow> xs | Some m \<Rightarrow> filter (Q m) xs) = filter (\<lambda>x. \<forall>m. b = Some m \<longrightarrow> Q m x) xs"
  by (cases b) simp_all

lemma apply_filters_eq: "apply_filters f ts = filter (matches f) ts"
  unfolding apply_filters_def Let_def filter_if filter_opt filter_filter
  by (rule filter_cong [OF refl]) (auto simp: matches_def)

text \<open>The order of a sort, as a relation.\<close>

fun field_le :: "sort_field \<Rightarrow> task \<Rightarrow> task \<Rightarrow> bool" where
  "field_le SortPriority a b = (t_priority a \<le> t_priority b)"
| "field_le SortCreatedAt a b = (t_created_at a \<le> t_created_at b)"
| "field_le SortUpdatedAt a b = (t_updated_at a \<le> t_updated_at b)"
| "field_le SortStatus a b = (task_status_value (t_status a) \<le> task_status_value (t_status b))"
| "field_le SortTitle a b = (lower (t_title a) \<le> lower (t_title b))"

definition in_order :: "sort_field \<Rightarrow> sort_order \<Rightarrow> task list \<Rightarrow> bool" where
  "in_order fld ord xs = sorted_wrt (\<lambda>a b. if ord = Asc then field_le fld a b else field_le fld b a) xs"

lemma py_sorted_facts:
  "mset (py_sorted k r xs) = mset xs"
  "sorted_wrt (\<lambda>a b. if r then k b \<le> k a else k a \<le> k b) (py_sorted k r xs)"
  "filter (\<lambda>y. k y = v) (py_sorted k r xs) = filter (\<lambda>y. k y = v) xs"
proof -
  have s: "sorted_wrt (\<lambda>a b. k a \<le> k b) (sort_key k ys)" for ys
    using sorted_sort_key [of k ys] by (simp add: sorted_wrt_map)
  show "mset (py_sorted k r xs) = mset xs" by (simp add: py_sorted_def)
  show "sorted_wrt (\<lambda>a b. if r then k b \<le> k a else k a \<le> k b) (py_sorted k r xs)"
    using s by (cases r) (simp_all add: py_sorted_def sorted_wrt_rev)
  show "filter (\<lambda>y. k y = v) (py_sorted k r xs) = filter (\<lambda>y. k y = v) xs"
  proof (cases r)
    case True
    have "filter (\<lambda>y. k y = v) (rev (sort_key k (rev xs))) = rev (filter (\<lambda>y. k y = v) (sort_key k (rev xs)))"
      by (simp add: rev_filter)
    also have "\<dots> = filter (\<lambda>y. k y = v) xs" unfolding sort_key_stable by (simp add: rev_filter)
    finally show ?thesis using True by (simp add: py_sorted_def)
  qed (simp add: py_sorted_def sort_key_stable)
qed

definition stable_in :: "sort_field \<Rightarrow> task list \<Rightarrow> task list \<Rightarrow> bool" where
  "stable_in fld xs ys \<longleftrightarrow>
     (\<forall>a. filter (\<lambda>b. field_le fld a b \<and> field_le fld b a) xs = filter (\<lambda>b. field_le fld a b \<and> field_le fld b a) ys)"

lemma apply_sort_facts:
  "mset (apply_sort fld ord ts) = mset ts" "in_order fld ord (apply_sort fld ord ts)"
  "stable_in fld (apply_sort fld ord ts) ts"
proof -
  have e: "(x \<le> y \<and> y \<le> x) = (y = x)" for x y :: "'a::linorder" by auto
  have d: "ord = Desc \<longleftrightarrow> ord \<noteq> Asc" by (cases ord) auto
  show "mset (apply_sort fld ord ts) = mset ts" by (cases fld) (simp_all add: py_sorted_facts)
  show "in_order fld ord (apply_sort fld ord ts)"
    using py_sorted_facts(2) [where r = "ord = Desc" and xs = ts] unfolding in_order_def d
    by (cases fld; cases ord) (auto simp: if_distrib)
  show "stable_in fld (apply_sort fld ord ts) ts"
    using py_sorted_facts(3) [where k = "\<lambda>t. task_status_value (t_status t)" and r = "ord = Desc" and xs = ts
        and v = "task_status_value (t_status a)" for a]
    by (cases fld) (simp_all add: stable_in_def e py_sorted_facts(3), blast)
qed

lemma py_slice_page: "py_slice xs (int i) (int i + int n) = take n (drop i xs)"
proof -
  have "py_index (length xs) (int j) = min j (length xs)" for j by (simp add: py_index_def)
  from this [of i] this [of "i + n"] show ?thesis
    by (cases "i \<le> length xs") (simp_all add: py_slice_def min_def)
qed

section \<open>Deletion\<close>

definition drop_state :: "string set \<Rightarrow> cluster_state \<Rightarrow> cluster_state" where
  "drop_state ids c =
     c\<lparr>cs_leases := filter (\<lambda>(_, l). l_task_id l \<notin> ids) (cs_leases c),
       cs_task_lease_index := filter (\<lambda>(k, _). k \<notin> ids) (cs_task_lease_index c),
       cs_decisions := filter (\<lambda>d. sd_task_id d \<notin> ids) (cs_decisions c),
       cs_tasks := filter (\<lambda>(k, _). k \<notin> ids) (cs_tasks c)\<rparr>"

lemma rows_of_filter: "filter (\<lambda>(k, _). P k) (rows_of d) = rows_of (filter (\<lambda>(k, _). P k) d)"
  by (induction d) (auto simp: rows_of_def)

lemma drop_tasks_encodes: "encodes q c \<Longrightarrow> encodes (drop_tasks ids q) (drop_state ids c)"
  by (simp add: encodes_def drop_tasks_def drop_state_def rows_of_filter)

lemma get_task_drop [simp]: "get_task (drop_state ids c) k = (if k \<in> ids then None else get_task c k)"
  by (simp add: drop_state_def get_task_def map_of_filter_key)

lemma map_of_filter_val:
  "distinct (map fst d) \<Longrightarrow>
   map_of (filter (\<lambda>(_, v). P v) d) k = (case map_of d k of None \<Rightarrow> None | Some v \<Rightarrow> if P v then Some v else None)"
  by (induction d) (auto simp: map_of_eq_None_iff image_iff split: option.split)

lemma dict_ok_filter: "dict_ok d \<Longrightarrow> dict_ok (filter P d)"
  by (auto intro: distinct_map_filter)

lemma get_lease_drop:
  "cs_wf c \<Longrightarrow> get_lease (drop_state ids c) k =
     (case get_lease c k of None \<Rightarrow> None | Some l \<Rightarrow> if l_task_id l \<in> ids then None else Some l)"
  by (auto simp: drop_state_def get_lease_def wf_defs map_of_filter_val split: option.split)

lemma drop_state_wf [wf_keep]:
  assumes wf: "cs_wf c"
  shows "cs_wf (drop_state ids c)"
proof -
  let ?c = "drop_state ids c"
  have lwf: "leases_wf c" and twf: "tasks_wf c" and nwf: "nodes_wf c" and gwf: "logs_wf c"
    using wf by (simp_all add: cs_wf_def)
  have gl: "dict_get (cs_leases ?c) k = (case dict_get (cs_leases c) k of None \<Rightarrow> None
      | Some l \<Rightarrow> if l_task_id l \<in> ids then None else Some l)" for k
    using get_lease_drop [OF wf, of ids k] by (simp add: get_lease_def)
  have "leases_wf ?c"
  proof (rule leases_wfI)
    show "dict_ok (cs_leases ?c)" "dict_ok (cs_task_lease_index ?c)" "inj (cs_rng ?c)"
      using leases_wfD(1-3) [OF lwf] by (simp_all add: drop_state_def dict_ok_filter)
    show "l_id l = k" if "dict_get (cs_leases ?c) k = Some l" for k l
      using that leases_wfD(4) [OF lwf] by (auto simp: gl split: option.splits if_splits)
    show "\<exists>i < cs_draws ?c. k = gen_id ''lease'' (cs_rng ?c) i" if "dict_get (cs_leases ?c) k = Some l" for k l
    proof -
      have "dict_get (cs_leases c) k = Some l" using that by (auto simp: gl split: option.splits if_splits)
      from leases_wfD(5) [OF lwf this] show ?thesis by (simp add: drop_state_def)
    qed
    show "\<exists>l. dict_get (cs_leases ?c) k = Some l \<and> l_task_id l = tid"
      if "dict_get (cs_task_lease_index ?c) tid = Some k" for tid k
    proof -
      have "tid \<notin> ids" "dict_get (cs_task_lease_index c) tid = Some k"
        using that by (auto simp: drop_state_def map_of_filter_key split: if_splits)
      with leases_wfD(6) [OF lwf, of tid k] show ?thesis by (auto simp: gl)
    qed
  qed
  moreover have "tasks_wf ?c"
    using twf by (auto simp: tasks_wf_def drop_state_def dict_ok_filter map_of_filter_key)
  moreover have "nodes_wf ?c" using nwf by (simp add: nodes_wf_def drop_state_def)
  moreover have "logs_wf ?c"
    using gwf order_trans [OF length_filter_le [of "\<lambda>d. sd_task_id d \<notin> ids" "cs_decisions c"]]
    by (simp add: logs_wf_def drop_state_def)
  ultimately show ?thesis by (simp add: cs_wf_def)
qed

section \<open>Updates\<close>

definition or_keep :: "'a option \<Rightarrow> 'a \<Rightarrow> 'a" where
  "or_keep x y = (case x of None \<Rightarrow> y | Some z \<Rightarrow> z)"

definition set_fields ::
  "string option \<Rightarrow> int option \<Rightarrow> string list option \<Rightarrow> string list option \<Rightarrow> task \<Rightarrow> task" where
  "set_fields title priority requires depends_on t =
     t\<lparr>t_title := or_keep title (t_title t), t_priority := or_keep priority (t_priority t),
       t_requires := or_keep requires (t_requires t), t_depends_on := or_keep depends_on (t_depends_on t)\<rparr>"

lemma set_columns_row_of:
  "row_touch now (set_columns a b r d (row_of t)) = row_of (touch now (set_fields a b r d t))"
  by (cases a; cases b; cases r; cases d)
    (simp_all add: set_columns_def set_fields_def or_keep_def row_of_def row_touch_def touch_def)

lemma update_row_encodes:
  assumes e: "encodes q c" and t: "get_task c tid = Some t"
    and p: "p (row_of t)" and f: "f (row_of t) = row_of u"
  shows "encodes (snd (update_task tid p f q)) (put_task tid u c)"
proof -
  have "sim (update_task tid p f q) (True, put_task tid u c)"
    by (rule update_task_sim [OF e, where g = "\<lambda>_. True" and h = "\<lambda>_. u"]) (use t p f in simp_all)
  then show ?thesis by (simp add: sim_def)
qed

lemma update_row_idle:
  assumes "encodes q c" "get_task c tid = Some t" "\<not> p (row_of t)"
  shows "update_task tid p f q = (False, q)"
  using assms by (simp add: update_task_def encodesD get_task_def)

section \<open>Counts\<close>

lemma bump_sum: "sum_list (map snd (bump k d)) = sum_list (map snd d) + 1"
proof -
  have "sum_list (map snd (dict_set k (dict_get_or d k 0 + 1) d)) = sum_list (map snd d) + (1 :: int)"
    by (induction d) (auto simp: dict_get_or_def)
  then show ?thesis by (simp add: bump_def)
qed

lemma tally_sum: "sum_list (map snd (tally xs)) = int (length xs)"
proof -
  have "sum_list (map snd (fold bump xs d)) = sum_list (map snd d) + int (length xs)" for d
    by (induction xs arbitrary: d) (simp_all add: bump_sum)
  then show ?thesis by (simp add: tally_def)
qed

lemma tally_get: "dict_get_or (tally xs) k 0 = int (length (filter (\<lambda>x. x = k) xs))"
proof -
  have "dict_get_or (fold bump xs d) k 0 = dict_get_or d k 0 + int (length (filter (\<lambda>x. x = k) xs))" for d
    by (induction xs arbitrary: d) (simp_all add: bump_get)
  then show ?thesis by (simp add: tally_def dict_get_or_def)
qed

lemma group_count_sum: "sum_list (map snd (group_count xs)) = int (length xs)"
proof -
  have "length (filter (\<lambda>y. y = x) xs) = count_list xs x" for x
    by (induction xs) auto
  then have "sum_list (map snd (group_count xs)) = (\<Sum>x \<in> set xs. int (count_list xs x))"
    by (simp add: group_count_def comp_def sum_list_distinct_conv_sum_set)
  also have "\<dots> = int (length xs)"
    using sum_count_set [of xs "set xs"] by (simp flip: of_nat_sum)
  finally show ?thesis .
qed

lemma add_group_total:
  "fst g \<noteq> ''total'' \<Longrightarrow> dict_get_or (add_group g d) ''total'' 0 = dict_get_or d ''total'' 0 + snd g"
  by (simp add: add_group_def Let_def dict_get_or_def)

lemma fold_add_group_total:
  "\<forall>g \<in> set gs. fst g \<noteq> ''total'' \<Longrightarrow>
   dict_get_or (fold add_group gs d) ''total'' 0 = dict_get_or d ''total'' 0 + sum_list (map snd gs)"
  by (induction gs arbitrary: d) (simp_all add: add_group_total)

lemma task_counts_total:
  assumes e: "encodes q c"
  shows "dict_get_or (sql_task_counts q) ''total'' 0 = int (length (get_all_tasks c))"
proof -
  have rows: "map tr_status (dict_values (q_tasks q)) = map (\<lambda>t. task_status_value (t_status t)) (get_all_tasks c)"
    using encodesD(2) [OF e] by (simp add: get_all_tasks_def rows_of_def split_def comp_def)
  have "task_status_value st \<noteq> ''total''" for st by (cases st) simp_all
  then have "\<forall>g \<in> set (group_count (map tr_status (dict_values (q_tasks q)))). fst g \<noteq> ''total''"
    unfolding rows by (auto simp: group_count_def)
  from fold_add_group_total [OF this, of sql_zero_counts] group_count_sum [of "map tr_status (dict_values (q_tasks q))"] rows
  show ?thesis by (simp add: sql_task_counts_def sql_zero_counts_def dict_get_or_def del: map_map)
qed

end
