(* ===== verification/ManagerProps.thy ===== *)
theory ManagerProps
  imports ManagerFacts SqlDemo
begin

text \<open>
  Properties of the task manager on the persistent store: what its queries return, what creation,
  updates and deletions leave behind, and where that is not what the methods promise.
\<close>

section \<open>Definitions\<close>

text \<open>The tasks a purge is for.\<close>

definition outdated :: "time \<Rightarrow> int \<Rightarrow> task \<Rightarrow> bool" where
  "outdated now s t \<longleftrightarrow> t_status t \<in> {Completed, Failed} \<and> t_updated_at t < now - seconds s"

section \<open>Helpers\<close>

lemma sql_create_ready:
  assumes e: "encodes q c" and new: "get_task c (pl_task_id p) = None" and deps: "pl_depends_on p = []"
  obtains q' where "sql_create_task now p q = (Inr (build_task now Ready p), q')"
    and "encodes q' (put_task (pl_task_id p) (build_task now Ready p) c)"
proof -
  let ?id = "pl_task_id p" and ?t = "build_task now Pending p"
  let ?d = "cs_tasks c @ [(?id, ?t)]"
  have put: "put_task ?id ?t c = c\<lparr>cs_tasks := ?d\<rparr>"
    using new by (simp add: put_task_def get_task_def dict_set_new)
  have "q_tasks q = rows_of (cs_tasks c)" "dict_get (q_tasks q) ?id = None"
    using new encodesD(2) [OF e] by (simp_all add: get_task_def)
  then have q1: "insert_or_ignore ?id (plan_row now p) (q_tasks q) = rows_of ?d"
    by (simp add: insert_or_ignore_def plan_row_eq rows_of_append)
  let ?q1 = "q\<lparr>q_tasks := rows_of ?d\<rparr>"
  have e1: "encodes ?q1 (put_task ?id ?t c)" unfolding put by (rule encodes_tasks [OF e])
  have "encodes (promote_row now ?id ?q1) (put_task ?id (build_task now Ready p) (put_task ?id ?t c))"
    unfolding promote_row_def
    by (rule update_row_encodes [OF e1, where t = ?t]) (simp_all add: row_of_def build_task_def default_task_def)
  then have e2: "encodes (promote_row now ?id ?q1) (put_task ?id (build_task now Ready p) c)" by simp
  have "sql_create_task now p q = (Inr (build_task now Ready p), promote_row now ?id ?q1)"
    using deps by (simp add: sql_create_task_def q1 sql_get_task_encodes [OF e2])
  with e2 show thesis by (intro that)
qed

section \<open>Queries\<close>

text \<open>C33: A query returns pages of one list: the tasks that meet every condition of the filter, in the
  order asked for, equal tasks in the order of the store. Page \<open>i\<close> of size \<open>n\<close> is its \<open>i\<close>-th part.\<close>

theorem list_tasks_pages:
  assumes ts: "sql_get_all_tasks q = Inr ts"
  shows "\<exists>xs. mset xs = mset (filter (matches f) ts) \<and> in_order (tf_sort_by f) (tf_sort_order f) xs \<and>
    stable_in (tf_sort_by f) xs (filter (matches f) ts) \<and>
    (\<forall>i n. tm_list_tasks (Some (f\<lparr>tf_offset := int (i * n), tf_limit := int n\<rparr>)) q = Inr (take n (drop (i * n) xs)))"
proof -
  let ?xs = "apply_sort (tf_sort_by f) (tf_sort_order f) (filter (matches f) ts)"
  have m: "matches (f\<lparr>tf_offset := a, tf_limit := b\<rparr>) = matches f" for a b
    by (simp add: fun_eq_iff matches_def)
  have "tm_list_tasks (Some (f\<lparr>tf_offset := int (i * n), tf_limit := int n\<rparr>)) q = Inr (take n (drop (i * n) ?xs))" for i n
    unfolding tm_list_tasks_def using py_slice_page [of ?xs "i * n" n] by (simp add: ts apply_filters_eq m)
  then show ?thesis using apply_sort_facts [of "tf_sort_by f" "tf_sort_order f" "filter (matches f) ts"] by blast
qed

theorem list_tasks_pages_witness:
  "\<exists>xs. mset xs = mset (filter (matches default_filter) (get_all_tasks core_demo_state)) \<and>
    (\<forall>i n. tm_list_tasks (Some (default_filter\<lparr>tf_offset := int (i * n), tf_limit := int n\<rparr>)) core_demo_store =
       Inr (take n (drop (i * n) xs)))"
  using list_tasks_pages [OF sql_get_all_tasks_encodes [OF core_demo_facts(1)], of default_filter] by blast

section \<open>Creation\<close>

text \<open>C30: Creating a task under a fresh id with a title and a priority from 1 to 5. Whatever is returned,
  the task is in the store afterwards, with the title, capabilities, priority, dependencies and
  description of the request, as an author task without a lane, and no other task and no lease has changed: a request for a node that is not registered raises and leaves the task behind, one
  for a registered node leaves it running on that node without a lease, others leave it pending when
  it has dependencies and ready when it has none.\<close>

theorem create_task_outcome:
  assumes e: "encodes q c" and wf: "cs_wf c"
    and new: "get_task c (gen_id ''task'' (cs_rng c) (cs_draws c)) = None"
    and ok: "strip title \<noteq> []" "1 \<le> priority" "priority \<le> 5"
  shows "\<exists>r q' c' u. tm_create_task now title requires priority depends_on assign_to description q = (r, q') \<and>
    encodes q' c' \<and> cs_wf c' \<and> cs_leases c' = cs_leases c \<and>
    (\<forall>k. get_task c' k = (if k = gen_id ''task'' (cs_rng c) (cs_draws c) then Some u else get_task c k)) \<and>
    t_title u = title \<and> t_requires u = requires \<and> t_priority u = priority \<and> t_depends_on u = depends_on \<and>
    t_description u = description \<and> t_role u = ''author'' \<and> t_lane_key u = [] \<and> t_issues u = [] \<and>
    (if truthy assign_to \<and> get_node c (the assign_to) = None then r = Inl (NodeNotFound (the assign_to)) else r = Inr u) \<and>
    (if truthy assign_to \<and> get_node c (the assign_to) \<noteq> None
     then t_status u = Running \<and> t_assigned_to u = assign_to
     else t_status u = (if depends_on \<noteq> [] then Pending else Ready) \<and> t_assigned_to u = None)"
proof -
  define id where "id = gen_id ''task'' (cs_rng c) (cs_draws c)"
  define p where "p = \<lparr>pl_task_id = id, pl_title = title, pl_requires = requires, pl_priority = priority,
     pl_lane_key = [], pl_role = ''author'', pl_description = description, pl_issues = [], pl_depends_on = []\<rparr>"
  define c0 where "c0 = snd (generate_id ''task'' c)"
  define q0 where "q0 = q\<lparr>q_draws := Suc (q_draws q)\<rparr>"
  have e0: "encodes q0 c0" using e by (simp add: q0_def c0_def generate_id_def encodes_def)
  have wf0: "cs_wf c0" unfolding c0_def by (rule generate_id_wf [OF wf])
  have c0: "get_task c0 = get_task c" "cs_leases c0 = cs_leases c" "get_node c0 = get_node c"
    by (simp_all add: c0_def generate_id_def get_task_def [abs_def] get_node_def [abs_def])
  have gen: "sql_generate_id ''task'' q = (id, q0)"
    by (simp add: sql_generate_id_def id_def q0_def encodesD [OF e])
  let ?t0 = "build_task now Ready p"
  obtain q1 where create: "sql_create_task now p q0 = (Inr ?t0, q1)" and e1: "encodes q1 (put_task id ?t0 c0)"
    by (rule sql_create_ready [OF e0, of p now]) (use new in \<open>simp_all add: p_def c0 id_def [symmetric]\<close>)
  have t0: "t_title ?t0 = title" "t_requires ?t0 = requires" "t_priority ?t0 = priority" "t_depends_on ?t0 = []"
    "t_status ?t0 = Ready" "t_assigned_to ?t0 = None" "t_id ?t0 = id" "t_attempts ?t0 = 0"
    "t_description ?t0 = description" "t_role ?t0 = ''author''" "t_lane_key ?t0 = []" "t_issues ?t0 = []"
    by (simp_all add: build_task_def default_task_def p_def)
  define t1 where "t1 = (if depends_on \<noteq> [] then (touch now (?t0\<lparr>t_depends_on := depends_on\<rparr>))\<lparr>t_status := Pending\<rparr> else ?t0)"
  define q2 where "q2 = link_new now id depends_on q1"
  have e2: "encodes q2 (put_task id t1 c0)"
  proof (cases "depends_on = []")
    case False
    let ?u = "touch now (?t0\<lparr>t_depends_on := depends_on\<rparr>)"
    let ?up = "update_task id (\<lambda>_. True) (\<lambda>r. row_touch now (r\<lparr>tr_depends_on := depends_on\<rparr>)) q1"
    have "fst ?up" using e1 by (simp add: update_task_def encodesD put_task_def)
    have "encodes (snd ?up) (put_task id ?u (put_task id ?t0 c0))"
      by (rule update_row_encodes [OF e1, where t = ?t0]) (simp_all add: row_of_def row_touch_def touch_def)
    from update_row_encodes [OF this, of id ?u "has_status Ready" "row_status Pending" "?u\<lparr>t_status := Pending\<rparr>"]
    have "encodes (snd (update_task id (has_status Ready) (row_status Pending) (snd ?up))) (put_task id t1 c0)"
      using False t0 by (simp add: t1_def) (simp add: row_of_def)
    then show ?thesis using False \<open>fst ?up\<close> by (simp add: q2_def link_new_def sql_set_dependencies_def case_prod_beta Let_def)
  qed (use e1 in \<open>simp add: q2_def link_new_def t1_def\<close>)
  have t1: "t_title t1 = title" "t_requires t1 = requires" "t_priority t1 = priority" "t_depends_on t1 = depends_on"
    "t_status t1 = (if depends_on \<noteq> [] then Pending else Ready)" "t_assigned_to t1 = None" "t_id t1 = id" "t_attempts t1 = 0"
    "t_description t1 = description" "t_role t1 = ''author''" "t_lane_key t1 = []" "t_issues t1 = []"
    using t0 by (simp_all add: t1_def touch_def)
  have done_by: "\<exists>r q' c' u. tm_create_task now title requires priority depends_on assign_to description q = (r, q') \<and>
    encodes q' c' \<and> cs_wf c' \<and> cs_leases c' = cs_leases c \<and> (\<forall>k. get_task c' k = (if k = id then Some u else get_task c k)) \<and>
    t_title u = title \<and> t_requires u = requires \<and> t_priority u = priority \<and> t_depends_on u = depends_on \<and>
    t_description u = description \<and> t_role u = ''author'' \<and> t_lane_key u = [] \<and> t_issues u = [] \<and>
    (if truthy assign_to \<and> get_node c (the assign_to) = None then r = Inl (NodeNotFound (the assign_to)) else r = Inr u) \<and>
    (if truthy assign_to \<and> get_node c (the assign_to) \<noteq> None
     then t_status u = Running \<and> t_assigned_to u = assign_to
     else t_status u = (if depends_on \<noteq> [] then Pending else Ready) \<and> t_assigned_to u = None)"
    if "tm_create_task now title requires priority depends_on assign_to description q = (r, q')"
      and "encodes q' (put_task id u c0)" and "t_id u = id" "t_attempts u = 0"
      and "t_title u = title" "t_requires u = requires" "t_priority u = priority" "t_depends_on u = depends_on"
        "t_description u = description" "t_role u = ''author''" "t_lane_key u = []" "t_issues u = []"
      and "if truthy assign_to \<and> get_node c (the assign_to) = None then r = Inl (NodeNotFound (the assign_to)) else r = Inr u"
      and "if truthy assign_to \<and> get_node c (the assign_to) \<noteq> None
        then t_status u = Running \<and> t_assigned_to u = assign_to
        else t_status u = (if depends_on \<noteq> [] then Pending else Ready) \<and> t_assigned_to u = None" for r q' u
  proof -
    have "cs_wf (put_task id u c0)" using that(3,4) by (intro put_task_wf wf0) (simp_all add: task_retry_limit_def)
    moreover have "cs_leases (put_task id u c0) = cs_leases c" by (simp add: c0)
    moreover have "\<forall>k. get_task (put_task id u c0) k = (if k = id then Some u else get_task c k)" by (simp add: c0)
    ultimately show ?thesis using that by blast
  qed
  have node: "sql_get_node q2 nid = get_node c nid" for nid
    by (simp add: sql_get_node_def get_node_def encodesD [OF e2] c0_def generate_id_def)
  have unfolded: "tm_create_task now title requires priority depends_on assign_to description q =
     (if truthy assign_to \<and> get_node c (the assign_to) = None then (Inl (NodeNotFound (the assign_to)), q2)
      else let q3 = (if truthy assign_to then assign_new now id (the assign_to) q2 else q2)
           in case sql_get_task q3 id of
                Inl e \<Rightarrow> (Inl (StoreErr e), q3) | Inr None \<Rightarrow> (Inr ?t0, q3) | Inr (Some u) \<Rightarrow> (Inr u, q3))"
    using ok gen create node unfolding q2_def by (simp add: tm_create_task_def p_def [symmetric] Let_def)
  show ?thesis
  proof (cases "truthy assign_to \<and> get_node c (the assign_to) \<noteq> None")
    case False
    have "tm_create_task now title requires priority depends_on assign_to description q =
        (if truthy assign_to \<and> get_node c (the assign_to) = None then Inl (NodeNotFound (the assign_to)) else Inr t1, q2)"
      unfolding unfolded using False by (auto simp: sql_get_task_encodes [OF e2])
    with e2 t1 False show ?thesis unfolding id_def [symmetric] by (intro done_by) auto
  next
    case True
    let ?f = "forced now Running [] t1" and ?u = "(forced now Running [] t1)\<lparr>t_assigned_to := assign_to\<rparr>"
    have "encodes (snd (sql_set_task_status now id Running [] q2)) (force_status now id Running [] (put_task id t1 c0))"
      by (rule force_status_encodes [OF e2])
    then have ef: "encodes (snd (sql_set_task_status now id Running [] q2)) (put_task id ?f c0)"
      by (simp add: force_status_def)
    have "encodes (assign_new now id (the assign_to) q2) (put_task id ?u (put_task id ?f c0))"
      unfolding assign_new_def
      by (rule update_row_encodes [OF ef, where t = ?f]) (use True in \<open>auto simp: row_of_def truthy_def\<close>)
    then have e3: "encodes (assign_new now id (the assign_to) q2) (put_task id ?u c0)" by simp
    have "tm_create_task now title requires priority depends_on assign_to description q =
        (Inr ?u, assign_new now id (the assign_to) q2)"
      unfolding unfolded using True by (simp add: sql_get_task_encodes [OF e3] Let_def)
    moreover have "t_title ?u = title" "t_priority ?u = priority" "t_description ?u = description" "t_role ?u = ''author''"
        "t_lane_key ?u = []" "t_issues ?u = []" using t1 by (simp_all add: forced_def touch_def)
    ultimately show ?thesis unfolding id_def [symmetric] using e3 t1 True
      by (intro done_by [of "Inr ?u" "assign_new now id (the assign_to) q2" ?u]) simp_all
  qed
qed

theorem create_task_outcome_witness:
  "\<exists>r q' c' u. tm_create_task 30 ''new'' [] 3 [''t1''] (Some ''n9'') [] core_demo_store = (r, q') \<and> encodes q' c' \<and>
     r = Inl (NodeNotFound ''n9'') \<and>
     get_task c' (gen_id ''task'' (cs_rng core_demo_state) (cs_draws core_demo_state)) = Some u \<and> t_status u = Pending"
proof -
  have "get_task core_demo_state (gen_id ''task'' (cs_rng core_demo_state) (cs_draws core_demo_state)) = None"
    "strip ''new'' \<noteq> []" "get_node core_demo_state ''n9'' = None" by code_simp+
  moreover have "truthy (Some ''n9'')" by (simp add: truthy_def)
  ultimately obtain r q' c' u where
    "tm_create_task 30 ''new'' [] 3 [''t1''] (Some ''n9'') [] core_demo_store = (r, q')" "encodes q' c'"
    "\<forall>k. get_task c' k = (if k = gen_id ''task'' (cs_rng core_demo_state) (cs_draws core_demo_state) then Some u
       else get_task core_demo_state k)" "r = Inl (NodeNotFound ''n9'')" "t_status u = Pending"
    using create_task_outcome [OF core_demo_facts(1,2), of "''new''" 3 30 "[]" "[''t1'']" "Some ''n9''" "[]"]
    by auto
  then show ?thesis by fastforce
qed

section \<open>Deletion\<close>

text \<open>C32: Deleting a stored task succeeds exactly when it is neither assigned nor running. Then the task,
  its leases and the scheduling decisions recorded for it are gone, and every other task, lease and
  decision, the nodes, the hooks, the recovery log and the other tables are as they were; a refused
  deletion changes nothing.\<close>

theorem delete_task_exact:
  assumes e: "encodes q c" and wf: "cs_wf c" and t: "get_task c tid = Some t"
  shows "\<exists>b q' c'. tm_delete_task tid q = (Inr b, q') \<and> encodes q' c' \<and> cs_wf c' \<and>
    b = (t_status t \<notin> {Assigned, Running}) \<and>
    (if b then (\<forall>k. get_task c' k = (if k = tid then None else get_task c k)) \<and>
               (\<forall>k. get_lease c' k = (case get_lease c k of None \<Rightarrow> None
                                       | Some l \<Rightarrow> if l_task_id l = tid then None else Some l)) \<and>
               cs_decisions c' = filter (\<lambda>d. sd_task_id d \<noteq> tid) (cs_decisions c) \<and>
               cs_nodes c' = cs_nodes c \<and> cs_recovery_events c' = cs_recovery_events c \<and>
               cs_clusters c' = cs_clusters c \<and> cs_hooks c' = cs_hooks c \<and> cs_deliveries c' = cs_deliveries c \<and>
               cs_task_spawns c' = cs_task_spawns c \<and> cs_lanes c' = cs_lanes c \<and>
               cs_sync_version c' = cs_sync_version c
     else q' = q)"
proof (cases "t_status t \<in> {Assigned, Running}")
  case True
  then have "tm_delete_task tid q = (Inr False, q)" using t by (simp add: tm_delete_task_def sql_get_task_encodes [OF e])
  with e wf True show ?thesis by force
next
  case False
  then have "tm_delete_task tid q = (Inr True, drop_tasks {tid} q)"
    using t by (simp add: tm_delete_task_def sql_get_task_encodes [OF e])
  moreover have "cs_decisions (drop_state {tid} c) = filter (\<lambda>d. sd_task_id d \<noteq> tid) (cs_decisions c)"
    "cs_nodes (drop_state {tid} c) = cs_nodes c" "cs_recovery_events (drop_state {tid} c) = cs_recovery_events c"
    "cs_clusters (drop_state {tid} c) = cs_clusters c" "cs_hooks (drop_state {tid} c) = cs_hooks c"
    "cs_deliveries (drop_state {tid} c) = cs_deliveries c" "cs_task_spawns (drop_state {tid} c) = cs_task_spawns c"
    "cs_lanes (drop_state {tid} c) = cs_lanes c" "cs_sync_version (drop_state {tid} c) = cs_sync_version c"
    by (simp_all add: drop_state_def)
  moreover have "get_lease (drop_state {tid} c) k = (case get_lease c k of None \<Rightarrow> None
      | Some l \<Rightarrow> if l_task_id l = tid then None else Some l)" for k
    by (cases "get_lease c k") (simp_all add: get_lease_drop [OF wf])
  ultimately show ?thesis using False drop_tasks_encodes [OF e, of "{tid}"] drop_state_wf [OF wf, of "{tid}"]
    by (intro exI [of _ True] exI [of _ "drop_tasks {tid} q"] exI [of _ "drop_state {tid} c"]) simp
qed

theorem delete_task_exact_witness:
  "\<exists>q' c'. tm_delete_task ''t2'' core_demo_store = (Inr True, q') \<and> encodes q' c' \<and> get_task c' ''t2'' = None \<and>
     get_task c' ''t1'' = get_task core_demo_state ''t1''"
proof -
  obtain u where "get_task core_demo_state ''t2'' = Some u" "t_status u = Pending"
    using core_demo_tasks(2) by (auto split: option.splits)
  with delete_task_exact [OF core_demo_facts(1,2), of "''t2''" u] obtain q' c' where
    "tm_delete_task ''t2'' core_demo_store = (Inr True, q')" "encodes q' c'"
    "\<forall>k. get_task c' k = (if k = ''t2'' then None else get_task core_demo_state k)" by auto
  then show ?thesis by fastforce
qed

text \<open>A pending task whose dependency is deleted is never promoted again.\<close>

theorem deletion_strands_dependents:
  assumes e: "encodes q c" and wf: "cs_wf c" and t: "get_task c tid = Some t" "t_status t \<notin> {Assigned, Running}"
    and u: "get_task c k = Some u" "t_status u = Pending" "tid \<in> set (t_depends_on u)" "k \<noteq> tid"
  shows "\<exists>q' c'. tm_delete_task tid q = (Inr True, q') \<and> encodes q' c' \<and>
    get_task (snd (trigger_pending_tasks now c')) k = Some u"
proof -
  let ?c = "drop_state {tid} c"
  have wf': "cs_wf ?c" by (rule drop_state_wf [OF wf])
  have "tm_delete_task tid q = (Inr True, drop_tasks {tid} q)"
    using t by (simp add: tm_delete_task_def sql_get_task_encodes [OF e])
  moreover have "\<not> dep_completed ?c tid" by (simp add: dep_completed_def)
  then have "\<not> deps_met ?c u" using u(3) by (auto simp: deps_met_def list_all_iff)
  then have "get_task (snd (trigger_pending_tasks now ?c)) k = Some u"
    using u by (simp add: trigger_pending_partly [OF wf'] get_task_partly promoted_def)
  ultimately show ?thesis using drop_tasks_encodes [OF e] by blast
qed

text \<open>A purge removes exactly the outdated tasks, with their leases, and returns how many there were.\<close>

theorem purge_exact:
  assumes e: "encodes q c" and wf: "cs_wf c"
  shows "\<exists>c'. encodes (snd (tm_purge_completed now s q)) c' \<and> cs_wf c' \<and>
    (\<forall>k. get_task c' k = (case get_task c k of None \<Rightarrow> None | Some t \<Rightarrow> if outdated now s t then None else Some t)) \<and>
    fst (tm_purge_completed now s q) = card {k. \<exists>t. get_task c k = Some t \<and> outdated now s t}"
proof -
  let ?ids = "map t_id (filter (outdated now s) (get_all_tasks c))"
  have rows: "map tr_id (filter (\<lambda>r. (has_status Completed r \<or> has_status Failed r) \<and> tr_updated_at r < now - seconds s)
      (map row_of ts)) = map t_id (filter (outdated now s) ts)" for ts
  proof (induction ts)
    case (Cons t ts)
    have "(has_status Completed (row_of t) \<or> has_status Failed (row_of t)) \<longleftrightarrow> t_status t \<in> {Completed, Failed}"
      by (cases "t_status t") simp_all
    with Cons show ?case by (simp add: outdated_def row_of_def)
  qed simp
  have ids: "map tr_id (filter (\<lambda>r. (has_status Completed r \<or> has_status Failed r) \<and> tr_updated_at r < now - seconds s)
      (dict_values (q_tasks q))) = ?ids"
    using rows [of "get_all_tasks c"] encodesD(2) [OF e] by (simp only: get_all_tasks_def rows_of_values)
  have mem: "k \<in> set ?ids \<longleftrightarrow> (\<exists>t. get_task c k = Some t \<and> outdated now s t)" for k
  proof
    assume "k \<in> set ?ids"
    then obtain t where "t \<in> set (get_all_tasks c)" "outdated now s t" "k = t_id t" by auto
    with tasks_keyed(1) [OF wf, of t] show "\<exists>t. get_task c k = Some t \<and> outdated now s t" by auto
  next
    assume "\<exists>t. get_task c k = Some t \<and> outdated now s t"
    then obtain t where t: "get_task c k = Some t" "outdated now s t" by blast
    then have "t_id t = k" "t \<in> set (get_all_tasks c)" using cs_wf_taskD [OF wf t(1)] tasks_keyed(1) [OF wf, of t] by auto
    with t show "k \<in> set ?ids" by force
  qed
  have "distinct ?ids" using tasks_keyed(2) [OF wf] by (rule distinct_map_filter)
  have len: "length ?ids = card {k. \<exists>t. get_task c k = Some t \<and> outdated now s t}"
  proof -
    have "set ?ids = {k. \<exists>t. get_task c k = Some t \<and> outdated now s t}" using mem by (intro set_eqI) simp
    with distinct_card [OF \<open>distinct ?ids\<close>] show ?thesis by simp
  qed
  have "encodes (snd (tm_purge_completed now s q)) (drop_state (set ?ids) c) \<and> fst (tm_purge_completed now s q) = length ?ids"
  proof (cases "?ids = []")
    case True
    have "drop_state {} c = c" by (simp add: drop_state_def)
    with True e ids show ?thesis by (simp add: tm_purge_completed_def Let_def)
  next
    case False
    then show ?thesis using drop_tasks_encodes [OF e] by (simp only: tm_purge_completed_def Let_def ids if_False fst_conv snd_conv simp_thms)
  qed
  moreover have "get_task (drop_state (set ?ids) c) k =
      (case get_task c k of None \<Rightarrow> None | Some t \<Rightarrow> if outdated now s t then None else Some t)" for k
    unfolding get_task_drop mem by (cases "get_task c k") auto
  ultimately show ?thesis using len drop_state_wf [OF wf, of "set ?ids"] by (metis (no_types, lifting))
qed

section \<open>Updates\<close>

text \<open>C31: An update of a stored task is all or nothing. A blank title or a priority outside 1 to 5 raises
  and changes nothing. Otherwise the fields given are set, a ready task that is given dependencies is
  pending again, the version grows by one when a field is given, and no other task changes.\<close>

theorem update_task_exact:
  assumes e: "encodes q c" and wf: "cs_wf c" and t: "get_task c tid = Some t"
  shows "\<exists>r q' c'. tm_update_task now tid title priority requires depends_on q = (r, q') \<and> encodes q' c' \<and> cs_wf c' \<and>
    (if \<exists>x. title = Some x \<and> strip x = [] then r = Inl EmptyTitle \<and> q' = q
     else if \<exists>x. priority = Some x \<and> (x < 1 \<or> 5 < x) then r = Inl (BadPriority (the priority)) \<and> q' = q
     else if title = None \<and> priority = None \<and> requires = None \<and> depends_on = None then r = Inr (Some t) \<and> q' = q
     else \<exists>u. r = Inr (Some u) \<and> c' = put_task tid u c \<and>
       u = touch now ((set_fields title priority requires depends_on t)
             \<lparr>t_status := (if t_status t = Ready \<and> depends_on \<noteq> None \<and> depends_on \<noteq> Some [] then Pending else t_status t)\<rparr>))"
proof -
  let ?r = "tm_update_task now tid title priority requires depends_on q"
  note got = sql_get_task_encodes [OF e, of tid, unfolded t]
  show ?thesis
  proof (cases "(\<exists>x. title = Some x \<and> strip x = []) \<or> (\<exists>x. priority = Some x \<and> (x < 1 \<or> 5 < x)) \<or>
      (title = None \<and> priority = None \<and> requires = None \<and> depends_on = None)")
    case True
    then have "?r = (if \<exists>x. title = Some x \<and> strip x = [] then Inl EmptyTitle
        else if \<exists>x. priority = Some x \<and> (x < 1 \<or> 5 < x) then Inl (BadPriority (the priority)) else Inr (Some t), q)"
      using got by (auto simp: tm_update_task_def store_err_def split: option.splits)
    with e wf True show ?thesis by force
  next
    case False
    define demote where "demote \<longleftrightarrow> t_status t = Ready \<and> depends_on \<noteq> None \<and> depends_on \<noteq> Some []"
    define t1 where "t1 = t\<lparr>t_status := (if demote then Pending else t_status t)\<rparr>"
    define q1 where "q1 = (case depends_on of None \<Rightarrow> q
        | Some ds \<Rightarrow> snd (update_task tid (\<lambda>r. has_status Ready r \<and> ds \<noteq> []) (row_status Pending) q))"
    define q2 where "q2 = snd (update_task tid (\<lambda>_. True) (\<lambda>r. row_touch now (set_columns title priority requires depends_on r)) q1)"
    have same: "put_task tid t c = c"
      using t cs_wfD(2) [OF wf] by (simp add: put_task_def get_task_def dict_set_same tasks_wf_def)
    have e1: "encodes q1 (put_task tid t1 c)"
    proof (cases demote)
      case True
      then obtain ds where "depends_on = Some ds" "ds \<noteq> []" "t_status t = Ready" by (auto simp: demote_def)
      then show ?thesis unfolding q1_def t1_def using True
        by simp (rule update_row_encodes [OF e t], simp_all add: row_of_def)
    next
      case False
      then have "q1 = q"
        unfolding q1_def demote_def
        by (cases depends_on) (auto simp: update_row_idle [OF e t] task_status_value_inj simp del: task_status_value.simps)
      with False e same show ?thesis by (simp add: t1_def)
    qed
    let ?u = "touch now (set_fields title priority requires depends_on t1)"
    have "encodes q2 (put_task tid ?u (put_task tid t1 c))"
      unfolding q2_def by (rule update_row_encodes [OF e1, where t = t1]) (simp_all add: set_columns_row_of)
    then have e2: "encodes q2 (put_task tid ?u c)" by simp
    have "?r = (store_err (sql_get_task q2 tid), q2)"
      using False got unfolding tm_update_task_def q2_def q1_def Let_def by (auto split: option.splits)
    then have "?r = (Inr (Some ?u), q2)" by (simp add: sql_get_task_encodes [OF e2] store_err_def)
    moreover have "?u = touch now ((set_fields title priority requires depends_on t)
         \<lparr>t_status := (if demote then Pending else t_status t)\<rparr>)" by (cases t) (simp add: set_fields_def t1_def)
    moreover have "cs_wf (put_task tid ?u c)"
      by (rule put_task_wf_same [OF wf t]) (simp_all add: set_fields_def t1_def)
    ultimately show ?thesis using e2 False unfolding demote_def
      by (intro exI [of _ "Inr (Some ?u)"] exI [of _ q2] exI [of _ "put_task tid ?u c"]) (simp only: simp_thms if_False not_False_eq_True de_Morgan_disj, blast)
  qed
qed

theorem update_task_exact_witness:
  "\<exists>q'. tm_update_task 30 ''t2'' (Some '' '') None None None core_demo_store = (Inl EmptyTitle, q')"
proof -
  obtain u where "get_task core_demo_state ''t2'' = Some u" using core_demo_tasks(2) by (auto split: option.splits)
  moreover have "strip '' '' = []" by code_simp
  ultimately show ?thesis
    using update_task_exact [OF core_demo_facts(1,2), of "''t2''" u 30 "Some '' ''" None None None] by auto
qed

section \<open>Scheduling in one call\<close>

text \<open>A promotion pass and a scheduling pass; the ids returned are those of all tasks that run on a
  node, the ones placed earlier included.\<close>

theorem auto_schedule_exact:
  assumes e: "encodes q c" and wf: "cs_wf c"
  shows "\<exists>r q'. let (promoted, c1) = trigger_pending_tasks now c; (asgs, c2) = schedule_pending_detailed now c1 in
    tm_auto_schedule now q = (Inr r, q') \<and> encodes q' c2 \<and> sr_promoted r = promoted \<and> sr_scheduled r = length asgs \<and>
    sr_task_ids_scheduled r = map t_id (filter (\<lambda>t. t_status t = Running \<and> truthy (t_assigned_to t)) (get_all_tasks c2))"
proof -
  obtain promoted c1 where tr: "trigger_pending_tasks now c = (promoted, c1)" by (cases "trigger_pending_tasks now c")
  obtain asgs c2 where sc: "schedule_pending_detailed now c1 = (asgs, c2)" by (cases "schedule_pending_detailed now c1")
  have wf1: "cs_wf c1" using trigger_pending_tasks_wf [OF wf, of now] tr by simp
  obtain q1 where q1: "sql_trigger_pending_tasks now q = (Inr promoted, q1)" "encodes q1 c1"
    using sql_trigger_pending_sim [OF e cs_wfD(2) [OF wf], of now] tr
    by (cases "sql_trigger_pending_tasks now q") (auto simp: sim_ok_def)
  obtain q2 where q2: "sql_schedule_pending_detailed now q1 = (Inr asgs, q2)" "encodes q2 c2"
    using sql_schedule_sim [OF q1(2) wf1, of now] sc
    by (cases "sql_schedule_pending_detailed now q1") (auto simp: sim_ok_def)
  show ?thesis
    using q1(1) q2 by (simp add: tr sc tm_auto_schedule_def sql_schedule_pending_def sql_get_all_tasks_encodes [OF q2(2)])
qed

section \<open>Statistics\<close>

text \<open>The statistics add up: the groupings by status and by priority both sum to the total, which is the
  number of tasks stored, and a status has as many as there are tasks with it.\<close>

theorem stats_add_up:
  assumes e: "encodes q c"
  shows "\<exists>st q'. tm_get_stats now q = (Inr st, q') \<and> st_total st = int (length (get_all_tasks c)) \<and>
    sum_list (map snd (st_by_status st)) = st_total st \<and> sum_list (map snd (st_by_priority st)) = st_total st \<and>
    (\<forall>s. dict_get_or (st_by_status st) (task_status_value s) 0 =
       int (length (filter (\<lambda>t. t_status t = s) (get_all_tasks c))))"
proof -
  obtain ls q1 where "sql_get_active_leases now q = (ls, q1)" by (cases "sql_get_active_leases now q")
  then show ?thesis
    by (simp add: tm_get_stats_def sql_get_all_tasks_encodes [OF e] Let_def task_counts_total [OF e] tally_sum
        tally_get comp_def task_status_value_inj del: task_status_value.simps)
qed

section \<open>Where the methods differ from their descriptions\<close>

text \<open>A manual placement starts the task on the node and creates no lease.\<close>

theorem manual_placement_unleased:
  assumes e: "encodes q c" and t: "get_task c tid = Some t" "t_status t \<in> {Ready, Pending}"
    and n: "get_node c nid = Some n" "n_status n = Online" "core_can_run t n"
  shows "\<exists>q' c' u. tm_schedule_task_to_node now tid nid q = (Inr True, q') \<and> encodes q' c' \<and>
    get_task c' tid = Some u \<and> t_status u = Running \<and> t_assigned_to u = Some nid \<and> cs_leases c' = cs_leases c"
proof -
  let ?u = "touch now (t\<lparr>t_status := Running, t_assigned_to := Some nid\<rparr>)"
  let ?q = "snd (update_task tid (\<lambda>_. True) (\<lambda>r. row_touch now ((row_status Running r)\<lparr>tr_assigned_to := Some nid\<rparr>)) q)"
  have enc: "encodes ?q (put_task tid ?u c)"
    by (rule update_row_encodes [OF e t(1)]) (simp_all add: row_of_def row_touch_def touch_def)
  have "sql_get_node q nid = Some n" using n(1) by (simp add: sql_get_node_def get_node_def encodesD [OF e])
  then have "tm_schedule_task_to_node now tid nid q = (Inr True, ?q)"
    using t n(2,3) by (auto simp: tm_schedule_task_to_node_def sql_get_task_encodes [OF e] core_can_run_def)
  with enc show ?thesis
    by (intro exI [of _ ?q] exI [of _ "put_task tid ?u c"] exI [of _ ?u]) simp
qed

text \<open>A cancelled task can be cancelled again, which makes it failed; its lease stays.\<close>

theorem cancelled_becomes_failed:
  assumes e: "encodes q c" and t: "get_task c tid = Some t" "t_status t \<notin> {Completed, Failed}"
  shows "\<exists>q' c'. tm_cancel_task now tid q = (Inr True, q') \<and> encodes q' c' \<and> cs_leases c' = cs_leases c \<and>
    get_task c' tid = Some (forced now Failed ''cancelled'' t)"
proof -
  have "tm_cancel_task now tid q = (Inr True, snd (sql_set_task_status now tid Failed ''cancelled'' q))"
    using t by (simp add: tm_cancel_task_def sql_get_task_encodes [OF e])
  with t force_status_encodes [OF e, of now tid Failed "''cancelled''"] show ?thesis
    by (intro exI [of _ "snd (sql_set_task_status now tid Failed ''cancelled'' q)"]
        exI [of _ "force_status now tid Failed ''cancelled'' c"]) simp
qed

text \<open>A count for a status the counts of the store do not have is zero, whatever the table holds.\<close>

theorem count_tasks_blind:
  assumes "st \<notin> {''total'', ''ready'', ''running'', ''completed'', ''failed'', ''pending''}" "st \<noteq> []"
  shows "tm_count_tasks (Some st) q = 0"
proof -
  have step: "dict_get (add_group g d) st = None" if "dict_get d st = None" for g d
    using that assms by (auto simp: add_group_def Let_def)
  have "dict_get (fold add_group gs d) st = None" if "dict_get d st = None" for gs d
    using that by (induction gs arbitrary: d) (simp_all add: step)
  moreover have "dict_get sql_zero_counts st = None" using assms by (auto simp: sql_zero_counts_def)
  ultimately show ?thesis
    using assms by (simp add: tm_count_tasks_def truthy_def sql_task_counts_def dict_get_or_def)
qed

text \<open>A history limited to no entries is the whole history.\<close>

theorem history_zero_unlimited: "tm_get_schedule_history 0 q = q_decisions q"
  by (simp add: tm_get_schedule_history_def sql_get_decisions_def py_slice_def py_index_def Let_def)

end
