(* ===== verification/Spec2Isabelle.thy ===== *)
theory Spec2Isabelle
  imports TaskProps LeaseProps SchedProps RecoveryProps NodeProps SyncProps RouterProps IntakeProps AuthProps
    SqlProps CoreProps ManagerProps
begin

text \<open>
  \<^bold>\<open>A verification library for hermes-agent-cluster\<close>

  The program (Python package \<^verbatim>\<open>src/hermes_cluster\<close>) coordinates agent workers: a main node
  keeps a registry of nodes, a store of tasks with dependencies, leases that say which node owns a
  task, and a scheduler that places ready tasks. Workers join, send heartbeats and report results;
  a watchdog degrades silent nodes; a recovery pipeline takes tasks away from failed nodes; peers
  exchange state by delta messages and snapshots; a landing gate holds back tasks that would land an
  artifact no reviewer passed. Work comes in from GitLab: a poller and a webhook turn issues into
  tasks, or into one bundle per repository, under a policy that can be rewritten at run time; peers
  authenticate their requests with signatures.

  \<^bold>\<open>Theories and the code they model\<close>

  \<^item> \<open>Prelude\<close>: Python values. A \<open>dict\<close> is an association list in insertion order (locale
    \<open>ordered_dict\<close>, interpreted as \<open>pydict\<close>); time is an integer number of microseconds,
    a float is a rational; ids are drawn from a stream of tokens carried by the state.
  \<^item> \<open>Models\<close> (\<^verbatim>\<open>models/__init__.py\<close>): enumerations as datatypes, models as records.
  \<^item> \<open>Regex\<close>: an executable backtracking matcher for the patterns of the source, with soundness
    and completeness lemmas; \<open>LandingGate\<close> (\<^verbatim>\<open>core/landing_gate.py\<close>).
  \<^item> \<open>Health\<close> (\<^verbatim>\<open>core/disk_preflight.py, core/disk_gate.py, core/health_selfreport.py\<close>).
  \<^item> \<open>Scheduler\<close> (\<^verbatim>\<open>core/scheduler.py, core/lane_affinity.py\<close>): the planner; what a store
    may rely on is the locale \<open>placement_policy\<close>, interpreted as \<open>affinity\<close>.
  \<^item> \<open>ClusterState\<close>, \<open>TaskStore\<close>, \<open>ClusterOps\<close> (\<^verbatim>\<open>state/__init__.py\<close>): the state as
    the record \<open>cluster_state\<close> and one definition per method. \<open>ClusterInv\<close>: the invariant
    \<open>cs_wf\<close> (dictionaries keyed by the ids of their objects, lease index sound, retry cap, bounded
    logs) and that every operation keeps it. \<open>ClusterSteps\<close>: the step relations \<open>cs_step\<close> and
    \<open>op_step\<close> over all mutating operations, and the locale \<open>monotone_store\<close> (what is stored only
    moves forward), interpreted for tasks, leases and nodes.
  \<^item> \<open>LeaseTable\<close>: the locale \<open>lease_store\<close>, the contract of the lease table, interpreted as
    \<open>lt\<close>; \<open>LeaseManager\<close> (\<^verbatim>\<open>lease/lease_manager.py\<close>) is its client.
  \<^item> \<open>Scheduling\<close>: the scheduling pass, by one loop rule; \<open>Promotion\<close>: the promotion pass as
    a parallel step.
  \<^item> \<open>Recovery\<close> (\<^verbatim>\<open>recovery/*.py\<close>), \<open>Watchdog\<close> (\<^verbatim>\<open>core/watchdog.py\<close>, against the
    locale \<open>watchdog_registry\<close>), \<open>NodeManager\<close> (\<^verbatim>\<open>core/node_manager.py\<close>, which provides
    that registry), \<open>Sync\<close> (\<^verbatim>\<open>sync/__init__.py\<close>).
  \<^item> \<open>Ballot\<close> (\<^verbatim>\<open>core/ballot.py, core/ballot_wiring.py\<close>), \<open>ReviewerGate\<close>
    (\<^verbatim>\<open>core/reviewer_gate.py, core/deliverable_guard.py\<close>) and \<open>TaskRouter\<close>
    (\<^verbatim>\<open>routers/tasks.py\<close>): the task endpoints, each a function of the request, the lease manager
    and the store, a refusal being the left of a sum. \<open>RouterInv\<close>: the step relation
    \<open>router_step\<close> that interleaves the endpoints with the store operations, a second client of
    \<open>monotone_store\<close>; \<open>RouterFacts\<close>: what each endpoint does to the store.
  \<^item> \<open>Grouping\<close> and \<open>Briefs\<close> (\<^verbatim>\<open>core/intake_grouping.py\<close>): the planner that packs issues into
    bundles, with its counting lemmas, and the texts it renders. \<open>IntakePolicy\<close>
    (\<^verbatim>\<open>core/intake_policy.py\<close>) and \<open>Intake\<close>, \<open>PolicyWrite\<close> (\<^verbatim>\<open>routers/intake.py\<close>): the cycle,
    the poller, the webhook, the write endpoint. GitLab is the record of functions \<open>gitlab\<close>; the pages
    a query may walk (20, and 5 for merge requests) are the bounds of the source. \<open>IntakeFacts\<close>: what
    a cycle does to the store.
  \<^item> \<open>PeerAuth\<close> (\<^verbatim>\<open>core/peer_auth.py, auth_middleware.py\<close>): signing, verifying, the middleware;
    the digests are parameters.
  \<^item> \<open>SqlStore\<close>, \<open>SqlTasks\<close>, \<open>SqlOps\<close> (\<^verbatim>\<open>state/cluster_store.py\<close>): the persistent store as tables
    of rows, and one definition per method made of the statements it executes; exceptions and the
    rollback of a transaction are part of the result. \<open>SqlSchema\<close>: opening a database file, its
    tables, indexes and migration, and when it is refused. \<open>SqlRefine\<close>,
    \<open>SqlSim\<close>, \<open>SqlPasses\<close>: the relation \<open>encodes\<close> to the in-memory state and, operation by
    operation, when the two stores agree; the locale \<open>forward_simulation\<close>, interpreted as
    \<open>sqlsim\<close>, lifts this to runs.
  \<^item> \<open>ClusterCore\<close> (\<^verbatim>\<open>core/cluster_core.py, core/recovery.py\<close>): the orchestration class on the
    persistent store with its callbacks, lifecycle, workflow resolver and recovery subsystem. The
    resolver's cascade appends to the list it walks: its bound is twice the number of rows, and
    \<open>CoreFacts\<close> shows that the tasks promoted before are all the turns there are, since a task that
    has just become ready promotes nothing. \<open>CoreRecovery\<close>: the passes over several rows, and the
    adapter as a second provider of \<open>watchdog_registry\<close> (\<open>core_registry\<close>).
  \<^item> \<open>TaskManager\<close> (\<^verbatim>\<open>task_manager.py\<close>): the manager that writes to the tables of the persistent
    store directly; \<open>ManagerFacts\<close>: its filters as one predicate, its sorts as stable orders, its
    deletions and updates on the in-memory state.
  \<^item> \<open>Demo\<close>, \<open>SqlDemo\<close>: small concrete states. \<open>TaskProps\<close>, \<open>LeaseProps\<close>, \<open>SchedProps\<close>,
    \<open>RecoveryProps\<close>, \<open>NodeProps\<close>, \<open>SyncProps\<close>, \<open>RouterProps\<close>,
    \<open>IntakeProps\<close>, \<open>AuthProps\<close>, \<open>SqlProps\<close>, \<open>CoreProps\<close>,
    \<open>ManagerProps\<close>: the properties, each with an instance on a
    concrete state where it has hypotheses.

  \<^bold>\<open>State and operations\<close>

  A method of a class with state is a function from its arguments, the clock reading \<open>now\<close> and the
  state to the returned value and the new state. A returned \<open>bool\<close> stays one; an exception is the
  left of a sum (\<open>join_node\<close>, \<open>lm_create\<close>). A loop over a list is structural recursion, so every
  operation is total; \<open>get_trigger_chain\<close> takes the depth the source passes (10) as its fuel, which
  is also its meaning there. Background threads are the repetition of one turn (\<open>scan_once\<close>,
  \<open>detector_step\<close>, \<open>watchdog_check\<close>, \<open>sync_turn\<close>, \<open>sender_turn\<close>).

  \<^bold>\<open>What is shown\<close>

  \<^item> Tasks: terminal statuses are final over every run, the retry cap, when a requeue or an unassign
    is accepted and what it does, what a promotion pass does to every task, the trigger chain, counts.
  \<^item> Leases: lookup finds a lease exactly when there is an active one, the expiry pass is exact and
    idempotent, a lease is never revived, creation and renewal, callbacks once per expiry.
  \<^item> Scheduling: placements are sound and leased, ceilings hold, one sitting per lane, work
    conservation, order, and what is left alone; optimality of the fair choice.
  \<^item> Recovery: a recovered node owns nothing and its tasks are finished or owned again.
  \<^item> Nodes: watchdog classification, duplicate-executor gate, heartbeats, drain.
  \<^item> Synchronisation: the order of writes, replay, snapshots forward and round trip; landing only on
    a pass at the named commit.
  \<^item> Task endpoints: terminality over every sequence of requests, exclusive claims, the two-phase
    cancel protocol, the cascade of a failure, the verdict gate on completions, what an accepted
    submission has been checked for, the life of a ballot, and what counts as an echoed brief.
  \<^item> Intake: what a bundle contains and that the backlog drains, that a cycle never gives an issue to
    two tasks under way, that a poll needs an allowed host.
  \<^item> Authentication: signed requests are accepted exactly within the window, a signature is good for
    one request up to collisions of the HMAC, who may write the policy, what is then stored and what
    crashes the handler, the rate limit over every run.
  \<^item> Persistence: the SQLite store simulates the in-memory one wherever the two are meant to agree,
    its views are the in-memory views; a file that brings the columns of the first schema opens and
    then has every column the store writes.
  \<^item> The cluster core: completing a task terminates and settles exactly its dependents, failing one
    blocks exactly its dependents, recovering a node revokes exactly its leases.
  \<^item> The task manager: queries are pages of one sorted list, creation, updates and deletions change
    exactly what they are for, the statistics add up.
  \<^item> Several theorems state behaviour the documentation does not intend: the self-deadlock of
    \<open>LeaseManager.extend\<close>, queued sync events that share a version, the doubled counter, dependencies
    lost by snapshots, the capability cache, a departed node that comes back online, a reviewer
    role in another case that escapes deduplication, a flag of the provider test without effect, a
    blocked bundle that loses its issues, a blocker that is not checked again, projects that share a
    lane, a limit that stalls the intake, a hand-off title that is always refused, a stored host
    list that widens the allowed hosts, policy writes that crash without an audit entry, a lander in
    the lane of its reviewer, and on the SQLite store a sync message that stops the
    scheduler, files refused before they are migrated, finished tasks that can be revived, a refused requeue that takes the lease, and a
    colliding creation that releases a held task; in the core a recovery that leaves tasks with the
    node that failed, blocked tasks that never wake up, a reschedule that keeps the node, and a
    callback that stops before it schedules; in the task manager a failed call that leaves its task
    behind, placements without a lease, and counts that miss statuses.

  \<^bold>\<open>Not modelled\<close>

  Locks (each operation is one atomic step), the PostgreSQL store
  \<^verbatim>\<open>state/postgres_store.py\<close>, the HTTP routers other than those of tasks and intake, the agent
  executor (processes, git, files), seeding the intake policy from a file, metering and cost reports,
  release polling, webhook delivery. NaN and infinite floats, non-ASCII case folding and non-ASCII
  digits are outside the model of values; of a validation error the first is modelled, not the list.

  \<^bold>\<open>Plan\<close>

  Metering and the cost reports; the PostgreSQL store.
\<close>

end
